(* ===== verification/Js_Prelude.thy ===== *)
theory Js_Prelude
  imports Complex_Main "HOL-Library.Multiset" "HOL-Library.Char_ord" "HOL-Library.List_Lexorder" "HOL-Library.Code_Target_Nat"
begin

text \<open>
  The JavaScript values and operators the modelled modules use, the result type of code
  that may throw, the string tests that stand for the code's regular expressions, and
  the generic lemmas and automation the component theories share.

  Values. \<^verbatim>\<open>Num n\<close> is an integer-valued number; \<^verbatim>\<open>Real x t\<close> is every other
  number, with its numeric value \<^verbatim>\<open>x\<close> and the text \<^verbatim>\<open>t\<close> that String and
  JSON.stringify print for it (Number::toString); the value of a finite one is the rational
  its text denotes, which orders doubles as the machine does.  \<^verbatim>\<open>Obj kvs\<close> lists an object's
  own properties in the order Object.keys gives.  \<^verbatim>\<open>Opaque t\<close> is a value that is neither
  JSON nor an object (a function, a symbol, a bigint), with its String text.  Instances of classes (a Date, a Map)
  are not values of this type: what the modelled functions are given comes from JSON.parse, from the stores and from the
  object literals of the code.
  Strings are lists of code units below 256.
\<close>

section \<open>Values\<close>

datatype jnum = Fin rat | PosInf | NegInf | NotANumber

datatype jsval =
    Undef
  | Null
  | Bool bool
  | Num int
  | Real jnum string
  | Str string
  | Arr "jsval list"
  | Obj "(string \<times> jsval) list"
  | Opaque string

section \<open>Thrown errors and results\<close>

text \<open>
  \<^verbatim>\<open>PriorSealError c\<close> is the repository's own error class with its code;
  \<^verbatim>\<open>CodedError c\<close> is another Error given a \<^verbatim>\<open>code\<close> property; the others carry
  no code.  Messages are not modelled.
\<close>

datatype jerr =
    PriorSealError string
  | CodedError string
  | TypeErr
  | RangeErr
  | SyntaxErr
  | PlainErr string

type_synonym 'a result = "jerr + 'a"

text \<open>Sequencing: the rest of the code runs only when the first part returned.\<close>

definition letE :: "'a result \<Rightarrow> ('a \<Rightarrow> 'b result) \<Rightarrow> 'b result" where
  "letE m k = (case m of Inl e \<Rightarrow> Inl e | Inr x \<Rightarrow> k x)"

lemma letE_simps [simp]:
  "letE (Inl e) k = Inl e"
  "letE (Inr x) k = k x"
  by (simp_all add: letE_def)

text \<open>For evaluation: a rest of the code that is not reached is not evaluated either.\<close>

lemma letE_case [code_unfold]: "letE m k = (case m of Inl e \<Rightarrow> Inl e | Inr x \<Rightarrow> k x)"
  by (rule letE_def)

lemma conj_if [code_unfold]: "(a \<and> b) = (if a then b else False)"
  by simp

lemma disj_if [code_unfold]: "(a \<or> b) = (if a then True else b)"
  by simp

lemma letE_eq_Inr: "letE m k = Inr y \<longleftrightarrow> (\<exists>x. m = Inr x \<and> k x = Inr y)"
  by (auto simp: letE_def split: sum.splits)

lemma letE_eq_Inl: "letE m k = Inl e \<longleftrightarrow> m = Inl e \<or> (\<exists>x. m = Inr x \<and> k x = Inl e)"
  by (auto simp: letE_def split: sum.splits)

lemma letE_cong [fundef_cong]:
  "m = m' \<Longrightarrow> (\<And>x. m' = Inr x \<Longrightarrow> k x = k' x) \<Longrightarrow> letE m k = letE m' k'"
  by (cases m') simp_all

lemma if_Inl_eq_Inr: "(if b then Inl e else m) = Inr y \<longleftrightarrow> \<not> b \<and> m = Inr y"
  by simp

named_theorems result_simps "inverting a computation that returned"

declare letE_eq_Inr [result_simps] if_Inl_eq_Inr [result_simps]

text \<open>
  Inverting a chain of guards and sequencing that returned, one step at a time and without
  simplifying the parts: the collection \<^verbatim>\<open>result_elims\<close>, for \<^verbatim>\<open>elim\<close>.
\<close>

named_theorems result_elims "inverting a computation that returned, step by step"

lemma letE_InrE [result_elims]: "letE m k = Inr y \<Longrightarrow> (\<And>x. m = Inr x \<Longrightarrow> k x = Inr y \<Longrightarrow> P) \<Longrightarrow> P"
  by (auto simp: letE_eq_Inr)

lemma guard_InrE [result_elims]: "(if b then Inl e else m) = Inr y \<Longrightarrow> (\<not> b \<Longrightarrow> m = Inr y \<Longrightarrow> P) \<Longrightarrow> P"
  by (auto split: if_splits)

lemma guard_TrueE [result_elims]: "(if b then False else c) \<Longrightarrow> (\<not> b \<Longrightarrow> c \<Longrightarrow> P) \<Longrightarrow> P"
  by (auto split: if_splits)

lemma option_InrE [result_elims]:
  "(case x of None \<Rightarrow> Inl e | Some z \<Rightarrow> k z) = Inr y \<Longrightarrow> (\<And>z. x = Some z \<Longrightarrow> k z = Inr y \<Longrightarrow> P) \<Longrightarrow> P"
  by (auto split: option.splits)

lemma Inr_InrE [result_elims]: "Inr x = (Inr y :: 'a result) \<Longrightarrow> (y = x \<Longrightarrow> P) \<Longrightarrow> P"
  by auto

text \<open>\<^verbatim>\<open>xs.map(f)\<close> where \<^verbatim>\<open>f\<close> may throw.\<close>

fun mapE :: "('a \<Rightarrow> 'b result) \<Rightarrow> 'a list \<Rightarrow> 'b list result" where
  "mapE f [] = Inr []"
| "mapE f (x # xs) = letE (f x) (\<lambda>y. letE (mapE f xs) (\<lambda>ys. Inr (y # ys)))"

lemma mapE_cong [fundef_cong]:
  "xs = ys \<Longrightarrow> (\<And>x. x \<in> set ys \<Longrightarrow> f x = g x) \<Longrightarrow> mapE f xs = mapE g ys"
proof (induction ys arbitrary: xs)
  case (Cons y ys)
  then show ?case by (simp cong: letE_cong)
qed simp

lemma mapE_Inr_iff: "mapE f xs = Inr ys \<longleftrightarrow> list_all2 (\<lambda>x y. f x = Inr y) xs ys"
  by (induction xs arbitrary: ys) (auto simp: letE_eq_Inr list_all2_Cons1)

lemma mapE_Inr_length: "mapE f xs = Inr ys \<Longrightarrow> length ys = length xs"
  by (auto simp: mapE_Inr_iff dest: list_all2_lengthD)

lemma mapE_total: "(\<And>x. x \<in> set xs \<Longrightarrow> \<exists>y. f x = Inr y) \<Longrightarrow> \<exists>ys. mapE f xs = Inr ys"
  by (induction xs) force+

lemma mapE_all_Inr: "(\<And>x. x \<in> set xs \<Longrightarrow> f x = Inr (g x)) \<Longrightarrow> mapE f xs = Inr (map g xs)"
  by (induction xs) auto

lemma mapE_Inr_mem: "mapE f xs = Inr ys \<Longrightarrow> y \<in> set ys \<Longrightarrow> \<exists>x\<in>set xs. f x = Inr y"
  by (induction xs arbitrary: ys) (auto simp: letE_eq_Inr)

lemma mapE_fixed: "(\<And>x. x \<in> set xs \<Longrightarrow> f x = Inr x) \<Longrightarrow> mapE f xs = Inr xs"
  using mapE_all_Inr [of xs f "\<lambda>x. x"] by simp

lemma mapE_idem:
  "mapE f xs = Inr ys \<Longrightarrow> (\<And>x y. f x = Inr y \<Longrightarrow> f y = Inr y) \<Longrightarrow> mapE f ys = Inr ys"
  by (rule mapE_fixed) (blast dest: mapE_Inr_mem)

text \<open>A loop that only checks: the first throw ends it.\<close>

fun forE :: "('a \<Rightarrow> unit result) \<Rightarrow> 'a list \<Rightarrow> unit result" where
  "forE f [] = Inr ()"
| "forE f (x # xs) = letE (f x) (\<lambda>_. forE f xs)"

lemma forE_cong [fundef_cong]:
  "xs = ys \<Longrightarrow> (\<And>x. x \<in> set ys \<Longrightarrow> f x = g x) \<Longrightarrow> forE f xs = forE g ys"
proof (induction ys arbitrary: xs)
  case (Cons y ys)
  then show ?case by (simp cong: letE_cong)
qed simp

lemma forE_Inr_iff: "forE f xs = Inr u \<longleftrightarrow> (\<forall>x\<in>set xs. f x = Inr ())"
  by (induction xs) (auto simp: letE_eq_Inr)

text \<open>\<^verbatim>\<open>errorCode(error)\<close>, the string \<^verbatim>\<open>code\<close> of a thrown error, if it has one.\<close>

definition errorCode :: "jerr \<Rightarrow> string option" where
  "errorCode e = (case e of PriorSealError c \<Rightarrow> Some c | CodedError c \<Rightarrow> Some c | _ \<Rightarrow> None)"

section \<open>Operators\<close>

text \<open>Truthiness, \<^verbatim>\<open>??\<close>, property access and typeof tests.\<close>

definition truthy :: "jsval \<Rightarrow> bool" where
  "truthy v = (case v of
      Undef \<Rightarrow> False | Null \<Rightarrow> False | Bool b \<Rightarrow> b | Num n \<Rightarrow> n \<noteq> 0
    | Real x t \<Rightarrow> x \<noteq> NotANumber | Str s \<Rightarrow> s \<noteq> [] | _ \<Rightarrow> True)"

definition nullish :: "jsval \<Rightarrow> bool" where
  "nullish v = (v = Undef \<or> v = Null)"

text \<open>\<^verbatim>\<open>v ?? d\<close>.\<close>

definition orElse :: "jsval \<Rightarrow> jsval \<Rightarrow> jsval" where
  "orElse v d = (if nullish v then d else v)"

text \<open>\<^verbatim>\<open>v?.k\<close>; for an object also \<^verbatim>\<open>v.k\<close>.  A missing property is undefined.\<close>

definition fld :: "jsval \<Rightarrow> string \<Rightarrow> jsval" where
  "fld v k = (case v of Obj kvs \<Rightarrow> (case map_of kvs k of Some x \<Rightarrow> x | None \<Rightarrow> Undef) | _ \<Rightarrow> Undef)"

text \<open>\<^verbatim>\<open>v.k\<close> where \<^verbatim>\<open>v\<close> may be null or undefined: then it throws.\<close>

definition getE :: "jsval \<Rightarrow> string \<Rightarrow> jsval result" where
  "getE v k = (if nullish v then Inl TypeErr else Inr (fld v k))"

definition is_str :: "jsval \<Rightarrow> bool" where
  "is_str v = (case v of Str s \<Rightarrow> True | _ \<Rightarrow> False)"

definition is_number :: "jsval \<Rightarrow> bool" where
  "is_number v = (case v of Num n \<Rightarrow> True | Real x t \<Rightarrow> True | _ \<Rightarrow> False)"

definition is_bool :: "jsval \<Rightarrow> bool" where
  "is_bool v = (case v of Bool b \<Rightarrow> True | _ \<Rightarrow> False)"

definition is_arr :: "jsval \<Rightarrow> bool" where
  "is_arr v = (case v of Arr xs \<Rightarrow> True | _ \<Rightarrow> False)"

text \<open>\<^verbatim>\<open>value !== null && typeof value === "object" && !Array.isArray(value)\<close>.\<close>

definition is_obj :: "jsval \<Rightarrow> bool" where
  "is_obj v = (case v of Obj kvs \<Rightarrow> True | _ \<Rightarrow> False)"

definition elems :: "jsval \<Rightarrow> jsval list" where
  "elems v = (case v of Arr xs \<Rightarrow> xs | _ \<Rightarrow> [])"

definition str_of :: "jsval \<Rightarrow> string" where
  "str_of v = (case v of Str s \<Rightarrow> s | _ \<Rightarrow> [])"

definition int_of :: "jsval \<Rightarrow> int" where
  "int_of v = (case v of Num n \<Rightarrow> n | _ \<Rightarrow> 0)"

lemmas js_kind_defs = is_str_def is_number_def is_bool_def is_arr_def is_obj_def

lemma js_kind_simps [simp]:
  "is_str (Str s)" "is_number (Num n)" "is_bool (Bool b)" "is_arr (Arr xs)" "is_obj (Obj kvs)"
  "\<not> is_str Undef" "\<not> is_str Null" "\<not> is_str (Num n)" "\<not> is_str (Obj kvs)" "\<not> is_str (Arr xs)"
  "\<not> is_obj Undef" "\<not> is_obj Null" "\<not> is_obj (Str s)" "\<not> is_obj (Num n)" "\<not> is_obj (Arr xs)"
  "\<not> is_arr Undef" "\<not> is_arr Null" "\<not> is_arr (Str s)" "\<not> is_arr (Num n)" "\<not> is_arr (Obj kvs)"
  "\<not> is_number Undef" "\<not> is_number Null" "\<not> is_number (Str s)" "\<not> is_number (Obj kvs)"
  "\<not> is_number (Bool b)" "\<not> is_number (Arr xs)" "\<not> is_number (Opaque s)" "is_number (Real x t)"
  "\<not> is_str (Bool b)" "\<not> is_str (Real x t)" "\<not> is_str (Opaque s)"
  "\<not> is_obj (Bool b)" "\<not> is_obj (Real x t)" "\<not> is_obj (Opaque s)"
  "\<not> is_arr (Bool b)" "\<not> is_arr (Real x t)" "\<not> is_arr (Opaque s)"
  "elems (Arr xs) = xs" "str_of (Str s) = s" "int_of (Num n) = n"
  by (simp_all add: js_kind_defs elems_def str_of_def int_of_def)

lemma is_strE: "is_str v \<Longrightarrow> (\<And>s. v = Str s \<Longrightarrow> P) \<Longrightarrow> P"
  by (cases v) (auto simp: is_str_def)

lemma is_objE: "is_obj v \<Longrightarrow> (\<And>kvs. v = Obj kvs \<Longrightarrow> P) \<Longrightarrow> P"
  by (cases v) (auto simp: is_obj_def)

lemma is_arrE: "is_arr v \<Longrightarrow> (\<And>xs. v = Arr xs \<Longrightarrow> P) \<Longrightarrow> P"
  by (cases v) (auto simp: is_arr_def)

lemma nullish_simps [simp]:
  "nullish Undef" "nullish Null" "\<not> nullish (Str s)" "\<not> nullish (Num n)" "\<not> nullish (Obj kvs)"
  "\<not> nullish (Arr xs)" "\<not> nullish (Bool b)"
  by (simp_all add: nullish_def)

lemma truthy_simps [simp]:
  "\<not> truthy Undef" "\<not> truthy Null" "truthy (Bool b) = b" "truthy (Num n) = (n \<noteq> 0)"
  "truthy (Str s) = (s \<noteq> [])" "truthy (Obj kvs)" "truthy (Arr xs)"
  by (simp_all add: truthy_def)

lemma orElse_simps [simp]:
  "orElse Undef d = d" "orElse Null d = d" "orElse (Str s) d = Str s" "orElse (Num n) d = Num n"
  "orElse (Obj kvs) d = Obj kvs" "orElse (Arr xs) d = Arr xs" "orElse (Bool b) d = Bool b"
  by (simp_all add: orElse_def)

lemma fld_simps [simp]:
  "fld Undef k = Undef" "fld Null k = Undef" "fld (Obj []) k = Undef"
  "fld (Obj ((k', v) # kvs)) k = (if k = k' then v else fld (Obj kvs) k)"
  by (simp_all add: fld_def)

lemma fld_append:
  "fld (Obj (xs @ ys)) k = (if k \<in> fst ` set xs then fld (Obj xs) k else fld (Obj ys) k)"
proof (cases "map_of xs k")
  case None
  then have "k \<notin> fst ` set xs" by (simp add: map_of_eq_None_iff)
  with None show ?thesis by (simp add: fld_def map_add_def)
next
  case (Some v)
  then have "k \<in> fst ` set xs" by (metis domI dom_map_of_conv_image_fst)
  with Some show ?thesis by (simp add: fld_def map_add_def)
qed

lemma fld_skip: "fst ` set xs \<subseteq> K \<Longrightarrow> k \<notin> K \<Longrightarrow> fld (Obj (xs @ ys)) k = fld (Obj ys) k"
  by (auto simp: fld_append)

lemma fld_Obj_append1: "k \<notin> fst ` set xs \<Longrightarrow> fld (Obj (xs @ [(k', v)])) k = (if k = k' then v else Undef)"
  by (simp add: fld_append)

text \<open>
  \<^verbatim>\<open>a === b\<close>.  Two objects are equal only when they are the same object; the values
  compared here come from separate parses or constructions, so two objects are distinct.
\<close>

fun js_eq :: "jsval \<Rightarrow> jsval \<Rightarrow> bool" where
  "js_eq (Arr xs) b = False"
| "js_eq (Obj kvs) b = False"
| "js_eq (Opaque s) b = False"
| "js_eq (Real x t) (Real y u) = (x = y \<and> x \<noteq> NotANumber)"
| "js_eq a b = (a = b)"

lemma js_eq_simps [simp]:
  "js_eq (Str s) b = (b = Str s)" "js_eq a (Str s) = (a = Str s)"
  "js_eq (Num n) b = (b = Num n)" "js_eq a (Num n) = (a = Num n)"
  "js_eq Null b = (b = Null)" "js_eq a Null = (a = Null)"
  "js_eq Undef b = (b = Undef)" "js_eq a Undef = (a = Undef)"
  by (cases a; cases b; auto)+

text \<open>\<^verbatim>\<open>...obj\<close> in an object literal: the own properties of \<^verbatim>\<open>obj\<close>.\<close>

definition props :: "jsval \<Rightarrow> (string \<times> jsval) list" where
  "props v = (case v of Obj kvs \<Rightarrow> kvs | _ \<Rightarrow> [])"

lemma props_Obj [simp]: "props (Obj kvs) = kvs"
  by (simp add: props_def)

text \<open>Setting a property: an existing one keeps its place, a new one goes last.\<close>

fun set_field :: "string \<Rightarrow> jsval \<Rightarrow> (string \<times> jsval) list \<Rightarrow> (string \<times> jsval) list" where
  "set_field k v [] = [(k, v)]"
| "set_field k v ((k', w) # kvs) = (if k = k' then (k, v) # kvs else (k', w) # set_field k v kvs)"

definition with_field :: "jsval \<Rightarrow> string \<Rightarrow> jsval \<Rightarrow> jsval" where
  "with_field obj k v = (case obj of Obj kvs \<Rightarrow> Obj (set_field k v kvs) | _ \<Rightarrow> obj)"

text \<open>\<^verbatim>\<open>const {k, ...rest} = obj\<close>.\<close>

definition without_field :: "jsval \<Rightarrow> string \<Rightarrow> jsval" where
  "without_field obj k = (case obj of Obj kvs \<Rightarrow> Obj (filter (\<lambda>kv. fst kv \<noteq> k) kvs) | _ \<Rightarrow> Obj [])"

text \<open>\<^verbatim>\<open>...(c ? { k: v } : {})\<close> in an object literal.\<close>

definition spread_if :: "bool \<Rightarrow> (string \<times> jsval) list \<Rightarrow> (string \<times> jsval) list" where
  "spread_if c kvs = (if c then kvs else [])"

text \<open>\<^verbatim>\<open>...(c ? { k: e } : {})\<close> where \<^verbatim>\<open>e\<close> may throw.\<close>

definition opt_field :: "bool \<Rightarrow> string \<Rightarrow> jsval result \<Rightarrow> (string \<times> jsval) list result" where
  "opt_field c k e = (if c then letE e (\<lambda>v. Inr [(k, v)]) else Inr [])"

lemma opt_field_simps [simp]:
  "opt_field False k e = Inr []" "opt_field True k (Inr v) = Inr [(k, v)]" "opt_field True k (Inl x) = Inl x"
  by (simp_all add: opt_field_def)

lemma opt_field_InrE:
  "opt_field c k e = Inr kvs \<Longrightarrow> (\<not> c \<Longrightarrow> kvs = [] \<Longrightarrow> P) \<Longrightarrow> (\<And>v. c \<Longrightarrow> e = Inr v \<Longrightarrow> kvs = [(k, v)] \<Longrightarrow> P) \<Longrightarrow> P"
  by (auto simp: opt_field_def letE_eq_Inr split: if_splits)

lemma opt_field_skip:
  "opt_field c k e = Inr kvs \<Longrightarrow> k' \<noteq> k \<Longrightarrow> fld (Obj (kvs @ ys)) k' = fld (Obj ys) k'"
  by (auto elim!: opt_field_InrE)

lemma opt_field_found:
  "opt_field c k e = Inr kvs \<Longrightarrow> c \<Longrightarrow> e = Inr (fld (Obj (kvs @ ys)) k)"
  by (auto elim!: opt_field_InrE)

lemma spread_if_simps [simp]: "spread_if True kvs = kvs" "spread_if False kvs = []"
  by (simp_all add: spread_if_def)

lemma set_spread_if: "set (spread_if c kvs) = (if c then set kvs else {})"
  by (simp add: spread_if_def)

lemma fld_spread_if:
  "fld (Obj (spread_if c [(k, v)] @ ys)) k' = (if c \<and> k' = k then v else fld (Obj ys) k')"
  by (simp add: spread_if_def)

lemma fld_set_field: "fld (Obj (set_field k v kvs)) k' = (if k' = k then v else fld (Obj kvs) k')"
  by (induction k v kvs rule: set_field.induct) auto

lemma fld_with_field: "fld (with_field (Obj kvs) k v) k' = (if k' = k then v else fld (Obj kvs) k')"
  by (simp add: with_field_def fld_set_field)

lemma fld_without_field:
  "fld (without_field (Obj kvs) k) k' = (if k' = k then Undef else fld (Obj kvs) k')"
  by (induction kvs) (auto simp: without_field_def)

section \<open>Lists of codes\<close>

text \<open>\<^verbatim>\<open>[...new Set(xs)]\<close>: first occurrences, in order.\<close>

definition dedupe :: "'a list \<Rightarrow> 'a list" where
  "dedupe xs = rev (remdups (rev xs))"

lemma set_dedupe [simp]: "set (dedupe xs) = set xs"
  by (simp add: dedupe_def)

lemma dedupe_Nil_iff [simp]: "dedupe xs = [] \<longleftrightarrow> xs = []"
  by (simp add: dedupe_def)

text \<open>\<^verbatim>\<open>if (c) reasons.push(code)\<close>.\<close>

definition reason_if :: "bool \<Rightarrow> string \<Rightarrow> string list" where
  "reason_if c code = (if c then [code] else [])"

lemma reason_if_Nil [simp]: "reason_if c code = [] \<longleftrightarrow> \<not> c"
  by (simp add: reason_if_def)

lemma set_reason_if: "set (reason_if c code) = (if c then {code} else {})"
  by (simp add: reason_if_def)

text \<open>An array of strings.\<close>

definition str_arr :: "string list \<Rightarrow> jsval" where
  "str_arr ss = Arr (map Str ss)"

lemma elems_str_arr [simp]: "elems (str_arr ss) = map Str ss"
  by (simp add: str_arr_def)

end
