(* ===== verification/Js_Text.thy ===== *)
theory Js_Text
  imports Js_Prelude
begin

text \<open>
  JavaScript's text and number conversions, as the modelled modules use them: String,
  Number, BigInt, toLowerCase, trim, relational comparison, and the character classes and
  lengths the code's regular expressions test.  Decimal literals are read exactly; the
  rounding of a literal with more digits than a double holds is not modelled.
\<close>

section \<open>Decimal text of integers\<close>

definition digit_char :: "nat \<Rightarrow> char" where
  "digit_char d = char_of (48 + d)"

definition digit_val :: "char \<Rightarrow> nat" where
  "digit_val c = of_char c - 48"

fun nat_text :: "nat \<Rightarrow> string" where
  "nat_text n = (if n < 10 then [digit_char n] else nat_text (n div 10) @ [digit_char (n mod 10)])"

declare nat_text.simps [simp del]

definition nat_value :: "string \<Rightarrow> nat" where
  "nat_value s = foldl (\<lambda>a c. 10 * a + digit_val c) 0 s"

definition int_text :: "int \<Rightarrow> string" where
  "int_text n = (if n < 0 then CHR ''-'' # nat_text (nat (- n)) else nat_text (nat n))"

definition is_digit :: "char \<Rightarrow> bool" where
  "is_digit c = (CHR ''0'' \<le> c \<and> c \<le> CHR ''9'')"

lemma is_digit_iff: "is_digit c \<longleftrightarrow> 48 \<le> (of_char c :: nat) \<and> (of_char c :: nat) \<le> 57"
  by (simp add: is_digit_def less_eq_char_def)

lemma of_digit_char: "d < 10 \<Longrightarrow> of_char (digit_char d) = (48 + d :: nat)"
  by (simp add: digit_char_def)

lemma is_digit_digit_char: "d < 10 \<Longrightarrow> is_digit (digit_char d)"
  by (simp add: is_digit_iff of_digit_char)

lemma digit_val_digit_char: "d < 10 \<Longrightarrow> digit_val (digit_char d) = d"
  by (simp add: digit_val_def of_digit_char)

lemma nat_text_digits: "\<forall>c\<in>set (nat_text n). is_digit c"
proof (induction n rule: nat_text.induct)
  case (1 n)
  show ?case
    using 1 by (subst nat_text.simps) (auto simp: is_digit_digit_char)
qed

lemma nat_text_nonempty [simp]: "nat_text n \<noteq> []"
  by (subst nat_text.simps) simp

lemma nat_value_snoc: "nat_value (s @ [c]) = 10 * nat_value s + digit_val c"
  by (simp add: nat_value_def)

lemma nat_value_nat_text [simp]: "nat_value (nat_text n) = n"
proof (induction n rule: nat_text.induct)
  case (1 n)
  show ?case
  proof (cases "n < 10")
    case True
    then show ?thesis
      by (subst nat_text.simps) (simp add: nat_value_def digit_val_digit_char)
  next
    case False
    with 1 show ?thesis
      by (subst nat_text.simps) (simp add: nat_value_snoc digit_val_digit_char)
  qed
qed

lemma nat_text_inj [simp]: "nat_text m = nat_text n \<longleftrightarrow> m = n"
  by (metis nat_value_nat_text)

lemma minus_not_digit: "\<not> is_digit (CHR ''-'')"
  by (simp add: is_digit_def)

lemma nat_text_no_minus: "nat_text n \<noteq> CHR ''-'' # s"
  using nat_text_digits [of n] minus_not_digit by (metis list.set_intros(1))

lemma int_text_inj [simp]: "int_text m = int_text n \<longleftrightarrow> m = n"
  using nat_text_no_minus nat_text_no_minus [symmetric] by (auto simp: int_text_def)

lemma int_text_nonempty [simp]: "int_text n \<noteq> []"
  by (simp add: int_text_def)

text \<open>No leading zero: the text of a natural number matches \<^verbatim>\<open>(0|[1-9][0-9]*)\<close>.\<close>

lemma nat_text_head: "0 < n \<Longrightarrow> hd (nat_text n) \<noteq> CHR ''0''"
proof (induction n rule: nat_text.induct)
  case (1 n)
  show ?case
  proof (cases "n < 10")
    case True
    with 1(2) have "of_char (digit_char n) \<noteq> (48 :: nat)"
      by (simp add: of_digit_char)
    then have "digit_char n \<noteq> CHR ''0''" by auto
    with True show ?thesis by (subst nat_text.simps) simp
  next
    case False
    with 1 show ?thesis by (subst nat_text.simps) (simp add: hd_append)
  qed
qed

section \<open>String\<close>

fun join :: "string \<Rightarrow> string list \<Rightarrow> string" where
  "join sep [] = []"
| "join sep [x] = x"
| "join sep (x # y # xs) = x @ sep @ join sep (y # xs)"

text \<open>\<^verbatim>\<open>String(value)\<close>; an array prints its elements with commas, null and undefined as nothing.\<close>

fun js_string :: "jsval \<Rightarrow> string" where
  "js_string Undef = ''undefined''"
| "js_string Null = ''null''"
| "js_string (Bool b) = (if b then ''true'' else ''false'')"
| "js_string (Num n) = int_text n"
| "js_string (Real x t) = t"
| "js_string (Str s) = s"
| "js_string (Arr xs) = join '','' (map (\<lambda>x. if nullish x then [] else js_string x) xs)"
| "js_string (Obj kvs) = ''[object Object]''"
| "js_string (Opaque t) = t"

definition lower_char :: "char \<Rightarrow> char" where
  "lower_char c = (let n = of_char c :: nat in
     if (65 \<le> n \<and> n \<le> 90) \<or> (192 \<le> n \<and> n \<le> 222 \<and> n \<noteq> 215) then char_of (n + 32) else c)"

definition lower :: "string \<Rightarrow> string" where
  "lower s = map lower_char s"

lemma lower_char_idem [simp]: "lower_char (lower_char c) = lower_char c"
  by (simp add: lower_char_def Let_def)

lemma lower_idem [simp]: "lower (lower s) = lower s"
  by (simp add: lower_def)

lemma lower_append: "lower (s @ t) = lower s @ lower t"
  by (simp add: lower_def)

lemma length_lower [simp]: "length (lower s) = length s"
  by (simp add: lower_def)

definition is_space :: "char \<Rightarrow> bool" where
  "is_space c = ((of_char c :: nat) \<in> {9, 10, 11, 12, 13, 32, 160})"

definition trim :: "string \<Rightarrow> string" where
  "trim s = rev (dropWhile is_space (rev (dropWhile is_space s)))"

definition starts_with :: "string \<Rightarrow> string \<Rightarrow> bool" where
  "starts_with p s = (take (length p) s = p)"

lemma starts_with_append [simp]: "starts_with p (p @ s)"
  by (simp add: starts_with_def)

section \<open>Number and BigInt\<close>

definition max_safe :: int where
  "max_safe = 9007199254740991"

definition radix_digit :: "nat \<Rightarrow> char \<Rightarrow> nat option" where
  "radix_digit b c = (let n = of_char c :: nat;
     d = (if 48 \<le> n \<and> n \<le> 57 then n - 48 else if 97 \<le> n \<and> n \<le> 122 then n - 87
          else if 65 \<le> n \<and> n \<le> 90 then n - 55 else 99)
     in if d < b then Some d else None)"

fun radix_value :: "nat \<Rightarrow> nat \<Rightarrow> string \<Rightarrow> nat option" where
  "radix_value b a [] = Some a"
| "radix_value b a (c # cs) =
     (case radix_digit b c of None \<Rightarrow> None | Some d \<Rightarrow> radix_value b (b * a + d) cs)"

definition radix_prefix :: "string \<Rightarrow> nat option" where
  "radix_prefix s = (
     if starts_with ''0x'' s \<or> starts_with ''0X'' s then Some 16
     else if starts_with ''0o'' s \<or> starts_with ''0O'' s then Some 8
     else if starts_with ''0b'' s \<or> starts_with ''0B'' s then Some 2 else None)"

text \<open>An optional exponent part; None where the text is not one.\<close>

definition read_exponent :: "string \<Rightarrow> int option" where
  "read_exponent s = (case s of
      [] \<Rightarrow> Some 0
    | c # r \<Rightarrow> if c \<noteq> CHR ''e'' \<and> c \<noteq> CHR ''E'' then None else
        (let neg = starts_with ''-'' r;
             ds = (if neg \<or> starts_with ''+'' r then tl r else r)
         in if ds = [] \<or> \<not> list_all is_digit ds then None
            else Some (if neg then - int (nat_value ds) else int (nat_value ds))))"

definition scale10 :: "rat \<Rightarrow> int \<Rightarrow> rat" where
  "scale10 q e = (if 0 \<le> e then q * 10 ^ nat e else q / 10 ^ nat (- e))"

text \<open>An unsigned decimal literal: digits, a fraction, an exponent.\<close>

definition read_decimal :: "string \<Rightarrow> rat option" where
  "read_decimal s = (
     let ip = takeWhile is_digit s; r = dropWhile is_digit s;
         dot = starts_with ''.'' r;
         fp = (if dot then takeWhile is_digit (tl r) else []);
         r2 = (if dot then dropWhile is_digit (tl r) else r)
     in if ip = [] \<and> fp = [] then None else
        (case read_exponent r2 of None \<Rightarrow> None
         | Some e \<Rightarrow> Some (scale10 (of_nat (nat_value (ip @ fp))) (e - int (length fp)))))"

definition overflow_bound :: rat where
  "overflow_bound = 2 ^ 1024 - 2 ^ 970"

text \<open>StringToNumber.\<close>

definition parse_number :: "string \<Rightarrow> jnum" where
  "parse_number str = (let s = trim str in
     if s = [] then Fin 0 else
     (case radix_prefix s of
        Some b \<Rightarrow> (if length s = 2 then NotANumber else
                   (case radix_value b 0 (drop 2 s) of Some n \<Rightarrow> Fin (of_nat n) | None \<Rightarrow> NotANumber))
      | None \<Rightarrow>
         (let neg = starts_with ''-'' s; u = (if neg \<or> starts_with ''+'' s then tl s else s)
          in if u = ''Infinity'' then (if neg then NegInf else PosInf) else
             (case read_decimal u of None \<Rightarrow> NotANumber
              | Some q \<Rightarrow> if overflow_bound \<le> q then (if neg then NegInf else PosInf)
                          else Fin (if neg then - q else q)))))"

definition to_num :: "jsval \<Rightarrow> jnum" where
  "to_num v = (case v of
      Undef \<Rightarrow> NotANumber | Null \<Rightarrow> Fin 0 | Bool b \<Rightarrow> Fin (if b then 1 else 0)
    | Num n \<Rightarrow> Fin (of_int n) | Real x t \<Rightarrow> x | Str s \<Rightarrow> parse_number s
    | _ \<Rightarrow> parse_number (js_string v))"

text \<open>The value of \<^verbatim>\<open>Number(v)\<close> where it is a safe integer.\<close>

definition safe_int :: "jnum \<Rightarrow> int option" where
  "safe_int x = (case x of
      Fin q \<Rightarrow> (let n = fst (quotient_of q) in
        if snd (quotient_of q) = 1 \<and> \<bar>n\<bar> \<le> max_safe then Some n else None)
    | _ \<Rightarrow> None)"

text \<open>\<^verbatim>\<open>Number.isSafeInteger(v)\<close>: no conversion.\<close>

definition is_safe_integer :: "jsval \<Rightarrow> bool" where
  "is_safe_integer v = (case v of Num n \<Rightarrow> \<bar>n\<bar> \<le> max_safe | _ \<Rightarrow> False)"

lemma safe_int_of_int [simp]: "safe_int (Fin (of_int n)) = (if \<bar>n\<bar> \<le> max_safe then Some n else None)"
  by (simp add: safe_int_def Let_def)

lemma to_num_Num [simp]: "to_num (Num n) = Fin (of_int n)"
  by (simp add: to_num_def)

lemma is_safe_integer_Num [simp]: "is_safe_integer (Num n) \<longleftrightarrow> \<bar>n\<bar> \<le> max_safe"
  by (simp add: is_safe_integer_def)

lemma is_safe_integerE:
  "is_safe_integer v \<Longrightarrow> (\<And>n. v = Num n \<Longrightarrow> \<bar>n\<bar> \<le> max_safe \<Longrightarrow> P) \<Longrightarrow> P"
  by (cases v) (auto simp: is_safe_integer_def)

fun num_less :: "jnum \<Rightarrow> jnum \<Rightarrow> bool" where
  "num_less (Fin a) (Fin b) = (a < b)"
| "num_less NegInf (Fin b) = True"
| "num_less NegInf PosInf = True"
| "num_less (Fin a) PosInf = True"
| "num_less a b = False"

fun num_eq :: "jnum \<Rightarrow> jnum \<Rightarrow> bool" where
  "num_eq NotANumber b = False"
| "num_eq a b = (a = b)"

definition num_leq :: "jnum \<Rightarrow> jnum \<Rightarrow> bool" where
  "num_leq a b = (num_less a b \<or> num_eq a b)"

text \<open>Addition and \<^verbatim>\<open>Math.max\<close> of numbers; sums are exact, their rounding is not modelled.\<close>

fun num_add :: "jnum \<Rightarrow> jnum \<Rightarrow> jnum" where
  "num_add NotANumber b = NotANumber"
| "num_add a NotANumber = NotANumber"
| "num_add (Fin a) (Fin b) = Fin (a + b)"
| "num_add PosInf NegInf = NotANumber"
| "num_add NegInf PosInf = NotANumber"
| "num_add PosInf b = PosInf"
| "num_add a PosInf = PosInf"
| "num_add a b = NegInf"

definition num_max :: "jnum \<Rightarrow> jnum \<Rightarrow> jnum" where
  "num_max a b = (if a = NotANumber \<or> b = NotANumber then NotANumber else if num_less a b then b else a)"

text \<open>\<^verbatim>\<open>a < b\<close>, \<^verbatim>\<open>a <= b\<close>: by code units when both sides are strings, else as numbers.\<close>

definition prim :: "jsval \<Rightarrow> jsval" where
  "prim v = (case v of Arr xs \<Rightarrow> Str (js_string v) | Obj kvs \<Rightarrow> Str (js_string v) | _ \<Rightarrow> v)"

definition js_less :: "jsval \<Rightarrow> jsval \<Rightarrow> bool" where
  "js_less a b = (case (prim a, prim b) of
      (Str s, Str t) \<Rightarrow> s < t
    | (x, y) \<Rightarrow> num_less (to_num x) (to_num y))"

definition js_leq :: "jsval \<Rightarrow> jsval \<Rightarrow> bool" where
  "js_leq a b = (case (prim a, prim b) of
      (Str s, Str t) \<Rightarrow> s \<le> t
    | (x, y) \<Rightarrow> num_leq (to_num x) (to_num y))"

lemma js_less_Num [simp]: "js_less (Num a) (Num b) \<longleftrightarrow> a < b"
  by (simp add: js_less_def prim_def)

lemma js_leq_Num [simp]: "js_leq (Num a) (Num b) \<longleftrightarrow> a \<le> b"
  by (auto simp: js_leq_def prim_def num_leq_def)

text \<open>\<^verbatim>\<open>BigInt(v)\<close>: integral numbers and integer literals only, anything else throws.\<close>

definition parse_bigint :: "string \<Rightarrow> int option" where
  "parse_bigint str = (let s = trim str in
     if s = [] then Some 0 else
     (case radix_prefix s of
        Some b \<Rightarrow> (if length s = 2 then None else map_option int (radix_value b 0 (drop 2 s)))
      | None \<Rightarrow>
         (let neg = starts_with ''-'' s; u = (if neg \<or> starts_with ''+'' s then tl s else s)
          in if u = [] \<or> \<not> list_all is_digit u then None
             else Some (if neg then - int (nat_value u) else int (nat_value u)))))"

definition js_BigInt :: "jsval \<Rightarrow> int result" where
  "js_BigInt v = (case v of
      Undef \<Rightarrow> Inl TypeErr
    | Null \<Rightarrow> Inl TypeErr
    | Bool b \<Rightarrow> Inr (if b then 1 else 0)
    | Num n \<Rightarrow> Inr n
    | Real x t \<Rightarrow> (case x of
          Fin q \<Rightarrow> if snd (quotient_of q) = 1 then Inr (fst (quotient_of q)) else Inl RangeErr
        | _ \<Rightarrow> Inl RangeErr)
    | _ \<Rightarrow> (case parse_bigint (js_string v) of Some n \<Rightarrow> Inr n | None \<Rightarrow> Inl SyntaxErr))"

section \<open>Character classes and tests of the regular expressions\<close>

definition is_lower_hex :: "char \<Rightarrow> bool" where
  "is_lower_hex c = (is_digit c \<or> CHR ''a'' \<le> c \<and> c \<le> CHR ''f'')"

definition is_hex :: "char \<Rightarrow> bool" where
  "is_hex c = (is_lower_hex c \<or> CHR ''A'' \<le> c \<and> c \<le> CHR ''F'')"

definition in_range :: "char \<Rightarrow> char \<Rightarrow> char \<Rightarrow> bool" where
  "in_range lo hi c = (lo \<le> c \<and> c \<le> hi)"

definition is_alnum :: "char \<Rightarrow> bool" where
  "is_alnum c = (is_digit c \<or> in_range (CHR ''a'') (CHR ''z'') c \<or> in_range (CHR ''A'') (CHR ''Z'') c)"

text \<open>\<^verbatim>\<open>/^[0-9a-f]{n}$/\<close>, and with a prefix \<^verbatim>\<open>p\<close> in front.\<close>

definition lower_hex_n :: "nat \<Rightarrow> string \<Rightarrow> bool" where
  "lower_hex_n n s = (length s = n \<and> list_all is_lower_hex s)"

definition hex_n :: "nat \<Rightarrow> string \<Rightarrow> bool" where
  "hex_n n s = (length s = n \<and> list_all is_hex s)"

definition after :: "string \<Rightarrow> (string \<Rightarrow> bool) \<Rightarrow> string \<Rightarrow> bool" where
  "after p t s = (starts_with p s \<and> t (drop (length p) s))"

lemma after_append [simp]: "after p t (p @ s) = t s"
  by (simp add: after_def starts_with_def)

lemma afterE: "after p t s \<Longrightarrow> (\<And>r. s = p @ r \<Longrightarrow> t r \<Longrightarrow> P) \<Longrightarrow> P"
  unfolding after_def starts_with_def by (metis append_take_drop_id)

abbreviation hash64 :: "string \<Rightarrow> bool" where
  "hash64 \<equiv> lower_hex_n 64"

abbreviation hash0x :: "string \<Rightarrow> bool" where
  "hash0x \<equiv> after ''0x'' (lower_hex_n 64)"

abbreviation bytes32 :: "string \<Rightarrow> bool" where
  "bytes32 \<equiv> after ''0x'' (hex_n 64)"

text \<open>\<^verbatim>\<open>/^(0|[1-9][0-9]*)$/\<close> and \<^verbatim>\<open>/^[1-9][0-9]*$/\<close>.\<close>

definition posint_text :: "string \<Rightarrow> bool" where
  "posint_text s = (s \<noteq> [] \<and> list_all is_digit s \<and> hd s \<noteq> CHR ''0'')"

definition uint_text :: "string \<Rightarrow> bool" where
  "uint_text s = (s = ''0'' \<or> posint_text s)"

text \<open>\<^verbatim>\<open>/^\d+$/\<close>.\<close>

definition digits_text :: "string \<Rightarrow> bool" where
  "digits_text s = (s \<noteq> [] \<and> list_all is_digit s)"

lemma is_lower_hex_iff:
  "is_lower_hex c \<longleftrightarrow> (of_char c :: nat) \<in> {48..57} \<union> {97..102}"
  by (auto simp: is_lower_hex_def is_digit_iff less_eq_char_def)

lemma is_hex_iff: "is_hex c \<longleftrightarrow> (of_char c :: nat) \<in> {48..57} \<union> {97..102} \<union> {65..70}"
  by (auto simp: is_hex_def is_lower_hex_iff less_eq_char_def)

lemma lower_char_hex: "is_hex c \<Longrightarrow> is_lower_hex (lower_char c)"
  by (auto simp: is_hex_iff is_lower_hex_iff lower_char_def Let_def)

lemma lower_char_fixed: "is_lower_hex c \<Longrightarrow> lower_char c = c"
  by (auto simp: is_lower_hex_iff lower_char_def Let_def)

lemma lower_hex_is_hex: "is_lower_hex c \<Longrightarrow> is_hex c"
  by (simp add: is_hex_def)

lemma hex_n_lower: "hex_n n s \<Longrightarrow> lower_hex_n n (lower s)"
  by (auto simp: hex_n_def lower_hex_n_def lower_def list_all_iff lower_char_hex)

lemma lower_hex_n_lower: "lower_hex_n n s \<Longrightarrow> lower s = s"
  by (auto simp: lower_hex_n_def lower_def list_all_iff intro!: map_idI lower_char_fixed)

lemma lower_hex_n_hex_n: "lower_hex_n n s \<Longrightarrow> hex_n n s"
  by (auto simp: hex_n_def lower_hex_n_def list_all_iff lower_hex_is_hex)

lemma lower_0x [simp]: "lower ''0x'' = ''0x''"
  by (simp add: lower_def lower_char_def)

lemma lower_bytes_0x: "after ''0x'' (hex_n n) s \<Longrightarrow> after ''0x'' (lower_hex_n n) (lower s)"
proof (erule afterE)
  fix r assume "s = ''0x'' @ r" "hex_n n r"
  then have "lower s = ''0x'' @ lower r" "lower_hex_n n (lower r)"
    by (simp_all only: lower_append lower_0x hex_n_lower)
  then show ?thesis by (simp only: after_append)
qed

lemma lower_fixed_0x: "after ''0x'' (lower_hex_n n) s \<Longrightarrow> lower s = s"
  by (erule afterE) (simp only: lower_append lower_0x lower_hex_n_lower)

lemma after_0x_mono: "after ''0x'' (lower_hex_n n) s \<Longrightarrow> after ''0x'' (hex_n n) s"
  by (erule afterE) (simp only: after_append lower_hex_n_hex_n)

lemma nat_text_0: "nat_text 0 = ''0''"
  by code_simp

lemma uint_text_nat_text: "uint_text (nat_text n)"
proof (cases "n = 0")
  case True
  then show ?thesis by (simp add: nat_text_0 uint_text_def)
next
  case False
  then show ?thesis
    using nat_text_digits [of n] nat_text_head [of n]
    by (simp add: uint_text_def posint_text_def list_all_iff)
qed

text \<open>The string comparisons of the code's error codes and constants, one by one.\<close>

abbreviation is_any :: "jsval \<Rightarrow> string list \<Rightarrow> bool" where
  "is_any v ss \<equiv> v \<in> Str ` set ss"

end
