(* ===== verification/Json.thy ===== *)
theory Json
  imports Js_Text
begin

text \<open>
  src/shared/safe-json.mjs, src/domain/canonical-json.mjs and src/domain/hashing.mjs: the
  checks every untrusted JSON value passes, the canonical text of a value, and the hashes
  taken of it.  Values are those of \<^verbatim>\<open>Js_Prelude\<close>: an instance of a class is none of them.  Node's SHA-256 is the parameter \<^verbatim>\<open>sha\<close> of the hashes (hex digest of a text).
  Shown: what passes the check has a canonical text; the canonical text does not depend
  on the order of the properties and determines the value up to that order.
\<close>

section \<open>Checks of untrusted JSON\<close>

definition FORBIDDEN_KEYS :: "string list" where
  "FORBIDDEN_KEYS = [''__proto__'', ''prototype'', ''constructor'']"

lemma member_size_Arr: "x \<in> set xs \<Longrightarrow> size x < size (Arr xs)"
  by (induction xs) auto

lemma member_size_Obj: "(k, v) \<in> set kvs \<Longrightarrow> size v < size (Obj kvs)"
  by (induction kvs) auto

function (sequential) safe_visit :: "nat \<Rightarrow> jsval \<Rightarrow> nat \<Rightarrow> unit result" where
  "safe_visit maxDepth item depth = (
     if maxDepth < depth then Inl (PriorSealError ''JSON_TOO_DEEP'') else
     (case item of
        Null \<Rightarrow> Inr ()
      | Str s \<Rightarrow> Inr ()
      | Bool b \<Rightarrow> Inr ()
      | Num n \<Rightarrow> Inr ()
      | Real x t \<Rightarrow> (case x of Fin q \<Rightarrow> Inr () | _ \<Rightarrow> Inl (PriorSealError ''INVALID_JSON_VALUE''))
      | Arr xs \<Rightarrow> forE (\<lambda>e. safe_visit maxDepth e (Suc depth)) xs
      | Obj kvs \<Rightarrow> forE (\<lambda>kv. if fst kv \<in> set FORBIDDEN_KEYS then Inl (PriorSealError ''DANGEROUS_JSON_KEY'')
                             else safe_visit maxDepth (snd kv) (Suc depth)) kvs
      | _ \<Rightarrow> Inl (PriorSealError ''INVALID_JSON_VALUE'')))"
  by pat_completeness auto
termination
  by (relation "measure (\<lambda>(_, v, _). size v)") (auto dest: member_size_Arr member_size_Obj)

declare safe_visit.simps [simp del]

definition assertSafeJson :: "jsval \<Rightarrow> jsval result" where
  "assertSafeJson value = letE (safe_visit 16 value 0) (\<lambda>_. Inr value)"

definition assertOnlyFields :: "jsval \<Rightarrow> string list \<Rightarrow> jsval result" where
  "assertOnlyFields value allowed = (case value of
      Obj kvs \<Rightarrow> if filter (\<lambda>k. k \<notin> set allowed) (map fst kvs) \<noteq> []
                 then Inl (PriorSealError ''UNKNOWN_FIELD'') else Inr value
    | _ \<Rightarrow> Inl (PriorSealError ''INVALID_REQUEST''))"

lemma assertSafeJson_Inr [result_simps]:
  "assertSafeJson v = Inr w \<longleftrightarrow> w = v \<and> safe_visit 16 v 0 = Inr ()"
  by (auto simp: assertSafeJson_def letE_eq_Inr)

lemma assertOnlyFields_Inr [result_simps]:
  "assertOnlyFields v fs = Inr w \<longleftrightarrow> w = v \<and> (\<exists>kvs. v = Obj kvs \<and> fst ` set kvs \<subseteq> set fs)"
  by (auto simp: assertOnlyFields_def filter_empty_conv split: jsval.splits)

text \<open>To be tried before \<^verbatim>\<open>result_elims\<close>: the checked value is the value itself.\<close>

named_theorems check_elims "inverting a check that returns its argument"

lemma assertOnlyFields_InrE [check_elims]:
  "letE (assertOnlyFields v fs) k = Inr y \<Longrightarrow>
    (\<And>kvs. v = Obj kvs \<Longrightarrow> fst ` set kvs \<subseteq> set fs \<Longrightarrow> k v = Inr y \<Longrightarrow> P) \<Longrightarrow> P"
  by (auto simp: assertOnlyFields_Inr letE_eq_Inr)

lemma assertSafeJson_InrE [check_elims]:
  "letE (assertSafeJson v) k = Inr y \<Longrightarrow> (safe_visit 16 v 0 = Inr () \<Longrightarrow> k v = Inr y \<Longrightarrow> P) \<Longrightarrow> P"
  by (auto simp: assertSafeJson_Inr letE_eq_Inr)

section \<open>Canonical JSON text\<close>

definition hex_digit :: "nat \<Rightarrow> char" where
  "hex_digit d = (if d < 10 then char_of (48 + d) else char_of (87 + d))"

text \<open>One code unit inside the quotes that JSON.stringify prints.\<close>

definition esc :: "char \<Rightarrow> string" where
  "esc c = (let n = of_char c :: nat in
     if n = 34 then [CHR 0x5C, CHR 0x22]
     else if n = 92 then [CHR 0x5C, CHR 0x5C]
     else if n = 8 then [CHR 0x5C, CHR ''b'']
     else if n = 9 then [CHR 0x5C, CHR ''t'']
     else if n = 10 then [CHR 0x5C, CHR ''n'']
     else if n = 12 then [CHR 0x5C, CHR ''f'']
     else if n = 13 then [CHR 0x5C, CHR ''r'']
     else if n < 32 then CHR 0x5C # ''u00'' @ [hex_digit (n div 16), hex_digit (n mod 16)]
     else [c])"

definition json_string :: "string \<Rightarrow> string" where
  "json_string s = CHR 0x22 # concat (map esc s) @ [CHR 0x22]"

function (sequential) canonicalize :: "jsval \<Rightarrow> string result" where
  "canonicalize Undef = Inl TypeErr"
| "canonicalize (Real x t) = (case x of Fin q \<Rightarrow> Inr t | _ \<Rightarrow> Inl TypeErr)"
| "canonicalize Null = Inr ''null''"
| "canonicalize (Bool b) = Inr (if b then ''true'' else ''false'')"
| "canonicalize (Num n) = Inr (int_text n)"
| "canonicalize (Str s) = Inr (json_string s)"
| "canonicalize (Opaque t) = Inl TypeErr"
| "canonicalize (Arr xs) =
     letE (mapE canonicalize xs) (\<lambda>ss. Inr (''['' @ join '','' ss @ '']''))"
| "canonicalize (Obj kvs) =
     letE (mapE (\<lambda>kv. if fst kv \<in> set FORBIDDEN_KEYS then Inl TypeErr
                      else letE (canonicalize (snd kv)) (\<lambda>s. Inr (json_string (fst kv) @ '':'' @ s)))
                (sort_key fst kvs))
          (\<lambda>ss. Inr (''{'' @ join '','' ss @ ''}''))"
  by pat_completeness auto
termination
  by (relation "measure size") (auto dest: member_size_Arr member_size_Obj)

section \<open>Hashes\<close>

definition hashJson :: "(string \<Rightarrow> string) \<Rightarrow> jsval \<Rightarrow> string result" where
  "hashJson sha value = letE (canonicalize value) (\<lambda>s. Inr (sha s))"

definition domainHash :: "(string \<Rightarrow> string) \<Rightarrow> string \<Rightarrow> jsval \<Rightarrow> string result" where
  "domainHash sha domain value = letE (canonicalize value) (\<lambda>s. Inr (sha (domain @ '':'' @ s)))"

section \<open>A checked value has a canonical text\<close>

lemma safe_visit_canonicalize:
  "safe_visit m v d = Inr () \<Longrightarrow> \<exists>s. canonicalize v = Inr s"
proof (induction m v d rule: safe_visit.induct)
  case (1 m v d)
  show ?case
  proof (cases v)
    case (Arr xs)
    with "1.prems" have "\<forall>e\<in>set xs. safe_visit m e (Suc d) = Inr ()"
      by (subst (asm) safe_visit.simps) (simp add: forE_Inr_iff split: if_splits)
    with "1.IH"(1) [OF _ Arr] "1.prems" have "\<exists>ss. mapE canonicalize xs = Inr ss"
      by (intro mapE_total) (auto simp: safe_visit.simps [of m v d] split: if_splits)
    with Arr show ?thesis by auto
  next
    case (Obj kvs)
    with "1.prems" have safe: "\<forall>kv\<in>set kvs. fst kv \<notin> set FORBIDDEN_KEYS \<and> safe_visit m (snd kv) (Suc d) = Inr ()"
      by (subst (asm) safe_visit.simps) (auto simp: forE_Inr_iff split: if_splits)
    have "\<not> m < d" using "1.prems" by (auto simp: safe_visit.simps [of m v d])
    then have canon: "\<exists>s. canonicalize (snd kv) = Inr s" if "kv \<in> set kvs" for kv
      using "1.IH"(2) [OF _ Obj that] safe that by blast
    have "\<exists>ss. mapE (\<lambda>kv. if fst kv \<in> set FORBIDDEN_KEYS then Inl TypeErr
                      else letE (canonicalize (snd kv)) (\<lambda>s. Inr (json_string (fst kv) @ '':'' @ s)))
                (sort_key fst kvs) = Inr ss"
      using safe canon by (intro mapE_total) force
    with Obj show ?thesis by auto
  qed (use "1.prems" in \<open>auto simp: safe_visit.simps [of m _ d] split: if_splits jnum.splits\<close>)
qed

lemma assertSafeJson_hashes: "assertSafeJson v = Inr w \<Longrightarrow> \<exists>h. hashJson sha v = Inr h"
  using safe_visit_canonicalize by (fastforce simp: hashJson_def result_simps)

section \<open>Unique readability of the canonical text\<close>

definition hex_val :: "char \<Rightarrow> nat" where
  "hex_val c = (let n = of_char c :: nat in if n < 58 then n - 48 else n - 87)"

lemma hex_val_hex_digit [simp]: "d < 16 \<Longrightarrow> hex_val (hex_digit d) = d"
  by (simp add: hex_val_def hex_digit_def Let_def)

text \<open>Reading one escaped code unit back.\<close>

fun unesc :: "string \<Rightarrow> (char \<times> string) option" where
  "unesc [] = None"
| "unesc (c # r) = (if c \<noteq> CHR 0x5C then Some (c, r) else
     (case r of [] \<Rightarrow> None
      | e # r' \<Rightarrow>
          if e = CHR ''u'' then Some (char_of (16 * hex_val (r' ! 2) + hex_val (r' ! 3)), drop 4 r')
          else Some ((if e = CHR ''b'' then char_of (8::nat) else if e = CHR ''t'' then char_of (9::nat)
                else if e = CHR ''n'' then char_of (10::nat) else if e = CHR ''f'' then char_of (12::nat)
                else if e = CHR ''r'' then char_of (13::nat) else e), r')))"

lemma char_of_codes: "char_of (92::nat) = CHR 0x5C" "char_of (34::nat) = CHR 0x22"
  by code_simp+

lemma unesc_esc [simp]: "unesc (esc c @ r) = Some (c, r)"
proof -
  define n where "n = (of_char c :: nat)"
  have c: "c = char_of n" by (simp add: n_def)
  have eq: "c = d \<longleftrightarrow> n = of_char d" for d by (auto simp: n_def)
  show ?thesis
    unfolding esc_def Let_def n_def [symmetric]
    by (simp add: eq) (auto simp add: c char_of_codes)
qed

lemma esc_inj: "esc c @ r = esc d @ r' \<Longrightarrow> c = d \<and> r = r'"
  by (metis unesc_esc option.inject prod.inject)

lemma esc_hd: "\<exists>a s. esc c = a # s \<and> a \<noteq> CHR 0x22"
proof -
  have "(of_char c :: nat) \<noteq> 34 \<Longrightarrow> c \<noteq> CHR 0x22" by auto
  then show ?thesis by (auto simp: esc_def Let_def)
qed

lemma escs_inj:
  "concat (map esc s) @ CHR 0x22 # r = concat (map esc t) @ CHR 0x22 # r' \<Longrightarrow> s = t \<and> r = r'"
proof (induction s arbitrary: t)
  case Nil
  show ?case
  proof (cases t)
    case (Cons d t')
    with Nil esc_hd [of d] show ?thesis by auto
  qed (use Nil in simp)
next
  case (Cons c s)
  show ?case
  proof (cases t)
    case Nil
    with Cons.prems esc_hd [of c] show ?thesis by auto
  next
    case t: (Cons d t')
    with Cons.prems have
      "esc c @ (concat (map esc s) @ CHR 0x22 # r) = esc d @ (concat (map esc t') @ CHR 0x22 # r')"
      by simp
    then have "c = d \<and> concat (map esc s) @ CHR 0x22 # r = concat (map esc t') @ CHR 0x22 # r'"
      by (rule esc_inj)
    with Cons.IH t show ?thesis by blast
  qed
qed

lemma json_string_inj: "json_string s @ r = json_string t @ r' \<Longrightarrow> s = t \<and> r = r'"
  using escs_inj [of s r t r'] by (simp add: json_string_def)

text \<open>
  The characters of a number's text, and what may follow a value inside a canonical text.
\<close>

definition num_char :: "char \<Rightarrow> bool" where
  "num_char c = (is_digit c \<or> c \<in> {CHR ''-'', CHR ''+'', CHR ''.'', CHR ''e''})"

definition delim :: "string \<Rightarrow> bool" where
  "delim r = (r = [] \<or> \<not> num_char (hd r))"

definition safe_int_text :: "string \<Rightarrow> bool" where
  "safe_int_text t = (case t of [] \<Rightarrow> False
     | c # r \<Rightarrow> if c = CHR ''-'' then digits_text r \<and> int (nat_value r) \<le> max_safe
               else digits_text t \<and> int (nat_value t) \<le> max_safe)"

text \<open>
  Well-formed values: property names are distinct, as in any object; the text of a number
  that is not a safe integer is a number's text and denotes its value.
\<close>

fun wf_js :: "jsval \<Rightarrow> bool" where
  "wf_js (Num n) = (\<bar>n\<bar> \<le> max_safe)"
| "wf_js (Real x t) = (t \<noteq> [] \<and> list_all num_char t \<and> parse_number t = x \<and> \<not> safe_int_text t)"
| "wf_js (Arr xs) = (\<forall>x\<in>set xs. wf_js x)"
| "wf_js (Obj kvs) = (distinct (map fst kvs) \<and> (\<forall>kv\<in>set kvs. wf_js (snd kv)))"
| "wf_js _ = True"

text \<open>A value with the properties of every object in key order.\<close>

function (sequential) js_norm :: "jsval \<Rightarrow> jsval" where
  "js_norm (Arr xs) = Arr (map js_norm xs)"
| "js_norm (Obj kvs) = Obj (map (\<lambda>kv. (fst kv, js_norm (snd kv))) (sort_key fst kvs))"
| "js_norm v = v"
  by pat_completeness auto
termination
  by (relation "measure size") (auto dest: member_size_Arr member_size_Obj)

lemma int_text_num_char: "list_all num_char (int_text n)"
  using nat_text_digits by (auto simp: int_text_def num_char_def list_all_iff)

lemma int_text_safe: "\<bar>n\<bar> \<le> max_safe \<Longrightarrow> safe_int_text (int_text n)"
proof (cases "n < 0")
  case True
  assume "\<bar>n\<bar> \<le> max_safe"
  with True show ?thesis
    using nat_text_digits [of "nat (- n)"]
    by (simp add: int_text_def safe_int_text_def digits_text_def list_all_iff)
next
  case False
  assume "\<bar>n\<bar> \<le> max_safe"
  with False show ?thesis
    using nat_text_digits [of "nat n"] nat_text_no_minus [of "nat n"] nat_value_nat_text [of "nat n"]
    by (cases "nat_text (nat n)") (auto simp: int_text_def safe_int_text_def digits_text_def list_all_iff)
qed

lemma num_text_split:
  assumes "list_all num_char s" "list_all num_char t" "delim r" "delim r'" "s @ r = t @ r'"
  shows "s = t \<and> r = r'"
proof -
  have "takeWhile num_char (u @ x) = u" if "list_all num_char u" "delim x" for u x
    using that by (cases x) (auto simp: delim_def list_all_iff takeWhile_append2 takeWhile_append1)
  with assms have "s = t" by metis
  with assms(5) show ?thesis by simp
qed

text \<open>The first character of a canonical text tells the kind of the value.\<close>

definition kind_of :: "jsval \<Rightarrow> char set" where
  "kind_of v = (case v of
      Null \<Rightarrow> {CHR ''n''} | Bool b \<Rightarrow> {if b then CHR ''t'' else CHR ''f''}
    | Num n \<Rightarrow> Collect num_char | Real x t \<Rightarrow> Collect num_char
    | Str s \<Rightarrow> {CHR 0x22} | Arr xs \<Rightarrow> {CHR ''[''} | Obj kvs \<Rightarrow> {CHR ''{''} | _ \<Rightarrow> {})"

lemma hd_num_text: "s \<noteq> [] \<Longrightarrow> list_all num_char s \<Longrightarrow> num_char (hd s)"
  by (cases s) auto

lemma canonicalize_hd:
  assumes "canonicalize v = Inr s" "wf_js v"
  shows "s \<noteq> [] \<and> hd s \<in> kind_of v"
  using assms hd_num_text [OF int_text_nonempty int_text_num_char] hd_num_text
  by (cases v) (auto simp: kind_of_def letE_eq_Inr json_string_def split: jnum.splits)

lemma num_char_simps [simp]:
  "\<not> num_char (CHR '']'')" "\<not> num_char (CHR ''}'')" "\<not> num_char (CHR '','')" "\<not> num_char (CHR ''['')"
  "\<not> num_char (CHR ''{'')" "\<not> num_char (CHR ''n'')" "\<not> num_char (CHR ''t'')" "\<not> num_char (CHR ''f'')"
  "\<not> num_char (CHR 0x22)"
  by (simp_all add: num_char_def is_digit_def)

lemma canonicalize_not_close:
  assumes "canonicalize v = Inr s" "wf_js v"
  shows "s \<noteq> [] \<and> hd s \<noteq> CHR '']''"
  using canonicalize_hd [OF assms] by (cases v) (auto simp: kind_of_def)


text \<open>
  A bracketed, comma-separated list reads back uniquely when its items do.  \<^verbatim>\<open>P x s\<close> is
  "the item x prints as s".
\<close>

lemma tail_unique:
  assumes "list_all2 P xs ss" "list_all2 Q ys ts"
    and dec: "\<forall>x\<in>set xs. \<forall>s y t r r'. P x s \<longrightarrow> Q y t \<longrightarrow> s @ r = t @ r' \<longrightarrow> delim r \<longrightarrow> delim r'
               \<longrightarrow> f x = f y \<and> r = r'"
    and c: "c \<noteq> CHR '',''" "\<not> num_char c"
    and eq: "concat (map ((#) (CHR '','')) ss) @ c # r = concat (map ((#) (CHR '','')) ts) @ c # r'"
  shows "map f xs = map f ys \<and> r = r'"
  using assms(1,2) dec eq
proof (induction xs ss arbitrary: ys ts rule: list_all2_induct)
  case Nil
  with c show ?case by (cases ts) auto
next
  case (Cons x xs s ss)
  show ?case
  proof (cases ts)
    case Nil
    with Cons.prems c show ?thesis by auto
  next
    case ts: (Cons t ts')
    with Cons.prems(1) obtain y ys' where ys: "ys = y # ys'" "Q y t" "list_all2 Q ys' ts'"
      by (auto simp: list_all2_Cons2)
    let ?r = "concat (map ((#) (CHR '','')) ss) @ c # r"
    let ?r' = "concat (map ((#) (CHR '','')) ts') @ c # r'"
    have "delim ?r" "delim ?r'" using c by (cases ss; cases ts'; simp add: delim_def)+
    moreover have "s @ ?r = t @ ?r'" using Cons.prems(3) ts by simp
    ultimately have "f x = f y \<and> ?r = ?r'"
      using Cons.prems(2) Cons.hyps(1) ys(2) by (meson list.set_intros(1))
    moreover have "map f xs = map f ys' \<and> r = r'"
    proof (rule Cons.IH [OF ys(3)])
      show "?r = ?r'" using calculation by blast
    qed (use Cons.prems(2) in simp)
    ultimately show ?thesis by (simp add: ys)
  qed
qed

lemma join_Cons: "join sep (s # ss) = s @ concat (map ((@) sep) ss)"
  by (induction ss arbitrary: s) auto

lemma join_comma: "join '','' (s # ss) = s @ concat (map ((#) (CHR '','')) ss)"
proof -
  have "(@) '','' = (#) (CHR '','')" by auto
  then show ?thesis by (simp only: join_Cons)
qed

lemma join_unique:
  assumes xs: "list_all2 P xs ss" and ys: "list_all2 Q ys ts"
    and dec: "\<forall>x\<in>set xs. \<forall>s y t r r'. P x s \<longrightarrow> Q y t \<longrightarrow> s @ r = t @ r' \<longrightarrow> delim r \<longrightarrow> delim r'
               \<longrightarrow> f x = f y \<and> r = r'"
    and c: "c \<noteq> CHR '',''" "\<not> num_char c"
    and start: "\<And>x s. P x s \<Longrightarrow> s \<noteq> [] \<and> hd s \<noteq> c" "\<And>x s. Q x s \<Longrightarrow> s \<noteq> [] \<and> hd s \<noteq> c"
    and eq: "join '','' ss @ c # r = join '','' ts @ c # r'"
  shows "map f xs = map f ys \<and> r = r'"
proof (cases ss)
  case Nil
  show ?thesis
  proof (cases ts)
    case (Cons t ts')
    with ys obtain y where "Q y t" by (auto simp: list_all2_Cons2)
    with start(2) [of y t] Nil Cons eq show ?thesis by (cases t) (auto simp: join_comma)
  qed (use Nil xs ys eq in simp)
next
  case ss: (Cons s ss')
  then obtain x xs' where x: "xs = x # xs'" "P x s" "list_all2 P xs' ss'"
    using xs by (auto simp: list_all2_Cons2)
  show ?thesis
  proof (cases ts)
    case Nil
    with start(1) [OF x(2)] ss eq show ?thesis by (cases s) (auto simp: join_comma)
  next
    case ts: (Cons t ts')
    then obtain y ys' where y: "ys = y # ys'" "Q y t" "list_all2 Q ys' ts'"
      using ys by (auto simp: list_all2_Cons2)
    let ?r = "concat (map ((#) (CHR '','')) ss') @ c # r"
    let ?r' = "concat (map ((#) (CHR '','')) ts') @ c # r'"
    have "delim ?r" "delim ?r'" using c by (cases ss'; cases ts'; simp add: delim_def)+
    moreover have "s @ ?r = t @ ?r'" using eq by (simp add: ss ts join_comma)
    ultimately have *: "f x = f y \<and> ?r = ?r'"
      using dec x(1,2) y(2) by (meson list.set_intros(1))
    have "map f xs' = map f ys' \<and> r = r'"
    proof (rule tail_unique [OF x(3) y(3) _ c])
      show "?r = ?r'" using * by blast
    qed (use dec x(1) in simp)
    with * show ?thesis by (simp add: x(1) y(1))
  qed
qed

text \<open>One property of an object: its quoted name, a colon, its value.\<close>

definition member_text :: "string \<times> jsval \<Rightarrow> string \<Rightarrow> bool" where
  "member_text kv s = (wf_js (snd kv) \<and>
     (\<exists>u. canonicalize (snd kv) = Inr u \<and> s = json_string (fst kv) @ '':'' @ u))"

lemma canonicalize_Obj_members:
  assumes "canonicalize (Obj kvs) = Inr s" "wf_js (Obj kvs)"
  shows "\<exists>ss. s = ''{'' @ join '','' ss @ ''}'' \<and> list_all2 member_text (sort_key fst kvs) ss"
proof -
  from assms(1) obtain ss where s: "s = ''{'' @ join '','' ss @ ''}''" and
    "list_all2 (\<lambda>kv t. (if fst kv \<in> set FORBIDDEN_KEYS then Inl TypeErr
       else letE (canonicalize (snd kv)) (\<lambda>u. Inr (json_string (fst kv) @ '':'' @ u))) = Inr t)
     (sort_key fst kvs) ss"
    by (auto simp: letE_eq_Inr mapE_Inr_iff)
  then have "list_all2 member_text (sort_key fst kvs) ss"
    using assms(2)
    by (elim list.rel_mono_strong) (auto simp: member_text_def letE_eq_Inr split: if_splits)
  with s show ?thesis by blast
qed

lemma canonicalize_Arr_items:
  assumes "canonicalize (Arr xs) = Inr s" "wf_js (Arr xs)"
  shows "\<exists>ss. s = ''['' @ join '','' ss @ '']'' \<and>
    list_all2 (\<lambda>x t. wf_js x \<and> canonicalize x = Inr t) xs ss"
proof -
  from assms(1) obtain ss where s: "s = ''['' @ join '','' ss @ '']''" and
    "list_all2 (\<lambda>x t. canonicalize x = Inr t) xs ss"
    by (auto simp: letE_eq_Inr mapE_Inr_iff)
  then have "list_all2 (\<lambda>x t. wf_js x \<and> canonicalize x = Inr t) xs ss"
    using assms(2) by (elim list.rel_mono_strong) auto
  with s show ?thesis by blast
qed


lemma same_kind:
  assumes "canonicalize v = Inr s" "wf_js v" "canonicalize w = Inr t" "wf_js w" "s @ r = t @ r'"
  shows "\<exists>c. c \<in> kind_of v \<and> c \<in> kind_of w"
  using canonicalize_hd [OF assms(1,2)] canonicalize_hd [OF assms(3,4)] assms(5)
  by (cases s; cases t) auto

lemma number_text:
  assumes "canonicalize v = Inr s" "wf_js v" "is_number v"
  shows "list_all num_char s"
  using assms int_text_num_char by (cases v) (auto split: jnum.splits)

lemma number_text_inj:
  assumes "canonicalize v = Inr s" "canonicalize w = Inr s" "wf_js v" "wf_js w"
    "is_number v" "is_number w"
  shows "v = w"
  using assms int_text_safe
  by (cases v; cases w) (auto simp: is_number_def split: jnum.splits)

lemma kind_number: "c \<in> kind_of v \<Longrightarrow> c \<in> kind_of w \<Longrightarrow> is_number v \<Longrightarrow> is_number w"
  by (cases v; cases w) (auto simp: kind_of_def is_number_def split: if_splits)

lemma norm_number: "is_number v \<Longrightarrow> js_norm v = v"
  by (cases v) auto

lemma number_prefix:
  assumes "is_number v" "canonicalize v = Inr s" "wf_js v" "canonicalize w = Inr t" "wf_js w"
    "s @ r = t @ r'" "delim r" "delim r'"
  shows "js_norm v = js_norm w \<and> r = r'"
proof -
  obtain c where "c \<in> kind_of v" "c \<in> kind_of w" using same_kind assms(2-6) by metis
  then have w: "is_number w" using assms(1) by (rule kind_number)
  have "list_all num_char s" using assms(2,3,1) by (rule number_text)
  moreover have "list_all num_char t" using assms(4,5) w by (rule number_text)
  ultimately have "s = t \<and> r = r'" using assms(7,8,6) by (rule num_text_split)
  then show ?thesis using number_text_inj [of v s w] assms(1-5) w by simp
qed

lemma js_induct [case_names Arr Obj Undef Null Bool Num Real Str Opaque]:
  assumes "\<And>xs. (\<And>x. x \<in> set xs \<Longrightarrow> P x) \<Longrightarrow> P (Arr xs)"
    and "\<And>kvs. (\<And>kv. kv \<in> set (sort_key fst kvs) \<Longrightarrow> P (snd kv)) \<Longrightarrow> P (Obj kvs)"
    and "P Undef" "P Null" "\<And>b. P (Bool b)" "\<And>n. P (Num n)" "\<And>x t. P (Real x t)" "\<And>s. P (Str s)" "\<And>t. P (Opaque t)"
  shows "P v"
  by (induction v rule: js_norm.induct) (use assms in blast)+

lemma canonicalize_prefix:
  assumes "canonicalize v = Inr s" "wf_js v" "canonicalize w = Inr t" "wf_js w"
    "s @ r = t @ r'" "delim r" "delim r'"
  shows "js_norm v = js_norm w \<and> r = r'"
  using assms
proof (induction v arbitrary: w s t r r' rule: js_induct)
  case (Arr xs)
  then obtain c where "c \<in> kind_of (Arr xs)" "c \<in> kind_of w" using same_kind by metis
  then obtain ys where w: "w = Arr ys" by (cases w) (auto simp: kind_of_def split: if_splits)
  let ?P = "\<lambda>x t. wf_js x \<and> canonicalize x = Inr t"
  obtain ss where ss: "s = ''['' @ join '','' ss @ '']''" "list_all2 ?P xs ss"
    using canonicalize_Arr_items [OF Arr.prems(1,2)] by blast
  obtain ts where ts: "t = ''['' @ join '','' ts @ '']''" "list_all2 ?P ys ts"
    using canonicalize_Arr_items Arr.prems(3,4) unfolding w by blast
  have dec: "js_norm x = js_norm y \<and> r = r'"
    if "x \<in> set xs" "?P x s" "?P y t" "s @ r = t @ r'" "delim r" "delim r'" for x y s t r r'
    using Arr.IH [OF that(1)] that by blast
  have "map js_norm xs = map js_norm ys \<and> r = r'"
  proof (rule join_unique [OF ss(2) ts(2), where c = "CHR '']''"])
    show "join '','' ss @ CHR '']'' # r = join '','' ts @ CHR '']'' # r'"
      using Arr.prems(5) ss(1) ts(1) by simp
    show "s \<noteq> [] \<and> hd s \<noteq> CHR '']''" if "?P x s" for x s
      using that canonicalize_not_close by blast
    show "s \<noteq> [] \<and> hd s \<noteq> CHR '']''" if "?P x s" for x s
      using that canonicalize_not_close by blast
  qed (use dec in \<open>blast | simp\<close>)+
  then show ?case by (simp add: w)
next
  case (Obj kvs)
  then obtain c where "c \<in> kind_of (Obj kvs)" "c \<in> kind_of w" using same_kind by metis
  then obtain lvs where w: "w = Obj lvs" by (cases w) (auto simp: kind_of_def split: if_splits)
  obtain ss where ss: "s = ''{'' @ join '','' ss @ ''}''" "list_all2 member_text (sort_key fst kvs) ss"
    using canonicalize_Obj_members [OF Obj.prems(1,2)] by blast
  obtain ts where ts: "t = ''{'' @ join '','' ts @ ''}''" "list_all2 member_text (sort_key fst lvs) ts"
    using canonicalize_Obj_members Obj.prems(3,4) unfolding w by blast
  let ?f = "\<lambda>kv. (fst kv, js_norm (snd kv))"
  have dec: "?f kv = ?f lv \<and> r = r'"
    if kv: "kv \<in> set (sort_key fst kvs)" and m: "member_text kv s" "member_text lv t"
      and eq: "s @ r = t @ r'" "delim r" "delim r'" for kv lv s t r r'
  proof -
    from m obtain u u' where u: "s = json_string (fst kv) @ '':'' @ u" "canonicalize (snd kv) = Inr u"
      "wf_js (snd kv)" "t = json_string (fst lv) @ '':'' @ u'" "canonicalize (snd lv) = Inr u'"
      "wf_js (snd lv)"
      by (auto simp: member_text_def)
    with eq(1) have "json_string (fst kv) @ ('':'' @ u @ r) = json_string (fst lv) @ ('':'' @ u' @ r')"
      by simp
    then have "fst kv = fst lv \<and> '':'' @ u @ r = '':'' @ u' @ r'" by (rule json_string_inj)
    with Obj.IH [OF kv u(2,3,5,6) _ eq(2,3)] show ?thesis by simp
  qed
  have "map ?f (sort_key fst kvs) = map ?f (sort_key fst lvs) \<and> r = r'"
  proof (rule join_unique [OF ss(2) ts(2), where c = "CHR ''}''"])
    show "join '','' ss @ CHR ''}'' # r = join '','' ts @ CHR ''}'' # r'"
      using Obj.prems(5) ss(1) ts(1) by simp
    show "s \<noteq> [] \<and> hd s \<noteq> CHR ''}''" if "member_text kv s" for kv s
      using that by (auto simp: member_text_def json_string_def)
    show "s \<noteq> [] \<and> hd s \<noteq> CHR ''}''" if "member_text kv s" for kv s
      using that by (auto simp: member_text_def json_string_def)
  qed (use dec in \<open>blast | simp\<close>)+
  then show ?case by (simp add: w)
next
  case (Bool b)
  with same_kind obtain c where "c \<in> kind_of (Bool b)" "c \<in> kind_of w" by metis
  with Bool show ?case by (cases w) (auto simp: kind_of_def split: if_splits)
next
  case Null
  with same_kind obtain c where "c \<in> kind_of Null" "c \<in> kind_of w" by metis
  with Null show ?case by (cases w) (auto simp: kind_of_def split: if_splits)
next
  case (Str u)
  with same_kind obtain c where "c \<in> kind_of (Str u)" "c \<in> kind_of w" by metis
  then obtain u' where "w = Str u'" by (cases w) (auto simp: kind_of_def split: if_splits)
  with Str show ?case using json_string_inj [of u r u' r'] by simp
next
  case (Num n)
  then show ?case by (intro number_prefix [of "Num n"]) (simp_all only: js_kind_simps)
next
  case (Real x u)
  then show ?case by (intro number_prefix [of "Real x u"]) (simp_all only: js_kind_simps)
qed auto

lemma canonicalize_inj:
  assumes "canonicalize v = Inr s" "canonicalize w = Inr s" "wf_js v" "wf_js w"
  shows "js_norm v = js_norm w"
  using canonicalize_prefix [OF assms(1,3,2,4), of "[]" "[]"] by (simp add: delim_def)

text \<open>The canonical text does not depend on the order of an object's properties.\<close>

lemma sort_key_perm_eq:
  "mset kvs = mset lvs \<Longrightarrow> distinct (map fst kvs) \<Longrightarrow> sort_key fst kvs = sort_key fst lvs"
  by (rule sort_key_inj_key_eq) (simp_all add: distinct_map)

lemma canonicalize_js_norm: "canonicalize (js_norm v) = canonicalize v"
proof (induction v rule: js_norm.induct)
  case (1 xs)
  then have "mapE canonicalize (map js_norm xs) = mapE canonicalize xs"
    by (induction xs) simp_all
  then show ?case by simp
next
  case (2 kvs)
  let ?g = "\<lambda>kv. (fst kv, js_norm (snd kv))"
  let ?m = "\<lambda>kv. if fst kv \<in> set FORBIDDEN_KEYS then Inl TypeErr
                  else letE (canonicalize (snd kv)) (\<lambda>s. Inr (json_string (fst kv) @ '':'' @ s))"
  have "sorted (map fst (map ?g (sort_key fst kvs)))" by (simp add: comp_def)
  then have "sort_key fst (map ?g (sort_key fst kvs)) = map ?g (sort_key fst kvs)"
    by (intro properties_for_sort_key) simp_all
  moreover have "mapE ?m (map ?g xs) = mapE ?m xs" if "set xs \<subseteq> set (sort_key fst kvs)" for xs
    using that
  proof (induction xs)
    case (Cons x xs)
    then show ?case using "2.IH" [of x] by simp
  qed simp
  ultimately show ?case by simp
qed simp_all

section \<open>What the checks accept\<close>

text \<open>Nesting depth, and the values that are JSON with no dangerous property name.\<close>

function (sequential) js_depth :: "jsval \<Rightarrow> nat" where
  "js_depth (Arr xs) = fold (\<lambda>x d. max d (Suc (js_depth x))) xs 0"
| "js_depth (Obj kvs) = fold (\<lambda>kv d. max d (Suc (js_depth (snd kv)))) kvs 0"
| "js_depth v = 0"
  by pat_completeness auto
termination
  by (relation "measure size") (auto dest: member_size_Arr member_size_Obj)

fun clean_json :: "jsval \<Rightarrow> bool" where
  "clean_json Undef = False"
| "clean_json (Opaque t) = False"
| "clean_json (Real x t) = (case x of Fin q \<Rightarrow> True | _ \<Rightarrow> False)"
| "clean_json (Arr xs) = list_all clean_json xs"
| "clean_json (Obj kvs) = list_all (\<lambda>kv. fst kv \<notin> set FORBIDDEN_KEYS \<and> clean_json (snd kv)) kvs"
| "clean_json v = True"

lemma fold_max_le: "fold (\<lambda>x d. max d (Suc (f x))) xs a \<le> m \<longleftrightarrow> a \<le> m \<and> (\<forall>x\<in>set xs. Suc (f x) \<le> m)"
  by (induction xs arbitrary: a) auto

lemma safe_visit_iff: "safe_visit m v d = Inr () \<longleftrightarrow> d + js_depth v \<le> m \<and> clean_json v"
proof (induction m v d rule: safe_visit.induct)
  case (1 m v d)
  show ?case
  proof (cases "d \<le> m")
    case True
    then have m: "\<not> m < d" "d + js_depth v \<le> m \<longleftrightarrow> js_depth v \<le> m - d" by auto
    show ?thesis
    proof (cases v)
      case (Arr xs)
      have "js_depth v \<le> m - d \<longleftrightarrow> (\<forall>x\<in>set xs. Suc d + js_depth x \<le> m)"
        using True by (auto simp: Arr fold_max_le)
      then show ?thesis using "1.IH"(1) [OF m(1) Arr] m
        by (auto simp: Arr safe_visit.simps [of m "Arr xs"] forE_Inr_iff list_all_iff)
    next
      case (Obj kvs)
      have "js_depth v \<le> m - d \<longleftrightarrow> (\<forall>x\<in>set kvs. Suc d + js_depth (snd x) \<le> m)"
        using True by (auto simp: Obj fold_max_le)
      then show ?thesis using "1.IH"(2) [OF m(1) Obj] m
        by (simp add: Obj safe_visit.simps [of m "Obj kvs"] forE_Inr_iff list_all_iff) fastforce
    qed (use m in \<open>auto simp: safe_visit.simps [of m _ d] split: jnum.splits\<close>)
  qed (simp add: safe_visit.simps [of m v d])
qed

section \<open>Properties\<close>

text \<open>C21. The canonical JSON text the hashes are taken of identifies the value: a second value
  has the same text exactly when it is the same value up to the order of properties.\<close>

theorem canonical_text_identifies:
  assumes "canonicalize v = Inr s" "wf_js v" "wf_js w"
  shows "canonicalize w = Inr s \<longleftrightarrow> js_norm w = js_norm v"
proof
  assume "canonicalize w = Inr s"
  with assms show "js_norm w = js_norm v" by (intro canonicalize_inj)
next
  assume "js_norm w = js_norm v"
  then show "canonicalize w = Inr s" using assms(1) by (metis canonicalize_js_norm)
qed

definition sample_claims :: jsval where
  "sample_claims = Obj [(''b'', Arr [Num 1, Null]), (''a'', Str ''x'')]"

definition sample_claims_permuted :: jsval where
  "sample_claims_permuted = Obj [(''a'', Str ''x''), (''b'', Arr [Num 1, Null])]"

lemmas sample_claims_defs = sample_claims_def sample_claims_permuted_def

lemma canonical_text_identifies_witness:
  "canonicalize sample_claims_permuted = canonicalize sample_claims \<and>
   canonicalize (Obj [(''a'', Str ''y'')]) \<noteq> canonicalize sample_claims"
proof -
  obtain s where s: "canonicalize sample_claims = Inr s" by (simp add: sample_claims_def FORBIDDEN_KEYS_def)
  have "wf_js sample_claims" "wf_js sample_claims_permuted" "wf_js (Obj [(''a'', Str ''y'')])"
    by (simp_all add: sample_claims_defs max_safe_def)
  moreover have "js_norm sample_claims_permuted = js_norm sample_claims"
    "js_norm (Obj [(''a'', Str ''y'')]) \<noteq> js_norm sample_claims"
    by (simp_all add: sample_claims_defs)
  ultimately show ?thesis
    using s canonical_text_identifies [OF s] by metis
qed

text \<open>Two values with the same SHA-256 hash are the same value up to property order, unless
  their canonical texts are a collision of the hash function.\<close>

theorem hash_binds_value:
  assumes "hashJson sha v = Inr h" "hashJson sha w = Inr h" "wf_js v" "wf_js w"
  shows "js_norm v = js_norm w \<or>
    (\<exists>s t. canonicalize v = Inr s \<and> canonicalize w = Inr t \<and> s \<noteq> t \<and> sha s = sha t)"
proof -
  from assms(1) obtain s where s: "canonicalize v = Inr s" "sha s = h" by (auto simp: hashJson_def letE_eq_Inr)
  from assms(2) obtain t where t: "canonicalize w = Inr t" "sha t = h" by (auto simp: hashJson_def letE_eq_Inr)
  show ?thesis
  proof (cases "s = t")
    case True
    with s t assms(3,4) have "js_norm v = js_norm w" by (intro canonicalize_inj [of v s w]) simp_all
    then show ?thesis ..
  qed (use s t in auto)
qed

text \<open>A checksum printed as 64 hexadecimal digits, to evaluate the hashing code with.\<close>

text \<open>The cheapest function with the shape of the hash, for witnesses.\<close>

definition zero_hash :: "string \<Rightarrow> string" where
  "zero_hash s = ''0000000000000000000000000000000000000000000000000000000000000000''"

lemma hash64_zero_hash: "hash64 (zero_hash s)"
  by code_simp

definition checksum_hash :: "string \<Rightarrow> string" where
  "checksum_hash s = (let n = foldl (\<lambda>a c. (31 * a + of_char c) mod 2 ^ 32) (7 :: nat) s
     in map (\<lambda>i. hex_digit ((n div 16 ^ i) mod 16)) (rev [0..<64]))"

lemma hex_digit_lower_hex: "d < 16 \<Longrightarrow> is_lower_hex (hex_digit d)"
  by (auto simp: is_lower_hex_iff hex_digit_def)

lemma checksum_hash_hex: "hash64 (checksum_hash s)"
  by (auto simp: lower_hex_n_def checksum_hash_def Let_def list_all_iff hex_digit_lower_hex)

lemma hash_binds_value_witness: "js_norm sample_claims_permuted = js_norm sample_claims"
proof -
  let ?sha = "\<lambda>s. s"
  obtain h where h: "hashJson ?sha sample_claims = Inr h"
    by (simp add: hashJson_def sample_claims_def FORBIDDEN_KEYS_def)
  then have "hashJson ?sha sample_claims_permuted = Inr h"
    by (simp add: hashJson_def sample_claims_defs FORBIDDEN_KEYS_def)
  from hash_binds_value [OF this h] show ?thesis
    by (auto simp: sample_claims_defs max_safe_def)
qed

text \<open>C22. Of the values the code can be handed by JSON.parse or build from its own object literals (primitive
  values, arrays and plain objects, nested), the check of untrusted JSON accepts one unchanged exactly when it nests at most 16
  deep, holds JSON values only (neither undefined, a non-finite number, a function, a symbol nor a bigint) and has no
  prototype-polluting property name; and each of those it accepts can be hashed.  An instance of a class is not among these
  values: the check would pass it, the hash refuse it.\<close>

theorem safe_json_accepts:
  "assertSafeJson v = Inr w \<longleftrightarrow> w = v \<and> js_depth v \<le> 16 \<and> clean_json v \<and> (\<exists>h. hashJson sha v = Inr h)"
proof
  assume a: "assertSafeJson v = Inr w"
  then have "w = v" "safe_visit 16 v 0 = Inr ()" by (auto simp: result_simps)
  moreover have "\<exists>h. hashJson sha v = Inr h" using a by (rule assertSafeJson_hashes)
  ultimately show "w = v \<and> js_depth v \<le> 16 \<and> clean_json v \<and> (\<exists>h. hashJson sha v = Inr h)"
    by (auto simp: safe_visit_iff)
next
  assume "w = v \<and> js_depth v \<le> 16 \<and> clean_json v \<and> (\<exists>h. hashJson sha v = Inr h)"
  then show "assertSafeJson v = Inr w" by (simp add: result_simps safe_visit_iff)
qed

end
