(* ===== verification/Merkle.thy ===== *)
theory Merkle
  imports Json
begin

text \<open>
  src/domain/merkle-log.mjs: the ordered Merkle tree over the entry hashes of the
  append-only authorization log, numbered from 1.  Complete power-of-two subtrees are kept
  in an index; an inclusion proof reads only the nodes it needs.  \<^verbatim>\<open>ilog2\<close> is the whole
  part of the exact logarithm.  The code computes \<^verbatim>\<open>Math.floor(Math.log2(n))\<close> on doubles, which agrees with it for
  \<^verbatim>\<open>n\<close> up to \<^verbatim>\<open>2^47\<close>: there the logarithm of \<^verbatim>\<open>2^k - 1\<close> is more than one unit in the last place away from
  \<^verbatim>\<open>k\<close>.  \<^verbatim>\<open>Math.log2(2^49 - 1)\<close> is rounded to 49, so that \<^verbatim>\<open>largestPowerBelow(2^49)\<close> is \<^verbatim>\<open>2^49\<close>, a range is split
  into itself and nothing, and the code recurses until the stack is exhausted.  What is claimed of proofs the code
  creates is therefore claimed for logs of at most \<^verbatim>\<open>max_log_size\<close> = \<^verbatim>\<open>2^47\<close> entries; that an accepted proof is about its
  entry holds of larger sizes too, as the code accepts nothing where its recursion does not end.

  Shown, against the reference tree hash \<^verbatim>\<open>mth\<close>: appending keeps the index complete, a
  complete index yields a proof with the reference root, the proof verifies, it reads only
  the required nodes and is of logarithmic length, and a proof that verifies against the
  reference root is about the entry of that sequence number unless two of the texts that
  were hashed collide.
\<close>

section \<open>Integer logarithm\<close>

fun ilog2 :: "nat \<Rightarrow> nat" where
  "ilog2 n = (if n < 2 then 0 else Suc (ilog2 (n div 2)))"

declare ilog2.simps [simp del]

lemma ilog2_le: "0 < n \<Longrightarrow> 2 ^ ilog2 n \<le> n"
proof (induction n rule: ilog2.induct)
  case (1 n)
  then show ?case by (subst ilog2.simps) (auto simp: not_less)
qed

lemma ilog2_gt: "n < 2 * 2 ^ ilog2 n"
proof (induction n rule: ilog2.induct)
  case (1 n)
  then show ?case by (subst ilog2.simps) (auto simp: not_less)
qed

lemma ilog2_power [simp]: "ilog2 (2 ^ k) = k"
proof (induction k)
  case (Suc k)
  have "2 ^ Suc k div 2 = (2::nat) ^ k" by simp
  with Suc show ?case by (subst ilog2.simps) simp
qed (simp add: ilog2.simps)

lemma ilog2_unique:
  assumes "2 ^ k \<le> n" "n < 2 ^ Suc k"
  shows "ilog2 n = k"
proof -
  have "(2::nat) ^ ilog2 n < 2 ^ Suc k"
    using ilog2_le [of n] assms by (cases "n = 0") auto
  moreover have "(2::nat) ^ k < 2 ^ Suc (ilog2 n)"
    using ilog2_gt [of n] assms(1) by simp
  ultimately have "ilog2 n < Suc k" "k < Suc (ilog2 n)"
    by (metis one_less_numeral_iff power_less_imp_less_exp semiring_norm(76))+
  then show ?thesis by simp
qed

section \<open>Tree shape\<close>

record node_range =
  nr_start :: nat
  nr_level :: nat

record merkle_node = node_range +
  mn_hash :: string

datatype side = LeftSide | RightSide

record proof_step =
  ps_side :: side
  ps_hash :: string

type_synonym node_index = "string \<Rightarrow> string option"

definition leaf_value :: "string \<Rightarrow> jsval" where
  "leaf_value entryHash = Obj [(''domain'', Str ''priorseal/transparency-leaf/v1''), (''entryHash'', Str entryHash)]"

definition parent_value :: "string \<Rightarrow> string \<Rightarrow> jsval" where
  "parent_value l r = Obj [(''domain'', Str ''priorseal/transparency-node/v1''), (''left'', Str l), (''right'', Str r)]"

definition merkleLeafHash :: "(string \<Rightarrow> string) \<Rightarrow> string \<Rightarrow> string" where
  "merkleLeafHash sha entryHash = projr (hashJson sha (leaf_value entryHash))"

definition merkleParentHash :: "(string \<Rightarrow> string) \<Rightarrow> string \<Rightarrow> string \<Rightarrow> string" where
  "merkleParentHash sha l r = projr (hashJson sha (parent_value l r))"

definition merkleNodeKey :: "nat \<Rightarrow> nat \<Rightarrow> string" where
  "merkleNodeKey start level = nat_text start @ '':'' @ nat_text level"

definition largestPowerBelow :: "nat \<Rightarrow> nat" where
  "largestPowerBelow sz = 2 ^ ilog2 (sz - 1)"

definition splitRange :: "nat \<Rightarrow> nat \<Rightarrow> (nat \<times> nat) \<times> (nat \<times> nat)" where
  "splitRange start sz = (let leftSize = largestPowerBelow sz
     in ((start, leftSize), (start + leftSize, sz - leftSize)))"

text \<open>\<^verbatim>\<open>size === 1 || Number.isInteger(Math.log2(size))\<close>.\<close>

definition complete_size :: "nat \<Rightarrow> bool" where
  "complete_size sz = (sz = 1 \<or> 2 ^ ilog2 sz = sz)"

lemma power_below:
  assumes "2 \<le> n"
  shows "1 \<le> largestPowerBelow n" "largestPowerBelow n < n" "n \<le> 2 * largestPowerBelow n"
  using ilog2_le [of "n - 1"] ilog2_gt [of "n - 1"] assms
  by (simp_all add: largestPowerBelow_def)

lemma split_smaller:
  "((a, b), (c, d)) = splitRange s n \<Longrightarrow> \<not> n \<le> Suc 0 \<Longrightarrow> b < n \<and> d < n"
  using power_below [of n] by (auto simp: splitRange_def Let_def)

function completeNodeRanges :: "nat \<Rightarrow> nat \<Rightarrow> node_range list" where
  "completeNodeRanges start sz = (
     if sz \<le> 1 \<or> complete_size sz then [\<lparr>nr_start = start, nr_level = ilog2 sz\<rparr>]
     else (case splitRange start sz of ((ls, lsz), (rs, rsz)) \<Rightarrow>
           completeNodeRanges ls lsz @ completeNodeRanges rs rsz))"
  by pat_completeness auto
termination
  by (relation "measure snd") (auto dest: split_smaller)

declare completeNodeRanges.simps [simp del]

text \<open>The path from the root to \<^verbatim>\<open>sequence\<close>: sibling ranges with their sides, root first.\<close>

definition add_nodes :: "node_range list \<Rightarrow> node_range list \<Rightarrow> node_range list" where
  "add_nodes nodes new = fold (\<lambda>x acc. if x \<in> set acc then acc else acc @ [x]) new nodes"

function required_visit :: "nat \<Rightarrow> nat \<Rightarrow> nat \<Rightarrow> node_range list \<Rightarrow> node_range list" where
  "required_visit sequence start cnt nodes = (
     if cnt \<le> 1 then nodes else
     (case splitRange start cnt of ((ls, lsz), (rs, rsz)) \<Rightarrow>
      if sequence < rs then required_visit sequence ls lsz (add_nodes nodes (completeNodeRanges rs rsz))
         else required_visit sequence rs rsz (add_nodes nodes (completeNodeRanges ls lsz))))"
  by pat_completeness auto
termination
  by (relation "measure (\<lambda>(_, _, n, _). n)") (auto dest: split_smaller)

declare required_visit.simps [simp del]

text \<open>The sizes up to which \<^verbatim>\<open>Math.log2\<close> and \<^verbatim>\<open>ilog2\<close> agree for certain.\<close>

definition max_log_size :: nat where
  "max_log_size = 2 ^ 47"

definition valid_range :: "nat \<Rightarrow> nat \<Rightarrow> bool" where
  "valid_range sequence sz = (int sequence \<le> max_safe \<and> int sz \<le> max_safe \<and> 1 \<le> sequence \<and> sequence \<le> sz)"

definition requiredMerkleNodes :: "nat \<Rightarrow> nat \<Rightarrow> node_range list result" where
  "requiredMerkleNodes sequence sz = (
     if \<not> valid_range sequence sz then Inl TypeErr else Inr (required_visit sequence 1 sz []))"

section \<open>Proofs\<close>

definition nodeHash :: "node_index \<Rightarrow> nat \<Rightarrow> nat \<Rightarrow> string result" where
  "nodeHash nodes start level = (case nodes (merkleNodeKey start level) of
      Some h \<Rightarrow> if hash64 h then Inr h else Inl TypeErr
    | None \<Rightarrow> Inl TypeErr)"

function rangeHash :: "(string \<Rightarrow> string) \<Rightarrow> node_index \<Rightarrow> nat \<Rightarrow> nat \<Rightarrow> string result" where
  "rangeHash sha nodes start cnt = (
     if cnt \<le> 1 \<or> complete_size cnt then nodeHash nodes start (ilog2 cnt)
     else (case splitRange start cnt of ((ls, lsz), (rs, rsz)) \<Rightarrow>
           letE (rangeHash sha nodes ls lsz) (\<lambda>l.
              letE (rangeHash sha nodes rs rsz) (\<lambda>r. Inr (merkleParentHash sha l r)))))"
  by pat_completeness auto
termination
  by (relation "measure (\<lambda>(_, _, _, n). n)") (auto dest: split_smaller)

declare rangeHash.simps [simp del]

function proof_visit ::
  "(string \<Rightarrow> string) \<Rightarrow> node_index \<Rightarrow> string \<Rightarrow> nat \<Rightarrow> nat \<Rightarrow> nat \<Rightarrow> (string \<times> proof_step list) result" where
  "proof_visit sha nodes entryHash sequence start cnt = (
     if cnt \<le> 1 then Inr (merkleLeafHash sha entryHash, []) else
     (case splitRange start cnt of ((ls, lsz), (rs, rsz)) \<Rightarrow>
      if sequence < rs
         then letE (proof_visit sha nodes entryHash sequence ls lsz) (\<lambda>res.
              letE (rangeHash sha nodes rs rsz) (\<lambda>hash.
                Inr (merkleParentHash sha (fst res) hash, snd res @ [\<lparr>ps_side = RightSide, ps_hash = hash\<rparr>])))
         else letE (proof_visit sha nodes entryHash sequence rs rsz) (\<lambda>res.
              letE (rangeHash sha nodes ls lsz) (\<lambda>hash.
                Inr (merkleParentHash sha hash (fst res), snd res @ [\<lparr>ps_side = LeftSide, ps_hash = hash\<rparr>])))))"
  by pat_completeness auto
termination
  by (relation "measure (\<lambda>(_, _, _, _, _, n). n)") (auto dest: split_smaller)

declare proof_visit.simps [simp del]

definition createMerkleProof ::
  "(string \<Rightarrow> string) \<Rightarrow> string \<Rightarrow> nat \<Rightarrow> nat \<Rightarrow> node_index \<Rightarrow> (string \<times> proof_step list) result" where
  "createMerkleProof sha entryHash sequence sz nodes = (
     if \<not> hash64 entryHash then Inl TypeErr else
     letE (requiredMerkleNodes sequence sz) (\<lambda>_. proof_visit sha nodes entryHash sequence 1 sz))"

function proof_sides :: "nat \<Rightarrow> nat \<Rightarrow> nat \<Rightarrow> side list" where
  "proof_sides sequence start sz = (
     if sz \<le> 1 then [] else
     (case splitRange start sz of ((ls, lsz), (rs, rsz)) \<Rightarrow>
      if sequence < rs then RightSide # proof_sides sequence ls lsz
         else LeftSide # proof_sides sequence rs rsz))"
  by pat_completeness auto
termination
  by (relation "measure (\<lambda>(_, _, n). n)") (auto dest: split_smaller)

declare proof_sides.simps [simp del]

definition merkleProofSides :: "nat \<Rightarrow> nat \<Rightarrow> side list result" where
  "merkleProofSides sequence sz = (
     if \<not> valid_range sequence sz then Inl TypeErr else Inr (rev (proof_sides sequence 1 sz)))"

text \<open>The loop of the verifier over the steps of the path; None is \<^verbatim>\<open>return false\<close>.\<close>

fun fold_path :: "(string \<Rightarrow> string) \<Rightarrow> side list \<Rightarrow> proof_step list \<Rightarrow> string \<Rightarrow> string option" where
  "fold_path sha (sd # sides) (step # path) hash = (
     if ps_side step \<noteq> sd \<or> \<not> hash64 (ps_hash step) then None
     else fold_path sha sides path (if ps_side step = LeftSide then merkleParentHash sha (ps_hash step) hash
                                    else merkleParentHash sha hash (ps_hash step)))"
| "fold_path sha sides path hash = Some hash"

definition verifyMerkleProof ::
  "(string \<Rightarrow> string) \<Rightarrow> string \<Rightarrow> nat \<Rightarrow> nat \<Rightarrow> proof_step list \<Rightarrow> string \<Rightarrow> bool" where
  "verifyMerkleProof sha entryHash sequence sz path expectedRoot = (
     if \<not> hash64 entryHash \<or> \<not> hash64 expectedRoot then False else
     (case merkleProofSides sequence sz of
        Inl e \<Rightarrow> False
      | Inr expectedSides \<Rightarrow>
          if length path \<noteq> length expectedSides then False
          else fold_path sha expectedSides path (merkleLeafHash sha entryHash) = Some expectedRoot))"

section \<open>Appending\<close>

function append_loop ::
  "(string \<Rightarrow> string) \<Rightarrow> (nat \<Rightarrow> nat \<Rightarrow> string option) \<Rightarrow> nat \<Rightarrow> merkle_node \<Rightarrow> merkle_node list \<Rightarrow> merkle_node list result" where
  "append_loop sha getNode sequence current acc = (
     if 0 < sequence \<and> sequence mod 2 ^ (nr_level current + 1) = 0 then
       (let leftStart = nr_start current - 2 ^ nr_level current
        in case getNode leftStart (nr_level current) of
             None \<Rightarrow> Inl TypeErr
           | Some l \<Rightarrow> if \<not> hash64 l then Inl TypeErr else
               (let nxt = \<lparr>nr_start = leftStart, nr_level = nr_level current + 1,
                            mn_hash = merkleParentHash sha l (mn_hash current)\<rparr>
                in append_loop sha getNode sequence nxt (acc @ [nxt])))
     else Inr acc)"
  by pat_completeness auto
termination
proof (relation "measure (\<lambda>(_, _, n, c, _). n - nr_level c)", goal_cases)
  case (2 sha getNode n c acc ls l nxt)
  have "nr_level c + 1 < 2 ^ (nr_level c + 1)" by (rule less_exp)
  moreover have "2 ^ (nr_level c + 1) \<le> n" using 2(1) by (metis dvd_imp_le mod_0_imp_dvd)
  ultimately show ?case using 2 by simp
qed simp

declare append_loop.simps [simp del]

definition merkleAppendNodes ::
  "(string \<Rightarrow> string) \<Rightarrow> nat \<Rightarrow> string \<Rightarrow> (nat \<Rightarrow> nat \<Rightarrow> string option) \<Rightarrow> merkle_node list result" where
  "merkleAppendNodes sha sequence entryHash getNode = (
     if max_safe < int sequence \<or> sequence < 1 then Inl TypeErr else
     (let first = \<lparr>nr_start = sequence, nr_level = 0, mn_hash = merkleLeafHash sha entryHash\<rparr>
      in append_loop sha getNode sequence first [first]))"


section \<open>The reference tree\<close>

text \<open>The hash of the subtree over entries \<^verbatim>\<open>s, ..., s + n - 1\<close> of the log \<^verbatim>\<open>f\<close>.\<close>

function mth :: "(string \<Rightarrow> string) \<Rightarrow> (nat \<Rightarrow> string) \<Rightarrow> nat \<Rightarrow> nat \<Rightarrow> string" where
  "mth sha f s n = (
     if n \<le> 1 then merkleLeafHash sha (f s)
     else merkleParentHash sha (mth sha f s (largestPowerBelow n))
            (mth sha f (s + largestPowerBelow n) (n - largestPowerBelow n)))"
  by pat_completeness auto
termination
  using power_below by (relation "measure (\<lambda>(_, _, _, n). n)") (auto simp: Suc_le_eq)

declare mth.simps [simp del]

lemma leaf_value_hashes: "hashJson sha (leaf_value e) = Inr (merkleLeafHash sha e)"
  by (simp add: merkleLeafHash_def hashJson_def leaf_value_def FORBIDDEN_KEYS_def)

lemma parent_value_hashes: "hashJson sha (parent_value l r) = Inr (merkleParentHash sha l r)"
  by (simp add: merkleParentHash_def hashJson_def parent_value_def FORBIDDEN_KEYS_def)

text \<open>
  A range of the shape the splits produce: it starts at a multiple of a power of two that
  is at least its size.
\<close>

definition aligned :: "nat \<Rightarrow> nat \<Rightarrow> bool" where
  "aligned s n = (1 \<le> s \<and> (\<exists>k. n \<le> 2 ^ k \<and> 2 ^ k dvd (s - 1)))"

lemma aligned_1: "aligned 1 n"
  using less_exp [of n] by (auto simp: aligned_def intro: exI [of _ n])

lemma aligned_split:
  assumes "aligned s n" "2 \<le> n"
  shows "aligned s (largestPowerBelow n)"
    "aligned (s + largestPowerBelow n) (n - largestPowerBelow n)"
proof -
  define m where "m = ilog2 (n - 1)"
  have L: "largestPowerBelow n = 2 ^ m" by (simp add: largestPowerBelow_def m_def)
  from assms(1) obtain k where k: "n \<le> 2 ^ k" "2 ^ k dvd (s - 1)" "1 \<le> s"
    by (auto simp: aligned_def)
  have "(2::nat) ^ m < 2 ^ k" using power_below(2) [OF assms(2)] k(1) unfolding L by (rule less_le_trans)
  then have "m < k" by (rule power_less_imp_less_exp [rotated]) simp
  then have dvd: "2 ^ m dvd (s - 1)" using k(2) by (meson dvd_trans le_imp_power_dvd less_imp_le)
  then show "aligned s (largestPowerBelow n)" using k(3) by (auto simp: aligned_def L)
  have "s + 2 ^ m - 1 = (s - 1) + 2 ^ m" using k(3) by simp
  then have "2 ^ m dvd (s + 2 ^ m - 1)" using dvd by (metis dvd_add dvd_refl)
  moreover have "n - 2 ^ m \<le> 2 ^ m" using power_below(3) [OF assms(2)] L by simp
  ultimately show "aligned (s + largestPowerBelow n) (n - largestPowerBelow n)"
    using k(3) by (auto simp: aligned_def L)
qed

lemma aligned_complete: "aligned s (2 ^ k) \<Longrightarrow> 2 ^ k dvd (s - 1)"
  unfolding aligned_def by (metis dvd_trans le_imp_power_dvd power_increasing_iff one_less_numeral_iff semiring_norm(76))

lemma complete_size_iff: "complete_size n \<longleftrightarrow> (\<exists>k. n = 2 ^ k)"
  unfolding complete_size_def by (metis ilog2_power power_0)

lemma mth_double:
  "mth sha f s (2 ^ Suc k) = merkleParentHash sha (mth sha f s (2 ^ k)) (mth sha f (s + 2 ^ k) (2 ^ k))"
proof -
  have "ilog2 (2 ^ Suc k - 1) = k"
    using one_le_power [of "2::nat" k] by (intro ilog2_unique) (simp_all del: one_le_power)
  then have "largestPowerBelow (2 ^ Suc k) = 2 ^ k" by (simp only: largestPowerBelow_def)
  moreover have "\<not> 2 ^ Suc k \<le> (1::nat)" using less_exp [of "Suc k"] by simp
  ultimately show ?thesis by (subst mth.simps) simp
qed

text \<open>Keys of distinct nodes are distinct.\<close>

lemma merkleNodeKey_inj [simp]: "merkleNodeKey s l = merkleNodeKey s' l' \<longleftrightarrow> s = s' \<and> l = l'"
proof -
  have "takeWhile is_digit (merkleNodeKey s l) = nat_text s" for s l
    using nat_text_digits [of s]
    by (simp add: merkleNodeKey_def takeWhile_append2 is_digit_def list_all_iff)
  then have "merkleNodeKey s l = merkleNodeKey s' l' \<Longrightarrow> nat_text s = nat_text s'" by metis
  then show ?thesis by (auto simp: merkleNodeKey_def)
qed

section \<open>The index of complete subtrees\<close>

text \<open>Every complete subtree over the first \<^verbatim>\<open>N\<close> entries is stored under its key.\<close>

definition complete_node :: "nat \<Rightarrow> nat \<Rightarrow> nat \<Rightarrow> bool" where
  "complete_node N s l = (1 \<le> s \<and> 2 ^ l dvd (s - 1) \<and> s - 1 + 2 ^ l \<le> N)"

definition merkle_index :: "(string \<Rightarrow> string) \<Rightarrow> (nat \<Rightarrow> string) \<Rightarrow> nat \<Rightarrow> node_index \<Rightarrow> bool" where
  "merkle_index sha f N nodes =
     (\<forall>s l. complete_node N s l \<longrightarrow> nodes (merkleNodeKey s l) = Some (mth sha f s (2 ^ l)))"

definition hex_hash :: "(string \<Rightarrow> string) \<Rightarrow> bool" where
  "hex_hash sha = (\<forall>x. hash64 (sha x))"

lemma hash64_hashJson: "hashJson sha v = Inr h \<Longrightarrow> hex_hash sha \<Longrightarrow> hash64 h"
  by (auto simp: hashJson_def letE_eq_Inr hex_hash_def)

lemma hash64_leaf: "hex_hash sha \<Longrightarrow> hash64 (merkleLeafHash sha e)"
  by (rule hash64_hashJson [OF leaf_value_hashes])

lemma hash64_parent: "hex_hash sha \<Longrightarrow> hash64 (merkleParentHash sha l r)"
  by (rule hash64_hashJson [OF parent_value_hashes])

lemma hash64_mth: "hex_hash sha \<Longrightarrow> hash64 (mth sha f s n)"
  by (subst mth.simps) (simp add: hash64_leaf hash64_parent)

lemma nodeHash_index:
  "merkle_index sha f N nodes \<Longrightarrow> hex_hash sha \<Longrightarrow> complete_node N s l \<Longrightarrow>
    nodeHash nodes s l = Inr (mth sha f s (2 ^ l))"
  by (simp add: nodeHash_def merkle_index_def hash64_mth)

text \<open>Splitting a range, in the form every induction over ranges uses.\<close>

lemma splitRange_eq: "splitRange s n =
    ((s, largestPowerBelow n), (s + largestPowerBelow n, n - largestPowerBelow n))"
  by (simp add: splitRange_def Let_def)

lemma range_induct [case_names single split]:
  assumes "\<And>s n. n \<le> 1 \<Longrightarrow> P s n"
    and "\<And>s n. 2 \<le> n \<Longrightarrow> P s (largestPowerBelow n) \<Longrightarrow>
           P (s + largestPowerBelow n) (n - largestPowerBelow n) \<Longrightarrow> P s n"
  shows "P s (n::nat)"
proof (induction n arbitrary: s rule: less_induct)
  case (less n)
  show ?case
  proof (cases "n \<le> 1")
    case False
    then have "2 \<le> n" by simp
    with assms(2) less power_below [OF this] show ?thesis by simp
  qed (simp add: assms(1))
qed


lemma complete_node_range:
  assumes "aligned s n" "1 \<le> n" "complete_size n" "s - 1 + n \<le> N"
  shows "complete_node N s (ilog2 n)" "2 ^ ilog2 n = n"
proof -
  from assms(3) obtain k where n: "n = 2 ^ k" by (auto simp: complete_size_iff)
  then show "2 ^ ilog2 n = n" by simp
  show "complete_node N s (ilog2 n)"
    using assms(1,4) aligned_complete [of s k] by (simp add: n complete_node_def aligned_def)
qed

lemma complete_size_1: "n \<le> 1 \<Longrightarrow> 1 \<le> n \<Longrightarrow> complete_size n"
  by (simp add: complete_size_def)

lemma rangeHash_index:
  assumes index: "merkle_index sha f N nodes" and hex: "hex_hash sha"
  shows "aligned s n \<Longrightarrow> 1 \<le> n \<Longrightarrow> s - 1 + n \<le> N \<Longrightarrow> rangeHash sha nodes s n = Inr (mth sha f s n)"
proof (induction s n rule: range_induct)
  case (single s n)
  then show ?case
    using nodeHash_index [OF index hex, of s "ilog2 n"] complete_node_range [of s n N] complete_size_1
    by (simp add: rangeHash.simps [of sha nodes s n])
next
  case (split s n)
  show ?case
  proof (cases "complete_size n")
    case True
    then show ?thesis
      using nodeHash_index [OF index hex, of s "ilog2 n"] complete_node_range [of s n N] split.prems
      by (simp add: rangeHash.simps [of sha nodes s n])
  next
    case False
    then show ?thesis
      using split aligned_split [of s n] power_below [of n]
      by (subst rangeHash.simps, subst mth.simps) (auto simp: splitRange_eq aligned_def)
  qed
qed

section \<open>Created proofs verify\<close>

lemma fold_path_snoc:
  "length sides = length path \<Longrightarrow>
   fold_path sha (sides @ [sd]) (path @ [step]) h =
     Option.bind (fold_path sha sides path h) (\<lambda>h'. fold_path sha [sd] [step] h')"
  by (induction sides path arbitrary: h rule: list_induct2) auto

lemma proof_visit_index:
  assumes index: "merkle_index sha f N nodes" and hex: "hex_hash sha"
  shows "aligned s n \<Longrightarrow> s \<le> i \<Longrightarrow> i < s + n \<Longrightarrow> s - 1 + n \<le> N \<Longrightarrow>
    \<exists>path. proof_visit sha nodes (f i) i s n = Inr (mth sha f s n, path)
      \<and> length path = length (proof_sides i s n)
      \<and> fold_path sha (rev (proof_sides i s n)) path (merkleLeafHash sha (f i)) = Some (mth sha f s n)"
proof (induction s n rule: range_induct)
  case (single s n)
  then have "i = s" "n = 1" by auto
  then show ?case by (simp add: proof_visit.simps [of _ _ _ _ _ "Suc 0"] proof_sides.simps [of _ _ "Suc 0"] mth.simps [of _ _ _ "Suc 0"])
next
  case (split s n)
  let ?L = "largestPowerBelow n"
  note L = power_below [OF split.hyps] and al = aligned_split [OF split.prems(1) split.hyps]
  have hl: "rangeHash sha nodes s ?L = Inr (mth sha f s ?L)"
    using rangeHash_index [OF index hex al(1) L(1)] L split.prems by simp
  have hr: "rangeHash sha nodes (s + ?L) (n - ?L) = Inr (mth sha f (s + ?L) (n - ?L))"
    using rangeHash_index [OF index hex al(2)] L split.prems by simp
  have s1: "1 \<le> s" using split.prems(1) by (simp add: aligned_def)
  have hex64: "hash64 (mth sha f s' n')" for s' n' by (rule hash64_mth [OF hex])
  note unfold = proof_visit.simps [of sha nodes "f i" i s n] proof_sides.simps [of i s n] mth.simps [of sha f s n]
  show ?case
  proof (cases "i < s + ?L")
    case True
    with split.IH(1) al L split.prems obtain path where
      "proof_visit sha nodes (f i) i s ?L = Inr (mth sha f s ?L, path)"
      "length path = length (proof_sides i s ?L)"
      "fold_path sha (rev (proof_sides i s ?L)) path (merkleLeafHash sha (f i)) = Some (mth sha f s ?L)"
      by auto
    with True hr hex64 split.hyps show ?thesis
      by (simp add: unfold splitRange_eq fold_path_snoc)
  next
    case False
    with split.IH(2) al L split.prems s1 obtain path where
      "proof_visit sha nodes (f i) i (s + ?L) (n - ?L) = Inr (mth sha f (s + ?L) (n - ?L), path)"
      "length path = length (proof_sides i (s + ?L) (n - ?L))"
      "fold_path sha (rev (proof_sides i (s + ?L) (n - ?L))) path (merkleLeafHash sha (f i))
        = Some (mth sha f (s + ?L) (n - ?L))"
      by auto
    with False hl hex64 split.hyps show ?thesis
      by (simp add: unfold splitRange_eq fold_path_snoc)
  qed
qed

lemma create_then_verify:
  assumes "merkle_index sha f N nodes" "hex_hash sha" "hash64 (f i)" "valid_range i n" "n \<le> N"
  shows "\<exists>path. createMerkleProof sha (f i) i n nodes = Inr (mth sha f 1 n, path)
    \<and> verifyMerkleProof sha (f i) i n path (mth sha f 1 n)"
proof -
  from assms obtain path where "proof_visit sha nodes (f i) i 1 n = Inr (mth sha f 1 n, path)"
    "length path = length (proof_sides i 1 n)"
    "fold_path sha (rev (proof_sides i 1 n)) path (merkleLeafHash sha (f i)) = Some (mth sha f 1 n)"
    using proof_visit_index [OF assms(1,2) aligned_1, of i n] by (auto simp: valid_range_def)
  with assms hash64_mth [OF assms(2), of f 1 n] show ?thesis
    by (simp add: createMerkleProof_def verifyMerkleProof_def requiredMerkleNodes_def merkleProofSides_def)
qed


section \<open>Soundness of the verifier\<close>

text \<open>The texts that are hashed: for a leaf, for a parent, by the verifier, by the tree.\<close>

definition leaf_text :: "string \<Rightarrow> string" where
  "leaf_text e = projr (canonicalize (leaf_value e))"

definition parent_text :: "string \<Rightarrow> string \<Rightarrow> string" where
  "parent_text l r = projr (canonicalize (parent_value l r))"

lemma canonicalize_leaf: "canonicalize (leaf_value e) = Inr (leaf_text e)"
  by (simp add: leaf_text_def leaf_value_def FORBIDDEN_KEYS_def)

lemma canonicalize_parent: "canonicalize (parent_value l r) = Inr (parent_text l r)"
  by (simp add: parent_text_def parent_value_def FORBIDDEN_KEYS_def)

lemma merkleLeafHash_text: "merkleLeafHash sha e = sha (leaf_text e)"
  by (simp add: merkleLeafHash_def hashJson_def canonicalize_leaf)

lemma merkleParentHash_text: "merkleParentHash sha l r = sha (parent_text l r)"
  by (simp add: merkleParentHash_def hashJson_def canonicalize_parent)

lemma leaf_text_inj: "leaf_text e = leaf_text e' \<Longrightarrow> e = e'"
  using canonicalize_inj [of "leaf_value e" "leaf_text e" "leaf_value e'"] canonicalize_leaf
  by (simp add: leaf_value_def)

lemma parent_text_inj: "parent_text l r = parent_text l' r' \<Longrightarrow> l = l' \<and> r = r'"
  using canonicalize_inj [of "parent_value l r" "parent_text l r" "parent_value l' r'"] canonicalize_parent
  by (simp add: parent_value_def)

fun path_texts :: "(string \<Rightarrow> string) \<Rightarrow> proof_step list \<Rightarrow> string \<Rightarrow> string list" where
  "path_texts sha [] h = []"
| "path_texts sha (step # path) h =
     (let m = (if ps_side step = LeftSide then parent_text (ps_hash step) h else parent_text h (ps_hash step))
      in m # path_texts sha path (sha m))"

definition verifier_texts :: "(string \<Rightarrow> string) \<Rightarrow> string \<Rightarrow> proof_step list \<Rightarrow> string list" where
  "verifier_texts sha e path = leaf_text e # path_texts sha path (merkleLeafHash sha e)"

function tree_texts :: "(string \<Rightarrow> string) \<Rightarrow> (nat \<Rightarrow> string) \<Rightarrow> nat \<Rightarrow> nat \<Rightarrow> string list" where
  "tree_texts sha f s n = (
     if n \<le> 1 then [leaf_text (f s)]
     else parent_text (mth sha f s (largestPowerBelow n)) (mth sha f (s + largestPowerBelow n) (n - largestPowerBelow n))
        # tree_texts sha f s (largestPowerBelow n)
        @ tree_texts sha f (s + largestPowerBelow n) (n - largestPowerBelow n))"
  by pat_completeness auto
termination
  using power_below by (relation "measure (\<lambda>(_, _, _, n). n)") (auto simp: Suc_le_eq)

declare tree_texts.simps [simp del]

definition collision :: "(string \<Rightarrow> string) \<Rightarrow> string list \<Rightarrow> string list \<Rightarrow> bool" where
  "collision sha xs ys = (\<exists>x\<in>set xs. \<exists>y\<in>set ys. x \<noteq> y \<and> sha x = sha y)"

lemma collision_mono:
  "collision sha xs ys \<Longrightarrow> set xs \<subseteq> set xs' \<Longrightarrow> set ys \<subseteq> set ys' \<Longrightarrow> collision sha xs' ys'"
  unfolding collision_def by blast

lemma path_texts_append:
  "fold_path sha sides path h = Some h' \<Longrightarrow> length sides = length path \<Longrightarrow>
    path_texts sha (path @ path') h = path_texts sha path h @ path_texts sha path' h'"
proof (induction sha sides path h rule: fold_path.induct)
  case (1 sha sd sides step path h)
  then show ?case
    by (auto simp: Let_def merkleParentHash_text split: if_splits)
qed simp_all

lemma fold_path_sound:
  assumes "fold_path sha (rev (proof_sides i s n)) path (merkleLeafHash sha e) = Some (mth sha f s n)"
    "length path = length (proof_sides i s n)" "s \<le> i" "i < s + n"
  shows "e = f i \<or> collision sha (verifier_texts sha e path) (tree_texts sha f s n)"
  using assms
proof (induction s n arbitrary: path rule: range_induct)
  case (single s n)
  then have "i = s" by simp
  with single show ?case
    using leaf_text_inj [of e "f s"]
    by (auto simp: proof_sides.simps [of _ s n] mth.simps [of _ _ s n] tree_texts.simps [of _ _ s n]
        verifier_texts_def collision_def merkleLeafHash_text)
next
  case (split s n)
  let ?L = "largestPowerBelow n"
  define t where "t = (if i < s + ?L then s else s + ?L)"
  define m where "m = (if i < s + ?L then ?L else n - ?L)"
  define sd where "sd = (if i < s + ?L then RightSide else LeftSide)"
  have sides: "proof_sides i s n = sd # proof_sides i t m"
    using split.hyps by (simp add: proof_sides.simps [of i s n] splitRange_eq t_def m_def sd_def)
  with split.prems(2) obtain path' step where path: "path = path' @ [step]"
    "length path' = length (proof_sides i t m)"
    by (metis append_butlast_last_id length_butlast length_0_conv list.size(4) diff_add_inverse2 nat.simps(3) One_nat_def add_Suc_right add_0_right)
  with split.prems(1) sides obtain h' where
    h': "fold_path sha (rev (proof_sides i t m)) path' (merkleLeafHash sha e) = Some h'" and
    last: "fold_path sha [sd] [step] h' = Some (mth sha f s n)"
    by (auto simp: fold_path_snoc bind_eq_Some_conv)
  define l r where "l = mth sha f s ?L" and "r = mth sha f (s + ?L) (n - ?L)"
  define x where "x = (if sd = LeftSide then parent_text (ps_hash step) h' else parent_text h' (ps_hash step))"
  have root: "mth sha f s n = sha (parent_text l r)"
    using split.hyps by (simp add: mth.simps [of sha f s n] merkleParentHash_text l_def r_def)
  have x: "sha x = sha (parent_text l r)"
    using last root by (auto simp: x_def merkleParentHash_text split: if_splits)
  have step: "ps_side step = sd" using last by (auto split: if_splits)
  have texts: "verifier_texts sha e path = verifier_texts sha e path' @ [x]"
    using path_texts_append [OF h'] path step by (simp add: verifier_texts_def x_def Let_def)
  have tree: "set (tree_texts sha f t m) \<subseteq> set (tree_texts sha f s n)" "parent_text l r \<in> set (tree_texts sha f s n)"
    using split.hyps by (auto simp: tree_texts.simps [of sha f s n] t_def m_def l_def r_def)
  show ?case
  proof (cases "x = parent_text l r")
    case False
    with x texts tree(2) show ?thesis by (auto simp: collision_def)
  next
    case True
    then have "h' = mth sha f t m"
      by (auto simp: x_def sd_def t_def m_def l_def r_def dest!: parent_text_inj split: if_splits)
    with h' have fp: "fold_path sha (rev (proof_sides i t m)) path' (merkleLeafHash sha e) = Some (mth sha f t m)"
      by simp
    have "e = f i \<or> collision sha (verifier_texts sha e path') (tree_texts sha f t m)"
    proof (cases "i < s + ?L")
      case True
      then have tm: "t = s" "m = ?L" by (simp_all add: t_def m_def)
      show ?thesis using split.IH(1) [of path'] fp path(2) split.prems(3) True unfolding tm by blast
    next
      case False
      then have tm: "t = s + ?L" "m = n - ?L" by (simp_all add: t_def m_def)
      show ?thesis
        using split.IH(2) [of path'] fp path(2) split.prems(4) False power_below(2) [OF split.hyps] unfolding tm by simp
    qed
    then show ?thesis using texts tree(1) by (auto simp: collision_def)
  qed
qed


lemma verify_sound:
  assumes "verifyMerkleProof sha e i n path (mth sha f 1 n)"
  shows "e = f i \<or> collision sha (verifier_texts sha e path) (tree_texts sha f 1 n)"
  using assms fold_path_sound [of sha i 1 n path e f]
  by (auto simp: verifyMerkleProof_def merkleProofSides_def valid_range_def split: if_splits)

section \<open>The nodes a proof reads\<close>

definition node_keys :: "node_range list \<Rightarrow> string set" where
  "node_keys rs = (\<lambda>r. merkleNodeKey (nr_start r) (nr_level r)) ` set rs"

lemma set_add_nodes: "set (add_nodes nodes new) = set nodes \<union> set new"
  unfolding add_nodes_def by (induction new arbitrary: nodes) auto

lemma set_required_visit:
  "set (required_visit i s n nodes) = set nodes \<union> set (required_visit i s n [])"
proof (induction s n arbitrary: nodes rule: range_induct)
  case (single s n)
  then show ?case by (simp add: required_visit.simps [of i s n])
next
  case (split s n)
  let ?L = "largestPowerBelow n"
  show ?case
  proof (cases "i < s + ?L")
    case True
    let ?R = "completeNodeRanges (s + ?L) (n - ?L)"
    show ?thesis
      using True split.hyps split.IH(1) [of "add_nodes nodes ?R"] split.IH(1) [of "add_nodes [] ?R"]
      by (simp add: required_visit.simps [of i s n] splitRange_eq set_add_nodes Un_assoc)
  next
    case False
    let ?R = "completeNodeRanges s ?L"
    show ?thesis
      using False split.hyps split.IH(2) [of "add_nodes nodes ?R"] split.IH(2) [of "add_nodes [] ?R"]
      by (simp add: required_visit.simps [of i s n] splitRange_eq set_add_nodes Un_assoc)
  qed
qed

lemma completeNodeRanges_complete:
  "aligned s n \<Longrightarrow> 1 \<le> n \<Longrightarrow> s - 1 + n \<le> N \<Longrightarrow> r \<in> set (completeNodeRanges s n) \<Longrightarrow>
    complete_node N (nr_start r) (nr_level r)"
proof (induction s n arbitrary: r rule: range_induct)
  case (single s n)
  then show ?case
    using complete_node_range [of s n N] complete_size_1 by (simp add: completeNodeRanges.simps [of s n])
next
  case (split s n)
  then show ?case
    using complete_node_range [of s n N] aligned_split [of s n] power_below [of n]
    by (cases "complete_size n")
      (auto simp: completeNodeRanges.simps [of s n] splitRange_eq aligned_def)
qed

lemma required_complete:
  "aligned s n \<Longrightarrow> 1 \<le> n \<Longrightarrow> s - 1 + n \<le> N \<Longrightarrow> r \<in> set (required_visit i s n []) \<Longrightarrow>
    complete_node N (nr_start r) (nr_level r)"
proof (induction s n arbitrary: r rule: range_induct)
  case (single s n)
  then show ?case by (simp add: required_visit.simps [of i s n])
next
  case (split s n)
  let ?L = "largestPowerBelow n"
  note al = aligned_split [OF split.prems(1) split.hyps] and L = power_below [OF split.hyps]
  have s1: "1 \<le> s" using split.prems(1) by (simp add: aligned_def)
  show ?case
  proof (cases "i < s + ?L")
    case True
    with split.prems(4) split.hyps
    have "r \<in> set (completeNodeRanges (s + ?L) (n - ?L)) \<or> r \<in> set (required_visit i s ?L [])"
      using set_required_visit [of i s ?L "add_nodes [] (completeNodeRanges (s + ?L) (n - ?L))"]
      by (simp add: required_visit.simps [of i s n] splitRange_eq set_add_nodes)
    then show ?thesis
      using split.IH(1) [OF al(1) L(1)] completeNodeRanges_complete [OF al(2)] split.prems(3) L s1 by auto
  next
    case False
    with split.prems(4) split.hyps
    have "r \<in> set (completeNodeRanges s ?L) \<or> r \<in> set (required_visit i (s + ?L) (n - ?L) [])"
      using set_required_visit [of i "s + ?L" "n - ?L" "add_nodes [] (completeNodeRanges s ?L)"]
      by (simp add: required_visit.simps [of i s n] splitRange_eq set_add_nodes)
    then show ?thesis
      using split.IH(2) [OF al(2)] completeNodeRanges_complete [OF al(1) L(1)] split.prems(3) L s1 by auto
  qed
qed

lemma nodeHash_restrict:
  "merkleNodeKey s l \<in> K \<Longrightarrow> nodeHash (nodes |` K) s l = nodeHash nodes s l"
  by (simp add: nodeHash_def)

lemma rangeHash_restrict:
  "node_keys (completeNodeRanges s n) \<subseteq> K \<Longrightarrow> rangeHash sha (nodes |` K) s n = rangeHash sha nodes s n"
proof (induction s n rule: range_induct)
  case (single s n)
  then show ?case
    by (simp add: rangeHash.simps [of _ _ s n] completeNodeRanges.simps [of s n] node_keys_def nodeHash_restrict)
next
  case (split s n)
  then show ?case
    by (cases "complete_size n")
      (simp_all add: rangeHash.simps [of _ _ s n] completeNodeRanges.simps [of s n] node_keys_def
        nodeHash_restrict splitRange_eq image_Un)
qed

lemma proof_visit_restrict:
  "node_keys (required_visit i s n []) \<subseteq> K \<Longrightarrow>
    proof_visit sha (nodes |` K) e i s n = proof_visit sha nodes e i s n"
proof (induction s n rule: range_induct)
  case (single s n)
  then show ?case by (simp add: proof_visit.simps [of _ _ _ _ s n])
next
  case (split s n)
  let ?L = "largestPowerBelow n"
  show ?case
  proof (cases "i < s + ?L")
    case True
    with split.prems split.hyps
    have "node_keys (completeNodeRanges (s + ?L) (n - ?L)) \<subseteq> K" "node_keys (required_visit i s ?L []) \<subseteq> K"
      using set_required_visit [of i s ?L "add_nodes [] (completeNodeRanges (s + ?L) (n - ?L))"]
      by (auto simp: required_visit.simps [of i s n] splitRange_eq set_add_nodes node_keys_def)
    then show ?thesis
      using split.IH(1) rangeHash_restrict True split.hyps
      by (simp add: proof_visit.simps [of _ _ _ i s n] splitRange_eq)
  next
    case False
    with split.prems split.hyps
    have "node_keys (completeNodeRanges s ?L) \<subseteq> K" "node_keys (required_visit i (s + ?L) (n - ?L) []) \<subseteq> K"
      using set_required_visit [of i "s + ?L" "n - ?L" "add_nodes [] (completeNodeRanges s ?L)"]
      by (auto simp: required_visit.simps [of i s n] splitRange_eq set_add_nodes node_keys_def)
    then show ?thesis
      using split.IH(2) rangeHash_restrict False split.hyps
      by (simp add: proof_visit.simps [of _ _ _ i s n] splitRange_eq)
  qed
qed

text \<open>The path has at most one step per level of the tree.\<close>

lemma proof_sides_length: "n \<le> 2 ^ k \<Longrightarrow> length (proof_sides i s n) \<le> k"
proof (induction k arbitrary: s n)
  case 0
  then show ?case by (simp add: proof_sides.simps [of i s n])
next
  case (Suc k)
  show ?case
  proof (cases "n \<le> 1")
    case True
    then show ?thesis by (simp add: proof_sides.simps [of i s n])
  next
    case False
    then have n: "2 \<le> n" by simp
    obtain m where m: "largestPowerBelow n = 2 ^ m" by (simp add: largestPowerBelow_def)
    have "(2::nat) ^ m < 2 ^ Suc k"
      using power_below(2) [OF n] Suc.prems unfolding m by (rule less_le_trans)
    then have "m < Suc k" by (rule power_less_imp_less_exp [rotated]) simp
    then have L: "largestPowerBelow n \<le> 2 ^ k" by (simp add: m)
    with power_below(3) [OF n] have "n - largestPowerBelow n \<le> 2 ^ k" by simp
    with L Suc.IH False show ?thesis
      by (simp add: proof_sides.simps [of i s n] splitRange_eq)
  qed
qed


section \<open>Appending keeps the index\<close>

text \<open>The node of a level whose range ends at the entry being appended.\<close>

definition end_node :: "(string \<Rightarrow> string) \<Rightarrow> (nat \<Rightarrow> string) \<Rightarrow> nat \<Rightarrow> nat \<Rightarrow> merkle_node" where
  "end_node sha f n l = \<lparr>nr_start = n - 2 ^ l + 1, nr_level = l, mn_hash = mth sha f (n - 2 ^ l + 1) (2 ^ l)\<rparr>"

lemma append_loop_end_nodes:
  assumes index: "merkle_index sha f N nodes" and hex: "hex_hash sha" and n: "n = Suc N"
  shows "2 ^ l dvd n \<Longrightarrow> \<exists>top. l \<le> top \<and> 2 ^ top dvd n \<and> \<not> 2 ^ Suc top dvd n \<and>
    append_loop sha (\<lambda>s l. nodes (merkleNodeKey s l)) n (end_node sha f n l) acc
      = Inr (acc @ map (end_node sha f n) [Suc l..<Suc top])"
proof (induction "n - l" arbitrary: l acc rule: less_induct)
  case less
  let ?get = "\<lambda>s l. nodes (merkleNodeKey s l)"
  show ?case
  proof (cases "2 ^ Suc l dvd n")
    case False
    then have "append_loop sha ?get n (end_node sha f n l) acc = Inr acc"
      using n by (subst append_loop.simps) (auto simp: end_node_def dvd_eq_mod_eq_0)
    with False less.prems show ?thesis by (intro exI [of _ l]) simp
  next
    case True
    then have le: "2 ^ Suc l \<le> n" using n by (intro dvd_imp_le) simp_all
    let ?s = "n - 2 ^ Suc l + 1"
    have start: "nr_start (end_node sha f n l) - 2 ^ l = ?s" "?s + 2 ^ l = n - 2 ^ l + 1"
      using le by (simp_all add: end_node_def)
    have "2 ^ l dvd (?s - 1)"
      using True less.prems by (simp add: dvd_diff_nat)
    moreover have "n - 2 ^ l < n" using n by (intro diff_less) simp_all
    then have "n - 2 ^ l \<le> N" using n by linarith
    then have "?s - 1 + 2 ^ l \<le> N" using start(2) by linarith
    ultimately have "complete_node N ?s l" by (simp only: complete_node_def) simp
    then have get: "?get ?s l = Some (mth sha f ?s (2 ^ l))"
      using index by (auto simp: merkle_index_def)
    have parent: "merkleParentHash sha (mth sha f ?s (2 ^ l)) (mn_hash (end_node sha f n l)) = mth sha f ?s (2 ^ Suc l)"
      unfolding mth_double start(2) by (simp add: end_node_def)
    have step: "append_loop sha ?get n (end_node sha f n l) acc
        = append_loop sha ?get n (end_node sha f n (Suc l)) (acc @ [end_node sha f n (Suc l)])"
      using True n get parent start(1) hash64_mth [OF hex, of f ?s "2 ^ l"]
      by (subst append_loop.simps) (simp add: Let_def dvd_eq_mod_eq_0 end_node_def)
    have "l < n" using le less_exp [of "Suc l"] by simp
    then have "n - Suc l < n - l" by simp
    with less.hyps [of "Suc l" "acc @ [end_node sha f n (Suc l)]"] True obtain top where top:
      "Suc l \<le> top" "2 ^ top dvd n" "\<not> 2 ^ Suc top dvd n"
      "append_loop sha ?get n (end_node sha f n (Suc l)) (acc @ [end_node sha f n (Suc l)])
        = Inr ((acc @ [end_node sha f n (Suc l)]) @ map (end_node sha f n) [Suc (Suc l)..<Suc top])"
      by blast
    moreover have "[Suc l..<Suc top] = Suc l # [Suc (Suc l)..<Suc top]"
      using top(1) by (simp add: upt_conv_Cons)
    ultimately show ?thesis unfolding step by (intro exI [of _ top]) simp
  qed
qed

text \<open>What the store does with the new nodes: it sets them in the index.\<close>

definition store_nodes :: "node_index \<Rightarrow> merkle_node list \<Rightarrow> node_index" where
  "store_nodes nodes new = fold (\<lambda>n m. m(merkleNodeKey (nr_start n) (nr_level n) \<mapsto> mn_hash n)) new nodes"

lemma store_nodes_other:
  "(\<And>n. n \<in> set new \<Longrightarrow> key \<noteq> merkleNodeKey (nr_start n) (nr_level n)) \<Longrightarrow> store_nodes nodes new key = nodes key"
  unfolding store_nodes_def by (induction new arbitrary: nodes) auto

lemma store_nodes_same:
  "n \<in> set new \<Longrightarrow> distinct (map nr_level new) \<Longrightarrow>
    store_nodes nodes new (merkleNodeKey (nr_start n) (nr_level n)) = Some (mn_hash n)"
proof (induction new arbitrary: nodes)
  case (Cons m new)
  have step: "store_nodes nodes (m # new) = store_nodes (nodes(merkleNodeKey (nr_start m) (nr_level m) \<mapsto> mn_hash m)) new" for nodes
    by (simp add: store_nodes_def)
  show ?case
  proof (cases "n \<in> set new")
    case False
    with Cons.prems have nm: "n = m" by simp
    have "merkleNodeKey (nr_start n) (nr_level n) \<noteq> merkleNodeKey (nr_start k) (nr_level k)" if "k \<in> set new" for k
      using Cons.prems(2) that nm by auto
    then show ?thesis unfolding step nm by (subst store_nodes_other) simp_all
  qed (use Cons step in simp)
qed simp

lemma append_index:
  assumes index: "merkle_index sha f N nodes" and hex: "hex_hash sha" and N: "int (Suc N) \<le> max_safe"
  shows "\<exists>new. merkleAppendNodes sha (Suc N) (f (Suc N)) (\<lambda>s l. nodes (merkleNodeKey s l)) = Inr new
    \<and> merkle_index sha f (Suc N) (store_nodes nodes new)"
proof -
  let ?n = "Suc N"
  have first: "\<lparr>nr_start = ?n, nr_level = 0, mn_hash = merkleLeafHash sha (f ?n)\<rparr> = end_node sha f ?n 0"
    by (simp add: end_node_def mth.simps [of _ _ _ "Suc 0"])
  obtain top where top: "2 ^ top dvd ?n" "\<not> 2 ^ Suc top dvd ?n"
    "append_loop sha (\<lambda>s l. nodes (merkleNodeKey s l)) ?n (end_node sha f ?n 0) [end_node sha f ?n 0]
      = Inr ([end_node sha f ?n 0] @ map (end_node sha f ?n) [Suc 0..<Suc top])"
    using append_loop_end_nodes [OF index hex, of ?n 0 "[end_node sha f ?n 0]"] by auto
  have "[0..<Suc top] = 0 # [Suc 0..<Suc top]" by (simp only: upt_conv_Cons [OF zero_less_Suc])
  with top(3) N have append: "merkleAppendNodes sha ?n (f ?n) (\<lambda>s l. nodes (merkleNodeKey s l))
      = Inr (map (end_node sha f ?n) [0..<Suc top])" (is "_ = Inr ?new")
    unfolding merkleAppendNodes_def Let_def first by (simp del: upt_Suc)
  have "store_nodes nodes ?new (merkleNodeKey s l) = Some (mth sha f s (2 ^ l))" if c: "complete_node ?n s l" for s l
  proof (cases "s - 1 + 2 ^ l = ?n")
    case True
    with c have sl: "s = ?n - 2 ^ l + 1" "2 ^ l dvd (s - 1)" "2 ^ l \<le> ?n" by (auto simp: complete_node_def)
    have "2 ^ l dvd (s - 1) + 2 ^ l" using sl(2) by (intro dvd_add) simp_all
    then have "2 ^ l dvd ?n" by (simp only: True)
    then have "l \<le> top" using top(2) by (meson dvd_trans le_imp_power_dvd not_less_eq_eq)
    then have mem: "end_node sha f ?n l \<in> set ?new" by (simp del: upt_Suc)
    have "distinct (map nr_level ?new)"
      by (simp add: comp_def end_node_def del: upt_Suc)
    from store_nodes_same [OF mem this, of nodes] sl(1) show ?thesis by (simp add: end_node_def)
  next
    case False
    with c have "complete_node N s l" by (auto simp: complete_node_def)
    then have "nodes (merkleNodeKey s l) = Some (mth sha f s (2 ^ l))" using index by (auto simp: merkle_index_def)
    moreover have "merkleNodeKey s l \<noteq> merkleNodeKey (nr_start k) (nr_level k)" if k: "k \<in> set ?new" for k
    proof
      from k obtain l' where l': "k = end_node sha f ?n l'" "l' \<le> top" by (auto simp del: upt_Suc)
      have "2 ^ l' dvd ?n" using top(1) l'(2) by (meson dvd_trans le_imp_power_dvd)
      then have "2 ^ l' \<le> ?n" by (intro dvd_imp_le) simp_all
      moreover assume "merkleNodeKey s l = merkleNodeKey (nr_start k) (nr_level k)"
      ultimately show False using False l'(1) by (simp add: end_node_def)
    qed
    ultimately show ?thesis by (subst store_nodes_other) auto
  qed
  then show ?thesis using append by (auto simp: merkle_index_def)
qed

lemma index_0: "merkle_index sha f 0 nodes"
  by (simp add: merkle_index_def complete_node_def)

lemma merkle_index_cong:
  assumes "\<And>i. 1 \<le> i \<Longrightarrow> i \<le> N \<Longrightarrow> f i = g i"
  shows "merkle_index sha f N nodes = merkle_index sha g N nodes"
proof -
  have "mth sha f s n = mth sha g s n" if "1 \<le> s" "1 \<le> n" "s - 1 + n \<le> N" for s n
    using that
  proof (induction s n rule: range_induct)
    case (single s n)
    then show ?case using assms [of s] by (simp add: mth.simps [of _ _ s n])
  next
    case (split s n)
    then show ?case using power_below [of n] by (simp add: mth.simps [of _ _ s n])
  qed
  then show ?thesis
    by (auto simp: merkle_index_def complete_node_def)
qed

section \<open>The log as it grows\<close>

text \<open>The index after appending the entries \<^verbatim>\<open>f 1, ..., f N\<close> one by one to an empty log.\<close>

primrec grown_index :: "(string \<Rightarrow> string) \<Rightarrow> (nat \<Rightarrow> string) \<Rightarrow> nat \<Rightarrow> node_index" where
  "grown_index sha f 0 = Map.empty"
| "grown_index sha f (Suc N) = (let nodes = grown_index sha f N
     in store_nodes nodes (projr (merkleAppendNodes sha (Suc N) (f (Suc N)) (\<lambda>s l. nodes (merkleNodeKey s l)))))"

lemma grown_index_complete:
  "hex_hash sha \<Longrightarrow> int N \<le> max_safe \<Longrightarrow> merkle_index sha f N (grown_index sha f N)"
proof (induction N)
  case (Suc N)
  then have "merkle_index sha f N (grown_index sha f N)" by simp
  from append_index [OF this Suc.prems] show ?case by (auto simp: Let_def)
qed (simp add: index_0)

definition sample_log :: "nat \<Rightarrow> string" where
  "sample_log i = checksum_hash (nat_text i)"

lemma hex_hash_checksum: "hex_hash checksum_hash"
  by (simp add: hex_hash_def checksum_hash_hex)

lemma hash64_sample_log: "hash64 (sample_log i)"
  by (simp add: sample_log_def checksum_hash_hex)

section \<open>Properties\<close>

text \<open>C23. For every entry of a log grown by at most \<^verbatim>\<open>2^47\<close> appends, and every tree size at or above its
  sequence number, the code creates an inclusion proof; its root is the reference tree hash of that
  prefix of the log, and the verifier accepts it.  (Up to that size the rounding of Math.log2 is harmless.)\<close>

theorem grown_log_proofs_verify:
  assumes "hex_hash sha" "N \<le> max_log_size" "hash64 (f i)" "1 \<le> i" "i \<le> n" "n \<le> N"
  shows "\<exists>path. createMerkleProof sha (f i) i n (grown_index sha f N) = Inr (mth sha f 1 n, path)
    \<and> verifyMerkleProof sha (f i) i n path (mth sha f 1 n)"
proof -
  have bound: "int N \<le> max_safe" using assms(2) by (simp add: max_log_size_def max_safe_def)
  with assms(4-6) have "valid_range i n" by (simp add: valid_range_def)
  with create_then_verify [OF grown_index_complete [OF assms(1) bound, of f] assms(1), of i n] assms(3,6) show ?thesis by simp
qed

lemma grown_log_proofs_verify_witness:
  "\<exists>path. createMerkleProof checksum_hash (sample_log 2) 2 3 (grown_index checksum_hash sample_log 5)
      = Inr (mth checksum_hash sample_log 1 3, path)
    \<and> verifyMerkleProof checksum_hash (sample_log 2) 2 3 path (mth checksum_hash sample_log 1 3)"
  by (rule grown_log_proofs_verify)
    (simp_all add: hex_hash_checksum hash64_sample_log max_log_size_def)

text \<open>C24. A proof the verifier accepts against the root of a log is about the entry with that
  sequence number, or exhibits two different texts with the same hash.\<close>

theorem accepted_proof_is_included:
  assumes "verifyMerkleProof sha e i n path (mth sha f 1 n)"
  shows "e = f i \<or> collision sha (verifier_texts sha e path) (tree_texts sha f 1 n)"
  by (rule verify_sound [OF assms])

lemma accepted_proof_is_included_witness:
  "\<exists>path. verifyMerkleProof checksum_hash (sample_log 2) 2 3 path (mth checksum_hash sample_log 1 3) \<and>
    (sample_log 2 = sample_log 2 \<or>
     collision checksum_hash (verifier_texts checksum_hash (sample_log 2) path) (tree_texts checksum_hash sample_log 1 3))"
proof -
  have "merkle_index checksum_hash sample_log 3 (grown_index checksum_hash sample_log 3)"
    by (rule grown_index_complete) (simp_all add: hex_hash_checksum max_safe_def)
  from create_then_verify [OF this hex_hash_checksum hash64_sample_log, of 2 3]
  obtain path where "verifyMerkleProof checksum_hash (sample_log 2) 2 3 path (mth checksum_hash sample_log 1 3)"
    by (auto simp: valid_range_def max_safe_def)
  with accepted_proof_is_included [OF this] show ?thesis by blast
qed

text \<open>The nodes listed as required for a proof are all in the index of that tree size, and
  reading only them creates the same proof as reading the whole index.\<close>

theorem required_nodes_suffice:
  assumes "requiredMerkleNodes i n = Inr rs"
  shows "(\<forall>r\<in>set rs. complete_node n (nr_start r) (nr_level r))
    \<and> createMerkleProof sha e i n (nodes |` node_keys rs) = createMerkleProof sha e i n nodes"
proof
  have rs: "valid_range i n" "rs = required_visit i 1 n []"
    using assms by (auto simp: requiredMerkleNodes_def split: if_splits)
  show "\<forall>r\<in>set rs. complete_node n (nr_start r) (nr_level r)"
    using required_complete [OF aligned_1, of n n _ i] rs by (auto simp: valid_range_def)
  show "createMerkleProof sha e i n (nodes |` node_keys rs) = createMerkleProof sha e i n nodes"
    using proof_visit_restrict [of i 1 n "node_keys rs"] rs by (simp add: createMerkleProof_def)
qed

lemma required_nodes_suffice_witness:
  "requiredMerkleNodes 1 3 = Inr [\<lparr>nr_start = 3, nr_level = 0\<rparr>, \<lparr>nr_start = 2, nr_level = 0\<rparr>] \<and>
   createMerkleProof checksum_hash (sample_log 1) 1 3
     (grown_index checksum_hash sample_log 3 |` {merkleNodeKey 3 0, merkleNodeKey 2 0})
   = createMerkleProof checksum_hash (sample_log 1) 1 3 (grown_index checksum_hash sample_log 3)"
proof -
  have r: "requiredMerkleNodes 1 3 = Inr [\<lparr>nr_start = 3, nr_level = 0\<rparr>, \<lparr>nr_start = 2, nr_level = 0\<rparr>]"
    by code_simp
  with required_nodes_suffice [OF r, of checksum_hash "sample_log 1" "grown_index checksum_hash sample_log 3"]
  show ?thesis by (simp add: node_keys_def)
qed

text \<open>A proof the verifier accepts for a tree of at most \<^verbatim>\<open>2^k\<close> entries has at most
  \<^verbatim>\<open>k\<close> steps.\<close>

theorem accepted_proof_short:
  assumes "verifyMerkleProof sha e i n path r" "n \<le> 2 ^ k"
  shows "length path \<le> k"
  using assms proof_sides_length [OF assms(2), of i 1]
  by (auto simp: verifyMerkleProof_def merkleProofSides_def split: if_splits)

lemma accepted_proof_short_witness:
  "\<exists>path. verifyMerkleProof checksum_hash (sample_log 2) 2 3 path (mth checksum_hash sample_log 1 3) \<and> length path \<le> 2"
proof -
  have "merkle_index checksum_hash sample_log 3 (grown_index checksum_hash sample_log 3)"
    by (rule grown_index_complete) (simp_all add: hex_hash_checksum max_safe_def)
  from create_then_verify [OF this hex_hash_checksum hash64_sample_log, of 2 3]
  obtain path where "verifyMerkleProof checksum_hash (sample_log 2) 2 3 path (mth checksum_hash sample_log 1 3)"
    by (auto simp: valid_range_def max_safe_def)
  with accepted_proof_short [OF this, of 2] show ?thesis by auto
qed

end
