(* ===== verification/Atomic_Store.thy ===== *)
theory Atomic_Store
  imports Json "HOL-Library.AList"
begin

text \<open>
  What the parts of src/infrastructure/persistence/memory-store.mjs share.  The store's maps
  are JavaScript Maps: association lists in insertion order, where setting an existing key keeps
  its place.  Every operation of the store is an async function without an await inside, so
  it runs as one atomic step; concurrent requests are sequences of such steps.  An operation that
  throws does so before its first write: \<^verbatim>\<open>Inl\<close> leaves the state as it was.

  The locale \<^verbatim>\<open>atomic_store\<close> is the contract of a set of operations with an
  invariant; what holds of every history is proved in it once and used by each part.
\<close>

section \<open>Maps\<close>

type_synonym ('k, 'v) js_map = "('k \<times> 'v) list"

abbreviation map_get :: "('k, 'v) js_map \<Rightarrow> 'k \<Rightarrow> 'v option" where
  "map_get \<equiv> map_of"

abbreviation map_set :: "'k \<Rightarrow> 'v \<Rightarrow> ('k, 'v) js_map \<Rightarrow> ('k, 'v) js_map" where
  "map_set \<equiv> AList.update"

definition map_values :: "('k, 'v) js_map \<Rightarrow> 'v list" where
  "map_values m = map snd m"

definition distinct_keys :: "('k, 'v) js_map \<Rightarrow> bool" where
  "distinct_keys m = distinct (map fst m)"

lemma map_get_set [simp]: "map_get (map_set k v m) k' = (if k' = k then Some v else map_get m k')"
  by (simp add: update_conv')

lemma map_get_setE:
  assumes "map_get (map_set k v m) k' = Some x"
  obtains (set) "k' = k" "x = v" | (kept) "k' \<noteq> k" "map_get m k' = Some x"
proof (cases "k' = k")
  case True
  with assms have "x = v" by simp
  with True show ?thesis by (rule set)
next
  case False
  with assms have "map_get m k' = Some x" by simp
  with False show ?thesis by (rule kept)
qed

lemma distinct_keys_set [simp]: "distinct_keys m \<Longrightarrow> distinct_keys (map_set k v m)"
  by (simp add: distinct_keys_def distinct_update)

lemma distinct_keys_Nil [simp]: "distinct_keys []"
  by (simp add: distinct_keys_def)

lemma map_get_mem: "distinct_keys m \<Longrightarrow> map_get m k = Some v \<longleftrightarrow> (k, v) \<in> set m"
  by (simp add: distinct_keys_def)

lemma map_set_new: "map_get m k = None \<Longrightarrow> map_set k v m = m @ [(k, v)]"
  by (induction m) (auto split: if_splits)

lemma set_map_set: "x \<in> set (map_set k v m) \<Longrightarrow> x = (k, v) \<or> x \<in> set m"
  by (induction m) (auto split: if_splits)

lemma sum_list_map_0: "(\<And>x. x \<in> set xs \<Longrightarrow> f x = 0) \<Longrightarrow> sum_list (map f xs) = (0::int)"
  by (induction xs) auto

lemma find_Some_mem: "find P xs = Some x \<Longrightarrow> x \<in> set xs \<and> P x"
  by (auto simp: find_Some_iff)

text \<open>The sum of a measure over the values changes only by the changed entry.\<close>

lemma sum_map_set:
  fixes f :: "'v \<Rightarrow> int"
  assumes "map_get m k = Some old"
  shows "sum_list (map (f \<circ> snd) (map_set k v m)) = sum_list (map (f \<circ> snd) m) - f old + f v"
  using assms by (induction m) (auto split: if_splits)

lemma sum_map_set_new:
  fixes f :: "'v \<Rightarrow> int"
  assumes "map_get m k = None"
  shows "sum_list (map (f \<circ> snd) (map_set k v m)) = sum_list (map (f \<circ> snd) m) + f v"
  by (simp add: map_set_new [OF assms])

section \<open>Histories of atomic operations\<close>

text \<open>The state after a sequence of operations; one that throws changes nothing.\<close>

primrec run_ops :: "('op \<Rightarrow> 's \<Rightarrow> ('s \<times> 'r) result) \<Rightarrow> 'op list \<Rightarrow> 's \<Rightarrow> 's" where
  "run_ops exec [] s = s"
| "run_ops exec (c # ops) s = run_ops exec ops (case exec c s of Inl e \<Rightarrow> s | Inr (s', r) \<Rightarrow> s')"

lemma run_ops_append: "run_ops exec (xs @ ys) s = run_ops exec ys (run_ops exec xs s)"
  by (induction xs arbitrary: s) simp_all

text \<open>One step of the store and what can be reached by steps.\<close>

inductive op_step :: "('op \<Rightarrow> 's \<Rightarrow> ('s \<times> 'r) result) \<Rightarrow> 'op \<Rightarrow> 's \<Rightarrow> 's \<Rightarrow> bool"
  for exec :: "'op \<Rightarrow> 's \<Rightarrow> ('s \<times> 'r) result" where
  returns: "exec c s = Inr (s', r) \<Longrightarrow> op_step exec c s s'"
| throws: "exec c s = Inl e \<Longrightarrow> op_step exec c s s"

inductive_cases op_stepE: "op_step exec c s s'"

inductive reaches :: "('op \<Rightarrow> 's \<Rightarrow> ('s \<times> 'r) result) \<Rightarrow> 's \<Rightarrow> 's \<Rightarrow> bool"
  for exec :: "'op \<Rightarrow> 's \<Rightarrow> ('s \<times> 'r) result" and start :: 's where
  start: "reaches exec start start"
| step: "reaches exec start s \<Longrightarrow> op_step exec c s s' \<Longrightarrow> reaches exec start s'"

lemma op_step_total: "\<exists>s'. op_step exec c s s'"
  by (cases "exec c s") (auto intro: op_step.intros)

lemma op_step_iff: "op_step exec c s s' \<longleftrightarrow> s' = (case exec c s of Inl e \<Rightarrow> s | Inr (t, r) \<Rightarrow> t)"
  by (auto elim: op_stepE intro: op_step.intros split: sum.splits)

lemma run_reaches: "reaches exec start s \<Longrightarrow> reaches exec start (run_ops exec ops s)"
proof (induction ops arbitrary: s)
  case (Cons c ops)
  have "op_step exec c s (case exec c s of Inl e \<Rightarrow> s | Inr (t, r) \<Rightarrow> t)" by (simp add: op_step_iff)
  from Cons.IH [OF reaches.step [OF Cons.prems this]] show ?case by simp
qed simp

lemma reaches_run: "reaches exec start s \<Longrightarrow> \<exists>ops. s = run_ops exec ops start"
proof (induction rule: reaches.induct)
  case start
  show ?case by (intro exI [of _ "[]"]) simp
next
  case (step s c s')
  then obtain ops where "s = run_ops exec ops start" by blast
  with step.hyps(2) show ?case
    by (intro exI [of _ "ops @ [c]"]) (simp add: run_ops_append op_step_iff)
qed

locale atomic_store =
  fixes exec :: "'op \<Rightarrow> 's \<Rightarrow> ('s \<times> 'r) result"
    and init :: 's
    and inv :: "'s \<Rightarrow> bool"
  assumes inv_init: "inv init"
    and inv_exec: "inv s \<Longrightarrow> exec c s = Inr (s', r) \<Longrightarrow> inv s'"
begin

lemma inv_step: "inv s \<Longrightarrow> op_step exec c s s' \<Longrightarrow> inv s'"
  by (auto elim!: op_stepE intro: inv_exec)

lemma inv_reaches: "reaches exec init s \<Longrightarrow> inv s"
  by (induction rule: reaches.induct) (auto intro: inv_init inv_step)

lemma inv_run: "inv s \<Longrightarrow> inv (run_ops exec ops s)"
  by (induction ops arbitrary: s) (auto split: sum.splits intro: inv_exec)

lemma inv_history: "inv (run_ops exec ops init)"
  by (rule inv_run [OF inv_init])

end

text \<open>A store with facts that no later operation takes back.\<close>

locale growing_store = atomic_store exec init inv
  for exec :: "'op \<Rightarrow> 's \<Rightarrow> ('s \<times> 'r) result" and init inv +
  fixes keeps :: "'s \<Rightarrow> 'f \<Rightarrow> bool"
  assumes keeps_exec: "inv s \<Longrightarrow> exec c s = Inr (s', r) \<Longrightarrow> keeps s x \<Longrightarrow> keeps s' x"
begin

lemma keeps_run: "inv s \<Longrightarrow> keeps s x \<Longrightarrow> keeps (run_ops exec ops s) x"
proof (induction ops arbitrary: s)
  case (Cons c ops)
  then show ?case
    by (cases "exec c s") (auto intro: inv_exec keeps_exec)
qed simp

lemma keeps_history: "keeps (run_ops exec xs init) x \<Longrightarrow> keeps (run_ops exec (xs @ ys) init) x"
  unfolding run_ops_append by (rule keeps_run [OF inv_history])

end

end
