(* ===== verification/Meter.thy ===== *)
theory Meter
  imports Atomic_Store
begin

text \<open>
  The metered agent accounts of src/infrastructure/persistence/memory-store.mjs: accounts with
  their credits, reservations of credits for metered calls, credit operations and x402
  credit purchases.  Credits are BigInts, here \<^verbatim>\<open>int\<close>; requests carry them as text.
  Shown: in every history the credits provisioned for an account are those that remain and
  those held or used by its reservations; a settled purchase is credited once.
\<close>

section \<open>State\<close>

record account_input =
  ai_accountId :: string
  ai_credentialHash :: string
  ai_provisionedCredits :: string
  ai_status :: string

record meter_account =
  ma_credentialHash :: string
  ma_provisionedCredits :: int
  ma_remainingCredits :: int
  ma_status :: string

record account_view =
  av_accountId :: string
  av_provisionedCredits :: string
  av_remainingCredits :: string
  av_status :: string

record usage_request =
  ur_accountId :: string
  ur_routeId :: string
  ur_requestKey :: string
  ur_credits :: string
  ur_reservedAt :: int

record agent_usage = usage_request +
  us_usageId :: string
  us_state :: string

record credit_operation =
  co_operationId :: string
  co_accountId :: string
  co_requestKey :: string
  co_credits :: string
  co_reference :: "string option"
  co_creditedAt :: int

record credit_purchase =
  cp_purchaseId :: string
  cp_paymentLedgerId :: string
  cp_accountId :: string
  cp_packId :: string
  cp_credits :: string
  cp_priceUsd :: string
  cp_resourceUrl :: string
  cp_authorizedAt :: int
  cp_state :: string
  cp_settledAt :: "int option"
  cp_settlementNetwork :: "string option"
  cp_settlementTransaction :: "string option"

record meter_store =
  agentMeterAccounts :: "(string, meter_account) js_map"
  agentMeterUsage :: "(string, agent_usage) js_map"
  agentMeterCreditOperations :: "(string, credit_operation) js_map"
  x402CreditPurchases :: "(string, credit_purchase) js_map"
  x402CreditPurchaseByLedgerId :: "(string, string) js_map"

definition empty_meter :: meter_store where
  "empty_meter = \<lparr>agentMeterAccounts = [], agentMeterUsage = [], agentMeterCreditOperations = [],
     x402CreditPurchases = [], x402CreditPurchaseByLedgerId = []\<rparr>"

definition BigInt_text :: "string \<Rightarrow> int result" where
  "BigInt_text s = js_BigInt (Str s)"

definition compound_key :: "string \<Rightarrow> string \<Rightarrow> string" where
  "compound_key a b = a @ '':'' @ b"

definition view_account :: "string \<Rightarrow> meter_account \<Rightarrow> account_view" where
  "view_account accountId account = \<lparr>av_accountId = accountId,
     av_provisionedCredits = int_text (ma_provisionedCredits account),
     av_remainingCredits = int_text (ma_remainingCredits account), av_status = ma_status account\<rparr>"

section \<open>Accounts\<close>

definition new_account :: "account_input \<Rightarrow> int \<Rightarrow> meter_account" where
  "new_account input credits = \<lparr>ma_credentialHash = ai_credentialHash input, ma_provisionedCredits = credits,
     ma_remainingCredits = credits, ma_status = ai_status input\<rparr>"

definition set_account :: "string \<Rightarrow> meter_account \<Rightarrow> meter_store \<Rightarrow> meter_store" where
  "set_account accountId account s = s\<lparr>agentMeterAccounts := map_set accountId account (agentMeterAccounts s)\<rparr>"

definition add_credits :: "int \<Rightarrow> meter_account \<Rightarrow> meter_account" where
  "add_credits amount account = account\<lparr>ma_provisionedCredits := ma_provisionedCredits account + amount,
     ma_remainingCredits := ma_remainingCredits account + amount\<rparr>"

definition provisionAgentMeterAccount :: "account_input \<Rightarrow> meter_store \<Rightarrow> (meter_store \<times> unit) result" where
  "provisionAgentMeterAccount input s =
     letE (BigInt_text (ai_provisionedCredits input)) (\<lambda>provisionedCredits.
     case map_get (agentMeterAccounts s) (ai_accountId input) of
       None \<Rightarrow> Inr (set_account (ai_accountId input) (new_account input provisionedCredits) s, ())
     | Some existing \<Rightarrow>
         let remaining = (if ma_provisionedCredits existing < provisionedCredits
               then ma_remainingCredits existing + (provisionedCredits - ma_provisionedCredits existing)
               else ma_remainingCredits existing);
             provisioned = (if ma_provisionedCredits existing < provisionedCredits
               then provisionedCredits else ma_provisionedCredits existing)
         in Inr (set_account (ai_accountId input)
                  (existing\<lparr>ma_remainingCredits := remaining, ma_provisionedCredits := provisioned\<rparr>) s, ()))"

definition createAgentMeterAccount :: "account_input \<Rightarrow> meter_store \<Rightarrow> (meter_store \<times> bool) result" where
  "createAgentMeterAccount input s = (
     if map_get (agentMeterAccounts s) (ai_accountId input) \<noteq> None then Inr (s, False) else
     letE (BigInt_text (ai_provisionedCredits input)) (\<lambda>provisionedCredits.
     Inr (set_account (ai_accountId input) (new_account input provisionedCredits) s, True)))"

definition findAgentMeterAccountByCredentialHash :: "string \<Rightarrow> meter_store \<Rightarrow> account_input option" where
  "findAgentMeterAccountByCredentialHash credentialHash s =
     map_option (\<lambda>(accountId, account). \<lparr>ai_accountId = accountId, ai_credentialHash = ma_credentialHash account,
         ai_provisionedCredits = int_text (ma_provisionedCredits account), ai_status = ma_status account\<rparr>)
       (find (\<lambda>(_, account). ma_credentialHash account = credentialHash) (agentMeterAccounts s))"

definition getAgentMeterAccount :: "string \<Rightarrow> meter_store \<Rightarrow> account_view option" where
  "getAgentMeterAccount accountId s = map_option (view_account accountId) (map_get (agentMeterAccounts s) accountId)"

definition revokeAgentMeterAccount :: "string \<Rightarrow> meter_store \<Rightarrow> (meter_store \<times> account_view option) result" where
  "revokeAgentMeterAccount accountId s = (case map_get (agentMeterAccounts s) accountId of
       None \<Rightarrow> Inr (s, None)
     | Some account \<Rightarrow> let revoked = account\<lparr>ma_status := ''revoked''\<rparr>
         in Inr (set_account accountId revoked s, Some (view_account accountId revoked)))"

section \<open>Credit operations and purchases\<close>

record credit_reply =
  cr_replay :: bool
  cr_operation :: credit_operation
  cr_account :: account_view

definition creditAgentMeterAccount :: "credit_operation \<Rightarrow> meter_store \<Rightarrow> (meter_store \<times> credit_reply option) result" where
  "creditAgentMeterAccount input s = (
     let key = compound_key (co_accountId input) (co_requestKey input);
         account = map_get (agentMeterAccounts s) (co_accountId input) in
     case map_get (agentMeterCreditOperations s) key of
       Some existing \<Rightarrow>
         if co_credits existing \<noteq> co_credits input \<or> co_reference existing \<noteq> co_reference input
         then Inl (CodedError ''IDEMPOTENCY_CONFLICT'')
         else Inr (s, map_option (\<lambda>a. \<lparr>cr_replay = True, cr_operation = existing,
                        cr_account = view_account (co_accountId input) a\<rparr>) account)
     | None \<Rightarrow>
         (case account of
            None \<Rightarrow> Inr (s, None)
          | Some a \<Rightarrow> letE (BigInt_text (co_credits input)) (\<lambda>amount.
              let credited = add_credits amount a;
                  s' = set_account (co_accountId input) credited s
              in Inr (s'\<lparr>agentMeterCreditOperations := map_set key input (agentMeterCreditOperations s)\<rparr>,
                      Some \<lparr>cr_replay = False, cr_operation = input,
                        cr_account = view_account (co_accountId input) credited\<rparr>))))"

definition assertSameX402CreditPurchase :: "credit_purchase \<Rightarrow> credit_purchase \<Rightarrow> unit result" where
  "assertSameX402CreditPurchase existing input = (
     if cp_purchaseId existing \<noteq> cp_purchaseId input \<or> cp_paymentLedgerId existing \<noteq> cp_paymentLedgerId input
        \<or> cp_accountId existing \<noteq> cp_accountId input \<or> cp_packId existing \<noteq> cp_packId input
        \<or> cp_credits existing \<noteq> cp_credits input \<or> cp_priceUsd existing \<noteq> cp_priceUsd input
        \<or> cp_resourceUrl existing \<noteq> cp_resourceUrl input
     then Inl (CodedError ''IDEMPOTENCY_CONFLICT'') else Inr ())"

definition authorizeX402CreditPurchase :: "credit_purchase \<Rightarrow> meter_store \<Rightarrow> (meter_store \<times> credit_purchase) result" where
  "authorizeX402CreditPurchase input s = (case map_get (x402CreditPurchases s) (cp_purchaseId input) of
       Some existing \<Rightarrow> letE (assertSameX402CreditPurchase existing input) (\<lambda>_. Inr (s, existing))
     | None \<Rightarrow>
         (let existingPurchaseId = map_get (x402CreditPurchaseByLedgerId s) (cp_paymentLedgerId input) in
          if existingPurchaseId \<noteq> None \<and> existingPurchaseId \<noteq> Some [] \<and> existingPurchaseId \<noteq> Some (cp_purchaseId input)
            then Inl (CodedError ''IDEMPOTENCY_CONFLICT'') else
          if map_get (agentMeterAccounts s) (cp_accountId input) = None then Inl (CodedError ''AGENT_ACCOUNT_NOT_FOUND'') else
          Inr (s\<lparr>x402CreditPurchases := map_set (cp_purchaseId input) input (x402CreditPurchases s),
                 x402CreditPurchaseByLedgerId :=
                   map_set (cp_paymentLedgerId input) (cp_purchaseId input) (x402CreditPurchaseByLedgerId s)\<rparr>, input)))"

record settlement_input =
  si_purchaseId :: string
  si_settledAt :: int
  si_settlementNetwork :: string
  si_settlementTransaction :: string

definition operation_id :: "(string \<Rightarrow> string) \<Rightarrow> string \<Rightarrow> string \<Rightarrow> string \<Rightarrow> string result" where
  "operation_id sha prefix accountId requestKey =
     letE (hashJson sha (Obj [(''accountId'', Str accountId), (''requestKey'', Str requestKey)]))
       (\<lambda>h. Inr (prefix @ take 32 h))"

text \<open>The part of settleX402CreditPurchase that credits the account, unless an operation with the key did.\<close>

definition credit_purchase_once ::
  "(string \<Rightarrow> string) \<Rightarrow> credit_purchase \<Rightarrow> int \<Rightarrow> meter_account \<Rightarrow> meter_store \<Rightarrow> (meter_store \<times> meter_account) result" where
  "credit_purchase_once sha purchase settledAt account s = (
     let requestKey = ''x402-pack-'' @ cp_purchaseId purchase;
         operationKey = compound_key (cp_accountId purchase) requestKey;
         reference = ''x402-credit-pack:'' @ cp_packId purchase @ '':'' @ cp_paymentLedgerId purchase in
     case map_get (agentMeterCreditOperations s) operationKey of
       Some existing \<Rightarrow>
         if co_credits existing \<noteq> cp_credits purchase \<or> co_reference existing \<noteq> Some reference
         then Inl (CodedError ''IDEMPOTENCY_CONFLICT'') else Inr (s, account)
     | None \<Rightarrow>
         letE (operation_id sha ''aco_'' (cp_accountId purchase) requestKey) (\<lambda>operationId.
         letE (BigInt_text (cp_credits purchase)) (\<lambda>amount.
         let credited = add_credits amount account;
             operation = \<lparr>co_operationId = operationId, co_accountId = cp_accountId purchase,
               co_requestKey = requestKey, co_credits = cp_credits purchase, co_reference = Some reference,
               co_creditedAt = settledAt\<rparr>
         in Inr ((set_account (cp_accountId purchase) credited s)
                   \<lparr>agentMeterCreditOperations := map_set operationKey operation (agentMeterCreditOperations s)\<rparr>,
                 credited))))"

definition settleX402CreditPurchase ::
  "(string \<Rightarrow> string) \<Rightarrow> settlement_input \<Rightarrow> meter_store \<Rightarrow> (meter_store \<times> (credit_purchase \<times> account_view) option) result" where
  "settleX402CreditPurchase sha input s = (case map_get (x402CreditPurchases s) (si_purchaseId input) of
       None \<Rightarrow> Inr (s, None)
     | Some purchase \<Rightarrow>
         (case map_get (agentMeterAccounts s) (cp_accountId purchase) of
            None \<Rightarrow> Inr (s, None)
          | Some account \<Rightarrow>
              if ma_status account \<noteq> ''active'' then Inr (s, None) else
              if cp_state purchase = ''CREDITED'' then Inr (s, Some (purchase, view_account (cp_accountId purchase) account)) else
              letE (credit_purchase_once sha purchase (si_settledAt input) account s) (\<lambda>(s', account').
              let credited = purchase\<lparr>cp_state := ''CREDITED'', cp_settledAt := Some (si_settledAt input),
                    cp_settlementNetwork := Some (si_settlementNetwork input),
                    cp_settlementTransaction := Some (si_settlementTransaction input)\<rparr>
              in Inr (s'\<lparr>x402CreditPurchases := map_set (si_purchaseId input) credited (x402CreditPurchases s')\<rparr>,
                      Some (credited, view_account (cp_accountId purchase) account')))))"

definition getX402CreditPurchase :: "string \<Rightarrow> meter_store \<Rightarrow> credit_purchase option" where
  "getX402CreditPurchase purchaseId s = map_get (x402CreditPurchases s) purchaseId"

section \<open>Reservations\<close>

datatype reserve_reply = Replayed agent_usage | Reserved agent_usage | Insufficient

definition reserveAgentUsage :: "(string \<Rightarrow> string) \<Rightarrow> usage_request \<Rightarrow> meter_store \<Rightarrow> (meter_store \<times> reserve_reply) result" where
  "reserveAgentUsage sha input s = (
     let key = compound_key (ur_accountId input) (ur_requestKey input) in
     case map_get (agentMeterUsage s) key of
       Some existing \<Rightarrow>
         if ur_routeId existing \<noteq> ur_routeId input \<or> ur_credits existing \<noteq> ur_credits input
         then Inl (CodedError ''IDEMPOTENCY_CONFLICT'') else Inr (s, Replayed existing)
     | None \<Rightarrow>
         letE (BigInt_text (ur_credits input)) (\<lambda>credits.
         case map_get (agentMeterAccounts s) (ur_accountId input) of
           None \<Rightarrow> Inr (s, Insufficient)
         | Some account \<Rightarrow>
             if ma_status account \<noteq> ''active'' \<or> ma_remainingCredits account < credits then Inr (s, Insufficient) else
             letE (operation_id sha ''amu_'' (ur_accountId input) (ur_requestKey input)) (\<lambda>usageId.
             let reservation = usage_request.extend input \<lparr>us_usageId = usageId, us_state = ''RESERVED''\<rparr>;
                 charged = account\<lparr>ma_remainingCredits := ma_remainingCredits account - credits\<rparr>
             in Inr ((set_account (ur_accountId input) charged s)
                       \<lparr>agentMeterUsage := map_set key reservation (agentMeterUsage s)\<rparr>, Reserved reservation))))"

definition settleAgentUsage :: "string \<Rightarrow> string \<Rightarrow> meter_store \<Rightarrow> (meter_store \<times> agent_usage option) result" where
  "settleAgentUsage usageId outcome s = (case find (\<lambda>(_, u). us_usageId u = usageId) (agentMeterUsage s) of
       None \<Rightarrow> Inr (s, None)
     | Some (key, reservation) \<Rightarrow>
         if us_state reservation \<noteq> ''RESERVED'' then Inr (s, Some reservation) else
         letE (if outcome = ''RELEASED'' then
                 (case map_get (agentMeterAccounts s) (ur_accountId reservation) of
                    None \<Rightarrow> Inl (PlainErr ''Metered account disappeared before credit release'')
                  | Some account \<Rightarrow> letE (BigInt_text (ur_credits reservation)) (\<lambda>credits.
                      Inr (set_account (ur_accountId reservation)
                             (account\<lparr>ma_remainingCredits := ma_remainingCredits account + credits\<rparr>) s)))
               else Inr s) (\<lambda>s'.
         let settled = reservation\<lparr>us_state := outcome\<rparr>
         in Inr (s'\<lparr>agentMeterUsage := map_set key settled (agentMeterUsage s')\<rparr>, Some settled)))"

text \<open>Newest first; equal times by descending usage id, equal ids in insertion order.\<close>

definition listAgentMeterUsage :: "string \<Rightarrow> nat \<Rightarrow> meter_store \<Rightarrow> agent_usage list" where
  "listAgentMeterUsage accountId limit s =
     (let own = filter (\<lambda>u. ur_accountId u = accountId) (map_values (agentMeterUsage s));
          by_id = rev (sort_key us_usageId (rev own))
      in take limit (sort_key (\<lambda>u. - ur_reservedAt u) by_id))"

section \<open>Histories\<close>

datatype meter_op =
    ProvisionAccount account_input
  | CreateAccount account_input
  | CreditAccount credit_operation
  | AuthorizePurchase credit_purchase
  | SettlePurchase settlement_input
  | RevokeAccount string
  | ReserveUsage usage_request
  | SettleUsage string string

definition no_reply :: "('s \<times> 'r) result \<Rightarrow> ('s \<times> unit) result" where
  "no_reply m = letE m (\<lambda>(s, _). Inr (s, ()))"

fun meter_exec :: "(string \<Rightarrow> string) \<Rightarrow> meter_op \<Rightarrow> meter_store \<Rightarrow> (meter_store \<times> unit) result" where
  "meter_exec sha (ProvisionAccount input) s = no_reply (provisionAgentMeterAccount input s)"
| "meter_exec sha (CreateAccount input) s = no_reply (createAgentMeterAccount input s)"
| "meter_exec sha (CreditAccount input) s = no_reply (creditAgentMeterAccount input s)"
| "meter_exec sha (AuthorizePurchase input) s = no_reply (authorizeX402CreditPurchase input s)"
| "meter_exec sha (SettlePurchase input) s = no_reply (settleX402CreditPurchase sha input s)"
| "meter_exec sha (RevokeAccount accountId) s = no_reply (revokeAgentMeterAccount accountId s)"
| "meter_exec sha (ReserveUsage input) s = no_reply (reserveAgentUsage sha input s)"
| "meter_exec sha (SettleUsage usageId outcome) s = no_reply (settleAgentUsage usageId outcome s)"

section \<open>Credits are conserved\<close>

definition credits_of :: "agent_usage \<Rightarrow> int" where
  "credits_of u = (case BigInt_text (ur_credits u) of Inl e \<Rightarrow> 0 | Inr n \<Rightarrow> n)"

definition charge :: "string \<Rightarrow> agent_usage \<Rightarrow> int" where
  "charge a u = (if ur_accountId u = a \<and> us_state u \<noteq> ''RELEASED'' then credits_of u else 0)"

text \<open>The credits an account's reservations hold or have used.\<close>

definition charged :: "meter_store \<Rightarrow> string \<Rightarrow> int" where
  "charged s a = sum_list (map (charge a \<circ> snd) (agentMeterUsage s))"

definition balanced :: "meter_store \<Rightarrow> bool" where
  "balanced s = (distinct_keys (agentMeterUsage s) \<and> distinct_keys (agentMeterAccounts s)
     \<and> (\<forall>(k, u)\<in>set (agentMeterUsage s). map_get (agentMeterAccounts s) (ur_accountId u) \<noteq> None)
     \<and> (\<forall>a account. map_get (agentMeterAccounts s) a = Some account \<longrightarrow>
          ma_provisionedCredits account = ma_remainingCredits account + charged s a))"

lemma set_account_simps [simp]:
  "agentMeterAccounts (set_account a account s) = map_set a account (agentMeterAccounts s)"
  "agentMeterUsage (set_account a account s) = agentMeterUsage s"
  "agentMeterCreditOperations (set_account a account s) = agentMeterCreditOperations s"
  "x402CreditPurchases (set_account a account s) = x402CreditPurchases s"
  "charged (set_account a account s) = charged s"
  by (simp_all add: set_account_def charged_def fun_eq_iff)

lemma charged_simps [simp]:
  "charged (s\<lparr>agentMeterCreditOperations := x\<rparr>) = charged s"
  "charged (s\<lparr>x402CreditPurchases := y\<rparr>) = charged s"
  "charged (s\<lparr>x402CreditPurchaseByLedgerId := z\<rparr>) = charged s"
  "charged (s\<lparr>agentMeterAccounts := v\<rparr>) = charged s"
  by (simp_all add: charged_def fun_eq_iff)

lemma balanced_simps [simp]:
  "balanced (s\<lparr>agentMeterCreditOperations := x\<rparr>) = balanced s"
  "balanced (s\<lparr>x402CreditPurchases := y\<rparr>) = balanced s"
  "balanced (s\<lparr>x402CreditPurchaseByLedgerId := z\<rparr>) = balanced s"
  by (simp_all add: balanced_def)

lemma charged_none: "balanced s \<Longrightarrow> map_get (agentMeterAccounts s) a = None \<Longrightarrow> charged s a = 0"
proof -
  assume b: "balanced s" and a: "map_get (agentMeterAccounts s) a = None"
  have "charge a (snd x) = 0" if "x \<in> set (agentMeterUsage s)" for x
    using b a that by (cases x) (auto simp: balanced_def charge_def)
  then show "charged s a = 0" unfolding charged_def by (intro sum_list_map_0) simp
qed

lemma balanced_adjust:
  assumes "balanced s" "map_get (agentMeterAccounts s) a = Some old"
    "ma_provisionedCredits new - ma_remainingCredits new = ma_provisionedCredits old - ma_remainingCredits old"
  shows "balanced (set_account a new s)"
  using assms unfolding balanced_def by (auto split: if_splits)

lemma balanced_new:
  assumes "balanced s" "map_get (agentMeterAccounts s) a = None" "ma_provisionedCredits new = ma_remainingCredits new"
  shows "balanced (set_account a new s)"
  using assms charged_none [OF assms(1,2)] unfolding balanced_def by auto

lemma balancedI:
  assumes "distinct_keys (agentMeterUsage s)" "distinct_keys (agentMeterAccounts s)"
    and "\<And>k u. (k, u) \<in> set (agentMeterUsage s) \<Longrightarrow> map_get (agentMeterAccounts s) (ur_accountId u) \<noteq> None"
    and "\<And>a account. map_get (agentMeterAccounts s) a = Some account \<Longrightarrow>
      ma_provisionedCredits account = ma_remainingCredits account + charged s a"
  shows "balanced s"
  using assms by (auto simp: balanced_def)

text \<open>Setting a reservation and moving the difference of its charge to or from the account.\<close>

lemma balanced_usage:
  assumes b: "balanced s" and a: "map_get (agentMeterAccounts s) (ur_accountId u) = Some account"
    and old: "case map_get (agentMeterUsage s) key of None \<Rightarrow> c = 0
      | Some v \<Rightarrow> ur_accountId v = ur_accountId u \<and> c = charge (ur_accountId u) v"
    and new: "ma_provisionedCredits new = ma_provisionedCredits account"
      "ma_remainingCredits new = ma_remainingCredits account + c - charge (ur_accountId u) u"
  shows "balanced ((set_account (ur_accountId u) new s)\<lparr>agentMeterUsage := map_set key u (agentMeterUsage s)\<rparr>)"
    (is "balanced ?t")
proof -
  have sums: "charged ?t x = charged s x + (if x = ur_accountId u then charge x u - c else 0)" for x
    using old by (auto simp: charged_def sum_map_set sum_map_set_new charge_def split: option.splits if_splits)
  have "map_get (agentMeterAccounts ?t) (ur_accountId v) \<noteq> None" if "(k, v) \<in> set (agentMeterUsage ?t)" for k v
  proof -
    from that have "(k, v) \<in> set (agentMeterUsage s) \<or> v = u"
      by (auto dest!: set_map_set)
    with b show ?thesis by (auto simp: balanced_def)
  qed
  moreover have "ma_provisionedCredits acc = ma_remainingCredits acc + charged ?t x"
    if "map_get (agentMeterAccounts ?t) x = Some acc" for x acc
    using that b new a unfolding sums by (auto simp: balanced_def split: if_splits)
  ultimately show ?thesis using b by (intro balancedI) (auto simp: balanced_def)
qed

named_theorems meter_defs "the operations that change the metered accounts"

declare provisionAgentMeterAccount_def [meter_defs] createAgentMeterAccount_def [meter_defs]
  revokeAgentMeterAccount_def [meter_defs] creditAgentMeterAccount_def [meter_defs]
  authorizeX402CreditPurchase_def [meter_defs] no_reply_def [meter_defs] Let_def [meter_defs]

lemma balanced_provision: "balanced s \<Longrightarrow> provisionAgentMeterAccount input s = Inr (s', r) \<Longrightarrow> balanced s'"
  unfolding provisionAgentMeterAccount_def
  by (erule letE_InrE, cases "map_get (agentMeterAccounts s) (ai_accountId input)")
    (auto simp: Let_def new_account_def intro: balanced_new balanced_adjust)

lemma balanced_create: "balanced s \<Longrightarrow> createAgentMeterAccount input s = Inr (s', r) \<Longrightarrow> balanced s'"
  by (auto simp: meter_defs result_simps new_account_def split: if_splits intro!: balanced_new)

lemma balanced_revoke: "balanced s \<Longrightarrow> revokeAgentMeterAccount a s = Inr (s', r) \<Longrightarrow> balanced s'"
  by (auto simp: meter_defs split: option.splits intro: balanced_adjust)

lemma balanced_add_credits:
  "balanced s \<Longrightarrow> map_get (agentMeterAccounts s) a = Some account \<Longrightarrow> balanced (set_account a (add_credits n account) s)"
  by (erule balanced_adjust) (auto simp: add_credits_def)

lemma balanced_credit: "balanced s \<Longrightarrow> creditAgentMeterAccount input s = Inr (s', r) \<Longrightarrow> balanced s'"
  by (auto simp: meter_defs result_simps balanced_add_credits split: option.splits if_splits)

lemma balanced_authorize: "balanced s \<Longrightarrow> authorizeX402CreditPurchase input s = Inr (s', r) \<Longrightarrow> balanced s'"
  by (auto simp: meter_defs result_simps split: option.splits if_splits)

lemma balanced_credit_once:
  "balanced s \<Longrightarrow> map_get (agentMeterAccounts s) (cp_accountId p) = Some account \<Longrightarrow>
    credit_purchase_once sha p n account s = Inr (s', account') \<Longrightarrow> balanced s'"
  by (auto simp: credit_purchase_once_def result_simps Let_def balanced_add_credits split: option.splits if_splits)

lemma balanced_settle_purchase: "balanced s \<Longrightarrow> settleX402CreditPurchase sha input s = Inr (s', r) \<Longrightarrow> balanced s'"
  by (auto simp: settleX402CreditPurchase_def result_simps Let_def balanced_credit_once split: option.splits if_splits)

definition new_usage :: "usage_request \<Rightarrow> string \<Rightarrow> agent_usage" where
  "new_usage input usageId = usage_request.extend input \<lparr>us_usageId = usageId, us_state = ''RESERVED''\<rparr>"

lemma new_usage_simps [simp]:
  "ur_accountId (new_usage input i) = ur_accountId input" "ur_credits (new_usage input i) = ur_credits input"
  "ur_routeId (new_usage input i) = ur_routeId input" "us_state (new_usage input i) = ''RESERVED''"
  by (simp_all add: new_usage_def usage_request.defs)

text \<open>A reservation changes nothing, or charges an active account that has the credits.\<close>

lemma reserve_cases:
  assumes "reserveAgentUsage sha input s = Inr (s', r)"
  obtains (refused) "s' = s" "r = Insufficient"
  | (replayed) existing where "s' = s" "r = Replayed existing"
    "map_get (agentMeterUsage s) (compound_key (ur_accountId input) (ur_requestKey input)) = Some existing"
    "ur_routeId existing = ur_routeId input" "ur_credits existing = ur_credits input"
  | (reserved) account credits usageId where
    "map_get (agentMeterUsage s) (compound_key (ur_accountId input) (ur_requestKey input)) = None"
    "BigInt_text (ur_credits input) = Inr credits" "map_get (agentMeterAccounts s) (ur_accountId input) = Some account"
    "ma_status account = ''active''" "credits \<le> ma_remainingCredits account" "r = Reserved (new_usage input usageId)"
    "s' = (set_account (ur_accountId input) (account\<lparr>ma_remainingCredits := ma_remainingCredits account - credits\<rparr>) s)
       \<lparr>agentMeterUsage := map_set (compound_key (ur_accountId input) (ur_requestKey input))
          (new_usage input usageId) (agentMeterUsage s)\<rparr>"
  using assms unfolding reserveAgentUsage_def Let_def new_usage_def
  by (force simp: letE_eq_Inr split: option.splits if_splits)

lemma balanced_reserve:
  assumes "balanced s" "reserveAgentUsage sha input s = Inr (s', r)"
  shows "balanced s'"
  using assms(2)
proof (cases rule: reserve_cases)
  case (reserved account credits usageId)
  from balanced_usage [OF assms(1), where u = "new_usage input usageId"
      and key = "compound_key (ur_accountId input) (ur_requestKey input)" and c = 0] reserved
  show ?thesis by (simp add: charge_def credits_of_def)
qed (use assms in simp_all)

lemma balanced_settle_usage:
  assumes b: "balanced s" and r: "settleAgentUsage usageId outcome s = Inr (s', r)"
  shows "balanced s'"
proof (cases "find (\<lambda>(_, u). us_usageId u = usageId) (agentMeterUsage s)")
  case (Some ku)
  obtain key u where ku: "ku = (key, u)" by (cases ku)
  with Some have mem: "(key, u) \<in> set (agentMeterUsage s)" by (auto dest: find_Some_mem)
  with b have get: "map_get (agentMeterUsage s) key = Some u" by (simp add: balanced_def map_get_mem)
  from b mem obtain account where acc: "map_get (agentMeterAccounts s) (ur_accountId u) = Some account"
    by (auto simp: balanced_def)
  show ?thesis
  proof (cases "us_state u = ''RESERVED''")
    case res: True
    let ?u = "u\<lparr>us_state := outcome\<rparr>"
    show ?thesis
    proof (cases "outcome = ''RELEASED''")
      case True
      with r Some ku res acc obtain credits where "BigInt_text (ur_credits u) = Inr credits"
        "s' = (set_account (ur_accountId u) (account\<lparr>ma_remainingCredits := ma_remainingCredits account + credits\<rparr>) s)
           \<lparr>agentMeterUsage := map_set key ?u (agentMeterUsage s)\<rparr>"
        by (auto simp: settleAgentUsage_def result_simps Let_def)
      with balanced_usage [OF b, where u = ?u and key = key and c = "charge (ur_accountId u) u"] acc get res True
      show ?thesis by (simp add: charge_def credits_of_def)
    next
      case False
      with r Some ku res have s': "s' = s\<lparr>agentMeterUsage := map_set key ?u (agentMeterUsage s)\<rparr>"
        by (auto simp: settleAgentUsage_def Let_def)
      have "set_account (ur_accountId u) account s = s" using acc by (simp add: set_account_def update_triv)
      with balanced_usage [OF b, where u = ?u and key = key and c = "charge (ur_accountId u) u" and new = account] acc get res False s'
      show ?thesis by (simp add: charge_def credits_of_def)
    qed
  qed (use r Some ku b in \<open>auto simp: settleAgentUsage_def\<close>)
qed (use r b in \<open>simp add: settleAgentUsage_def\<close>)

lemma no_reply_Inr: "no_reply m = Inr (s', u) \<Longrightarrow> \<exists>r. m = Inr (s', r)"
  by (auto simp: no_reply_def letE_eq_Inr)

lemma balanced_exec: "balanced s \<Longrightarrow> meter_exec sha c s = Inr (s', r) \<Longrightarrow> balanced s'"
  by (cases c) (auto dest!: no_reply_Inr intro: balanced_provision balanced_create balanced_credit
      balanced_authorize balanced_settle_purchase balanced_revoke balanced_reserve balanced_settle_usage)

lemma balanced_empty: "balanced empty_meter"
  by (simp add: balanced_def empty_meter_def)

section \<open>A purchase stays credited\<close>

definition credited :: "meter_store \<Rightarrow> string \<Rightarrow> bool" where
  "credited s purchaseId = (case map_get (x402CreditPurchases s) purchaseId of
     None \<Rightarrow> False | Some purchase \<Rightarrow> cp_state purchase = ''CREDITED'')"

lemma credited_other: "x402CreditPurchases s' = x402CreditPurchases s \<Longrightarrow> credited s p \<Longrightarrow> credited s' p"
  by (simp add: credited_def)

lemma credited_set:
  "x402CreditPurchases s' = map_set k v (x402CreditPurchases s) \<Longrightarrow>
    cp_state v = ''CREDITED'' \<or> map_get (x402CreditPurchases s) k = None \<Longrightarrow> credited s p \<Longrightarrow> credited s' p"
  by (auto simp: credited_def split: option.splits)

lemma same_purchases:
  "provisionAgentMeterAccount i1 s = Inr (s', r1) \<Longrightarrow> x402CreditPurchases s' = x402CreditPurchases s"
  "createAgentMeterAccount i1 s = Inr (s', r2) \<Longrightarrow> x402CreditPurchases s' = x402CreditPurchases s"
  "creditAgentMeterAccount i3 s = Inr (s', r3) \<Longrightarrow> x402CreditPurchases s' = x402CreditPurchases s"
  "revokeAgentMeterAccount a s = Inr (s', r4) \<Longrightarrow> x402CreditPurchases s' = x402CreditPurchases s"
  "reserveAgentUsage sha i5 s = Inr (s', r5) \<Longrightarrow> x402CreditPurchases s' = x402CreditPurchases s"
  "settleAgentUsage u v s = Inr (s', r6) \<Longrightarrow> x402CreditPurchases s' = x402CreditPurchases s"
  by (auto simp: meter_defs reserveAgentUsage_def settleAgentUsage_def letE_eq_Inr split: option.splits if_splits)

lemma credited_authorize:
  "authorizeX402CreditPurchase input s = Inr (s', r) \<Longrightarrow> credited s p \<Longrightarrow> credited s' p"
  by (auto simp: meter_defs letE_eq_Inr split: option.splits if_splits intro: credited_set)

lemma credit_once_purchases:
  "credit_purchase_once sha q n account s = Inr (s', account') \<Longrightarrow> x402CreditPurchases s' = x402CreditPurchases s"
  by (auto simp: credit_purchase_once_def Let_def letE_eq_Inr split: option.splits if_splits)

lemma credited_settle:
  "settleX402CreditPurchase sha input s = Inr (s', r) \<Longrightarrow> credited s p \<Longrightarrow> credited s' p"
  by (auto simp: settleX402CreditPurchase_def Let_def letE_eq_Inr credit_once_purchases
      split: option.splits if_splits intro: credited_set)

lemma credited_exec: "meter_exec sha c s = Inr (s', r) \<Longrightarrow> credited s p \<Longrightarrow> credited s' p"
  by (cases c) (auto dest!: no_reply_Inr dest: same_purchases credited_authorize credited_settle
      intro: credited_other [rotated])

interpretation meter: growing_store "meter_exec sha" empty_meter balanced credited for sha
  by unfold_locales (auto intro: balanced_empty balanced_exec credited_exec)

section \<open>Properties\<close>

text \<open>C12. In every history of store operations, in any order and with any inputs, the credits ever
  provisioned for an account are the credits that remain plus those its reservations hold or have
  used: no operation loses or creates credits.\<close>

theorem credits_conserved:
  assumes "map_get (agentMeterAccounts (run_ops (meter_exec sha) ops empty_meter)) a = Some account"
  shows "ma_provisionedCredits account
    = ma_remainingCredits account + charged (run_ops (meter_exec sha) ops empty_meter) a"
  using meter.inv_history [of sha ops] assms by (auto simp: balanced_def)

definition sample_account :: "string \<Rightarrow> account_input" where
  "sample_account a = \<lparr>ai_accountId = a, ai_credentialHash = a, ai_provisionedCredits = ''10'', ai_status = ''active''\<rparr>"

definition sample_request :: "string \<Rightarrow> string \<Rightarrow> usage_request" where
  "sample_request a k = \<lparr>ur_accountId = a, ur_routeId = ''r'', ur_requestKey = k, ur_credits = ''3'', ur_reservedAt = 1\<rparr>"

definition sample_history :: "meter_op list" where
  "sample_history = [CreateAccount (sample_account ''a''), CreateAccount (sample_account ''a:b''),
     ReserveUsage (sample_request ''a'' ''b:c'')]"

lemma credits_conserved_witness:
  "\<exists>account. map_get (agentMeterAccounts (run_ops (meter_exec (\<lambda>s. s)) sample_history empty_meter)) ''a'' = Some account
    \<and> ma_remainingCredits account = 7
    \<and> ma_provisionedCredits account
      = ma_remainingCredits account + charged (run_ops (meter_exec (\<lambda>s. s)) sample_history empty_meter) ''a''"
proof -
  have "map_get (agentMeterAccounts (run_ops (meter_exec (\<lambda>s. s)) sample_history empty_meter)) ''a''
      = Some \<lparr>ma_credentialHash = ''a'', ma_provisionedCredits = 10, ma_remainingCredits = 7, ma_status = ''active''\<rparr>"
    by code_simp
  with credits_conserved [OF this] show ?thesis by simp
qed

text \<open>Once a history has credited a purchase, no later settlement of it changes anything,
  whatever happened in between: each x402 payment is credited once.\<close>

theorem purchase_credited_once:
  assumes "credited (run_ops (meter_exec sha) before empty_meter) (si_purchaseId input)"
    and "settleX402CreditPurchase sha input (run_ops (meter_exec sha) (before @ later) empty_meter) = Inr (s', r)"
  shows "s' = run_ops (meter_exec sha) (before @ later) empty_meter"
proof -
  have "credited (run_ops (meter_exec sha) (before @ later) empty_meter) (si_purchaseId input)"
    using assms(1) by (rule meter.keeps_history)
  with assms(2) show ?thesis
    by (auto simp: settleX402CreditPurchase_def credited_def split: option.splits if_splits)
qed

definition sample_purchase :: credit_purchase where
  "sample_purchase = \<lparr>cp_purchaseId = ''p'', cp_paymentLedgerId = ''l'', cp_accountId = ''a'', cp_packId = ''pack'',
     cp_credits = ''5'', cp_priceUsd = ''0.5'', cp_resourceUrl = ''u'', cp_authorizedAt = 1, cp_state = ''AUTHORIZED'',
     cp_settledAt = None, cp_settlementNetwork = None, cp_settlementTransaction = None\<rparr>"

definition sample_settlement :: settlement_input where
  "sample_settlement = \<lparr>si_purchaseId = ''p'', si_settledAt = 2, si_settlementNetwork = ''eip155:1'', si_settlementTransaction = ''t''\<rparr>"

definition sample_purchase_history :: "meter_op list" where
  "sample_purchase_history = [CreateAccount (sample_account ''a''), AuthorizePurchase sample_purchase, SettlePurchase sample_settlement]"

lemma purchase_credited_once_witness:
  "\<exists>s r. s = run_ops (meter_exec (\<lambda>s. s)) (sample_purchase_history @ []) empty_meter
    \<and> settleX402CreditPurchase (\<lambda>s. s) sample_settlement s = Inr (s, r)"
proof -
  have c: "credited (run_ops (meter_exec (\<lambda>s. s)) sample_purchase_history empty_meter) (si_purchaseId sample_settlement)"
    by code_simp
  have "\<not> isl (settleX402CreditPurchase (\<lambda>s. s) sample_settlement
      (run_ops (meter_exec (\<lambda>s. s)) (sample_purchase_history @ []) empty_meter))"
    by code_simp
  then obtain s r where "settleX402CreditPurchase (\<lambda>s. s) sample_settlement
      (run_ops (meter_exec (\<lambda>s. s)) (sample_purchase_history @ []) empty_meter) = Inr (s, r)"
    by (auto simp: isl_def) (metis sum.exhaust surj_pair)
  with purchase_credited_once [OF c this] show ?thesis by blast
qed

text \<open>The in-memory store joins account and request key with a colon, which both may contain:
  a request of the account \<^verbatim>\<open>a:b\<close> with key \<^verbatim>\<open>c\<close> is answered with the reservation of
  the account \<^verbatim>\<open>a\<close> with key \<^verbatim>\<open>b:c\<close>, and is not charged.\<close>

theorem request_keys_collide:
  "let s = run_ops (meter_exec (\<lambda>s. s)) sample_history empty_meter in
    (case reserveAgentUsage (\<lambda>s. s) (sample_request ''a:b'' ''c'') s of
      Inr (s', Replayed u) \<Rightarrow> s' = s \<and> ur_accountId u = ''a'' \<and> us_state u = ''RESERVED''
    | _ \<Rightarrow> False)"
  by code_simp

end
