(* ===== verification/Values.thy ===== *)
theory Values
  imports Json
begin

text \<open>
  src/domain/values.mjs: the normalisers of chain ids, addresses, hashes, unsigned integer
  strings, identifiers and timestamps.  Each returns its normal form or throws; shown:
  the exact set of normal forms, and that normalising a normal form changes nothing.
\<close>

section \<open>The normalisers\<close>

definition EVM_ADDRESS_RE :: "string \<Rightarrow> bool" where
  "EVM_ADDRESS_RE = after ''0x'' (hex_n 40)"

definition TX_HASH_RE :: "string \<Rightarrow> bool" where
  "TX_HASH_RE = after ''0x'' (hex_n 64)"

definition UINT_RE :: "string \<Rightarrow> bool" where
  "UINT_RE = uint_text"

definition id_char :: "char \<Rightarrow> bool" where
  "id_char c = (is_alnum c \<or> c \<in> {CHR ''.'', CHR ''_'', CHR '':'', CHR ''-''})"

definition ID_RE :: "string \<Rightarrow> bool" where
  "ID_RE s = (case s of [] \<Rightarrow> False | c # r \<Rightarrow> is_alnum c \<and> length r \<le> 127 \<and> list_all id_char r)"

definition chainId :: "jsval \<Rightarrow> jsval result" where
  "chainId value = (
     let normalized = (case value of
           Str s \<Rightarrow> if after ''eip155:'' posint_text s then Str (drop 7 s) else value
         | _ \<Rightarrow> value)
     in case safe_int (to_num normalized) of
          None \<Rightarrow> Inl (PriorSealError ''INVALID_CHAIN_ID'')
        | Some n \<Rightarrow> if n < 1 then Inl (PriorSealError ''INVALID_CHAIN_ID'') else Inr (Num n))"

definition evmAddress :: "jsval \<Rightarrow> jsval result" where
  "evmAddress value = (case value of
      Str s \<Rightarrow> if EVM_ADDRESS_RE s then Inr (Str (lower s)) else Inl (PriorSealError ''INVALID_ADDRESS'')
    | _ \<Rightarrow> Inl (PriorSealError ''INVALID_ADDRESS''))"

definition txHash :: "jsval \<Rightarrow> jsval result" where
  "txHash value = (case value of
      Str s \<Rightarrow> if TX_HASH_RE s then Inr (Str (lower s)) else Inl (PriorSealError ''INVALID_TX_HASH'')
    | _ \<Rightarrow> Inl (PriorSealError ''INVALID_TX_HASH''))"

definition uintString :: "jsval \<Rightarrow> jsval result" where
  "uintString value = (let result = js_string value in
     if UINT_RE result then Inr (Str result) else Inl (PriorSealError ''INVALID_UINT''))"

definition protocolId :: "jsval \<Rightarrow> jsval result" where
  "protocolId value = (let result = js_string value in
     if ID_RE result then Inr (Str result) else Inl (PriorSealError ''INVALID_IDENTIFIER''))"

definition unixSeconds :: "jsval \<Rightarrow> jsval result" where
  "unixSeconds value = (case safe_int (to_num value) of
      None \<Rightarrow> Inl (PriorSealError ''INVALID_TIME'')
    | Some n \<Rightarrow> if n \<le> 0 then Inl (PriorSealError ''INVALID_TIME'') else Inr (Num n))"

section \<open>Normal forms\<close>

text \<open>The values each normaliser can return.\<close>

definition is_chain_id :: "jsval \<Rightarrow> bool" where
  "is_chain_id v = (case v of Num n \<Rightarrow> 1 \<le> n \<and> n \<le> max_safe | _ \<Rightarrow> False)"

definition is_address :: "jsval \<Rightarrow> bool" where
  "is_address v = (case v of Str s \<Rightarrow> after ''0x'' (lower_hex_n 40) s | _ \<Rightarrow> False)"

definition is_hash0x :: "jsval \<Rightarrow> bool" where
  "is_hash0x v = (case v of Str s \<Rightarrow> hash0x s | _ \<Rightarrow> False)"

definition is_uint :: "jsval \<Rightarrow> bool" where
  "is_uint v = (case v of Str s \<Rightarrow> uint_text s | _ \<Rightarrow> False)"

definition is_id :: "jsval \<Rightarrow> bool" where
  "is_id v = (case v of Str s \<Rightarrow> ID_RE s | _ \<Rightarrow> False)"

definition is_time :: "jsval \<Rightarrow> bool" where
  "is_time v = (case v of Num n \<Rightarrow> 0 < n \<and> n \<le> max_safe | _ \<Rightarrow> False)"

lemmas normal_form_defs = is_chain_id_def is_address_def is_hash0x_def is_uint_def is_id_def is_time_def

lemmas values_defs = chainId_def evmAddress_def txHash_def uintString_def protocolId_def unixSeconds_def

named_theorems normal_forms "what a normaliser returns is a normal form"
named_theorems normal_fixed "a normaliser keeps a normal form"

lemma safe_int_bound: "safe_int x = Some n \<Longrightarrow> \<bar>n\<bar> \<le> max_safe"
  by (auto simp: safe_int_def Let_def split: jnum.splits if_splits)

lemma chainId_normal [normal_forms]: "chainId v = Inr w \<Longrightarrow> is_chain_id w"
  by (auto simp: chainId_def is_chain_id_def Let_def dest!: safe_int_bound split: option.splits if_splits)

lemma evmAddress_normal [normal_forms]: "evmAddress v = Inr w \<Longrightarrow> is_address w"
  by (auto simp: evmAddress_def is_address_def EVM_ADDRESS_RE_def lower_bytes_0x split: jsval.splits if_splits)

lemma txHash_normal [normal_forms]: "txHash v = Inr w \<Longrightarrow> is_hash0x w"
  by (auto simp: txHash_def is_hash0x_def TX_HASH_RE_def lower_bytes_0x split: jsval.splits if_splits)

lemma uintString_normal [normal_forms]: "uintString v = Inr w \<Longrightarrow> is_uint w"
  by (auto simp: uintString_def is_uint_def UINT_RE_def Let_def split: if_splits)

lemma protocolId_normal [normal_forms]: "protocolId v = Inr w \<Longrightarrow> is_id w"
  by (auto simp: protocolId_def is_id_def Let_def split: if_splits)

lemma unixSeconds_normal [normal_forms]: "unixSeconds v = Inr w \<Longrightarrow> is_time w"
  by (auto simp: unixSeconds_def is_time_def dest!: safe_int_bound split: option.splits if_splits)

lemma chainId_fixed [normal_fixed]: "is_chain_id v \<Longrightarrow> chainId v = Inr v"
  by (auto simp: chainId_def is_chain_id_def Let_def split: jsval.splits)

lemma evmAddress_fixed [normal_fixed]: "is_address v \<Longrightarrow> evmAddress v = Inr v"
  by (auto simp: evmAddress_def is_address_def EVM_ADDRESS_RE_def after_0x_mono lower_fixed_0x split: jsval.splits)

lemma txHash_fixed [normal_fixed]: "is_hash0x v \<Longrightarrow> txHash v = Inr v"
  by (auto simp: txHash_def is_hash0x_def TX_HASH_RE_def after_0x_mono lower_fixed_0x split: jsval.splits)

lemma uintString_fixed [normal_fixed]: "is_uint v \<Longrightarrow> uintString v = Inr v"
  by (auto simp: uintString_def is_uint_def UINT_RE_def Let_def split: jsval.splits)

lemma protocolId_fixed [normal_fixed]: "is_id v \<Longrightarrow> protocolId v = Inr v"
  by (auto simp: protocolId_def is_id_def Let_def split: jsval.splits)

lemma unixSeconds_fixed [normal_fixed]: "is_time v \<Longrightarrow> unixSeconds v = Inr v"
  by (auto simp: unixSeconds_def is_time_def Let_def split: jsval.splits)

section \<open>The contract of a normaliser\<close>

text \<open>
  What callers that rebuild a stored value rely on: a normaliser returns normal forms
  only, and leaves a normal form as it is; so applying it twice is applying it once.
\<close>

locale normaliser =
  fixes f :: "jsval \<Rightarrow> jsval result" and normal :: "jsval \<Rightarrow> bool"
  assumes normal: "f v = Inr w \<Longrightarrow> normal w"
    and fixed: "normal v \<Longrightarrow> f v = Inr v"
begin

lemma idempotent: "f v = Inr w \<Longrightarrow> f w = Inr w"
  by (rule fixed [OF normal])

lemma range_iff: "(\<exists>v. f v = Inr w) \<longleftrightarrow> normal w"
  using normal fixed by blast

lemma rebuild: "letE (f v) f = f v"
  by (cases "f v") (auto dest: idempotent)

end

interpretation chain_id: normaliser chainId is_chain_id
  by unfold_locales (rule normal_forms normal_fixed, assumption)+

interpretation address: normaliser evmAddress is_address
  by unfold_locales (rule normal_forms normal_fixed, assumption)+

interpretation tx_hash: normaliser txHash is_hash0x
  by unfold_locales (rule normal_forms normal_fixed, assumption)+

interpretation uint_string: normaliser uintString is_uint
  by unfold_locales (rule normal_forms normal_fixed, assumption)+

interpretation protocol_id: normaliser protocolId is_id
  by unfold_locales (rule normal_forms normal_fixed, assumption)+

interpretation unix_seconds: normaliser unixSeconds is_time
  by unfold_locales (rule normal_forms normal_fixed, assumption)+

lemma normal_form_strings:
  "is_address v \<Longrightarrow> is_str v" "is_hash0x v \<Longrightarrow> is_str v" "is_uint v \<Longrightarrow> is_str v" "is_id v \<Longrightarrow> is_str v"
  by (auto simp: normal_form_defs split: jsval.splits)

lemma normal_form_not_nullish:
  "is_address v \<Longrightarrow> \<not> nullish v" "is_hash0x v \<Longrightarrow> \<not> nullish v" "is_uint v \<Longrightarrow> \<not> nullish v"
  "is_id v \<Longrightarrow> \<not> nullish v" "is_time v \<Longrightarrow> \<not> nullish v" "is_chain_id v \<Longrightarrow> \<not> nullish v"
  by (auto simp: normal_form_defs nullish_def)

section \<open>Properties\<close>

text \<open>The values each normaliser can return are exactly its normal forms, and normalising a
  returned value again returns it unchanged (or throws the same error).\<close>

theorem normalisers_exact:
  "((\<exists>v. chainId v = Inr w) \<longleftrightarrow> is_chain_id w) \<and> letE (chainId v) chainId = chainId v \<and>
   ((\<exists>v. evmAddress v = Inr w) \<longleftrightarrow> is_address w) \<and> letE (evmAddress v) evmAddress = evmAddress v \<and>
   ((\<exists>v. txHash v = Inr w) \<longleftrightarrow> is_hash0x w) \<and> letE (txHash v) txHash = txHash v \<and>
   ((\<exists>v. uintString v = Inr w) \<longleftrightarrow> is_uint w) \<and> letE (uintString v) uintString = uintString v \<and>
   ((\<exists>v. protocolId v = Inr w) \<longleftrightarrow> is_id w) \<and> letE (protocolId v) protocolId = protocolId v \<and>
   ((\<exists>v. unixSeconds v = Inr w) \<longleftrightarrow> is_time w) \<and> letE (unixSeconds v) unixSeconds = unixSeconds v"
  by (intro conjI chain_id.range_iff chain_id.rebuild address.range_iff address.rebuild
      tx_hash.range_iff tx_hash.rebuild uint_string.range_iff uint_string.rebuild
      protocol_id.range_iff protocol_id.rebuild unix_seconds.range_iff unix_seconds.rebuild)

end
