(* ===== verification/Hyperliquid.thy ===== *)
theory Hyperliquid
  imports Values
begin

text \<open>
  src/domain/hyperliquid.mjs: normalisation of Hyperliquid spot IOC orders, of their observed
  executions and of the evidence of an Info API observation; exact decimal strings and their
  comparison; the client order id an intent reserves.  Shown: the comparison of decimal
  strings is the comparison of the rationals they denote; normalised orders and executions
  are normal forms, and a normalised execution respects the order's size and limit.
\<close>

section \<open>Decimal strings\<close>

text \<open>\<^verbatim>\<open>value.split(".")\<close> as the code destructures it.\<close>

definition whole_part :: "string \<Rightarrow> string" where
  "whole_part s = takeWhile (\<lambda>c. c \<noteq> CHR ''.'') s"

definition fraction_part :: "string \<Rightarrow> string" where
  "fraction_part s = takeWhile (\<lambda>c. c \<noteq> CHR ''.'') (drop 1 (dropWhile (\<lambda>c. c \<noteq> CHR ''.'') s))"

text \<open>\<^verbatim>\<open>/^(?:0|[1-9][0-9]*)(?:\.[0-9]{1,18})?$/\<close>.\<close>

definition decimal_re :: "string \<Rightarrow> bool" where
  "decimal_re s = (uint_text (whole_part s) \<and>
     (case dropWhile (\<lambda>c. c \<noteq> CHR ''.'') s of
        [] \<Rightarrow> True
      | d # f \<Rightarrow> 1 \<le> length f \<and> length f \<le> 18 \<and> list_all is_digit f))"

definition trim_zeros :: "string \<Rightarrow> string" where
  "trim_zeros s = rev (dropWhile (\<lambda>c. c = CHR ''0'') (rev s))"

definition decimal :: "jsval \<Rightarrow> jsval result" where
  "decimal value = (case value of
      Str s \<Rightarrow> if \<not> decimal_re s then Inl (PriorSealError ''INVALID_HYPERLIQUID_ORDER'') else
        (let whole = whole_part s; trimmed = trim_zeros (fraction_part s)
         in Inr (Str (if trimmed \<noteq> [] then whole @ ''.'' @ trimmed else whole)))
    | _ \<Rightarrow> Inl (PriorSealError ''INVALID_HYPERLIQUID_ORDER''))"

text \<open>
  The strings compared are decimal strings, so that \<^verbatim>\<open>BigInt\<close> of their parts reads digits.
\<close>

definition compareDecimal :: "string \<Rightarrow> string \<Rightarrow> int" where
  "compareDecimal left right = (
     let leftFraction = fraction_part left; rightFraction = fraction_part right;
         scale = max (length leftFraction) (length rightFraction);
         factor = 10 ^ scale;
         asInteger = (\<lambda>whole fraction. int (nat_value whole) * factor
                        + int (nat_value (take scale (fraction @ replicate scale (CHR ''0'')))));
         difference = asInteger (whole_part left) leftFraction - asInteger (whole_part right) rightFraction
     in if difference = 0 then 0 else if difference < 0 then -1 else 1)"

definition positiveDecimal :: "jsval \<Rightarrow> jsval result" where
  "positiveDecimal value = letE (decimal value) (\<lambda>normalized.
     if compareDecimal (str_of normalized) ''0'' \<le> 0 then Inl (PriorSealError ''INVALID_HYPERLIQUID_ORDER'')
     else Inr normalized)"

section \<open>Spot IOC orders\<close>

definition HYPERLIQUID_MAINNET_CHAIN_REF :: string where
  "HYPERLIQUID_MAINNET_CHAIN_REF = ''hyperliquid:mainnet''"

definition HYPERLIQUID_SPOT_IOC_PROFILE :: string where
  "HYPERLIQUID_SPOT_IOC_PROFILE = ''priorseal.execution-profile.hyperliquid-spot-ioc.v1''"

definition HYPERLIQUID_SPOT_IOC_ACTION :: string where
  "HYPERLIQUID_SPOT_IOC_ACTION = ''HYPERLIQUID_SPOT_IOC_ORDER''"

definition HYPERLIQUID_MAX_SPOT_IOC_LIFETIME_MS :: int where
  "HYPERLIQUID_MAX_SPOT_IOC_LIFETIME_MS = 5 * 60000"

definition HYPERLIQUID_OUTCOME_ASSET_ID_MIN :: int where
  "HYPERLIQUID_OUTCOME_ASSET_ID_MIN = 100000000"

definition HYPERLIQUID_TERMINAL_ORDER_STATUSES :: "string list" where
  "HYPERLIQUID_TERMINAL_ORDER_STATUSES = [''filled'', ''canceled'', ''marginCanceled'',
     ''vaultWithdrawalCanceled'', ''openInterestCapCanceled'', ''selfTradeCanceled'',
     ''reduceOnlyCanceled'', ''siblingFilledCanceled'', ''delistedCanceled'', ''liquidatedCanceled'',
     ''scheduledCancel'', ''rejected'', ''tickRejected'', ''minTradeNtlRejected'', ''perpMarginRejected'',
     ''reduceOnlyRejected'', ''badAloPxRejected'', ''iocCancelRejected'', ''badTriggerPxRejected'',
     ''marketOrderNoLiquidityRejected'', ''positionIncreaseAtOpenInterestCapRejected'',
     ''positionFlipAtOpenInterestCapRejected'', ''tooAggressiveAtOpenInterestCapRejected'',
     ''openInterestIncreaseRejected'', ''insufficientSpotBalanceRejected'', ''oracleRejected'',
     ''perpMaxPositionRejected'']"

definition isHyperliquidCloid :: "jsval \<Rightarrow> bool" where
  "isHyperliquidCloid value = (case value of Str s \<Rightarrow> after ''0x'' (hex_n 32) s | _ \<Rightarrow> False)"

definition normalizeHyperliquidSpotIocOrder :: "jsval \<Rightarrow> jsval result" where
  "normalizeHyperliquidSpotIocOrder value =
     letE (assertOnlyFields value [''assetId'', ''isBuy'', ''limitPrice'', ''size'', ''timeInForce'',
                                   ''clientOrderId'', ''expiresAfter'']) (\<lambda>input.
     if \<not> is_safe_integer (fld input ''assetId'') \<or> int_of (fld input ''assetId'') < 10000
        \<or> HYPERLIQUID_OUTCOME_ASSET_ID_MIN \<le> int_of (fld input ''assetId'')
       then Inl (PriorSealError ''INVALID_HYPERLIQUID_ORDER'') else
     if \<not> is_bool (fld input ''isBuy'') then Inl (PriorSealError ''INVALID_HYPERLIQUID_ORDER'') else
     if fld input ''timeInForce'' \<noteq> Str ''Ioc'' then Inl (PriorSealError ''INVALID_HYPERLIQUID_ORDER'') else
     if \<not> isHyperliquidCloid (fld input ''clientOrderId'') then Inl (PriorSealError ''INVALID_HYPERLIQUID_ORDER'') else
     if \<not> is_safe_integer (fld input ''expiresAfter'') \<or> int_of (fld input ''expiresAfter'') \<le> 0
       then Inl (PriorSealError ''INVALID_HYPERLIQUID_ORDER'') else
     letE (decimal (fld input ''limitPrice'')) (\<lambda>limitPrice.
     letE (positiveDecimal (fld input ''size'')) (\<lambda>sz.
     Inr (Obj [(''assetId'', fld input ''assetId''),
               (''isBuy'', fld input ''isBuy''),
               (''limitPrice'', limitPrice),
               (''size'', sz),
               (''timeInForce'', Str ''Ioc''),
               (''clientOrderId'', Str (lower (str_of (fld input ''clientOrderId'')))),
               (''expiresAfter'', fld input ''expiresAfter'')]))))"

definition hyperliquidTerminalDisposition :: "jsval \<Rightarrow> string option" where
  "hyperliquidTerminalDisposition value = (
     if value = Str ''filled'' then Some ''FILLED'' else
     (case value of
        Str s \<Rightarrow> if s \<notin> set HYPERLIQUID_TERMINAL_ORDER_STATUSES then None
                 else if drop (length s - 8) s = ''Rejected'' \<or> s = ''rejected'' then Some ''REJECTED''
                 else Some ''CANCELED''
      | _ \<Rightarrow> None))"

definition normalizeHyperliquidSpotIocExecution :: "jsval \<Rightarrow> jsval result" where
  "normalizeHyperliquidSpotIocExecution value =
     letE (assertOnlyFields value [''assetId'', ''isBuy'', ''limitPrice'', ''size'', ''timeInForce'',
        ''clientOrderId'', ''expiresAfter'', ''orderId'', ''orderStatus'', ''filledSize'', ''averagePrice'',
        ''fee'', ''statusTimestamp'']) (\<lambda>input.
     letE (normalizeHyperliquidSpotIocOrder (Obj
        [(''assetId'', fld input ''assetId''), (''isBuy'', fld input ''isBuy''),
         (''limitPrice'', fld input ''limitPrice''), (''size'', fld input ''size''),
         (''timeInForce'', fld input ''timeInForce''), (''clientOrderId'', fld input ''clientOrderId''),
         (''expiresAfter'', fld input ''expiresAfter'')])) (\<lambda>order.
     if \<not> uint_text (js_string (orElse (fld input ''orderId'') (Str [])))
       then Inl (PriorSealError ''INVALID_HYPERLIQUID_EXECUTION'') else
     (case hyperliquidTerminalDisposition (fld input ''orderStatus'') of
        None \<Rightarrow> Inl (PriorSealError ''INVALID_HYPERLIQUID_EXECUTION'')
      | Some disposition \<Rightarrow>
     if \<not> is_safe_integer (fld input ''statusTimestamp'') \<or> int_of (fld input ''statusTimestamp'') \<le> 0
       then Inl (PriorSealError ''INVALID_HYPERLIQUID_EXECUTION'') else
     letE (decimal (fld input ''filledSize'')) (\<lambda>filledSize.
     letE (if fld input ''averagePrice'' = Null then Inr Null else positiveDecimal (fld input ''averagePrice'')) (\<lambda>averagePrice.
     letE (if fld input ''fee'' = Null then Inr Null else decimal (fld input ''fee'')) (\<lambda>fee.
     let cmp = (\<lambda>a b. compareDecimal (str_of a) (str_of b)) in
     if cmp filledSize (fld order ''size'') > 0 then Inl (PriorSealError ''INVALID_HYPERLIQUID_EXECUTION'') else
     if disposition = ''FILLED'' \<and> cmp filledSize (fld order ''size'') \<noteq> 0
       then Inl (PriorSealError ''INVALID_HYPERLIQUID_EXECUTION'') else
     if disposition = ''REJECTED'' \<and> cmp filledSize (Str ''0'') \<noteq> 0
       then Inl (PriorSealError ''INVALID_HYPERLIQUID_EXECUTION'') else
     if cmp filledSize (Str ''0'') = 0 \<and> averagePrice \<noteq> Null
       then Inl (PriorSealError ''INVALID_HYPERLIQUID_EXECUTION'') else
     if cmp filledSize (Str ''0'') > 0 \<and> averagePrice = Null
       then Inl (PriorSealError ''INVALID_HYPERLIQUID_EXECUTION'') else
     if averagePrice \<noteq> Null \<and>
        (if truthy (fld order ''isBuy'') then cmp averagePrice (fld order ''limitPrice'') > 0
         else cmp averagePrice (fld order ''limitPrice'') < 0)
       then Inl (PriorSealError ''INVALID_HYPERLIQUID_EXECUTION'') else
     Inr (Obj (props order @
       [(''orderId'', Str (js_string (fld input ''orderId''))), (''orderStatus'', fld input ''orderStatus''),
        (''filledSize'', filledSize), (''averagePrice'', averagePrice), (''fee'', fee),
        (''statusTimestamp'', fld input ''statusTimestamp'')]))))))))"

section \<open>Observation evidence\<close>

definition evidence_hash :: "jsval \<Rightarrow> string \<Rightarrow> jsval result" where
  "evidence_hash input field = (case fld input field of
      Str s \<Rightarrow> if hash64 s then Inr (Str s) else Inl (PriorSealError ''INVALID_HYPERLIQUID_EVIDENCE'')
    | _ \<Rightarrow> Inl (PriorSealError ''INVALID_HYPERLIQUID_EVIDENCE''))"

definition evidence_hashes :: "jsval \<Rightarrow> string \<Rightarrow> jsval result" where
  "evidence_hashes input field = (case fld input field of
      Arr xs \<Rightarrow> if length xs > 100 \<or> list_ex (\<lambda>x. \<not> (is_str x \<and> hash64 (str_of x))) xs
                then Inl (PriorSealError ''INVALID_HYPERLIQUID_EVIDENCE'') else Inr (Arr xs)
    | _ \<Rightarrow> Inl (PriorSealError ''INVALID_HYPERLIQUID_EVIDENCE''))"

definition evidence_count :: "jsval \<Rightarrow> string \<Rightarrow> jsval result" where
  "evidence_count input field = (
     if \<not> is_safe_integer (fld input field) \<or> int_of (fld input field) < 0 \<or> int_of (fld input field) > 1000000
     then Inl (PriorSealError ''INVALID_HYPERLIQUID_EVIDENCE'') else Inr (fld input field))"

definition normalizeHyperliquidInfoObservationEvidence :: "jsval \<Rightarrow> jsval result" where
  "normalizeHyperliquidInfoObservationEvidence value =
     letE (assertOnlyFields value [''schema'', ''endpointHash'', ''orderStatusRequestHash'',
        ''orderStatusResponseHash'', ''fillRequestHashes'', ''fillResponseHashes'', ''fillPageCount'',
        ''fillResponseCount'', ''relevantFillCount'', ''fillsComplete'', ''observedAtMillis'']) (\<lambda>input.
     if fld input ''schema'' \<noteq> Str ''priorseal.hyperliquid-info-observation.v1''
       then Inl (PriorSealError ''INVALID_HYPERLIQUID_EVIDENCE'') else
     if \<not> is_bool (fld input ''fillsComplete'') then Inl (PriorSealError ''INVALID_HYPERLIQUID_EVIDENCE'') else
     if \<not> is_safe_integer (fld input ''observedAtMillis'') \<or> int_of (fld input ''observedAtMillis'') \<le> 0
       then Inl (PriorSealError ''INVALID_HYPERLIQUID_EVIDENCE'') else
     letE (evidence_hashes input ''fillRequestHashes'') (\<lambda>fillRequestHashes.
     letE (evidence_hashes input ''fillResponseHashes'') (\<lambda>fillResponseHashes.
     letE (evidence_count input ''fillPageCount'') (\<lambda>fillPageCount.
     if length (elems fillRequestHashes) \<noteq> length (elems fillResponseHashes)
        \<or> int_of fillPageCount \<noteq> int (length (elems fillRequestHashes))
       then Inl (PriorSealError ''INVALID_HYPERLIQUID_EVIDENCE'') else
     letE (evidence_hash input ''endpointHash'') (\<lambda>endpointHash.
     letE (evidence_hash input ''orderStatusRequestHash'') (\<lambda>requestHash.
     letE (evidence_hash input ''orderStatusResponseHash'') (\<lambda>responseHash.
     letE (evidence_count input ''fillResponseCount'') (\<lambda>fillResponseCount.
     letE (evidence_count input ''relevantFillCount'') (\<lambda>relevantFillCount.
     Inr (Obj [(''schema'', Str ''priorseal.hyperliquid-info-observation.v1''),
       (''endpointHash'', endpointHash), (''orderStatusRequestHash'', requestHash),
       (''orderStatusResponseHash'', responseHash), (''fillRequestHashes'', fillRequestHashes),
       (''fillResponseHashes'', fillResponseHashes), (''fillPageCount'', fillPageCount),
       (''fillResponseCount'', fillResponseCount), (''relevantFillCount'', relevantFillCount),
       (''fillsComplete'', fld input ''fillsComplete''),
       (''observedAtMillis'', fld input ''observedAtMillis'')]))))))))))"

section \<open>Helpers other modules call\<close>

definition hyperliquidSpotAssetId :: "string \<Rightarrow> jsval result" where
  "hyperliquidSpotAssetId asset = (
     let n = int (nat_value (drop 25 asset)) in
     if \<not> after ''hyperliquid:mainnet/spot:'' posint_text asset \<or> n < 10000
        \<or> HYPERLIQUID_OUTCOME_ASSET_ID_MIN \<le> n \<or> max_safe < n
     then Inl (PriorSealError ''INVALID_ASSET'') else Inr (Num n))"

definition hyperliquidCloidReservation :: "jsval \<Rightarrow> jsval" where
  "hyperliquidCloidReservation intent = (
     if fld intent ''executionProfile'' \<noteq> Str HYPERLIQUID_SPOT_IOC_PROFILE
        \<or> fld intent ''chainRef'' \<noteq> Str HYPERLIQUID_MAINNET_CHAIN_REF
        \<or> \<not> (is_str (fld intent ''sender'') \<and> EVM_ADDRESS_RE (str_of (fld intent ''sender'')))
        \<or> \<not> isHyperliquidCloid (fld (fld intent ''hyperliquidOrder'') ''clientOrderId'')
     then Null
     else Obj [(''networkRef'', Str HYPERLIQUID_MAINNET_CHAIN_REF),
               (''account'', Str (lower (str_of (fld intent ''sender'')))),
               (''clientOrderId'', Str (lower (str_of (fld (fld intent ''hyperliquidOrder'') ''clientOrderId''))))])"

definition sameHyperliquidSpotIocOrder :: "jsval \<Rightarrow> jsval \<Rightarrow> bool" where
  "sameHyperliquidSpotIocOrder expected observed = (
     truthy expected \<and> truthy observed \<and>
     list_all (\<lambda>k. js_eq (fld expected k) (fld observed k))
       [''assetId'', ''isBuy'', ''limitPrice'', ''size'', ''timeInForce'', ''clientOrderId'', ''expiresAfter''])"

definition normalizeHyperliquidAccount :: "jsval \<Rightarrow> jsval result" where
  "normalizeHyperliquidAccount value = evmAddress value"

definition normalizeHyperliquidNonce :: "jsval \<Rightarrow> jsval result" where
  "normalizeHyperliquidNonce value = letE (uintString value) (\<lambda>nonce.
     if int (nat_value (str_of nonce)) < 1000000000000 \<or> max_safe < int (nat_value (str_of nonce))
     then Inl (PriorSealError ''INVALID_HYPERLIQUID_ORDER'') else Inr nonce)"

section \<open>Comparison of decimals\<close>

definition decimal_value :: "string \<Rightarrow> rat" where
  "decimal_value s = of_nat (nat_value (whole_part s))
     + of_nat (nat_value (fraction_part s)) / 10 ^ length (fraction_part s)"

lemma nat_value_append: "nat_value (a @ b) = nat_value a * 10 ^ length b + nat_value b"
proof (induction b rule: rev_induct)
  case (snoc c b)
  then show ?case by (simp add: nat_value_snoc flip: append_assoc)
qed (simp add: nat_value_def)

lemma nat_value_zeros: "nat_value (replicate k (CHR ''0'')) = 0"
  by (induction k) (simp_all add: nat_value_def digit_val_def)

text \<open>The integer the code compares is the value scaled by a common power of ten.\<close>

lemma scaled_value:
  assumes "length f \<le> k"
  shows "(of_nat (nat_value w * 10 ^ k + nat_value (take k (f @ replicate k (CHR ''0'')))) :: rat)
    = (of_nat (nat_value w) + of_nat (nat_value f) / 10 ^ length f) * 10 ^ k"
proof -
  have "take k (f @ replicate k (CHR ''0'')) = f @ replicate (k - length f) (CHR ''0'')"
    using assms by simp
  moreover have "(10::rat) ^ k = 10 ^ length f * 10 ^ (k - length f)"
    using assms by (simp flip: power_add)
  ultimately show ?thesis by (simp add: nat_value_append nat_value_zeros algebra_simps)
qed

lemma compareDecimal_sgn:
  "of_int (compareDecimal l r) = sgn (decimal_value l - decimal_value r)"
proof -
  let ?k = "max (length (fraction_part l)) (length (fraction_part r))"
  let ?n = "\<lambda>s. nat_value (whole_part s) * 10 ^ ?k
      + nat_value (take ?k (fraction_part s @ replicate ?k (CHR ''0'')))"
  have v: "(of_nat (?n s) :: rat) = decimal_value s * 10 ^ ?k" if "s = l \<or> s = r" for s
    unfolding decimal_value_def by (rule scaled_value) (use that in auto)
  have "decimal_value l - decimal_value r = (of_nat (?n l) - of_nat (?n r)) / 10 ^ ?k"
    using v [of l] v [of r] by (simp add: field_simps)
  also have "\<dots> = of_int (int (?n l) - int (?n r)) / 10 ^ ?k" by simp
  finally have "sgn (decimal_value l - decimal_value r) = sgn (of_int (int (?n l) - int (?n r)) / 10 ^ ?k)"
    by (rule arg_cong)
  also have "\<dots> = of_int (sgn (int (?n l) - int (?n r)))"
    by (simp add: sgn_if divide_less_0_iff zero_less_divide_iff flip: of_int_diff of_int_0_less_iff)
  also have "sgn (int (?n l) - int (?n r)) = compareDecimal l r"
    by (simp add: compareDecimal_def Let_def sgn_if)
  finally show ?thesis by simp
qed

lemma compareDecimal_order:
  "compareDecimal l r < 0 \<longleftrightarrow> decimal_value l < decimal_value r"
  "compareDecimal l r = 0 \<longleftrightarrow> decimal_value l = decimal_value r"
  "compareDecimal l r > 0 \<longleftrightarrow> decimal_value l > decimal_value r"
proof -
  have s: "(of_int (compareDecimal l r) :: rat) = sgn (decimal_value l - decimal_value r)"
    by (rule compareDecimal_sgn)
  show "compareDecimal l r < 0 \<longleftrightarrow> decimal_value l < decimal_value r"
    using s by (simp add: sgn_if flip: of_int_less_iff [where ?'a = rat] split: if_splits)
  show "compareDecimal l r = 0 \<longleftrightarrow> decimal_value l = decimal_value r"
    using s by (simp add: sgn_if flip: of_int_eq_iff [where ?'a = rat] split: if_splits)
  show "compareDecimal l r > 0 \<longleftrightarrow> decimal_value l > decimal_value r"
    using s by (simp add: sgn_if flip: of_int_less_iff [where ?'a = rat] split: if_splits)
qed

lemma decimal_value_0: "decimal_value ''0'' = 0"
  by (simp add: decimal_value_def whole_part_def fraction_part_def nat_value_def digit_val_def)

section \<open>Normal decimals\<close>

definition is_decimal :: "string \<Rightarrow> bool" where
  "is_decimal s = (decimal_re s \<and> trim_zeros (fraction_part s) = fraction_part s)"

lemma uint_text_digits: "uint_text s \<Longrightarrow> s \<noteq> [] \<and> list_all is_digit s"
  by (auto simp: uint_text_def posint_text_def is_digit_def)

lemma no_dot: "list_all is_digit s \<Longrightarrow> \<forall>c\<in>set s. c \<noteq> CHR ''.''"
  by (auto simp: list_all_iff is_digit_def)

lemma parts_of_whole:
  assumes "list_all is_digit w"
  shows "whole_part w = w" "fraction_part w = []" "dropWhile (\<lambda>c. c \<noteq> CHR ''.'') w = []"
proof -
  have d: "dropWhile (\<lambda>c. c \<noteq> CHR ''.'') w = []" using no_dot [OF assms] by (simp add: dropWhile_eq_Nil_conv)
  then show "dropWhile (\<lambda>c. c \<noteq> CHR ''.'') w = []" .
  show "fraction_part w = []" unfolding fraction_part_def d by simp
  show "whole_part w = w" using no_dot [OF assms] by (simp add: whole_part_def takeWhile_eq_all_conv)
qed

lemma parts_of_pair:
  assumes "list_all is_digit w" "list_all is_digit f"
  shows "whole_part (w @ ''.'' @ f) = w" "fraction_part (w @ ''.'' @ f) = f"
    "dropWhile (\<lambda>c. c \<noteq> CHR ''.'') (w @ ''.'' @ f) = ''.'' @ f"
proof -
  have w: "takeWhile (\<lambda>c. c \<noteq> CHR ''.'') w = w" "dropWhile (\<lambda>c. c \<noteq> CHR ''.'') w = []"
    "\<And>x. takeWhile (\<lambda>c. c \<noteq> CHR ''.'') (w @ x) = w @ takeWhile (\<lambda>c. c \<noteq> CHR ''.'') x"
    "\<And>x. dropWhile (\<lambda>c. c \<noteq> CHR ''.'') (w @ x) = dropWhile (\<lambda>c. c \<noteq> CHR ''.'') x"
    using no_dot [OF assms(1)] by (auto simp: takeWhile_append dropWhile_append)
  have f: "takeWhile (\<lambda>c. c \<noteq> CHR ''.'') f = f"
    using no_dot [OF assms(2)] by (simp add: takeWhile_eq_all_conv)
  show "whole_part (w @ ''.'' @ f) = w" "fraction_part (w @ ''.'' @ f) = f"
    "dropWhile (\<lambda>c. c \<noteq> CHR ''.'') (w @ ''.'' @ f) = ''.'' @ f"
    by (simp_all add: whole_part_def fraction_part_def w f)
qed

lemma split_at_dot: "s = whole_part s @ dropWhile (\<lambda>c. c \<noteq> CHR ''.'') s"
  by (simp add: whole_part_def)

lemma decimal_reE:
  assumes "decimal_re s"
  obtains "uint_text s"
    | w f where "s = w @ ''.'' @ f" "uint_text w" "1 \<le> length f" "length f \<le> 18" "list_all is_digit f"
proof (cases "dropWhile (\<lambda>c. c \<noteq> CHR ''.'') s")
  case Nil
  with assms split_at_dot [of s] show ?thesis by (intro that(1)) (simp add: decimal_re_def)
next
  case (Cons d f)
  then have "d = CHR ''.''" using hd_dropWhile [of "\<lambda>c. c \<noteq> CHR ''.''" s] by simp
  with Cons have "s = whole_part s @ ''.'' @ f" using split_at_dot [of s] by simp
  with assms Cons show ?thesis by (intro that(2)) (auto simp: decimal_re_def)
qed

lemma decimal_re_whole: "uint_text w \<Longrightarrow> decimal_re w"
proof -
  assume w: "uint_text w"
  then have "list_all is_digit w" using uint_text_digits by simp
  note p = parts_of_whole [OF this]
  show "decimal_re w" unfolding decimal_re_def p using w by simp
qed

lemma decimal_re_pair:
  "uint_text w \<Longrightarrow> list_all is_digit f \<Longrightarrow> 1 \<le> length f \<Longrightarrow> length f \<le> 18 \<Longrightarrow> decimal_re (w @ ''.'' @ f)"
  using uint_text_digits [of w] parts_of_pair [of w f] by (simp add: decimal_re_def)

lemma trim_zeros_idem [simp]: "trim_zeros (trim_zeros s) = trim_zeros s"
proof -
  let ?r = "dropWhile (\<lambda>c. c = CHR ''0'') (rev s)"
  have "dropWhile (\<lambda>c. c = CHR ''0'') ?r = ?r"
    using hd_dropWhile [of "\<lambda>c. c = CHR ''0''" "rev s"] by (cases ?r) auto
  then show ?thesis by (simp add: trim_zeros_def)
qed

lemma trim_zeros_subset: "set (trim_zeros s) \<subseteq> set s" "length (trim_zeros s) \<le> length s"
  by (auto simp: trim_zeros_def dest: set_dropWhileD intro: le_trans [OF length_dropWhile_le])

lemma trim_zeros_Nil [simp]: "trim_zeros [] = []"
  by (simp add: trim_zeros_def)

lemma trimmed_decimal:
  assumes "decimal_re s"
  defines "t \<equiv> trim_zeros (fraction_part s)"
  shows "is_decimal (if t \<noteq> [] then whole_part s @ ''.'' @ t else whole_part s)"
  using assms(1)
proof (cases rule: decimal_reE)
  case 1
  with uint_text_digits [of s] parts_of_whole [of s] show ?thesis
    by (simp add: t_def is_decimal_def decimal_re_whole)
next
  case (2 w f)
  then have d: "list_all is_digit w" "list_all is_digit f" "list_all is_digit t"
    using uint_text_digits [of w] parts_of_pair [of w f] trim_zeros_subset [of f]
    by (auto simp: t_def list_all_iff)
  have t: "whole_part s = w" "t = trim_zeros f" "length t \<le> 18"
    using 2 d parts_of_pair [of w f] trim_zeros_subset [of f] by (simp_all add: t_def)
  have "1 \<le> length t" if "t \<noteq> []" using that by (cases t) simp_all
  with 2 d t show ?thesis
    using parts_of_whole [OF d(1)] parts_of_pair [OF d(1,3)]
      decimal_re_whole [of w] decimal_re_pair [of w t]
    by (simp add: is_decimal_def)
qed

lemma decimal_normal: "decimal v = Inr w \<Longrightarrow> \<exists>s. w = Str s \<and> is_decimal s"
proof (cases v)
  case (Str s)
  assume "decimal v = Inr w"
  with Str have "decimal_re s"
    "w = Str (if trim_zeros (fraction_part s) \<noteq> [] then whole_part s @ ''.'' @ trim_zeros (fraction_part s) else whole_part s)"
    by (simp_all add: decimal_def Let_def split: if_splits)
  with trimmed_decimal [of s] show ?thesis by blast
qed (simp_all add: decimal_def)

lemma decimal_fixed: "is_decimal s \<Longrightarrow> decimal (Str s) = Inr (Str s)"
proof -
  assume s: "is_decimal s"
  then have "decimal_re s" by (simp add: is_decimal_def)
  then show ?thesis
  proof (cases rule: decimal_reE)
    case 1
    with s uint_text_digits [of s] parts_of_whole [of s] show ?thesis
      by (simp add: decimal_def is_decimal_def)
  next
    case (2 w f)
    with s uint_text_digits [of w] parts_of_pair [of w f] show ?thesis
      by (auto simp: decimal_def is_decimal_def)
  qed
qed

lemma decimal_idem: "decimal v = Inr w \<Longrightarrow> decimal w = Inr w"
  using decimal_normal [of v w] decimal_fixed by auto

lemma positiveDecimal_iff:
  "positiveDecimal v = Inr w \<longleftrightarrow> decimal v = Inr w \<and> 0 < decimal_value (str_of w)"
  using compareDecimal_order [of "str_of w" "''0''"]
  by (auto simp: positiveDecimal_def letE_eq_Inr decimal_value_0 not_le)

section \<open>Normal forms of orders\<close>

definition is_cloid :: "string \<Rightarrow> bool" where
  "is_cloid s = after ''0x'' (lower_hex_n 32) s"

definition is_spot_order :: "jsval \<Rightarrow> bool" where
  "is_spot_order v = (\<exists>a b p q c e.
     v = Obj [(''assetId'', Num a), (''isBuy'', Bool b), (''limitPrice'', Str p), (''size'', Str q),
              (''timeInForce'', Str ''Ioc''), (''clientOrderId'', Str c), (''expiresAfter'', Num e)]
     \<and> 10000 \<le> a \<and> a < HYPERLIQUID_OUTCOME_ASSET_ID_MIN \<and> is_decimal p \<and> is_decimal q
     \<and> 0 < decimal_value q \<and> is_cloid c \<and> 0 < e \<and> e \<le> max_safe)"

lemma is_boolE: "is_bool v \<Longrightarrow> (\<And>b. v = Bool b \<Longrightarrow> P) \<Longrightarrow> P"
  by (cases v) (auto simp: is_bool_def)

lemma order_normal:
  assumes "normalizeHyperliquidSpotIocOrder v = Inr w"
  shows "is_spot_order w"
proof -
  from assms obtain kvs where v: "v = Obj kvs"
    by (auto simp: normalizeHyperliquidSpotIocOrder_def result_simps)
  from assms obtain p q where
    g: "is_safe_integer (fld v ''assetId'')" "10000 \<le> int_of (fld v ''assetId'')"
      "int_of (fld v ''assetId'') < HYPERLIQUID_OUTCOME_ASSET_ID_MIN" "is_bool (fld v ''isBuy'')"
      "isHyperliquidCloid (fld v ''clientOrderId'')" "is_safe_integer (fld v ''expiresAfter'')"
      "0 < int_of (fld v ''expiresAfter'')" and
    d: "decimal (fld v ''limitPrice'') = Inr p" "positiveDecimal (fld v ''size'') = Inr q" and
    w: "w = Obj [(''assetId'', fld v ''assetId''), (''isBuy'', fld v ''isBuy''), (''limitPrice'', p),
               (''size'', q), (''timeInForce'', Str ''Ioc''),
               (''clientOrderId'', Str (lower (str_of (fld v ''clientOrderId'')))),
               (''expiresAfter'', fld v ''expiresAfter'')]"
    by (auto simp: normalizeHyperliquidSpotIocOrder_def result_simps not_le not_less)
  obtain a b c e where f: "fld v ''assetId'' = Num a" "fld v ''isBuy'' = Bool b"
    "fld v ''clientOrderId'' = Str c" "fld v ''expiresAfter'' = Num e" "e \<le> max_safe"
    using g by (auto simp: isHyperliquidCloid_def elim!: is_safe_integerE is_boolE split: jsval.splits)
  obtain p' q' where "p = Str p'" "is_decimal p'" "q = Str q'" "is_decimal q'" "0 < decimal_value q'"
    using d decimal_normal [of "fld v ''limitPrice''" p] decimal_normal [of "fld v ''size''" q]
    by (auto simp: positiveDecimal_iff)
  moreover have "is_cloid (lower c)"
    using g(5) f(3) by (simp add: isHyperliquidCloid_def is_cloid_def lower_bytes_0x)
  ultimately show ?thesis using f g w by (auto simp: is_spot_order_def)
qed

lemma order_fixed: "is_spot_order v \<Longrightarrow> normalizeHyperliquidSpotIocOrder v = Inr v"
proof -
  assume "is_spot_order v"
  then obtain a b p q c e where v: "v = Obj [(''assetId'', Num a), (''isBuy'', Bool b), (''limitPrice'', Str p),
       (''size'', Str q), (''timeInForce'', Str ''Ioc''), (''clientOrderId'', Str c), (''expiresAfter'', Num e)]" and
    g: "10000 \<le> a" "a < HYPERLIQUID_OUTCOME_ASSET_ID_MIN" "is_decimal p" "is_decimal q"
      "0 < decimal_value q" "is_cloid c" "0 < e" "e \<le> max_safe"
    by (auto simp: is_spot_order_def)
  have c: "after ''0x'' (hex_n 32) c" "lower c = c"
    using g(6) by (simp_all add: is_cloid_def after_0x_mono lower_fixed_0x)
  have a: "a \<le> max_safe" using g(2) by (simp add: HYPERLIQUID_OUTCOME_ASSET_ID_MIN_def max_safe_def)
  have d: "decimal (Str p) = Inr (Str p)" "positiveDecimal (Str q) = Inr (Str q)"
    using g decimal_fixed by (simp_all add: positiveDecimal_iff)
  show ?thesis
    using g(1,2,7,8) c a d
    by (simp add: v normalizeHyperliquidSpotIocOrder_def assertOnlyFields_def isHyperliquidCloid_def is_bool_def)
qed

interpretation spot_order: normaliser normalizeHyperliquidSpotIocOrder is_spot_order
  by unfold_locales (rule order_normal order_fixed, assumption)+

section \<open>Normalised executions\<close>

text \<open>What a normalised execution reports, beside the order it executes.\<close>

definition fill_consistent :: "jsval \<Rightarrow> bool" where
  "fill_consistent w = (
     let filled = decimal_value (str_of (fld w ''filledSize'')); limit = decimal_value (str_of (fld w ''limitPrice''));
         price = decimal_value (str_of (fld w ''averagePrice''));
         disposition = hyperliquidTerminalDisposition (fld w ''orderStatus'')
     in filled \<le> decimal_value (str_of (fld w ''size''))
      \<and> disposition \<noteq> None
      \<and> (disposition = Some ''FILLED'' \<longrightarrow> filled = decimal_value (str_of (fld w ''size'')))
      \<and> (disposition = Some ''REJECTED'' \<longrightarrow> filled = 0)
      \<and> (fld w ''averagePrice'' = Null \<longleftrightarrow> filled = 0)
      \<and> (fld w ''averagePrice'' \<noteq> Null \<longrightarrow>
           (if fld w ''isBuy'' = Bool True then price \<le> limit else limit \<le> price)))"

lemma decimal_value_nonneg: "0 \<le> decimal_value s"
  by (simp add: decimal_value_def)

text \<open>Inverting the normalisation of an execution, once.\<close>

lemma execution_Inr:
  assumes "normalizeHyperliquidSpotIocExecution v = Inr w"
  obtains order filled price fee d where
    "is_spot_order order"
    "w = Obj (props order @ [(''orderId'', Str (js_string (fld v ''orderId''))), (''orderStatus'', fld v ''orderStatus''),
        (''filledSize'', filled), (''averagePrice'', price), (''fee'', fee),
        (''statusTimestamp'', fld v ''statusTimestamp'')])"
    "uint_text (js_string (orElse (fld v ''orderId'') (Str [])))"
    "hyperliquidTerminalDisposition (fld v ''orderStatus'') = Some d"
    "is_safe_integer (fld v ''statusTimestamp'')" "0 < int_of (fld v ''statusTimestamp'')"
    "decimal (fld v ''filledSize'') = Inr filled"
    "(if fld v ''averagePrice'' = Null then Inr Null else positiveDecimal (fld v ''averagePrice'')) = Inr price"
    "(if fld v ''fee'' = Null then Inr Null else decimal (fld v ''fee'')) = Inr fee"
    "decimal_value (str_of filled) \<le> decimal_value (str_of (fld order ''size''))"
    "d = ''FILLED'' \<longrightarrow> decimal_value (str_of filled) = decimal_value (str_of (fld order ''size''))"
    "d = ''REJECTED'' \<longrightarrow> decimal_value (str_of filled) = 0"
    "price = Null \<longleftrightarrow> decimal_value (str_of filled) = 0"
    "price = Null \<or> (if truthy (fld order ''isBuy'')
        then decimal_value (str_of price) \<le> decimal_value (str_of (fld order ''limitPrice''))
        else decimal_value (str_of (fld order ''limitPrice'')) \<le> decimal_value (str_of price))"
proof -
  note fin = that
  from assms obtain order filled price fee d where r:
    "normalizeHyperliquidSpotIocOrder (Obj
        [(''assetId'', fld v ''assetId''), (''isBuy'', fld v ''isBuy''),
         (''limitPrice'', fld v ''limitPrice''), (''size'', fld v ''size''),
         (''timeInForce'', fld v ''timeInForce''), (''clientOrderId'', fld v ''clientOrderId''),
         (''expiresAfter'', fld v ''expiresAfter'')]) = Inr order"
    "w = Obj (props order @ [(''orderId'', Str (js_string (fld v ''orderId''))), (''orderStatus'', fld v ''orderStatus''),
        (''filledSize'', filled), (''averagePrice'', price), (''fee'', fee),
        (''statusTimestamp'', fld v ''statusTimestamp'')])"
    "\<not> \<not> uint_text (js_string (orElse (fld v ''orderId'') (Str [])))"
    "hyperliquidTerminalDisposition (fld v ''orderStatus'') = Some d"
    "\<not> (\<not> is_safe_integer (fld v ''statusTimestamp'') \<or> int_of (fld v ''statusTimestamp'') \<le> 0)"
    "decimal (fld v ''filledSize'') = Inr filled"
    "(if fld v ''averagePrice'' = Null then Inr Null else positiveDecimal (fld v ''averagePrice'')) = Inr price"
    "(if fld v ''fee'' = Null then Inr Null else decimal (fld v ''fee'')) = Inr fee"
    "\<not> compareDecimal (str_of filled) (str_of (fld order ''size'')) > 0"
    "\<not> (d = ''FILLED'' \<and> compareDecimal (str_of filled) (str_of (fld order ''size'')) \<noteq> 0)"
    "\<not> (d = ''REJECTED'' \<and> compareDecimal (str_of filled) (str_of (Str ''0'')) \<noteq> 0)"
    "\<not> (compareDecimal (str_of filled) (str_of (Str ''0'')) = 0 \<and> price \<noteq> Null)"
    "\<not> (compareDecimal (str_of filled) (str_of (Str ''0'')) > 0 \<and> price = Null)"
    "\<not> (price \<noteq> Null \<and> (if truthy (fld order ''isBuy'')
        then compareDecimal (str_of price) (str_of (fld order ''limitPrice'')) > 0
        else compareDecimal (str_of price) (str_of (fld order ''limitPrice'')) < 0))"
    unfolding normalizeHyperliquidSpotIocExecution_def Let_def
    by (elim check_elims result_elims) (rule that, assumption+)
  have "is_spot_order order" using r(1) by (rule order_normal)
  moreover have "price = Null \<longleftrightarrow> decimal_value (str_of filled) = 0"
    using r(12,13) compareDecimal_order [of "str_of filled" "''0''"] decimal_value_nonneg [of "str_of filled"]
    by (auto simp: decimal_value_0)
  moreover have "d = ''REJECTED'' \<longrightarrow> decimal_value (str_of filled) = 0"
    using r(11) compareDecimal_order [of "str_of filled" "''0''"] by (auto simp: decimal_value_0)
  moreover have "price = Null \<or> (if truthy (fld order ''isBuy'')
        then decimal_value (str_of price) \<le> decimal_value (str_of (fld order ''limitPrice''))
        else decimal_value (str_of (fld order ''limitPrice'')) \<le> decimal_value (str_of price))"
    using r(14) compareDecimal_order [of "str_of price" "str_of (fld order ''limitPrice'')"] by auto
  ultimately show ?thesis
    using r(2-10) compareDecimal_order [of "str_of filled" "str_of (fld order ''size'')"]
    by (intro fin [of order filled price fee d]) auto
qed

lemma spot_orderE:
  assumes "is_spot_order order"
  obtains a b p q c e where
    "order = Obj [(''assetId'', Num a), (''isBuy'', Bool b), (''limitPrice'', Str p), (''size'', Str q),
       (''timeInForce'', Str ''Ioc''), (''clientOrderId'', Str c), (''expiresAfter'', Num e)]"
  using assms unfolding is_spot_order_def by blast

lemma execution_consistent:
  assumes "normalizeHyperliquidSpotIocExecution v = Inr w"
  shows "fill_consistent w"
proof -
  from assms show ?thesis
  proof (rule execution_Inr, goal_cases)
    case (1 order filled price fee d)
    from 1(1) obtain a b p q c e where order: "order = Obj [(''assetId'', Num a), (''isBuy'', Bool b),
       (''limitPrice'', Str p), (''size'', Str q), (''timeInForce'', Str ''Ioc''),
       (''clientOrderId'', Str c), (''expiresAfter'', Num e)]"
      by (rule spot_orderE)
    show ?thesis using 1(4,10-14) unfolding 1(2) order by (auto simp: fill_consistent_def Let_def)
  qed
qed

lemma execution_idempotent:
  assumes "normalizeHyperliquidSpotIocExecution v = Inr w"
  shows "normalizeHyperliquidSpotIocExecution w = Inr w"
  using assms
proof (rule execution_Inr, goal_cases)
  case (1 order filled price fee d)
  from 1(1) obtain a b p q c e where order: "order = Obj [(''assetId'', Num a), (''isBuy'', Bool b),
       (''limitPrice'', Str p), (''size'', Str q), (''timeInForce'', Str ''Ioc''),
       (''clientOrderId'', Str c), (''expiresAfter'', Num e)]"
    by (rule spot_orderE)
  have keep: "normalizeHyperliquidSpotIocOrder order = Inr order" using 1(1) by (rule order_fixed)
  obtain f where f: "filled = Str f" "decimal filled = Inr filled"
    using decimal_normal [OF 1(7)] decimal_fixed by auto
  have p: "(if price = Null then Inr Null else positiveDecimal price) = Inr price"
    using 1(8) by (auto simp: positiveDecimal_iff dest: decimal_idem split: if_splits)
  have g: "(if fee = Null then Inr Null else decimal fee) = Inr fee"
    using 1(9) by (auto dest: decimal_idem split: if_splits)
  have id: "uint_text (js_string (fld v ''orderId''))"
    using 1(3) by (auto simp: orElse_def uint_text_def posint_text_def split: if_splits)
  define w' where "w' = w"
  have w: "w' = Obj [(''assetId'', Num a), (''isBuy'', Bool b),
       (''limitPrice'', Str p), (''size'', Str q), (''timeInForce'', Str ''Ioc''),
       (''clientOrderId'', Str c), (''expiresAfter'', Num e), (''orderId'', Str (js_string (fld v ''orderId''))),
       (''orderStatus'', fld v ''orderStatus''), (''filledSize'', filled), (''averagePrice'', price),
       (''fee'', fee), (''statusTimestamp'', fld v ''statusTimestamp'')]"
    by (simp add: w'_def 1(2) order)
  have flds: "fld w' ''assetId'' = Num a" "fld w' ''isBuy'' = Bool b" "fld w' ''limitPrice'' = Str p"
    "fld w' ''size'' = Str q" "fld w' ''timeInForce'' = Str ''Ioc''" "fld w' ''clientOrderId'' = Str c"
    "fld w' ''expiresAfter'' = Num e" "fld w' ''orderId'' = Str (js_string (fld v ''orderId''))"
    "fld w' ''orderStatus'' = fld v ''orderStatus''" "fld w' ''filledSize'' = filled"
    "fld w' ''averagePrice'' = price" "fld w' ''fee'' = fee" "fld w' ''statusTimestamp'' = fld v ''statusTimestamp''"
    by (simp_all add: w)
  have only: "assertOnlyFields w' [''assetId'', ''isBuy'', ''limitPrice'', ''size'', ''timeInForce'',
        ''clientOrderId'', ''expiresAfter'', ''orderId'', ''orderStatus'', ''filledSize'', ''averagePrice'',
        ''fee'', ''statusTimestamp''] = Inr w'"
    by (simp add: w assertOnlyFields_def)
  let ?c = "\<lambda>a b. compareDecimal (str_of a) (str_of b)"
  have fo: "fld order ''size'' = Str q" "fld order ''limitPrice'' = Str p" "fld order ''isBuy'' = Bool b"
    by (simp_all add: order)
  have vals: "\<not> decimal_value q < decimal_value f" "d = ''FILLED'' \<longrightarrow> decimal_value f = decimal_value q"
    "d = ''REJECTED'' \<longrightarrow> decimal_value f = 0" "price = Null \<longleftrightarrow> decimal_value f = 0"
    "price = Null \<or> (if b then \<not> decimal_value p < decimal_value (str_of price)
       else \<not> decimal_value (str_of price) < decimal_value p)"
    using 1(10-14) unfolding fo f(1) js_kind_simps truthy_simps not_less by simp_all
  have pos: "(decimal_value f > 0) = (decimal_value f \<noteq> 0)" using decimal_value_nonneg [of f] by auto
  have guards:
    "(\<not> uint_text (js_string (orElse (Str (js_string (fld v ''orderId''))) (Str [])))) = False"
    "(\<not> is_safe_integer (fld v ''statusTimestamp'') \<or> int_of (fld v ''statusTimestamp'') \<le> 0) = False"
    "(?c filled (Str q) > 0) = False"
    "(d = ''FILLED'' \<and> ?c filled (Str q) \<noteq> 0) = False"
    "(d = ''REJECTED'' \<and> ?c filled (Str ''0'') \<noteq> 0) = False"
    "(?c filled (Str ''0'') = 0 \<and> price \<noteq> Null) = False"
    "(?c filled (Str ''0'') > 0 \<and> price = Null) = False"
    "(price \<noteq> Null \<and> (if truthy (Bool b) then ?c price (Str p) > 0 else ?c price (Str p) < 0)) = False"
    unfolding f(1) js_kind_simps truthy_simps compareDecimal_order decimal_value_0 js_string.simps orElse_simps
    using 1(5,6) id vals by (cases b; simp add: pos)+
  have "normalizeHyperliquidSpotIocExecution w' = Inr w'"
    unfolding normalizeHyperliquidSpotIocExecution_def only letE_simps flds order [symmetric] keep 1(4)
      option.case Let_def f(2) p g fo guards if_False
    by (simp add: w order)
  then show ?thesis by (simp add: w'_def)
qed

section \<open>Properties\<close>

text \<open>C25. Comparing two decimal strings digit by digit is comparing the rational numbers they
  denote.\<close>

theorem decimal_comparison_exact:
  "of_int (compareDecimal l r) = sgn (decimal_value l - decimal_value r)"
  by (rule compareDecimal_sgn)

text \<open>C26. A normalised Hyperliquid execution never fills more than the authorised size, is
  completely filled when reported filled, not at all when rejected, has an average price exactly when something
  was filled, on the right side of the authorised limit; and normalising it again changes nothing.\<close>

theorem execution_within_order:
  assumes "normalizeHyperliquidSpotIocExecution v = Inr w"
  shows "fill_consistent w \<and> normalizeHyperliquidSpotIocExecution w = Inr w"
  using execution_consistent [OF assms] execution_idempotent [OF assms] by simp

definition sample_order :: jsval where
  "sample_order = Obj [(''assetId'', Num 10107), (''isBuy'', Bool True), (''limitPrice'', Str ''2.50''),
     (''size'', Str ''1.0''), (''timeInForce'', Str ''Ioc''),
     (''clientOrderId'', Str ''0x0123456789ABCDEF0123456789abcdef''), (''expiresAfter'', Num 1700000000000)]"

definition sample_execution :: jsval where
  "sample_execution = Obj (props sample_order @
     [(''orderId'', Num 77), (''orderStatus'', Str ''canceled''), (''filledSize'', Str ''0.400''),
      (''averagePrice'', Str ''2.49''), (''fee'', Null), (''statusTimestamp'', Num 1699999999000)])"

definition normal_execution :: jsval where
  "normal_execution = Obj [(''assetId'', Num 10107), (''isBuy'', Bool True), (''limitPrice'', Str ''2.5''),
     (''size'', Str ''1''), (''timeInForce'', Str ''Ioc''),
     (''clientOrderId'', Str ''0x0123456789abcdef0123456789abcdef''), (''expiresAfter'', Num 1700000000000),
     (''orderId'', Str ''77''), (''orderStatus'', Str ''canceled''), (''filledSize'', Str ''0.4''),
     (''averagePrice'', Str ''2.49''), (''fee'', Null), (''statusTimestamp'', Num 1699999999000)]"

lemma execution_within_order_witness:
  "normalizeHyperliquidSpotIocExecution sample_execution = Inr normal_execution \<and> fill_consistent normal_execution"
proof -
  have n: "normalizeHyperliquidSpotIocExecution sample_execution = Inr normal_execution" by code_simp
  from execution_within_order [OF n] n show ?thesis by simp
qed

end
