(* ===== verification/Solana.thy ===== *)
theory Solana
  imports Values
begin

text \<open>
  src/domain/solana.mjs: base58 decoding, the normalisation of a compiled Solana transaction
  message, and the text a Solana authorizer signs.  Bytes are naturals below 256.  Shown:
  distinct base58 texts decode to distinct bytes, so that comparing public keys as texts
  compares the keys; a normalised message refers only to accounts it lists, and is kept by
  normalising it again.
\<close>

section \<open>Base58\<close>

definition SOLANA_MAINNET_CAIP2 :: string where
  "SOLANA_MAINNET_CAIP2 = ''solana:5eykt4UsFv8P8NJdTREpY1vzqKqZKvdp''"

definition SOLANA_TRANSACTION_PROFILE :: string where
  "SOLANA_TRANSACTION_PROFILE = ''priorseal.execution-profile.solana-transaction.v2''"

definition BASE58 :: string where
  "BASE58 = ''123456789ABCDEFGHJKLMNPQRSTUVWXYZabcdefghijkmnopqrstuvwxyz''"

text \<open>\<^verbatim>\<open>BASE58_MAP.get(c)\<close>.\<close>

fun index_of :: "char \<Rightarrow> string \<Rightarrow> nat option" where
  "index_of c [] = None"
| "index_of c (d # s) = (if c = d then Some 0 else map_option Suc (index_of c s))"

definition BASE58_MAP :: "char \<Rightarrow> nat option" where
  "BASE58_MAP c = index_of c BASE58"

text \<open>\<^verbatim>\<open>while (integer > 0n)\<close>: the bytes, least significant first.\<close>

fun low_bytes :: "nat \<Rightarrow> nat list" where
  "low_bytes n = (if n = 0 then [] else n mod 256 # low_bytes (n div 256))"

declare low_bytes.simps [simp del]

definition base58_value :: "string \<Rightarrow> nat" where
  "base58_value s = foldl (\<lambda>a c. a * 58 + the (BASE58_MAP c)) 0 s"

definition decodeBase58 :: "jsval \<Rightarrow> nat list result" where
  "decodeBase58 value = (case value of
      Str s \<Rightarrow> if s \<noteq> [] \<and> \<not> list_all (\<lambda>c. BASE58_MAP c \<noteq> None) s
               then Inl (PriorSealError ''INVALID_SOLANA_BASE58'')
               else if s = [] then Inr []
               else (let body = rev (low_bytes (base58_value s));
                         leadingZeroes = length (takeWhile (\<lambda>c. c = CHR ''1'') s)
                     in Inr (replicate leadingZeroes 0 @ body))
    | _ \<Rightarrow> Inl (PriorSealError ''INVALID_SOLANA_BASE58''))"

definition isSolanaPublicKey :: "jsval \<Rightarrow> bool" where
  "isSolanaPublicKey value = (case value of
      Str s \<Rightarrow> if length s < 32 \<or> 44 < length s then False
               else (case decodeBase58 value of Inr b \<Rightarrow> length b = 32 | Inl e \<Rightarrow> False)
    | _ \<Rightarrow> False)"

section \<open>Checks of message parts\<close>

text \<open>
  \<^verbatim>\<open>if (extra) throw\<close>: the first key that is not allowed throws unless it is the empty string.
\<close>

definition assertOnlyKeys :: "jsval \<Rightarrow> string list \<Rightarrow> unit result" where
  "assertOnlyKeys value allowed = (case List.find (\<lambda>k. k \<notin> set allowed) (map fst (props value)) of
      Some extra \<Rightarrow> if extra \<noteq> [] then Inl (PriorSealError ''INVALID_SOLANA_INTENT'') else Inr ()
    | None \<Rightarrow> Inr ())"

definition safeIndex :: "jsval \<Rightarrow> jsval result" where
  "safeIndex value = (if \<not> is_safe_integer value \<or> int_of value < 0 \<or> 255 < int_of value
     then Inl (PriorSealError ''INVALID_SOLANA_INTENT'') else Inr value)"

definition safeU32 :: "jsval \<Rightarrow> jsval result" where
  "safeU32 value = (if \<not> is_safe_integer value \<or> int_of value < 0 \<or> 4294967295 < int_of value
     then Inl (PriorSealError ''INVALID_SOLANA_INTENT'') else Inr value)"

definition byteIndexes :: "jsval \<Rightarrow> jsval result" where
  "byteIndexes value = (
     if \<not> is_arr value \<or> 256 < length (elems value) then Inl (PriorSealError ''INVALID_SOLANA_INTENT'') else
     letE (mapE safeIndex (elems value)) (\<lambda>indexes.
     if \<not> distinct indexes then Inl (PriorSealError ''INVALID_SOLANA_INTENT'') else Inr (Arr indexes)))"

definition publicKeyList :: "jsval \<Rightarrow> jsval result" where
  "publicKeyList value = (
     if \<not> is_arr value \<or> 256 < length (elems value) \<or> \<not> list_all isSolanaPublicKey (elems value)
     then Inl (PriorSealError ''INVALID_SOLANA_INTENT'') else Inr (Arr (elems value)))"

definition transaction_config :: "jsval \<Rightarrow> jsval result" where
  "transaction_config config = (
     if \<not> is_obj config then Inl (PriorSealError ''INVALID_SOLANA_INTENT'') else
     letE (assertOnlyKeys config [''computeUnitLimit'', ''heapSize'', ''loadedAccountsDataSizeLimit'', ''priorityFeeLamports'']) (\<lambda>_.
     let nullableU32 = (\<lambda>entry. if entry = Null then Inr Null else safeU32 entry) in
     letE (if fld config ''priorityFeeLamports'' = Null then Inr Null else uintString (fld config ''priorityFeeLamports'')) (\<lambda>fee.
     if fee \<noteq> Null \<and> 2 ^ 64 - 1 < nat_value (str_of fee) then Inl (PriorSealError ''INVALID_SOLANA_INTENT'') else
     letE (nullableU32 (fld config ''computeUnitLimit'')) (\<lambda>computeUnitLimit.
     letE (nullableU32 (fld config ''heapSize'')) (\<lambda>heapSize.
     letE (nullableU32 (fld config ''loadedAccountsDataSizeLimit'')) (\<lambda>sizeLimit.
     if computeUnitLimit = Null \<or> computeUnitLimit = Num 0 \<or> sizeLimit = Null \<or> sizeLimit = Num 0
       then Inl (PriorSealError ''INVALID_SOLANA_INTENT'') else
     Inr (Obj [(''computeUnitLimit'', computeUnitLimit), (''heapSize'', heapSize),
               (''loadedAccountsDataSizeLimit'', sizeLimit), (''priorityFeeLamports'', fee)])))))))"

definition table_lookup :: "jsval \<Rightarrow> jsval result" where
  "table_lookup entry = (
     if \<not> is_obj entry then Inl (PriorSealError ''INVALID_SOLANA_INTENT'') else
     letE (assertOnlyKeys entry [''accountKey'', ''writableIndexes'', ''readonlyIndexes'']) (\<lambda>_.
     if \<not> isSolanaPublicKey (fld entry ''accountKey'') then Inl (PriorSealError ''INVALID_SOLANA_INTENT'') else
     letE (byteIndexes (fld entry ''writableIndexes'')) (\<lambda>writableIndexes.
     letE (byteIndexes (fld entry ''readonlyIndexes'')) (\<lambda>readonlyIndexes.
     Inr (Obj [(''accountKey'', fld entry ''accountKey''), (''writableIndexes'', writableIndexes),
               (''readonlyIndexes'', readonlyIndexes)])))))"

definition account_index :: "nat \<Rightarrow> jsval \<Rightarrow> jsval result" where
  "account_index totalAccounts item = letE (safeIndex item) (\<lambda>parsed.
     if int totalAccounts \<le> int_of parsed then Inl (PriorSealError ''INVALID_SOLANA_INTENT'') else Inr parsed)"

definition message_instruction :: "bool \<Rightarrow> nat \<Rightarrow> jsval \<Rightarrow> jsval result" where
  "message_instruction v1 totalAccounts entry = (
     if \<not> is_obj entry then Inl (PriorSealError ''INVALID_SOLANA_INTENT'') else
     letE (assertOnlyKeys entry [''programIdIndex'', ''accountIndexes'', ''data'']) (\<lambda>_.
     letE (account_index totalAccounts (fld entry ''programIdIndex'')) (\<lambda>programIdIndex.
     if \<not> is_arr (fld entry ''accountIndexes'') \<or> 256 < length (elems (fld entry ''accountIndexes''))
       then Inl (PriorSealError ''INVALID_SOLANA_INTENT'') else
     letE (mapE (account_index totalAccounts) (elems (fld entry ''accountIndexes''))) (\<lambda>accountIndexes.
     if v1 \<and> 255 < length accountIndexes then Inl (PriorSealError ''INVALID_SOLANA_INTENT'') else
     if \<not> is_str (fld entry ''data'') \<or> 8192 < length (str_of (fld entry ''data''))
       then Inl (PriorSealError ''INVALID_SOLANA_INTENT'') else
     letE (decodeBase58 (fld entry ''data'')) (\<lambda>_.
     Inr (Obj [(''programIdIndex'', programIdIndex), (''accountIndexes'', Arr accountIndexes),
               (''data'', fld entry ''data'')]))))))"

section \<open>Messages\<close>

definition normalizeSolanaTransactionMessage :: "jsval \<Rightarrow> jsval result" where
  "normalizeSolanaTransactionMessage value = (
     if \<not> is_obj value then Inl (PriorSealError ''INVALID_SOLANA_INTENT'') else
     letE (assertOnlyKeys value [''network'', ''messageVersion'', ''transactionConfig'', ''feePayer'',
        ''recentBlockhash'', ''header'', ''accountKeys'', ''addressTableLookups'', ''loadedAddresses'', ''instructions'']) (\<lambda>_.
     if fld value ''network'' \<noteq> Str ''mainnet-beta'' then Inl (PriorSealError ''INVALID_SOLANA_NETWORK'') else
     if js_string (fld value ''messageVersion'') \<notin> {''legacy'', ''v0'', ''v1''}
       then Inl (PriorSealError ''INVALID_SOLANA_INTENT'') else
     let messageVersion = fld value ''messageVersion''; v1 = (messageVersion = Str ''v1'') in
     letE (if v1 then letE (transaction_config (fld value ''transactionConfig'')) (\<lambda>c. Inr [(''transactionConfig'', c)])
           else if fld value ''transactionConfig'' \<noteq> Undef then Inl (PriorSealError ''INVALID_SOLANA_INTENT'')
           else Inr []) (\<lambda>transactionConfig.
     if \<not> isSolanaPublicKey (fld value ''feePayer'') \<or> \<not> isSolanaPublicKey (fld value ''recentBlockhash'')
       then Inl (PriorSealError ''INVALID_SOLANA_INTENT'') else
     let header = fld value ''header'' in
     if \<not> is_obj header then Inl (PriorSealError ''INVALID_SOLANA_INTENT'') else
     letE (assertOnlyKeys header [''numRequiredSignatures'', ''numReadonlySignedAccounts'', ''numReadonlyUnsignedAccounts'']) (\<lambda>_.
     letE (safeIndex (fld header ''numRequiredSignatures'')) (\<lambda>signatures.
     letE (safeIndex (fld header ''numReadonlySignedAccounts'')) (\<lambda>readonlySigned.
     letE (safeIndex (fld header ''numReadonlyUnsignedAccounts'')) (\<lambda>readonlyUnsigned.
     let accountKeys = elems (fld value ''accountKeys''); n = int (length accountKeys) in
     if \<not> is_arr (fld value ''accountKeys'') \<or> n < 1 \<or> 256 < n \<or> \<not> list_all isSolanaPublicKey accountKeys
       then Inl (PriorSealError ''INVALID_SOLANA_INTENT'') else
     if v1 \<and> 96 < n then Inl (PriorSealError ''INVALID_SOLANA_INTENT'') else
     if hd accountKeys \<noteq> fld value ''feePayer'' then Inl (PriorSealError ''INVALID_SOLANA_INTENT'') else
     if \<not> distinct accountKeys then Inl (PriorSealError ''INVALID_SOLANA_INTENT'') else
     if int_of signatures < 1 \<or> n < int_of signatures \<or> int_of signatures \<le> int_of readonlySigned
        \<or> n - int_of signatures < int_of readonlyUnsigned then Inl (PriorSealError ''INVALID_SOLANA_INTENT'') else
     let lookups = fld value ''addressTableLookups'' in
     if \<not> is_arr lookups \<or> 32 < length (elems lookups) then Inl (PriorSealError ''INVALID_SOLANA_INTENT'') else
     if messageVersion \<noteq> Str ''v0'' \<and> length (elems lookups) \<noteq> 0 then Inl (PriorSealError ''INVALID_SOLANA_INTENT'') else
     letE (mapE table_lookup (elems lookups)) (\<lambda>addressTableLookups.
     let loaded = fld value ''loadedAddresses'' in
     if \<not> is_obj loaded then Inl (PriorSealError ''INVALID_SOLANA_INTENT'') else
     letE (assertOnlyKeys loaded [''writable'', ''readonly'']) (\<lambda>_.
     letE (publicKeyList (fld loaded ''writable'')) (\<lambda>writable.
     letE (publicKeyList (fld loaded ''readonly'')) (\<lambda>readonly.
     let expectedWritable = sum_list (map (\<lambda>l. length (elems (fld l ''writableIndexes''))) addressTableLookups);
         expectedReadonly = sum_list (map (\<lambda>l. length (elems (fld l ''readonlyIndexes''))) addressTableLookups);
         loadedCount = length (elems writable) + length (elems readonly) in
     if length (elems writable) \<noteq> expectedWritable \<or> length (elems readonly) \<noteq> expectedReadonly
       then Inl (PriorSealError ''INVALID_SOLANA_INTENT'') else
     if 256 < length accountKeys + loadedCount then Inl (PriorSealError ''INVALID_SOLANA_INTENT'') else
     let instructions = fld value ''instructions'' in
     if \<not> is_arr instructions \<or> length (elems instructions) < 1 \<or> 128 < length (elems instructions)
       then Inl (PriorSealError ''INVALID_SOLANA_INTENT'') else
     if v1 \<and> 64 < length (elems instructions) then Inl (PriorSealError ''INVALID_SOLANA_INTENT'') else
     letE (mapE (message_instruction v1 (length accountKeys + loadedCount)) (elems instructions)) (\<lambda>compiled.
     if v1 \<and> (length (elems writable) \<noteq> 0 \<or> length (elems readonly) \<noteq> 0)
       then Inl (PriorSealError ''INVALID_SOLANA_INTENT'') else
     Inr (Obj ([(''network'', Str ''mainnet-beta''), (''messageVersion'', messageVersion)] @ transactionConfig @
       [(''feePayer'', fld value ''feePayer''), (''recentBlockhash'', fld value ''recentBlockhash''),
        (''header'', Obj [(''numRequiredSignatures'', signatures), (''numReadonlySignedAccounts'', readonlySigned),
                          (''numReadonlyUnsignedAccounts'', readonlyUnsigned)]),
        (''accountKeys'', Arr accountKeys), (''addressTableLookups'', Arr addressTableLookups),
        (''loadedAddresses'', Obj [(''writable'', writable), (''readonly'', readonly)]),
        (''instructions'', Arr compiled)]))))))))))))))"

section \<open>The signed text\<close>

text \<open>
  The module's own canonical JSON.  JSON.stringify prints null for a number that is not
  finite; undefined prints as nothing in an array and as its name in a template.  An
  authorization is parsed JSON and holds no \<^verbatim>\<open>Opaque\<close> value; as for a bigint, the
  text of one is a throw.
\<close>

function (sequential) canonicalJson :: "jsval \<Rightarrow> string result" where
  "canonicalJson Undef = Inr ''undefined''"
| "canonicalJson Null = Inr ''null''"
| "canonicalJson (Bool b) = Inr (if b then ''true'' else ''false'')"
| "canonicalJson (Num n) = Inr (int_text n)"
| "canonicalJson (Real x t) = (case x of Fin q \<Rightarrow> Inr t | _ \<Rightarrow> Inr ''null'')"
| "canonicalJson (Str s) = Inr (json_string s)"
| "canonicalJson (Opaque t) = Inl TypeErr"
| "canonicalJson (Arr xs) =
     letE (mapE (\<lambda>x. if x = Undef then Inr [] else canonicalJson x) xs) (\<lambda>ss. Inr (''['' @ join '','' ss @ '']''))"
| "canonicalJson (Obj kvs) =
     letE (mapE (\<lambda>kv. letE (canonicalJson (snd kv)) (\<lambda>s. Inr (json_string (fst kv) @ '':'' @ s))) (sort_key fst kvs))
          (\<lambda>ss. Inr (''{'' @ join '','' ss @ ''}''))"
  by pat_completeness auto
termination
  by (relation "measure size") (auto dest: member_size_Arr member_size_Obj)

definition solanaAuthorizationMessage :: "jsval \<Rightarrow> string result" where
  "solanaAuthorizationMessage authorization =
     letE (canonicalJson (without_field authorization ''signature'')) (\<lambda>s.
     Inr (''PriorSeal Solana authorization v2'' @ [CHR 0x0A] @ s))"

section \<open>Numbers from digits\<close>

definition digits_value :: "nat \<Rightarrow> nat list \<Rightarrow> nat" where
  "digits_value b ds = foldl (\<lambda>a d. a * b + d) 0 ds"

lemma digits_value_simps [simp]:
  "digits_value b [] = 0" "digits_value b (ds @ [d]) = digits_value b ds * b + d"
  by (simp_all add: digits_value_def)

lemma digits_value_zeros: "digits_value b (replicate k 0 @ ds) = digits_value b ds"
proof (induction ds rule: rev_induct)
  case Nil
  show ?case by (induction k) (simp_all add: digits_value_def)
next
  case (snoc d ds)
  then show ?case by (simp flip: append_assoc)
qed

lemma digits_value_pos: "ds \<noteq> [] \<Longrightarrow> hd ds \<noteq> 0 \<Longrightarrow> 0 < b \<Longrightarrow> 0 < digits_value b ds"
proof (induction ds rule: rev_induct)
  case (snoc d ds)
  then show ?case by (cases ds) (auto simp: digits_value_def)
qed simp

lemma digits_value_inj:
  assumes "list_all (\<lambda>d. d < b) ds" "list_all (\<lambda>d. d < b) es" "ds \<noteq> [] \<Longrightarrow> hd ds \<noteq> 0" "es \<noteq> [] \<Longrightarrow> hd es \<noteq> 0"
    "digits_value b ds = digits_value b es"
  shows "ds = es"
  using assms
proof (induction ds arbitrary: es rule: rev_induct)
  case Nil
  then show ?case using digits_value_pos [of es b] by (cases es) auto
next
  case (snoc d ds)
  show ?case
  proof (cases es rule: rev_cases)
    case Nil
    then show ?thesis using snoc.prems digits_value_pos [of "ds @ [d]" b] by simp
  next
    case es: (snoc es' e)
    have lt: "d < b" "e < b" using snoc.prems(1,2) es by simp_all
    have eq: "digits_value b ds * b + d = digits_value b es' * b + e" using snoc.prems(5) es by simp
    have "d = e" using arg_cong [OF eq, of "\<lambda>x. x mod b"] lt by simp
    moreover have "digits_value b ds = digits_value b es'"
      using eq \<open>d = e\<close> lt by simp
    moreover have "ds \<noteq> [] \<Longrightarrow> hd ds \<noteq> 0" "es' \<noteq> [] \<Longrightarrow> hd es' \<noteq> 0"
      using snoc.prems(3,4) es by (simp_all add: hd_append)
    ultimately show ?thesis using snoc.IH [of es'] snoc.prems(1,2) es by simp
  qed
qed

lemma low_bytes_value: "digits_value 256 (rev (low_bytes n)) = n"
proof (induction n rule: low_bytes.induct)
  case (1 n)
  then show ?case by (subst low_bytes.simps) simp
qed

lemma low_bytes_last: "n \<noteq> 0 \<Longrightarrow> low_bytes n \<noteq> [] \<and> last (low_bytes n) \<noteq> 0"
proof (induction n rule: low_bytes.induct)
  case (1 n)
  show ?case
  proof (cases "n div 256 = 0")
    case True
    then have "low_bytes (n div 256) = []" by (simp add: low_bytes.simps)
    with True 1(2) show ?thesis by (subst (1 2) low_bytes.simps) (simp add: div_eq_0_iff)
  next
    case False
    with 1 show ?thesis by (subst (1 2) low_bytes.simps) simp
  qed
qed

section \<open>Decoding is injective\<close>

lemma index_of_nth: "index_of c s = Some i \<Longrightarrow> i < length s \<and> s ! i = c"
  by (induction s arbitrary: i) (auto split: if_splits)

lemma BASE58_MAP_bound: "BASE58_MAP c = Some i \<Longrightarrow> i < 58"
  using index_of_nth [of c BASE58 i] by (simp add: BASE58_MAP_def BASE58_def)

lemma BASE58_MAP_inj: "BASE58_MAP c = Some i \<Longrightarrow> BASE58_MAP d = Some i \<Longrightarrow> c = d"
  unfolding BASE58_MAP_def by (metis index_of_nth)

lemma BASE58_MAP_0: "BASE58_MAP c = Some 0 \<longleftrightarrow> c = CHR ''1''"
  by (auto simp: BASE58_MAP_def BASE58_def split: if_splits)

definition base58_digits :: "string \<Rightarrow> nat list" where
  "base58_digits s = map (\<lambda>c. the (BASE58_MAP c)) s"

lemma base58_value_digits: "base58_value s = digits_value 58 (base58_digits s)"
  by (simp add: base58_value_def digits_value_def base58_digits_def foldl_map)

lemma base58_digits_inj:
  "list_all (\<lambda>c. BASE58_MAP c \<noteq> None) s \<Longrightarrow> list_all (\<lambda>c. BASE58_MAP c \<noteq> None) t \<Longrightarrow>
    base58_digits s = base58_digits t \<Longrightarrow> s = t"
proof (induction s arbitrary: t)
  case Nil
  then show ?case by (simp add: base58_digits_def)
next
  case (Cons c s)
  then obtain d t' where t: "t = d # t'" by (cases t) (auto simp: base58_digits_def)
  with Cons show ?case using BASE58_MAP_inj by (auto simp: base58_digits_def)
qed

lemma zeros_unique:
  assumes "replicate k 0 @ xs = replicate l 0 @ (ys :: nat list)"
    "xs \<noteq> [] \<Longrightarrow> hd xs \<noteq> 0" "ys \<noteq> [] \<Longrightarrow> hd ys \<noteq> 0"
  shows "k = l \<and> xs = ys"
  using assms(1)
proof (induction k arbitrary: l)
  case 0
  then show ?case using assms(2,3) by (cases l) auto
next
  case (Suc k)
  then show ?case using assms(2,3) by (cases l) auto
qed

lemma takeWhile_ones: "takeWhile (\<lambda>c. c = x) s = replicate (length (takeWhile (\<lambda>c. c = x) s)) x"
  by (induction s) auto

lemma decodeBase58_Str:
  "decodeBase58 (Str s) = Inr bs \<longleftrightarrow> list_all (\<lambda>c. BASE58_MAP c \<noteq> None) s \<and>
    bs = replicate (length (takeWhile (\<lambda>c. c = CHR ''1'') s)) 0 @ rev (low_bytes (base58_value s))"
  by (auto simp: decodeBase58_def Let_def base58_value_def low_bytes.simps [of 0])

lemma decodeBase58_inj:
  assumes "decodeBase58 (Str s) = Inr bs" "decodeBase58 (Str t) = Inr bs"
  shows "s = t"
proof -
  define split where "split u = (length (takeWhile (\<lambda>c. c = CHR ''1'') u), dropWhile (\<lambda>c. c = CHR ''1'') u)" for u
  have parts: "u = replicate (fst (split u)) (CHR ''1'') @ snd (split u)" for u
    using takeWhile_ones [of "CHR ''1''" u] takeWhile_dropWhile_id [of "\<lambda>c. c = CHR ''1''" u]
    by (simp add: split_def)
  have valid: "list_all (\<lambda>c. BASE58_MAP c \<noteq> None) s" "list_all (\<lambda>c. BASE58_MAP c \<noteq> None) t"
    using assms by (simp_all add: decodeBase58_Str)
  have hd: "hd (base58_digits (snd (split u))) \<noteq> 0"
    if nz: "base58_digits (snd (split u)) \<noteq> []" and vd: "list_all (\<lambda>c. BASE58_MAP c \<noteq> None) u" for u
  proof -
    from nz have ne: "snd (split u) \<noteq> []" by (simp add: base58_digits_def)
    have h: "hd (snd (split u)) \<noteq> CHR ''1''"
      using ne hd_dropWhile [of "\<lambda>c. c = CHR ''1''" u] by (auto simp: split_def)
    have "hd (snd (split u)) \<in> set (snd (split u))" using ne by (rule hd_in_set)
    then have "hd (snd (split u)) \<in> set u" by (simp add: split_def set_dropWhileD)
    then obtain i where "BASE58_MAP (hd (snd (split u))) = Some i" using vd by (auto simp: list_all_iff)
    with h ne BASE58_MAP_0 show ?thesis by (cases i) (auto simp: base58_digits_def hd_map)
  qed
  have val: "base58_value u = digits_value 58 (base58_digits (snd (split u)))" for u
  proof -
    have "base58_digits u = replicate (fst (split u)) 0 @ base58_digits (snd (split u))"
      using arg_cong [OF parts [of u], of base58_digits] BASE58_MAP_0 [of "CHR ''1''"]
      by (simp add: base58_digits_def)
    then show ?thesis by (simp add: base58_value_digits digits_value_zeros)
  qed
  have body: "rev (low_bytes n) \<noteq> [] \<Longrightarrow> hd (rev (low_bytes n)) \<noteq> 0" for n
    using low_bytes_last [of n] by (cases "n = 0") (simp_all add: hd_rev low_bytes.simps [of 0])
  have "replicate (fst (split s)) 0 @ rev (low_bytes (base58_value s))
      = replicate (fst (split t)) 0 @ rev (low_bytes (base58_value t))"
    using assms unfolding decodeBase58_Str split_def fst_conv by metis
  from zeros_unique [OF this body body]
  have k: "fst (split s) = fst (split t)" and b: "rev (low_bytes (base58_value s)) = rev (low_bytes (base58_value t))"
    by blast+
  have "base58_value s = base58_value t"
    using arg_cong [OF b, of "digits_value 256"] by (simp only: low_bytes_value)
  then have v: "digits_value 58 (base58_digits (snd (split s))) = digits_value 58 (base58_digits (snd (split t)))"
    by (simp add: val)
  have v58: "list_all (\<lambda>c. BASE58_MAP c \<noteq> None) (snd (split u)) \<and> list_all (\<lambda>d. d < 58) (base58_digits (snd (split u)))"
    if "list_all (\<lambda>c. BASE58_MAP c \<noteq> None) u" for u
    using that BASE58_MAP_bound
    by (fastforce simp: split_def base58_digits_def list_all_iff dest: set_dropWhileD)
  have "base58_digits (snd (split s)) = base58_digits (snd (split t))"
    using digits_value_inj [OF _ _ hd hd v] v58 valid by blast
  then have "snd (split s) = snd (split t)"
    using base58_digits_inj v58 valid by blast
  with k show ?thesis using parts [of s] parts [of t] by metis
qed

section \<open>Normalised parts\<close>

lemma safeIndex_Inr: "safeIndex v = Inr w \<longleftrightarrow> w = v \<and> is_safe_integer v \<and> 0 \<le> int_of v \<and> int_of v \<le> 255"
  by (auto simp: safeIndex_def)

lemma safeU32_Inr: "safeU32 v = Inr w \<longleftrightarrow> w = v \<and> is_safe_integer v \<and> 0 \<le> int_of v \<and> int_of v \<le> 4294967295"
  by (auto simp: safeU32_def)

lemma account_index_Inr: "account_index n v = Inr w \<longleftrightarrow> safeIndex v = Inr w \<and> int_of w < int n"
  by (auto simp: account_index_def letE_eq_Inr safeIndex_Inr)

lemma account_index_idem: "account_index n v = Inr w \<Longrightarrow> account_index n w = Inr w"
  by (auto simp: account_index_Inr safeIndex_Inr)

lemma byteIndexes_idem: "byteIndexes v = Inr w \<Longrightarrow> byteIndexes w = Inr w"
proof -
  assume "byteIndexes v = Inr w"
  then obtain js where "\<not> 256 < length (elems v)" "mapE safeIndex (elems v) = Inr js" "distinct js" "w = Arr js"
    by (auto simp: byteIndexes_def letE_eq_Inr split: if_splits)
  moreover from this have "mapE safeIndex js = Inr js"
    by (auto elim!: mapE_idem simp: safeIndex_Inr)
  ultimately show ?thesis using mapE_Inr_length [of safeIndex "elems v" js] by (simp add: byteIndexes_def)
qed

lemma publicKeyList_Inr:
  "publicKeyList v = Inr w \<longleftrightarrow> w = v \<and> is_arr v \<and> length (elems v) \<le> 256 \<and> list_all isSolanaPublicKey (elems v)"
  by (auto simp: publicKeyList_def elim!: is_arrE)

lemma assertOnlyKeys_within [simp]:
  "set (map fst kvs) \<subseteq> set allowed \<Longrightarrow> assertOnlyKeys (Obj kvs) allowed = Inr ()"
proof -
  assume "set (map fst kvs) \<subseteq> set allowed"
  then have "List.find (\<lambda>k. k \<notin> set allowed) (map fst kvs) = None"
    by (auto simp: find_None_iff)
  then show ?thesis by (simp add: assertOnlyKeys_def)
qed

lemma table_lookup_idem: "table_lookup v = Inr w \<Longrightarrow> table_lookup w = Inr w"
  by (auto simp: table_lookup_def letE_eq_Inr byteIndexes_idem split: if_splits)

lemma message_instruction_Inr:
  assumes "message_instruction v1 n v = Inr w"
  obtains i js d where "w = Obj [(''programIdIndex'', i), (''accountIndexes'', Arr js), (''data'', Str d)]"
    "account_index n i = Inr i" "mapE (account_index n) js = Inr js" "length js \<le> 256" "v1 \<longrightarrow> length js \<le> 255"
    "length d \<le> 8192" "\<exists>bs. decodeBase58 (Str d) = Inr bs"
proof -
  from assms obtain i js where w: "w = Obj [(''programIdIndex'', i), (''accountIndexes'', Arr js), (''data'', fld v ''data'')]"
    and i: "account_index n (fld v ''programIdIndex'') = Inr i"
    and js: "mapE (account_index n) (elems (fld v ''accountIndexes'')) = Inr js"
    "\<not> 256 < length (elems (fld v ''accountIndexes''))" "\<not> (v1 \<and> 255 < length js)"
    and d: "is_str (fld v ''data'')" "\<not> 8192 < length (str_of (fld v ''data''))" "\<exists>bs. decodeBase58 (fld v ''data'') = Inr bs"
    by (auto simp: message_instruction_def letE_eq_Inr split: if_splits)
  from d(1) obtain s where s: "fld v ''data'' = Str s" by (rule is_strE)
  show thesis
    using w i js d s mapE_Inr_length [OF js(1)]
    by (intro that [of i js s]) (auto dest: account_index_idem elim!: mapE_idem)
qed

lemma message_instruction_idem: "message_instruction v1 n v = Inr w \<Longrightarrow> message_instruction v1 n w = Inr w"
  by (erule message_instruction_Inr) (auto simp: message_instruction_def)

lemma transaction_config_idem: "transaction_config v = Inr w \<Longrightarrow> transaction_config w = Inr w"
proof -
  assume "transaction_config v = Inr w"
  then obtain fee a b c where
    fee: "(if fld v ''priorityFeeLamports'' = Null then Inr Null else uintString (fld v ''priorityFeeLamports'')) = Inr fee"
      "\<not> (fee \<noteq> Null \<and> 2 ^ 64 - 1 < nat_value (str_of fee))" and
    l: "(if fld v ''computeUnitLimit'' = Null then Inr Null else safeU32 (fld v ''computeUnitLimit'')) = Inr a"
       "(if fld v ''heapSize'' = Null then Inr Null else safeU32 (fld v ''heapSize'')) = Inr b"
       "(if fld v ''loadedAccountsDataSizeLimit'' = Null then Inr Null else safeU32 (fld v ''loadedAccountsDataSizeLimit'')) = Inr c"
       "\<not> (a = Null \<or> a = Num 0 \<or> c = Null \<or> c = Num 0)" and
    w: "w = Obj [(''computeUnitLimit'', a), (''heapSize'', b), (''loadedAccountsDataSizeLimit'', c), (''priorityFeeLamports'', fee)]"
    unfolding transaction_config_def Let_def by (elim result_elims) (rule that, assumption+)
  have "(if fee = Null then Inr Null else uintString fee) = Inr fee"
    using fee(1) by (auto dest: uint_string.idempotent split: if_splits)
  moreover have "safeU32 a = Inr a" "(if b = Null then Inr Null else safeU32 b) = Inr b" "safeU32 c = Inr c"
    using l by (auto simp: safeU32_Inr split: if_splits)
  ultimately show ?thesis
    using fee(2) l(4) by (auto simp: w transaction_config_def)
qed

section \<open>Normalised messages\<close>

text \<open>Every account reference of a message is to one of its accounts, its signer counts fit.\<close>

definition message_consistent :: "jsval \<Rightarrow> bool" where
  "message_consistent w = (
     let keys = elems (fld w ''accountKeys''); loaded = fld w ''loadedAddresses''; header = fld w ''header'';
         total = length keys + length (elems (fld loaded ''writable'')) + length (elems (fld loaded ''readonly''));
         tables = elems (fld w ''addressTableLookups'')
     in 1 \<le> length keys \<and> total \<le> 256 \<and> distinct keys \<and> hd keys = fld w ''feePayer''
      \<and> (\<forall>k\<in>set (keys @ elems (fld loaded ''writable'') @ elems (fld loaded ''readonly'')). isSolanaPublicKey k)
      \<and> 1 \<le> int_of (fld header ''numRequiredSignatures'')
      \<and> int_of (fld header ''numRequiredSignatures'') \<le> int (length keys)
      \<and> int_of (fld header ''numReadonlySignedAccounts'') < int_of (fld header ''numRequiredSignatures'')
      \<and> int_of (fld header ''numReadonlyUnsignedAccounts'')
          \<le> int (length keys) - int_of (fld header ''numRequiredSignatures'')
      \<and> length (elems (fld loaded ''writable'')) = sum_list (map (\<lambda>l. length (elems (fld l ''writableIndexes''))) tables)
      \<and> length (elems (fld loaded ''readonly'')) = sum_list (map (\<lambda>l. length (elems (fld l ''readonlyIndexes''))) tables)
      \<and> elems (fld w ''instructions'') \<noteq> []
      \<and> (\<forall>i\<in>set (elems (fld w ''instructions'')). \<forall>j\<in>set (fld i ''programIdIndex'' # elems (fld i ''accountIndexes'')).
            0 \<le> int_of j \<and> int_of j < int total))"

definition config_of :: "jsval \<Rightarrow> (string \<times> jsval) list result" where
  "config_of value = (if fld value ''messageVersion'' = Str ''v1''
     then letE (transaction_config (fld value ''transactionConfig'')) (\<lambda>c. Inr [(''transactionConfig'', c)])
     else if fld value ''transactionConfig'' \<noteq> Undef then Inl (PriorSealError ''INVALID_SOLANA_INTENT'')
     else Inr [])"

lemma message_Inr:
  assumes "normalizeSolanaTransactionMessage v = Inr w"
  obtains cfg s rs ru ts wr ro cs where
    "w = Obj ([(''network'', Str ''mainnet-beta''), (''messageVersion'', fld v ''messageVersion'')] @ cfg @
       [(''feePayer'', fld v ''feePayer''), (''recentBlockhash'', fld v ''recentBlockhash''),
        (''header'', Obj [(''numRequiredSignatures'', s), (''numReadonlySignedAccounts'', rs), (''numReadonlyUnsignedAccounts'', ru)]),
        (''accountKeys'', Arr (elems (fld v ''accountKeys''))), (''addressTableLookups'', Arr ts),
        (''loadedAddresses'', Obj [(''writable'', wr), (''readonly'', ro)]), (''instructions'', Arr cs)])"
    "fld v ''network'' = Str ''mainnet-beta''"
    "js_string (fld v ''messageVersion'') \<in> {''legacy'', ''v0'', ''v1''}"
    "config_of v = Inr cfg"
    "isSolanaPublicKey (fld v ''feePayer'')" "isSolanaPublicKey (fld v ''recentBlockhash'')"
    "safeIndex s = Inr s" "safeIndex rs = Inr rs" "safeIndex ru = Inr ru"
    "1 \<le> length (elems (fld v ''accountKeys''))" "length (elems (fld v ''accountKeys'')) \<le> 256"
    "list_all isSolanaPublicKey (elems (fld v ''accountKeys''))"
    "fld v ''messageVersion'' = Str ''v1'' \<longrightarrow> length (elems (fld v ''accountKeys'')) \<le> 96"
    "hd (elems (fld v ''accountKeys'')) = fld v ''feePayer''" "distinct (elems (fld v ''accountKeys''))"
    "1 \<le> int_of s" "int_of s \<le> int (length (elems (fld v ''accountKeys'')))" "int_of rs < int_of s"
    "int_of ru \<le> int (length (elems (fld v ''accountKeys''))) - int_of s"
    "length ts \<le> 32" "fld v ''messageVersion'' = Str ''v0'' \<or> ts = []" "mapE table_lookup ts = Inr ts"
    "publicKeyList wr = Inr wr" "publicKeyList ro = Inr ro"
    "length (elems wr) = sum_list (map (\<lambda>l. length (elems (fld l ''writableIndexes''))) ts)"
    "length (elems ro) = sum_list (map (\<lambda>l. length (elems (fld l ''readonlyIndexes''))) ts)"
    "length (elems (fld v ''accountKeys'')) + (length (elems wr) + length (elems ro)) \<le> 256"
    "1 \<le> length cs" "length cs \<le> 128" "fld v ''messageVersion'' = Str ''v1'' \<longrightarrow> length cs \<le> 64"
    "mapE (message_instruction (fld v ''messageVersion'' = Str ''v1'')
        (length (elems (fld v ''accountKeys'')) + (length (elems wr) + length (elems ro)))) cs = Inr cs"
    "fld v ''messageVersion'' = Str ''v1'' \<longrightarrow> elems wr = [] \<and> elems ro = []"
proof -
  note fin = that
  let ?keys = "elems (fld v ''accountKeys'')" and ?lk = "elems (fld v ''addressTableLookups'')"
  let ?v1 = "fld v ''messageVersion'' = Str ''v1''" and ?is = "elems (fld v ''instructions'')"
  from assms obtain cfg s rs ru ts wr ro cs where
    w: "w = Obj ([(''network'', Str ''mainnet-beta''), (''messageVersion'', fld v ''messageVersion'')] @ cfg @
       [(''feePayer'', fld v ''feePayer''), (''recentBlockhash'', fld v ''recentBlockhash''),
        (''header'', Obj [(''numRequiredSignatures'', s), (''numReadonlySignedAccounts'', rs), (''numReadonlyUnsignedAccounts'', ru)]),
        (''accountKeys'', Arr ?keys), (''addressTableLookups'', Arr ts),
        (''loadedAddresses'', Obj [(''writable'', wr), (''readonly'', ro)]), (''instructions'', Arr cs)])"
    and net: "\<not> fld v ''network'' \<noteq> Str ''mainnet-beta''"
    "\<not> js_string (fld v ''messageVersion'') \<notin> {''legacy'', ''v0'', ''v1''}"
    "config_of v = Inr cfg"
    "\<not> (\<not> isSolanaPublicKey (fld v ''feePayer'') \<or> \<not> isSolanaPublicKey (fld v ''recentBlockhash''))"
    and hd: "safeIndex (fld (fld v ''header'') ''numRequiredSignatures'') = Inr s"
    "safeIndex (fld (fld v ''header'') ''numReadonlySignedAccounts'') = Inr rs"
    "safeIndex (fld (fld v ''header'') ''numReadonlyUnsignedAccounts'') = Inr ru"
    and keys: "\<not> (\<not> is_arr (fld v ''accountKeys'') \<or> int (length ?keys) < 1 \<or> 256 < int (length ?keys)
        \<or> \<not> list_all isSolanaPublicKey ?keys)"
    "\<not> (?v1 \<and> 96 < int (length ?keys))" "\<not> hd ?keys \<noteq> fld v ''feePayer''" "\<not> \<not> distinct ?keys"
    "\<not> (int_of s < 1 \<or> int (length ?keys) < int_of s \<or> int_of s \<le> int_of rs
        \<or> int (length ?keys) - int_of s < int_of ru)"
    and lk: "\<not> (\<not> is_arr (fld v ''addressTableLookups'') \<or> 32 < length ?lk)"
    "\<not> (fld v ''messageVersion'' \<noteq> Str ''v0'' \<and> length ?lk \<noteq> 0)" "mapE table_lookup ?lk = Inr ts"
    and ld: "publicKeyList (fld (fld v ''loadedAddresses'') ''writable'') = Inr wr"
    "publicKeyList (fld (fld v ''loadedAddresses'') ''readonly'') = Inr ro"
    "\<not> (length (elems wr) \<noteq> sum_list (map (\<lambda>l. length (elems (fld l ''writableIndexes''))) ts)
       \<or> length (elems ro) \<noteq> sum_list (map (\<lambda>l. length (elems (fld l ''readonlyIndexes''))) ts))"
    "\<not> 256 < length ?keys + (length (elems wr) + length (elems ro))"
    and ins: "\<not> (\<not> is_arr (fld v ''instructions'') \<or> length ?is < 1 \<or> 128 < length ?is)"
    "\<not> (?v1 \<and> 64 < length ?is)"
    "mapE (message_instruction ?v1 (length ?keys + (length (elems wr) + length (elems ro)))) ?is = Inr cs"
    "\<not> (?v1 \<and> (length (elems wr) \<noteq> 0 \<or> length (elems ro) \<noteq> 0))"
    unfolding normalizeSolanaTransactionMessage_def Let_def config_of_def [symmetric]
    by (elim result_elims) (rule that, assumption+)
  have len: "length ts = length ?lk" "length cs = length ?is"
    using lk(3) ins(3) by (auto dest: mapE_Inr_length)
  have si: "safeIndex s = Inr s" "safeIndex rs = Inr rs" "safeIndex ru = Inr ru"
    using hd by (simp_all add: safeIndex_Inr)
  have pk: "publicKeyList wr = Inr wr" "publicKeyList ro = Inr ro"
    using ld(1,2) by (simp_all add: publicKeyList_Inr)
  have n: "1 \<le> length ?keys" "length ?keys \<le> 256" "list_all isSolanaPublicKey ?keys"
    using keys(1) by linarith+
  have n96: "?v1 \<longrightarrow> length ?keys \<le> 96" using keys(2) by linarith
  have sg: "1 \<le> int_of s" "int_of s \<le> int (length ?keys)" "int_of rs < int_of s"
    "int_of ru \<le> int (length ?keys) - int_of s"
    using keys(5) by linarith+
  have tb: "length ts \<le> 32" using lk(1) len(1) by linarith
  have cs: "1 \<le> length cs" "length cs \<le> 128" "?v1 \<longrightarrow> length cs \<le> 64"
    using ins(1,2) len(2) by linarith+
  have ts: "mapE table_lookup ts = Inr ts" using lk(3) table_lookup_idem by (rule mapE_idem)
  have mi: "mapE (message_instruction ?v1 (length ?keys + (length (elems wr) + length (elems ro)))) cs = Inr cs"
    using ins(3) message_instruction_idem by (rule mapE_idem)
  have v0: "fld v ''messageVersion'' = Str ''v0'' \<or> ts = []" using lk(2) len(1) by auto
  have ver: "js_string (fld v ''messageVersion'') \<in> {''legacy'', ''v0'', ''v1''}" using net(2) by blast
  have tot: "length ?keys + (length (elems wr) + length (elems ro)) \<le> 256" using ld(4) by linarith
  have v1: "?v1 \<longrightarrow> elems wr = [] \<and> elems ro = []" using ins(4) by simp
  show thesis
    by (rule fin [OF w _ ver net(3) _ _ si n n96 _ _ sg tb v0 ts pk _ _ tot cs mi v1])
      (use net(1,4) keys(3,4) ld(3) in blast)+
qed

lemma instruction_refs:
  assumes "mapE (message_instruction v1 n) cs = Inr cs" "i \<in> set cs"
    "j \<in> set (fld i ''programIdIndex'' # elems (fld i ''accountIndexes''))"
  shows "0 \<le> int_of j \<and> int_of j < int n"
proof -
  obtain c where "message_instruction v1 n c = Inr i" using mapE_Inr_mem [OF assms(1,2)] by blast
  then show ?thesis
  proof (rule message_instruction_Inr, goal_cases)
    case (1 p js d)
    have idx: "account_index n x = Inr y \<Longrightarrow> 0 \<le> int_of y \<and> int_of y < int n" for x y
      by (auto simp: account_index_Inr safeIndex_Inr)
    from assms(3) consider "j = p" | "j \<in> set js" unfolding 1(1) by auto
    then show ?case using idx 1(2) mapE_Inr_mem [OF 1(3)] by cases blast+
  qed
qed

lemma config_shape: "config_of v = Inr cfg \<Longrightarrow> cfg = [] \<or> (\<exists>c. cfg = [(''transactionConfig'', c)])"
  by (auto simp: config_of_def letE_eq_Inr split: if_splits)

lemma message_consistent:
  assumes "normalizeSolanaTransactionMessage v = Inr w"
  shows "message_consistent w"
  using assms
proof (rule message_Inr, goal_cases)
  case (1 cfg s rs ru ts wr ro cs)
  let ?keys = "elems (fld v ''accountKeys'')"
  have flds: "fld w ''accountKeys'' = Arr ?keys" "fld w ''loadedAddresses'' = Obj [(''writable'', wr), (''readonly'', ro)]"
    "fld w ''header'' = Obj [(''numRequiredSignatures'', s), (''numReadonlySignedAccounts'', rs), (''numReadonlyUnsignedAccounts'', ru)]"
    "fld w ''addressTableLookups'' = Arr ts" "fld w ''instructions'' = Arr cs" "fld w ''feePayer'' = fld v ''feePayer''"
    using config_shape [OF 1(4)] by (auto simp: 1(1))
  have pk: "list_all isSolanaPublicKey (elems wr)" "list_all isSolanaPublicKey (elems ro)"
    using 1(23,24) by (simp_all add: publicKeyList_Inr)
  have "\<forall>i\<in>set cs. \<forall>j\<in>set (fld i ''programIdIndex'' # elems (fld i ''accountIndexes'')).
      0 \<le> int_of j \<and> int_of j < int (length ?keys + (length (elems wr) + length (elems ro)))"
    using instruction_refs [OF 1(31)] by blast
  moreover have "cs \<noteq> []" using 1(28) by auto
  ultimately show ?thesis
    unfolding message_consistent_def Let_def flds
    using 1(10,12,14-19,25-27) pk by (simp add: list_all_iff ball_Un add.assoc)
qed

lemma message_idempotent:
  assumes "normalizeSolanaTransactionMessage v = Inr w"
  shows "normalizeSolanaTransactionMessage w = Inr w"
  using assms
proof (rule message_Inr, goal_cases)
  case (1 cfg s rs ru ts wr ro cs)
  let ?keys = "elems (fld v ''accountKeys'')" and ?v1 = "fld v ''messageVersion'' = Str ''v1''"
  let ?h = "Obj [(''numRequiredSignatures'', s), (''numReadonlySignedAccounts'', rs), (''numReadonlyUnsignedAccounts'', ru)]"
  let ?l = "Obj [(''writable'', wr), (''readonly'', ro)]"
  have flds: "fld w ''network'' = Str ''mainnet-beta''" "fld w ''messageVersion'' = fld v ''messageVersion''"
    "fld w ''feePayer'' = fld v ''feePayer''" "fld w ''recentBlockhash'' = fld v ''recentBlockhash''"
    "fld w ''accountKeys'' = Arr ?keys" "fld w ''loadedAddresses'' = ?l" "fld w ''header'' = ?h"
    "fld w ''addressTableLookups'' = Arr ts" "fld w ''instructions'' = Arr cs"
    using config_shape [OF 1(4)] by (auto simp: 1(1))
  have cfg: "config_of w = Inr cfg"
  proof (cases ?v1)
    case True
    with 1(4) obtain c where "cfg = [(''transactionConfig'', c)]" "transaction_config (fld v ''transactionConfig'') = Inr c"
      by (auto simp: config_of_def letE_eq_Inr)
    with True show ?thesis
      unfolding config_of_def flds by (simp add: 1(1) transaction_config_idem)
  next
    case False
    with 1(4) show ?thesis
      unfolding config_of_def flds by (auto simp: 1(1) split: if_splits)
  qed
  have obj: "is_obj w" "assertOnlyKeys w [''network'', ''messageVersion'', ''transactionConfig'', ''feePayer'',
        ''recentBlockhash'', ''header'', ''accountKeys'', ''addressTableLookups'', ''loadedAddresses'', ''instructions''] = Inr ()"
    using config_shape [OF 1(4)] by (auto simp: 1(1))
  have parts: "is_obj ?h" "is_obj ?l" "is_arr (Arr ?keys)" "is_arr (Arr ts)" "is_arr (Arr cs)"
    "assertOnlyKeys ?h [''numRequiredSignatures'', ''numReadonlySignedAccounts'', ''numReadonlyUnsignedAccounts''] = Inr ()"
    "assertOnlyKeys ?l [''writable'', ''readonly''] = Inr ()"
    "fld ?h ''numRequiredSignatures'' = s" "fld ?h ''numReadonlySignedAccounts'' = rs"
    "fld ?h ''numReadonlyUnsignedAccounts'' = ru" "fld ?l ''writable'' = wr" "fld ?l ''readonly'' = ro"
    "elems (Arr ?keys) = ?keys" "elems (Arr ts) = ts" "elems (Arr cs) = cs"
    by simp_all
  have guards: "(js_string (fld v ''messageVersion'') \<notin> {''legacy'', ''v0'', ''v1''}) = False"
    "(\<not> isSolanaPublicKey (fld v ''feePayer'') \<or> \<not> isSolanaPublicKey (fld v ''recentBlockhash'')) = False"
    "(int (length ?keys) < 1 \<or> 256 < int (length ?keys) \<or> \<not> list_all isSolanaPublicKey ?keys) = False"
    "(?v1 \<and> 96 < int (length ?keys)) = False" "(hd ?keys \<noteq> fld v ''feePayer'') = False" "(\<not> distinct ?keys) = False"
    "(int_of s < 1 \<or> int (length ?keys) < int_of s \<or> int_of s \<le> int_of rs
        \<or> int (length ?keys) - int_of s < int_of ru) = False"
    "(32 < length ts) = False" "(fld v ''messageVersion'' \<noteq> Str ''v0'' \<and> length ts \<noteq> 0) = False"
    "(length (elems wr) \<noteq> sum_list (map (\<lambda>l. length (elems (fld l ''writableIndexes''))) ts)
       \<or> length (elems ro) \<noteq> sum_list (map (\<lambda>l. length (elems (fld l ''readonlyIndexes''))) ts)) = False"
    "(256 < length ?keys + (length (elems wr) + length (elems ro))) = False"
    "(length cs < 1 \<or> 128 < length cs) = False" "(?v1 \<and> 64 < length cs) = False"
    "(?v1 \<and> (length (elems wr) \<noteq> 0 \<or> length (elems ro) \<noteq> 0)) = False"
    using 1(3,5,6,10-21,25-30,32) by (simp_all add: not_less not_le) (linarith | force)+
  have tt: "is_arr (Arr xs) = True" "is_obj (Obj kvs) = True" for xs kvs by simp_all
  show ?case
    unfolding normalizeSolanaTransactionMessage_def Let_def config_of_def [symmetric]
    unfolding obj(2) cfg letE_simps flds parts(6-)
    using obj(1) by (simp only: tt not_True_eq_False simp_thms guards 1(7-9,22-24,31) if_False if_True letE_simps 1(1))
qed

section \<open>Properties\<close>

text \<open>Base58 decoding is injective: two texts that decode to the same bytes are the same
  text, so that comparing public keys and blockhashes as texts compares their bytes.\<close>

theorem base58_texts_unique:
  assumes "decodeBase58 (Str s) = Inr bs" "decodeBase58 (Str t) = Inr bs"
  shows "s = t"
  by (rule decodeBase58_inj [OF assms])

lemma base58_texts_unique_witness:
  "decodeBase58 (Str ''11Z'') = Inr [0, 0, 32] \<and> {s. decodeBase58 (Str s) = Inr [0, 0, 32]} = {''11Z''}"
proof -
  have d: "decodeBase58 (Str ''11Z'') = Inr [0, 0, 32]" by code_simp
  then show ?thesis using base58_texts_unique [OF _ d] by blast
qed

text \<open>C27. In a normalised Solana message every program and account index refers to an account
  of the message, static keys are distinct and start with the fee payer, signer counts fit, the
  loaded addresses match the table lookups; and normalising it again changes nothing.\<close>

theorem solana_message_consistent:
  assumes "normalizeSolanaTransactionMessage v = Inr w"
  shows "message_consistent w \<and> normalizeSolanaTransactionMessage w = Inr w"
  using message_consistent [OF assms] message_idempotent [OF assms] by simp

definition sample_key :: jsval where
  "sample_key = Str (replicate 32 (CHR ''1''))"

definition sample_message_fields :: "jsval \<Rightarrow> (string \<times> jsval) list" where
  "sample_message_fields version = [(''network'', Str ''mainnet-beta''), (''messageVersion'', version),
     (''feePayer'', sample_key), (''recentBlockhash'', sample_key),
     (''header'', Obj [(''numRequiredSignatures'', Num 1), (''numReadonlySignedAccounts'', Num 0), (''numReadonlyUnsignedAccounts'', Num 0)]),
     (''accountKeys'', Arr [sample_key]), (''addressTableLookups'', Arr []),
     (''loadedAddresses'', Obj [(''writable'', Arr []), (''readonly'', Arr [])]),
     (''instructions'', Arr [Obj [(''programIdIndex'', Num 0), (''accountIndexes'', Arr [Num 0]), (''data'', Str ''3Bx'')]])]"

lemma solana_message_consistent_witness:
  "normalizeSolanaTransactionMessage (Obj (sample_message_fields (Str ''legacy'')))
     = Inr (Obj (sample_message_fields (Str ''legacy''))) \<and>
   message_consistent (Obj (sample_message_fields (Str ''legacy'')))"
proof -
  have n: "normalizeSolanaTransactionMessage (Obj (sample_message_fields (Str ''legacy'')))
     = Inr (Obj (sample_message_fields (Str ''legacy'')))" by code_simp
  from solana_message_consistent [OF n] n show ?thesis by simp
qed

end
