(* ===== verification/Agent_Meter.thy ===== *)
theory Agent_Meter
  imports Meter Hyperliquid Solana
begin

text \<open>
  src/application/commerce/agent-meter.mjs: the metered Agent service over the store of
  \<^verbatim>\<open>Meter\<close>.  A method that has called the store and then throws keeps what the store
  did, so a method is an action from the store to a result and a store.  The hash is the
  parameter \<^verbatim>\<open>sha\<close>, the URL check \<^verbatim>\<open>https_url\<close> (the runtime's URL parser),
  and the 32 random bytes of a new credential are the argument \<^verbatim>\<open>random\<close> (base64url text).
  Shown: a configuration that parses has positive credits and exact prices; whatever calls are made,
  no account's remaining credits become negative; a repeated call is not charged again.
\<close>

section \<open>Configuration\<close>

definition IDENTIFIER :: "string \<Rightarrow> bool" where
  "IDENTIFIER = ID_RE"

definition positiveUint :: "string \<Rightarrow> bool" where
  "positiveUint value = (uint_text value \<and>
     (case BigInt_text value of Inl e \<Rightarrow> False | Inr n \<Rightarrow> 0 < n \<and> n \<le> max_safe))"

definition positiveUsd :: "string \<Rightarrow> bool" where
  "positiveUsd value = (
     let whole = whole_part value; fraction = drop 1 (dropWhile (\<lambda>c. c \<noteq> CHR ''.'') value) in
     (whole = ''0'' \<or> posint_text whole \<and> length whole \<le> 5) \<and> CHR ''.'' \<in> set value
     \<and> 1 \<le> length fraction \<and> length fraction \<le> 6 \<and> list_all is_digit fraction
     \<and> 0 < nat_value (whole @ fraction))"

fun split_on :: "char \<Rightarrow> string \<Rightarrow> string list" where
  "split_on c [] = [[]]"
| "split_on c (x # xs) = (if x = c then [] # split_on c xs
     else (case split_on c xs of [] \<Rightarrow> [[x]] | s # ss \<Rightarrow> (x # s) # ss))"

definition path_parameter :: "string \<Rightarrow> bool" where
  "path_parameter segment = (case segment of
      c # l # r \<Rightarrow> c = CHR '':'' \<and> (in_range (CHR ''a'') (CHR ''z'') l \<or> in_range (CHR ''A'') (CHR ''Z'') l) \<and> list_all is_alnum r
    | _ \<Rightarrow> False)"

fun includes_double_slash :: "string \<Rightarrow> bool" where
  "includes_double_slash (a # b # s) = (a = CHR ''/'' \<and> b = CHR ''/'' \<or> includes_double_slash (b # s))"
| "includes_double_slash s = False"

definition validRoutePath :: "string \<Rightarrow> bool" where
  "validRoutePath path = (starts_with ''/'' path \<and> \<not> includes_double_slash path
     \<and> list_all (\<lambda>segment. IDENTIFIER segment \<or> path_parameter segment) (drop 1 (split_on (CHR ''/'') path)))"

definition routeMatches :: "string \<Rightarrow> string \<Rightarrow> bool" where
  "routeMatches pattern pathname = (
     let expected = split_on (CHR ''/'') pattern; actual = split_on (CHR ''/'') pathname in
     length expected = length actual \<and>
     list_all (\<lambda>(part, found). if starts_with '':'' part then 0 < length found else part = found) (zip expected actual))"

text \<open>\<^verbatim>\<open>text.padStart(n, "0")\<close>.\<close>

definition pad_zeros :: "nat \<Rightarrow> string \<Rightarrow> string" where
  "pad_zeros n s = replicate (n - length s) (CHR ''0'') @ s"

definition creditPriceUsd :: "string \<Rightarrow> string \<Rightarrow> string" where
  "creditPriceUsd unit credits = (
     let whole = whole_part unit; fraction = fraction_part unit; scale = length fraction;
         amount = pad_zeros (scale + 1) (nat_text (nat_value (whole @ fraction) * nat_value credits));
         cut = length amount - scale;
         decimals = trim_zeros (drop cut amount)
     in if decimals \<noteq> [] then take cut amount @ ''.'' @ decimals else take cut amount)"

record meter_route =
  mr_routeId :: string
  mr_method :: string
  mr_path :: string
  mr_credits :: string
  mr_priceUsd :: string

record meter_config =
  mc_creditUnitUsd :: string
  mc_operatorCredentialHash :: string
  mc_accounts :: "account_input list"
  mc_routes :: "meter_route list"

definition record_of :: "jsval \<Rightarrow> unit result" where
  "record_of value = (if \<not> is_obj value then Inl TypeErr else Inr ())"

definition exactKeys :: "jsval \<Rightarrow> string list \<Rightarrow> unit result" where
  "exactKeys value keys = (if join '','' (sort (map fst (props value))) \<noteq> join '','' (sort keys)
     then Inl TypeErr else Inr ())"

definition str_test :: "jsval \<Rightarrow> (string \<Rightarrow> bool) \<Rightarrow> bool" where
  "str_test v p = (case v of Str s \<Rightarrow> p s | _ \<Rightarrow> False)"

text \<open>The two maps over the entries, with the sets of what was seen so far.\<close>

fun parse_accounts :: "jsval list \<Rightarrow> string list \<Rightarrow> string list \<Rightarrow> account_input list result" where
  "parse_accounts [] accountIds credentialHashes = Inr []"
| "parse_accounts (item # entries) accountIds credentialHashes =
     letE (record_of item) (\<lambda>_.
     letE (exactKeys item [''accountId'', ''credentialHash'', ''provisionedCredits'', ''status'']) (\<lambda>_.
     if \<not> str_test (fld item ''accountId'') (\<lambda>s. IDENTIFIER s \<and> s \<notin> set accountIds) then Inl TypeErr else
     if \<not> str_test (fld item ''credentialHash'') (\<lambda>s. hash64 s \<and> s \<notin> set credentialHashes) then Inl TypeErr else
     if \<not> str_test (fld item ''provisionedCredits'') positiveUint then Inl TypeErr else
     if \<not> is_any (fld item ''status'') [''active'', ''revoked''] then Inl TypeErr else
     let account = \<lparr>ai_accountId = str_of (fld item ''accountId''), ai_credentialHash = str_of (fld item ''credentialHash''),
           ai_provisionedCredits = str_of (fld item ''provisionedCredits''), ai_status = str_of (fld item ''status'')\<rparr> in
     letE (parse_accounts entries (ai_accountId account # accountIds) (ai_credentialHash account # credentialHashes))
       (\<lambda>accounts. Inr (account # accounts))))"

fun parse_routes :: "string \<Rightarrow> jsval list \<Rightarrow> string list \<Rightarrow> meter_route list result" where
  "parse_routes unit [] routeIds = Inr []"
| "parse_routes unit (item # entries) routeIds =
     letE (record_of item) (\<lambda>_.
     letE (exactKeys item [''credits'', ''method'', ''path'', ''routeId'']) (\<lambda>_.
     if \<not> str_test (fld item ''routeId'') (\<lambda>s. IDENTIFIER s \<and> s \<notin> set routeIds) then Inl TypeErr else
     if \<not> is_any (fld item ''method'') [''GET'', ''POST''] \<or> \<not> str_test (fld item ''path'') validRoutePath
        \<or> \<not> str_test (fld item ''credits'') positiveUint then Inl TypeErr else
     let route = \<lparr>mr_routeId = str_of (fld item ''routeId''), mr_method = str_of (fld item ''method''),
           mr_path = str_of (fld item ''path''), mr_credits = str_of (fld item ''credits''),
           mr_priceUsd = creditPriceUsd unit (str_of (fld item ''credits''))\<rparr> in
     letE (parse_routes unit entries (mr_routeId route # routeIds)) (\<lambda>routes. Inr (route # routes))))"

definition parseAgentMeterConfig :: "jsval \<Rightarrow> meter_config option result" where
  "parseAgentMeterConfig value = (
     if value = Undef \<or> value = Null \<or> value = Str [] then Inr None else
     letE (record_of value) (\<lambda>_.
     letE (exactKeys value [''accounts'', ''creditUnitUsd'', ''operatorCredentialHash'', ''routes'', ''schema'']) (\<lambda>_.
     if \<not> str_test (fld value ''creditUnitUsd'') positiveUsd then Inl TypeErr else
     let creditUnitUsd = str_of (fld value ''creditUnitUsd'') in
     if fld value ''schema'' \<noteq> Str ''priorseal.agent-meter.v1'' \<or> \<not> str_test (fld value ''operatorCredentialHash'') hash64
        \<or> \<not> is_arr (fld value ''accounts'') \<or> \<not> is_arr (fld value ''routes'')
        \<or> 1000 < length (elems (fld value ''accounts'')) \<or> 64 < length (elems (fld value ''routes'')) then Inl TypeErr else
     letE (parse_accounts (elems (fld value ''accounts'')) [] []) (\<lambda>accounts.
     letE (parse_routes creditUnitUsd (elems (fld value ''routes'')) []) (\<lambda>routes.
     Inr (Some \<lparr>mc_creditUnitUsd = creditUnitUsd,
       mc_operatorCredentialHash = str_of (fld value ''operatorCredentialHash''),
       mc_accounts = accounts, mc_routes = routes\<rparr>))))))"

section \<open>Actions on the store\<close>

type_synonym 'a meter_action = "meter_store \<Rightarrow> 'a result \<times> meter_store"

definition returnA :: "'a \<Rightarrow> 'a meter_action" where
  "returnA x s = (Inr x, s)"

definition throwA :: "string \<Rightarrow> 'a meter_action" where
  "throwA code s = (Inl (CodedError code), s)"

definition bindA :: "'a meter_action \<Rightarrow> ('a \<Rightarrow> 'b meter_action) \<Rightarrow> 'b meter_action" where
  "bindA m k s = (case m s of (Inl e, s') \<Rightarrow> (Inl e, s') | (Inr x, s') \<Rightarrow> k x s')"

definition callA :: "(meter_store \<Rightarrow> (meter_store \<times> 'a) result) \<Rightarrow> 'a meter_action" where
  "callA operation s = (case operation s of Inl e \<Rightarrow> (Inl e, s) | Inr (s', x) \<Rightarrow> (Inr x, s'))"

definition readA :: "(meter_store \<Rightarrow> 'a) \<Rightarrow> 'a meter_action" where
  "readA query s = (Inr (query s), s)"

text \<open>\<^verbatim>\<open>if (c) throw commercialError(code)\<close> before the rest.\<close>

definition guardA :: "bool \<Rightarrow> string \<Rightarrow> 'a meter_action \<Rightarrow> 'a meter_action" where
  "guardA c code m = (if c then throwA code else m)"

definition presentA :: "'a option \<Rightarrow> string \<Rightarrow> ('a \<Rightarrow> 'b meter_action) \<Rightarrow> 'b meter_action" where
  "presentA v code k = (case v of None \<Rightarrow> throwA code | Some x \<Rightarrow> k x)"

section \<open>Credentials\<close>

definition agentCredentialHash :: "(string \<Rightarrow> string) \<Rightarrow> string \<Rightarrow> string result" where
  "agentCredentialHash sha secret = (if length secret < 24 \<or> 4096 < length secret then Inl TypeErr else Inr (sha secret))"

definition credentialDigestOrNull :: "(string \<Rightarrow> string) \<Rightarrow> string option \<Rightarrow> string option" where
  "credentialDigestOrNull sha secret = (case secret of
      None \<Rightarrow> None
    | Some s \<Rightarrow> if s = [] then None else (case agentCredentialHash sha s of Inl e \<Rightarrow> None | Inr h \<Rightarrow> Some h))"

definition byCredentialHash :: "meter_config \<Rightarrow> (string, account_input) js_map" where
  "byCredentialHash cfg = foldl (\<lambda>m account. map_set (ai_credentialHash account) account m) [] (mc_accounts cfg)"

definition accountFor :: "(string \<Rightarrow> string) \<Rightarrow> meter_config \<Rightarrow> string option \<Rightarrow> account_input option meter_action" where
  "accountFor sha cfg credential = (
     presentA (credentialDigestOrNull sha credential) ''AGENT_CREDENTIAL_INVALID'' (\<lambda>digest.
     case map_get (byCredentialHash cfg) digest of
       Some configured \<Rightarrow>
         bindA (callA (provisionAgentMeterAccount configured)) (\<lambda>_.
         bindA (readA (getAgentMeterAccount (ai_accountId configured))) (\<lambda>state.
         returnA (Some (case state of None \<Rightarrow> configured | Some view \<Rightarrow> configured\<lparr>ai_status := av_status view\<rparr>))))
     | None \<Rightarrow> readA (findAgentMeterAccountByCredentialHash digest)))"

definition requireOperator :: "(string \<Rightarrow> string) \<Rightarrow> meter_config \<Rightarrow> string option \<Rightarrow> 'a meter_action \<Rightarrow> 'a meter_action" where
  "requireOperator sha cfg credential =
     guardA (credentialDigestOrNull sha credential \<noteq> Some (mc_operatorCredentialHash cfg)) ''AGENT_OPERATOR_CREDENTIAL_INVALID''"

definition requireAccount :: "(string \<Rightarrow> string) \<Rightarrow> meter_config \<Rightarrow> string option \<Rightarrow> account_input meter_action" where
  "requireAccount sha cfg credential =
     bindA (accountFor sha cfg credential) (\<lambda>found.
     presentA found ''AGENT_CREDENTIAL_INVALID'' (\<lambda>account.
     guardA (ai_status account \<noteq> ''active'') ''AGENT_CREDENTIAL_INVALID'' (returnA account)))"

section \<open>Metered calls\<close>

definition authorize_call ::
  "(string \<Rightarrow> string) \<Rightarrow> meter_config \<Rightarrow> string \<Rightarrow> string \<Rightarrow> string option \<Rightarrow> string option \<Rightarrow> int
    \<Rightarrow> (string \<times> agent_usage) option meter_action" where
  "authorize_call sha cfg meth pathname credential requestKey now = (
     case find (\<lambda>candidate. mr_method candidate = meth \<and> routeMatches (mr_path candidate) pathname) (mc_routes cfg) of
       None \<Rightarrow> returnA None
     | Some route \<Rightarrow>
         guardA (credential = None \<or> credential = Some [] \<or> requestKey = None \<or> \<not> IDENTIFIER (the requestKey))
           ''AGENT_CREDENTIAL_REQUIRED''
         (bindA (requireAccount sha cfg credential) (\<lambda>account.
          bindA (callA (reserveAgentUsage sha \<lparr>ur_accountId = ai_accountId account, ur_routeId = mr_routeId route,
             ur_requestKey = the requestKey, ur_credits = mr_credits route, ur_reservedAt = now\<rparr>)) (\<lambda>reply.
          case reply of
            Insufficient \<Rightarrow> throwA ''AGENT_CREDITS_EXHAUSTED''
          | Replayed reservation \<Rightarrow> returnA (Some (ai_accountId account, reservation))
          | Reserved reservation \<Rightarrow> returnA (Some (ai_accountId account, reservation))))))"

definition settle_call :: "string \<Rightarrow> string \<Rightarrow> agent_usage option meter_action" where
  "settle_call usageId outcome = callA (settleAgentUsage usageId outcome)"

definition inspect_call :: "(string \<Rightarrow> string) \<Rightarrow> meter_config \<Rightarrow> string option \<Rightarrow> account_view meter_action" where
  "inspect_call sha cfg credential =
     bindA (requireAccount sha cfg credential) (\<lambda>account.
     bindA (readA (getAgentMeterAccount (ai_accountId account))) (\<lambda>state.
     presentA state ''AGENT_CREDENTIAL_INVALID'' returnA))"

definition usage_call :: "(string \<Rightarrow> string) \<Rightarrow> meter_config \<Rightarrow> string option \<Rightarrow> nat \<Rightarrow> agent_usage list meter_action" where
  "usage_call sha cfg credential limit =
     bindA (requireAccount sha cfg credential) (\<lambda>account. readA (listAgentMeterUsage (ai_accountId account) limit))"

section \<open>Credit packs\<close>

definition purchase_id_re :: "string \<Rightarrow> bool" where
  "purchase_id_re = after ''xcp_'' (lower_hex_n 32)"

definition ledger_id_re :: "string \<Rightarrow> bool" where
  "ledger_id_re = after ''xpl_'' (lower_hex_n 32)"

definition settlement_network_re :: "string \<Rightarrow> bool" where
  "settlement_network_re s = (after ''eip155:'' posint_text s \<or>
     after ''solana:'' (\<lambda>r. 32 \<le> length r \<and> length r \<le> 64 \<and> list_all (\<lambda>c. BASE58_MAP c \<noteq> None) r) s)"

definition is_unix_time :: "int \<Rightarrow> bool" where
  "is_unix_time t = (0 < t \<and> t \<le> max_safe)"

definition authorizeX402CreditPack ::
  "(string \<Rightarrow> string) \<Rightarrow> (string \<Rightarrow> bool) \<Rightarrow> meter_config \<Rightarrow> string option \<Rightarrow> credit_purchase \<Rightarrow> credit_purchase meter_action" where
  "authorizeX402CreditPack sha https_url cfg credential input =
     bindA (requireAccount sha cfg credential) (\<lambda>account.
     guardA (\<not> purchase_id_re (cp_purchaseId input) \<or> \<not> ledger_id_re (cp_paymentLedgerId input) \<or> \<not> IDENTIFIER (cp_packId input)
         \<or> \<not> positiveUint (cp_credits input) \<or> \<not> positiveUsd (cp_priceUsd input) \<or> \<not> https_url (cp_resourceUrl input)
         \<or> \<not> is_unix_time (cp_authorizedAt input)) ''AGENT_ACCOUNT_INVALID''
       (callA (authorizeX402CreditPurchase (input\<lparr>cp_accountId := ai_accountId account, cp_state := ''AUTHORIZED'',
          cp_settledAt := None, cp_settlementNetwork := None, cp_settlementTransaction := None\<rparr>))))"

definition settleX402CreditPack ::
  "(string \<Rightarrow> string) \<Rightarrow> settlement_input \<Rightarrow> (credit_purchase \<times> account_view) meter_action" where
  "settleX402CreditPack sha input =
     guardA (\<not> purchase_id_re (si_purchaseId input) \<or> \<not> is_unix_time (si_settledAt input)
         \<or> \<not> settlement_network_re (si_settlementNetwork input)
         \<or> length (si_settlementTransaction input) < 1 \<or> 128 < length (si_settlementTransaction input)) ''AGENT_ACCOUNT_INVALID''
       (bindA (callA (settleX402CreditPurchase sha input)) (\<lambda>reply. presentA reply ''AGENT_ACCOUNT_NOT_FOUND'' returnA))"

definition getX402CreditPackPurchase ::
  "(string \<Rightarrow> string) \<Rightarrow> meter_config \<Rightarrow> string option \<Rightarrow> string \<Rightarrow> credit_purchase meter_action" where
  "getX402CreditPackPurchase sha cfg credential purchaseId =
     bindA (requireAccount sha cfg credential) (\<lambda>account.
     guardA (\<not> purchase_id_re purchaseId) ''AGENT_ACCOUNT_INVALID''
       (bindA (readA (getX402CreditPurchase purchaseId)) (\<lambda>found.
        presentA found ''AGENT_ACCOUNT_NOT_FOUND'' (\<lambda>purchase.
        guardA (cp_accountId purchase \<noteq> ai_accountId account) ''AGENT_ACCOUNT_NOT_FOUND'' (returnA purchase)))))"

section \<open>The operator's calls\<close>

definition operator_authenticate :: "(string \<Rightarrow> string) \<Rightarrow> meter_config \<Rightarrow> string option \<Rightarrow> bool" where
  "operator_authenticate sha cfg credential =
     (case fst (requireOperator sha cfg credential (returnA ()) empty_meter) of Inl e \<Rightarrow> False | Inr _ \<Rightarrow> True)"

definition operator_issue ::
  "(string \<Rightarrow> string) \<Rightarrow> meter_config \<Rightarrow> string \<Rightarrow> string option \<Rightarrow> string \<Rightarrow> string \<Rightarrow> (account_view \<times> string) meter_action" where
  "operator_issue sha cfg random operatorCredential accountId provisionedCredits =
     requireOperator sha cfg operatorCredential
     (guardA (\<not> IDENTIFIER accountId \<or> \<not> positiveUint provisionedCredits) ''AGENT_ACCOUNT_INVALID''
     (let credential = ''psa_'' @ random in
      bindA (\<lambda>s. (agentCredentialHash sha credential, s)) (\<lambda>credentialHash.
      bindA (callA (createAgentMeterAccount \<lparr>ai_accountId = accountId, ai_credentialHash = credentialHash,
          ai_provisionedCredits = provisionedCredits, ai_status = ''active''\<rparr>)) (\<lambda>created.
      guardA (\<not> created) ''AGENT_ACCOUNT_EXISTS''
      (bindA (readA (getAgentMeterAccount accountId)) (\<lambda>state.
       case state of None \<Rightarrow> (\<lambda>s. (Inl (PlainErr ''Agent account was not provisioned''), s))
       | Some view \<Rightarrow> returnA (view, credential)))))))"

definition hashOperation :: "(string \<Rightarrow> string) \<Rightarrow> string \<Rightarrow> string \<Rightarrow> string" where
  "hashOperation sha accountId requestKey = sha (''{'' @ json_string ''accountId'' @ '':'' @ json_string accountId @ '',''
     @ json_string ''requestKey'' @ '':'' @ json_string requestKey @ ''}'')"

definition operator_credit ::
  "(string \<Rightarrow> string) \<Rightarrow> meter_config \<Rightarrow> string option \<Rightarrow> string \<Rightarrow> string \<Rightarrow> string option \<Rightarrow> string option \<Rightarrow> int \<Rightarrow> credit_reply meter_action" where
  "operator_credit sha cfg operatorCredential accountId credits requestKey reference now =
     requireOperator sha cfg operatorCredential
     (guardA (\<not> IDENTIFIER accountId \<or> \<not> positiveUint credits
         \<or> (reference \<noteq> None \<and> (\<not> IDENTIFIER (the reference) \<or> 128 < length (the reference)))) ''AGENT_ACCOUNT_INVALID''
     (guardA (requestKey = None \<or> \<not> IDENTIFIER (the requestKey)) ''AGENT_IDEMPOTENCY_REQUIRED''
     (bindA (callA (creditAgentMeterAccount \<lparr>co_operationId = ''aco_'' @ take 32 (hashOperation sha accountId (the requestKey)),
         co_accountId = accountId, co_requestKey = the requestKey, co_credits = credits, co_reference = reference,
         co_creditedAt = now\<rparr>)) (\<lambda>reply. presentA reply ''AGENT_ACCOUNT_NOT_FOUND'' returnA))))"

definition operator_revoke :: "(string \<Rightarrow> string) \<Rightarrow> meter_config \<Rightarrow> string option \<Rightarrow> string \<Rightarrow> account_view meter_action" where
  "operator_revoke sha cfg operatorCredential accountId =
     requireOperator sha cfg operatorCredential
     (guardA (\<not> IDENTIFIER accountId) ''AGENT_ACCOUNT_INVALID''
     (bindA (callA (revokeAgentMeterAccount accountId)) (\<lambda>reply. presentA reply ''AGENT_ACCOUNT_NOT_FOUND'' returnA)))"

section \<open>Prices are exact\<close>

lemma trim_zeros_snoc: "s = trim_zeros s @ replicate (length s - length (trim_zeros s)) (CHR ''0'')"
proof (induction s rule: rev_induct)
  case (snoc c s)
  show ?case
  proof (cases "c = CHR ''0''")
    case True
    have t: "trim_zeros (s @ [c]) = trim_zeros s" using True by (simp add: trim_zeros_def)
    have "length (s @ [c]) - length (trim_zeros s) = Suc (length s - length (trim_zeros s))"
      using trim_zeros_subset(2) [of s] by simp
    with snoc True show ?thesis unfolding t
      by (metis append_assoc replicate_append_same replicate_Suc)
  qed (simp add: trim_zeros_def)
qed simp

lemma trim_zeros_fraction:
  "(of_nat (nat_value (trim_zeros s)) / 10 ^ length (trim_zeros s) :: rat) = of_nat (nat_value s) / 10 ^ length s"
proof -
  let ?t = "trim_zeros s" and ?k = "length s - length (trim_zeros s)"
  have "nat_value s = nat_value ?t * 10 ^ ?k"
    by (subst trim_zeros_snoc) (simp add: nat_value_append nat_value_zeros)
  moreover have "(10::rat) ^ length s = 10 ^ length ?t * 10 ^ ?k"
    using trim_zeros_subset(2) [of s] by (simp flip: power_add)
  ultimately show ?thesis by simp
qed

lemma nat_value_pad: "nat_value (pad_zeros n s) = nat_value s"
  by (simp add: pad_zeros_def nat_value_append nat_value_zeros)

lemma zero_is_digit [simp]: "is_digit (CHR ''0'')"
  by (simp add: is_digit_def)

lemma pad_digits: "list_all is_digit s \<Longrightarrow> list_all is_digit (pad_zeros n s)"
  by (auto simp: pad_zeros_def list_all_iff)

lemma nat_text_all_digits: "list_all is_digit (nat_text n)"
  using nat_text_digits by (simp add: list_all_iff)

lemma split_quotient: "n = a * 10 ^ k + b \<Longrightarrow> (of_nat n :: rat) / 10 ^ k = of_nat a + of_nat b / 10 ^ k"
  by (simp add: add_divide_distrib)

lemma creditPriceUsd_exact:
  "decimal_value (creditPriceUsd unit credits) = decimal_value unit * of_nat (nat_value credits)"
proof -
  let ?w = "whole_part unit" and ?f = "fraction_part unit"
  let ?k = "length ?f" and ?n = "nat_value (whole_part unit @ fraction_part unit) * nat_value credits"
  let ?a = "pad_zeros (?k + 1) (nat_text ?n)"
  let ?i = "take (length ?a - ?k) ?a" and ?d = "drop (length ?a - ?k) ?a"
  have digits: "list_all is_digit ?a" by (intro pad_digits nat_text_all_digits)
  then have i: "list_all is_digit ?i" and d: "list_all is_digit ?d"
    by (metis append_take_drop_id list_all_append)+
  have t: "list_all is_digit (trim_zeros ?d)" using d trim_zeros_subset(1) [of ?d] by (auto simp: list_all_iff)
  have len: "length ?d = ?k" by (simp add: pad_zeros_def)
  have "?n = nat_value ?i * 10 ^ ?k + nat_value ?d"
    using nat_value_append [of ?i ?d] len by (simp add: nat_value_pad)
  then have whole: "(of_nat ?n :: rat) / 10 ^ ?k = of_nat (nat_value ?i) + of_nat (nat_value ?d) / 10 ^ length ?d"
    unfolding len by (rule split_quotient)
  have price: "decimal_value (creditPriceUsd unit credits) = of_nat (nat_value ?i) + of_nat (nat_value ?d) / 10 ^ length ?d"
  proof (cases "trim_zeros ?d = []")
    case True
    with trim_zeros_fraction [of ?d] have "(of_nat (nat_value ?d) :: rat) / 10 ^ length ?d = 0"
      by (simp add: nat_value_def)
    moreover have "creditPriceUsd unit credits = ?i" using True by (simp add: creditPriceUsd_def Let_def)
    ultimately show ?thesis using parts_of_whole [OF i] by (simp add: decimal_value_def nat_value_def)
  next
    case False
    then have "creditPriceUsd unit credits = ?i @ ''.'' @ trim_zeros ?d" by (simp add: creditPriceUsd_def Let_def)
    then show ?thesis using parts_of_pair [OF i t] trim_zeros_fraction [of ?d] by (simp add: decimal_value_def)
  qed
  have "decimal_value unit = of_nat (nat_value (?w @ ?f)) / 10 ^ ?k"
    by (simp add: decimal_value_def nat_value_append add_divide_distrib)
  moreover have "(of_nat ?n :: rat) = of_nat (nat_value (?w @ ?f)) * of_nat (nat_value credits)"
    by (rule of_nat_mult)
  ultimately show ?thesis unfolding price whole [symmetric] by simp
qed

section \<open>A configuration that parses\<close>

definition config_ok :: "meter_config \<Rightarrow> bool" where
  "config_ok cfg = (distinct (map ai_accountId (mc_accounts cfg)) \<and> distinct (map ai_credentialHash (mc_accounts cfg))
     \<and> (\<forall>a\<in>set (mc_accounts cfg). positiveUint (ai_provisionedCredits a))
     \<and> distinct (map mr_routeId (mc_routes cfg))
     \<and> (\<forall>r\<in>set (mc_routes cfg). positiveUint (mr_credits r) \<and> 0 < decimal_value (mr_priceUsd r)
          \<and> decimal_value (mr_priceUsd r) = decimal_value (mc_creditUnitUsd cfg) * of_nat (nat_value (mr_credits r))))"

lemma str_testD: "\<not> \<not> str_test v p \<Longrightarrow> p (str_of v)"
  by (auto simp: str_test_def split: jsval.splits)

lemma parsed_accounts:
  "parse_accounts entries ids hashes = Inr accounts \<Longrightarrow>
    distinct (map ai_accountId accounts) \<and> distinct (map ai_credentialHash accounts)
    \<and> ai_accountId ` set accounts \<inter> set ids = {} \<and> ai_credentialHash ` set accounts \<inter> set hashes = {}
    \<and> (\<forall>a\<in>set accounts. positiveUint (ai_provisionedCredits a))"
proof (induction entries ids hashes arbitrary: accounts rule: parse_accounts.induct)
  case (2 item entries ids hashes)
  from "2.prems" show ?case
    unfolding parse_accounts.simps Let_def
    by (elim result_elims) (drule (6) "2.IH" [OF _ _ _ _ _ _ refl], force dest!: str_testD)
qed simp

lemma parsed_routes:
  "parse_routes unit entries ids = Inr routes \<Longrightarrow>
    distinct (map mr_routeId routes) \<and> mr_routeId ` set routes \<inter> set ids = {}
    \<and> (\<forall>r\<in>set routes. positiveUint (mr_credits r) \<and> mr_priceUsd r = creditPriceUsd unit (mr_credits r))"
proof (induction unit entries ids arbitrary: routes rule: parse_routes.induct)
  case (2 unit item entries ids)
  from "2.prems" show ?case
    unfolding parse_routes.simps Let_def
    by (elim result_elims) (drule (4) "2.IH" [OF _ _ _ _ refl], force dest!: str_testD)
qed simp

lemma digit_not_space: "is_digit c \<Longrightarrow> \<not> is_space c"
  by (auto simp: is_digit_iff is_space_def)

lemma trim_digits: "list_all is_digit s \<Longrightarrow> trim s = s"
proof -
  assume d: "list_all is_digit s"
  have "dropWhile is_space t = t" if "list_all is_digit t" for t
    using that digit_not_space by (cases t) auto
  with d show ?thesis by (simp add: trim_def)
qed

lemma radix_prefix_digits: "list_all is_digit s \<Longrightarrow> radix_prefix s = None"
proof -
  assume d: "list_all is_digit s"
  have "\<not> starts_with [a, b] s" if "\<not> is_digit b" for a b
    using d that by (cases s; cases "tl s") (auto simp: starts_with_def)
  then show ?thesis by (simp add: radix_prefix_def is_digit_def)
qed

lemma BigInt_digits: "list_all is_digit s \<Longrightarrow> s \<noteq> [] \<Longrightarrow> BigInt_text s = Inr (int (nat_value s))"
proof -
  assume d: "list_all is_digit s" and s: "s \<noteq> []"
  then have "\<not> starts_with ''-'' s" "\<not> starts_with ''+'' s"
    by (cases s; simp add: starts_with_def is_digit_def; auto)+
  with d s show ?thesis
    by (simp add: BigInt_text_def js_BigInt_def parse_bigint_def trim_digits radix_prefix_digits Let_def)
qed

lemma positiveUint_value: "positiveUint s \<Longrightarrow> BigInt_text s = Inr (int (nat_value s)) \<and> 0 < nat_value s"
  using uint_text_digits [of s] BigInt_digits [of s] by (auto simp: positiveUint_def)

lemma positiveUsd_value: "positiveUsd s \<Longrightarrow> 0 < decimal_value s"
proof -
  assume p: "positiveUsd s"
  let ?f = "drop 1 (dropWhile (\<lambda>c. c \<noteq> CHR ''.'') s)"
  have d: "list_all is_digit ?f" using p by (simp only: positiveUsd_def Let_def)
  have f: "fraction_part s = ?f"
    unfolding fraction_part_def using no_dot [OF d] by (simp only: takeWhile_eq_all_conv)
  have "0 < nat_value (whole_part s @ ?f)" using p by (simp add: positiveUsd_def Let_def)
  then have "0 < (of_nat (nat_value (whole_part s @ ?f)) :: rat) / 10 ^ length ?f" by simp
  also have "\<dots> = decimal_value s" by (simp add: decimal_value_def f nat_value_append add_divide_distrib)
  finally show ?thesis .
qed

lemma parsed_config: "parseAgentMeterConfig value = Inr (Some cfg) \<Longrightarrow> config_ok cfg"
proof -
  assume p: "parseAgentMeterConfig value = Inr (Some cfg)"
  then have "value \<noteq> Undef \<and> value \<noteq> Null \<and> value \<noteq> Str []" by (auto simp: parseAgentMeterConfig_def)
  with p obtain accounts routes where
    unit: "positiveUsd (str_of (fld value ''creditUnitUsd''))"
    and a: "parse_accounts (elems (fld value ''accounts'')) [] [] = Inr accounts"
    and r: "parse_routes (str_of (fld value ''creditUnitUsd'')) (elems (fld value ''routes'')) [] = Inr routes"
    and cfg: "mc_creditUnitUsd cfg = str_of (fld value ''creditUnitUsd'')" "mc_accounts cfg = accounts" "mc_routes cfg = routes"
    unfolding parseAgentMeterConfig_def Let_def
    by (simp del: str_testD) (elim result_elims, frule str_testD, simp)
  from parsed_accounts [OF a] parsed_routes [OF r] positiveUsd_value [OF unit] show ?thesis
    by (auto simp: config_ok_def cfg creditPriceUsd_exact dest!: positiveUint_value)
qed

section \<open>No account is overdrawn\<close>

definition funded :: "meter_store \<Rightarrow> bool" where
  "funded s = ((\<forall>a account. map_get (agentMeterAccounts s) a = Some account \<longrightarrow> 0 \<le> ma_remainingCredits account)
     \<and> (\<forall>(k, u)\<in>set (agentMeterUsage s). positiveUint (ur_credits u))
     \<and> (\<forall>p purchase. map_get (x402CreditPurchases s) p = Some purchase \<longrightarrow> positiveUint (cp_credits purchase)))"

definition solvent :: "meter_store \<Rightarrow> bool" where
  "solvent s = (balanced s \<and> funded s)"

lemma funded_account: "funded s \<Longrightarrow> 0 \<le> ma_remainingCredits account \<Longrightarrow> funded (set_account a account s)"
  by (simp add: funded_def)

lemma funded_simps [simp]:
  "funded (s\<lparr>agentMeterCreditOperations := x\<rparr>) = funded s"
  "funded (s\<lparr>x402CreditPurchaseByLedgerId := z\<rparr>) = funded s"
  by (simp_all add: funded_def)

lemma funded_purchase:
  "funded s \<Longrightarrow> positiveUint (cp_credits p) \<Longrightarrow> funded (s\<lparr>x402CreditPurchases := map_set k p (x402CreditPurchases s)\<rparr>)"
  by (simp add: funded_def)

lemma funded_usage:
  "funded s \<Longrightarrow> positiveUint (ur_credits u) \<Longrightarrow> m = agentMeterUsage s \<Longrightarrow> funded (s\<lparr>agentMeterUsage := map_set k u m\<rparr>)"
  by (auto simp: funded_def dest!: set_map_set)

lemma funded_remaining: "funded s \<Longrightarrow> map_get (agentMeterAccounts s) a = Some account \<Longrightarrow> 0 \<le> ma_remainingCredits account"
  by (simp add: funded_def)

lemma funded_credits: "funded s \<Longrightarrow> map_get (x402CreditPurchases s) p = Some purchase \<Longrightarrow> positiveUint (cp_credits purchase)"
  by (simp add: funded_def)

lemma funded_provision:
  assumes "positiveUint (ai_provisionedCredits input)" "funded s" "provisionAgentMeterAccount input s = Inr (s', r)"
  shows "funded s'"
proof (cases "map_get (agentMeterAccounts s) (ai_accountId input)")
  case None
  with assms show ?thesis
    by (auto simp: provisionAgentMeterAccount_def new_account_def dest!: positiveUint_value intro!: funded_account)
next
  case (Some a)
  with assms(2) have "0 \<le> ma_remainingCredits a" by (rule funded_remaining)
  with assms Some show ?thesis
    by (auto simp: provisionAgentMeterAccount_def Let_def letE_eq_Inr intro!: funded_account)
qed

lemma funded_create:
  "positiveUint (ai_provisionedCredits input) \<Longrightarrow> funded s \<Longrightarrow> createAgentMeterAccount input s = Inr (s', r) \<Longrightarrow> funded s'"
  by (auto simp: createAgentMeterAccount_def new_account_def dest!: positiveUint_value intro!: funded_account split: if_splits)

lemma funded_revoke: "funded s \<Longrightarrow> revokeAgentMeterAccount a s = Inr (s', r) \<Longrightarrow> funded s'"
  by (auto simp: revokeAgentMeterAccount_def Let_def intro!: funded_account dest: funded_remaining split: option.splits)

lemma funded_add_credits:
  "funded s \<Longrightarrow> map_get (agentMeterAccounts s) a = Some account \<Longrightarrow> 0 \<le> n \<Longrightarrow> funded (set_account a (add_credits n account) s)"
  by (auto simp: add_credits_def intro!: funded_account dest: funded_remaining)

lemma funded_credit:
  "positiveUint (co_credits input) \<Longrightarrow> funded s \<Longrightarrow> creditAgentMeterAccount input s = Inr (s', r) \<Longrightarrow> funded s'"
  by (auto simp: creditAgentMeterAccount_def Let_def funded_add_credits dest!: positiveUint_value split: option.splits if_splits)

lemma funded_authorize:
  "positiveUint (cp_credits input) \<Longrightarrow> funded s \<Longrightarrow> authorizeX402CreditPurchase input s = Inr (s', r) \<Longrightarrow> funded s'"
  using funded_purchase [of s input]
  by (auto simp: authorizeX402CreditPurchase_def Let_def letE_eq_Inr funded_def split: option.splits if_splits)

lemma funded_credit_once:
  "positiveUint (cp_credits p) \<Longrightarrow> funded s \<Longrightarrow> map_get (agentMeterAccounts s) (cp_accountId p) = Some account \<Longrightarrow>
    credit_purchase_once sha p n account s = Inr (s', account') \<Longrightarrow> funded s'"
  by (auto simp: credit_purchase_once_def letE_eq_Inr Let_def funded_add_credits dest!: positiveUint_value
      split: option.splits if_splits)

lemma funded_settle_purchase:
  assumes "funded s" "settleX402CreditPurchase sha input s = Inr (s', r)"
  shows "funded s'"
proof (cases "s' = s")
  case False
  with assms(2) obtain p account t account' where
    p: "map_get (x402CreditPurchases s) (si_purchaseId input) = Some p" and
    a: "map_get (agentMeterAccounts s) (cp_accountId p) = Some account" and
    t: "credit_purchase_once sha p (si_settledAt input) account s = Inr (t, account')" and
    s': "s' = t\<lparr>x402CreditPurchases := map_set (si_purchaseId input) (p\<lparr>cp_state := ''CREDITED'', cp_settledAt := Some (si_settledAt input),
                    cp_settlementNetwork := Some (si_settlementNetwork input),
                    cp_settlementTransaction := Some (si_settlementTransaction input)\<rparr>) (x402CreditPurchases t)\<rparr>"
    by (auto simp: settleX402CreditPurchase_def Let_def letE_eq_Inr split: option.splits if_splits)
  have c: "positiveUint (cp_credits p)" using assms(1) p by (rule funded_credits)
  show ?thesis unfolding s' using funded_credit_once [OF c assms(1) a t] c by (intro funded_purchase) simp_all
qed (use assms in simp)

lemma funded_reserve:
  assumes "positiveUint (ur_credits input)" "funded s" "reserveAgentUsage sha input s = Inr (s', r)"
  shows "funded s'"
  using assms(3)
proof (cases rule: reserve_cases)
  case (reserved account credits usageId)
  then show ?thesis using assms by (auto intro!: funded_usage funded_account)
qed (use assms in simp_all)

lemma funded_settle_usage:
  assumes "funded s" "settleAgentUsage usageId outcome s = Inr (s', r)"
  shows "funded s'"
proof (cases "find (\<lambda>(_, u). us_usageId u = usageId) (agentMeterUsage s)")
  case (Some ku)
  obtain key u where ku: "ku = (key, u)" by (cases ku)
  with Some have "(key, u) \<in> set (agentMeterUsage s)" by (auto dest: find_Some_mem)
  with assms(1) have c: "positiveUint (ur_credits u)" by (auto simp: funded_def)
  show ?thesis
    using assms Some ku c positiveUint_value [OF c]
    by (auto simp: settleAgentUsage_def Let_def letE_eq_Inr intro!: funded_usage funded_account
        dest: funded_remaining split: option.splits if_splits)
qed (use assms in \<open>simp add: settleAgentUsage_def\<close>)

text \<open>What every action of the service preserves; one rule per way to build an action.\<close>

definition keeps_solvent :: "'a meter_action \<Rightarrow> bool" where
  "keeps_solvent m = (\<forall>s. solvent s \<longrightarrow> solvent (snd (m s)))"

named_theorems keeps_solvent_intros "actions that keep the store solvent"

lemma keeps_solvent_basic [keeps_solvent_intros]:
  "keeps_solvent (returnA x)" "keeps_solvent (throwA code)" "keeps_solvent (readA q)"
  "keeps_solvent (\<lambda>s. (v, s))"
  by (simp_all add: keeps_solvent_def returnA_def throwA_def readA_def)

lemma keeps_solvent_bind [keeps_solvent_intros]:
  assumes "keeps_solvent m" "\<And>x. keeps_solvent (k x)"
  shows "keeps_solvent (bindA m k)"
  unfolding keeps_solvent_def
proof (intro allI impI)
  fix s assume "solvent s"
  with assms(1) have "solvent (snd (m s))" by (simp add: keeps_solvent_def)
  with assms(2) show "solvent (snd (bindA m k s))"
    by (cases "m s") (auto simp: bindA_def keeps_solvent_def split: sum.splits)
qed

lemma keeps_solvent_guard [keeps_solvent_intros]:
  "(\<not> c \<Longrightarrow> keeps_solvent m) \<Longrightarrow> keeps_solvent (guardA c code m)"
  by (simp add: guardA_def keeps_solvent_basic)

lemma keeps_solvent_present [keeps_solvent_intros]:
  "(\<And>x. v = Some x \<Longrightarrow> keeps_solvent (k x)) \<Longrightarrow> keeps_solvent (presentA v code k)"
  by (cases v) (simp_all add: presentA_def keeps_solvent_basic)

lemma keeps_solvent_call:
  "(\<And>s s' r. solvent s \<Longrightarrow> operation s = Inr (s', r) \<Longrightarrow> solvent s') \<Longrightarrow> keeps_solvent (callA operation)"
  by (auto simp: keeps_solvent_def callA_def split: sum.splits)

lemma keeps_solvent_calls [keeps_solvent_intros]:
  "positiveUint (ai_provisionedCredits input) \<Longrightarrow> keeps_solvent (callA (provisionAgentMeterAccount input))"
  "positiveUint (ai_provisionedCredits input) \<Longrightarrow> keeps_solvent (callA (createAgentMeterAccount input))"
  "positiveUint (co_credits operation) \<Longrightarrow> keeps_solvent (callA (creditAgentMeterAccount operation))"
  "positiveUint (cp_credits purchase) \<Longrightarrow> keeps_solvent (callA (authorizeX402CreditPurchase purchase))"
  "keeps_solvent (callA (settleX402CreditPurchase sha settlement))"
  "keeps_solvent (callA (revokeAgentMeterAccount accountId))"
  "positiveUint (ur_credits request) \<Longrightarrow> keeps_solvent (callA (reserveAgentUsage sha request))"
  "keeps_solvent (callA (settleAgentUsage usageId outcome))"
  by (rule keeps_solvent_call, auto simp: solvent_def intro: balanced_provision balanced_create balanced_credit
      balanced_authorize balanced_settle_purchase balanced_revoke balanced_reserve balanced_settle_usage
      funded_provision funded_create funded_credit funded_authorize funded_settle_purchase funded_revoke
      funded_reserve funded_settle_usage)+

lemma configured_mem: "map_get (byCredentialHash cfg) digest = Some account \<Longrightarrow> account \<in> set (mc_accounts cfg)"
proof -
  have "map_get (foldl (\<lambda>m a. map_set (ai_credentialHash a) a m) m accounts) digest = Some account \<Longrightarrow>
      account \<in> set accounts \<or> map_get m digest = Some account" for m accounts
  proof (induction accounts arbitrary: m)
    case (Cons a accounts)
    from Cons.IH [of "map_set (ai_credentialHash a) a m"] Cons.prems show ?case by (auto split: if_splits)
  qed simp
  then show "map_get (byCredentialHash cfg) digest = Some account \<Longrightarrow> account \<in> set (mc_accounts cfg)"
    by (fastforce simp: byCredentialHash_def)
qed

lemma keeps_solvent_accountFor [keeps_solvent_intros]:
  "config_ok cfg \<Longrightarrow> keeps_solvent (accountFor sha cfg credential)"
  unfolding accountFor_def
  by (auto intro!: keeps_solvent_intros split: option.split dest!: configured_mem simp: config_ok_def)

lemma keeps_solvent_requireAccount [keeps_solvent_intros]:
  "config_ok cfg \<Longrightarrow> keeps_solvent (requireAccount sha cfg credential)"
  unfolding requireAccount_def by (intro keeps_solvent_intros)

lemma keeps_solvent_requireOperator [keeps_solvent_intros]:
  "keeps_solvent m \<Longrightarrow> keeps_solvent (requireOperator sha cfg credential m)"
  unfolding requireOperator_def by (intro keeps_solvent_intros)

datatype agent_call =
    AuthorizeCall string string "string option" "string option" int
  | SettleCall string string
  | InspectCall "string option"
  | UsageCall "string option" nat
  | AuthorizePackCall "string option" credit_purchase
  | SettlePackCall settlement_input
  | GetPackCall "string option" string
  | IssueCall string "string option" string string
  | CreditCall "string option" string string "string option" "string option" int
  | RevokeCall "string option" string

fun agent_step :: "(string \<Rightarrow> string) \<Rightarrow> (string \<Rightarrow> bool) \<Rightarrow> meter_config \<Rightarrow> agent_call \<Rightarrow> meter_store \<Rightarrow> meter_store" where
  "agent_step sha https_url cfg (AuthorizeCall meth path credential key now) s = snd (authorize_call sha cfg meth path credential key now s)"
| "agent_step sha https_url cfg (SettleCall usageId outcome) s = snd (settle_call usageId outcome s)"
| "agent_step sha https_url cfg (InspectCall credential) s = snd (inspect_call sha cfg credential s)"
| "agent_step sha https_url cfg (UsageCall credential limit) s = snd (usage_call sha cfg credential limit s)"
| "agent_step sha https_url cfg (AuthorizePackCall credential input) s = snd (authorizeX402CreditPack sha https_url cfg credential input s)"
| "agent_step sha https_url cfg (SettlePackCall input) s = snd (settleX402CreditPack sha input s)"
| "agent_step sha https_url cfg (GetPackCall credential purchaseId) s = snd (getX402CreditPackPurchase sha cfg credential purchaseId s)"
| "agent_step sha https_url cfg (IssueCall random credential accountId credits) s =
     snd (operator_issue sha cfg random credential accountId credits s)"
| "agent_step sha https_url cfg (CreditCall credential accountId credits key reference now) s =
     snd (operator_credit sha cfg credential accountId credits key reference now s)"
| "agent_step sha https_url cfg (RevokeCall credential accountId) s = snd (operator_revoke sha cfg credential accountId s)"

text \<open>createAgentMeter: without a configuration there is no service.\<close>

definition agent_exec ::
  "(string \<Rightarrow> string) \<Rightarrow> (string \<Rightarrow> bool) \<Rightarrow> jsval \<Rightarrow> agent_call \<Rightarrow> meter_store \<Rightarrow> (meter_store \<times> unit) result" where
  "agent_exec sha https_url value c s = letE (parseAgentMeterConfig value) (\<lambda>config.
     case config of None \<Rightarrow> Inr (s, ()) | Some cfg \<Rightarrow> Inr (agent_step sha https_url cfg c s, ()))"

lemma keeps_solventD: "keeps_solvent m \<Longrightarrow> solvent s \<Longrightarrow> solvent (snd (m s))"
  by (simp add: keeps_solvent_def)

lemma keeps_solvent_authorize:
  assumes "config_ok cfg"
  shows "keeps_solvent (authorize_call sha cfg meth path credential key now)"
proof (cases "find (\<lambda>candidate. mr_method candidate = meth \<and> routeMatches (mr_path candidate) path) (mc_routes cfg)")
  case (Some route)
  then have "positiveUint (mr_credits route)" using assms find_Some_mem by (fastforce simp: config_ok_def)
  with assms Some show ?thesis unfolding authorize_call_def
    by (auto intro!: keeps_solvent_intros split: reserve_reply.split)
qed (simp add: authorize_call_def keeps_solvent_basic)

lemma agent_step_solvent: "config_ok cfg \<Longrightarrow> solvent s \<Longrightarrow> solvent (agent_step sha https_url cfg c s)"
  by (cases c; simp; rule keeps_solventD; (assumption | rule keeps_solvent_authorize)?)
    (auto simp: settle_call_def inspect_call_def usage_call_def authorizeX402CreditPack_def settleX402CreditPack_def
      getX402CreditPackPurchase_def operator_issue_def operator_credit_def operator_revoke_def Let_def
      intro!: keeps_solvent_intros split: option.split)

lemma agent_exec_solvent: "solvent s \<Longrightarrow> agent_exec sha https_url value c s = Inr (s', r) \<Longrightarrow> solvent s'"
  by (auto simp: agent_exec_def letE_eq_Inr agent_step_solvent parsed_config split: option.splits)

lemma solvent_empty: "solvent empty_meter"
  using balanced_empty by (simp add: solvent_def funded_def empty_meter_def)

interpretation agent: atomic_store "agent_exec sha https_url config" empty_meter solvent for sha https_url config
  by unfold_locales (rule solvent_empty, erule (1) agent_exec_solvent)

section \<open>A repeated call\<close>

lemma provision_done:
  assumes "provisionAgentMeterAccount input s = Inr (s', r)"
  shows "\<exists>n e. BigInt_text (ai_provisionedCredits input) = Inr n \<and> n \<le> ma_provisionedCredits e
    \<and> map_get (agentMeterAccounts s') (ai_accountId input) = Some e"
  using assms unfolding provisionAgentMeterAccount_def
  by (cases "map_get (agentMeterAccounts s) (ai_accountId input)")
    (auto simp: letE_eq_Inr new_account_def Let_def split: if_splits)

lemma set_account_same: "map_get (agentMeterAccounts s) a = Some e \<Longrightarrow> set_account a e s = s"
  by (simp add: set_account_def update_triv)

lemma provision_again:
  assumes "BigInt_text (ai_provisionedCredits input) = Inr n" "n \<le> ma_provisionedCredits e"
    "map_get (agentMeterAccounts s) (ai_accountId input) = Some e"
  shows "provisionAgentMeterAccount input s = Inr (s, ())"
  using assms set_account_same [OF assms(3)] by (simp add: provisionAgentMeterAccount_def)

lemma find_map_set:
  assumes "distinct_keys m" "map_get m k = Some old" "h v = h old"
  shows "find (\<lambda>(_, x). h x = c) (map_set k v m)
    = map_option (\<lambda>(k', x). (k', if k' = k then v else x)) (find (\<lambda>(_, x). h x = c) m)"
  using assms
proof (induction m)
  case (Cons kx m)
  obtain k' x where kx: "kx = (k', x)" by (cases kx)
  show ?case
  proof (cases "k' = k")
    case True
    have "map_option (\<lambda>(k', x). (k', if k' = k then v else x)) (find (\<lambda>(_, x). h x = c) m) = find (\<lambda>(_, x). h x = c) m"
    proof (cases "find (\<lambda>(_, x). h x = c) m")
      case (Some ky)
      then have "ky \<in> set m" by (simp add: find_Some_mem)
      with Cons.prems(1) kx True Some show ?thesis by (cases ky) (force simp: distinct_keys_def)
    qed simp
    with Cons.prems kx True show ?thesis by auto
  qed (use Cons kx in \<open>auto simp: distinct_keys_def\<close>)
qed simp

text \<open>The same credential finds the same account after a change of its remaining credits.\<close>

lemma requireAccount_again:
  assumes b: "balanced s" and r: "requireAccount sha cfg credential s = (Inr account, s1)"
    and e: "map_get (agentMeterAccounts s1) (ai_accountId account) = Some e"
    and s': "agentMeterAccounts s' = map_set (ai_accountId account) (e\<lparr>ma_remainingCredits := n\<rparr>) (agentMeterAccounts s1)"
  shows "requireAccount sha cfg credential s' = (Inr account, s')"
proof -
  from r obtain digest where d: "credentialDigestOrNull sha credential = Some digest"
    by (cases "credentialDigestOrNull sha credential")
      (auto simp: requireAccount_def accountFor_def presentA_def throwA_def bindA_def)
  show ?thesis
  proof (cases "map_get (byCredentialHash cfg) digest")
    case (Some c)
    from r obtain e1 where p: "provisionAgentMeterAccount c s = Inr (s1, ())"
      and e1: "map_get (agentMeterAccounts s1) (ai_accountId c) = Some e1"
      and account: "account = c\<lparr>ai_status := ma_status e1\<rparr>" and active: "ma_status e1 = ''active''"
      by (auto simp: requireAccount_def accountFor_def d Some bindA_def presentA_def callA_def readA_def returnA_def
          guardA_def throwA_def getAgentMeterAccount_def view_account_def dest: provision_done split: sum.splits if_splits)
    from provision_done [OF p] obtain m x where m: "BigInt_text (ai_provisionedCredits c) = Inr m"
      "m \<le> ma_provisionedCredits x" "map_get (agentMeterAccounts s1) (ai_accountId c) = Some x" by blast
    have "provisionAgentMeterAccount c s' = Inr (s', ())"
      using m e e1 by (intro provision_again [of _ m "e1\<lparr>ma_remainingCredits := n\<rparr>"]) (simp_all add: s' account)
    then show ?thesis
      using e e1 active
      by (simp add: requireAccount_def accountFor_def d Some bindA_def presentA_def callA_def readA_def returnA_def
          guardA_def getAgentMeterAccount_def view_account_def s' account)
  next
    case None
    from r have s1: "s1 = s"
      by (auto simp: requireAccount_def accountFor_def d None bindA_def presentA_def readA_def returnA_def
          guardA_def throwA_def split: option.splits if_splits)
    from r obtain k x where k: "find (\<lambda>(_, y). ma_credentialHash y = digest) (agentMeterAccounts s) = Some (k, x)"
      and account: "account = \<lparr>ai_accountId = k, ai_credentialHash = ma_credentialHash x,
         ai_provisionedCredits = int_text (ma_provisionedCredits x), ai_status = ma_status x\<rparr>"
      and active: "ma_status x = ''active''"
      by (auto simp: requireAccount_def accountFor_def d None bindA_def presentA_def readA_def returnA_def
          guardA_def throwA_def findAgentMeterAccountByCredentialHash_def split: option.splits if_splits)
    have "(k, x) \<in> set (agentMeterAccounts s)" using k by (auto dest: find_Some_mem)
    then have x: "e = x" using b e by (simp add: s1 account balanced_def map_get_mem [symmetric])
    have "find (\<lambda>(_, y). ma_credentialHash y = digest) (agentMeterAccounts s') = Some (k, x\<lparr>ma_remainingCredits := n\<rparr>)"
      using find_map_set [of "agentMeterAccounts s" k e ma_credentialHash "e\<lparr>ma_remainingCredits := n\<rparr>" digest] b e k
      by (simp add: s' s1 account x balanced_def)
    then show ?thesis
      using active by (simp add: requireAccount_def accountFor_def d None bindA_def presentA_def readA_def returnA_def
          guardA_def findAgentMeterAccountByCredentialHash_def account)
  qed
qed

lemma required_account_exists:
  assumes "balanced s" "requireAccount sha cfg credential s = (Inr account, s1)"
  shows "\<exists>e. map_get (agentMeterAccounts s1) (ai_accountId account) = Some e"
proof -
  from assms(2) obtain digest where d: "credentialDigestOrNull sha credential = Some digest"
    by (cases "credentialDigestOrNull sha credential")
      (auto simp: requireAccount_def accountFor_def presentA_def throwA_def bindA_def)
  show ?thesis
  proof (cases "map_get (byCredentialHash cfg) digest")
    case (Some c)
    with assms(2) d show ?thesis
      by (auto simp: requireAccount_def accountFor_def bindA_def presentA_def callA_def readA_def returnA_def
          guardA_def throwA_def getAgentMeterAccount_def split: sum.splits if_splits option.splits)
        (frule provision_done, simp)+
  next
    case None
    with assms d show ?thesis
      by (auto simp: requireAccount_def accountFor_def bindA_def presentA_def readA_def returnA_def guardA_def throwA_def
          findAgentMeterAccountByCredentialHash_def balanced_def map_get_mem dest!: find_Some_mem
          split: option.splits if_splits)
  qed
qed

lemma reserve_again:
  assumes "reserveAgentUsage sha input s = Inr (s', reply)" "reply = Replayed u \<or> reply = Reserved u"
    and "input' = input\<lparr>ur_reservedAt := now\<rparr>"
  shows "reserveAgentUsage sha input' s' = Inr (s', Replayed u)"
  using assms(1)
proof (cases rule: reserve_cases)
  case (replayed existing)
  with assms show ?thesis by (auto simp: reserveAgentUsage_def)
next
  case (reserved account credits usageId)
  with assms show ?thesis by (auto simp: reserveAgentUsage_def)
qed (use assms in simp)

lemma reserve_accounts:
  assumes "reserveAgentUsage sha input s = Inr (s', reply)" "map_get (agentMeterAccounts s) (ur_accountId input) = Some e"
  shows "\<exists>n. agentMeterAccounts s' = map_set (ur_accountId input) (e\<lparr>ma_remainingCredits := n\<rparr>) (agentMeterAccounts s)"
  using assms(1)
proof (cases rule: reserve_cases)
  case (reserved account credits usageId)
  with assms(2) show ?thesis by (intro exI [of _ "ma_remainingCredits account - credits"]) simp
qed (use assms(2) in \<open>auto intro!: exI [of _ "ma_remainingCredits e"] simp: update_triv\<close>)

lemma authorized_call:
  assumes "authorize_call sha cfg meth path credential key now s = (Inr (Some (a, u)), s')"
  obtains route account s1 reply where
    "find (\<lambda>candidate. mr_method candidate = meth \<and> routeMatches (mr_path candidate) path) (mc_routes cfg) = Some route"
    "\<not> (credential = None \<or> credential = Some [] \<or> key = None \<or> \<not> IDENTIFIER (the key))"
    "requireAccount sha cfg credential s = (Inr account, s1)" "a = ai_accountId account"
    "reserveAgentUsage sha \<lparr>ur_accountId = a, ur_routeId = mr_routeId route, ur_requestKey = the key,
       ur_credits = mr_credits route, ur_reservedAt = now\<rparr> s1 = Inr (s', reply)"
    "reply = Replayed u \<or> reply = Reserved u"
  using assms unfolding authorize_call_def
  by (auto simp: returnA_def guardA_def throwA_def bindA_def callA_def
      split: option.splits if_splits sum.splits prod.splits reserve_reply.splits)

section \<open>Properties\<close>

text \<open>A configuration that parses has distinct accounts, credentials and routes, positive credits
  everywhere, and for every route the exact price: the decimal text denotes the credit unit times
  the route's credits.\<close>

theorem parsed_configurations_ok:
  assumes "parseAgentMeterConfig value = Inr (Some cfg)"
  shows "config_ok cfg"
  using assms by (rule parsed_config)

definition sample_meter_config :: jsval where
  "sample_meter_config = Obj [(''schema'', Str ''priorseal.agent-meter.v1''), (''creditUnitUsd'', Str ''0.25''),
     (''operatorCredentialHash'', Str (replicate 64 (CHR ''a''))),
     (''accounts'', Arr [Obj [(''accountId'', Str ''acme''), (''credentialHash'', Str (replicate 64 (CHR ''b''))),
        (''provisionedCredits'', Str ''10''), (''status'', Str ''active'')]]),
     (''routes'', Arr [Obj [(''routeId'', Str ''r''), (''method'', Str ''GET''), (''path'', Str ''/v1/:id''), (''credits'', Str ''6'')]])]"

definition sample_sha :: "string \<Rightarrow> string" where
  "sample_sha s = replicate 64 (CHR ''b'')"

definition sample_config :: meter_config where
  "sample_config = the (projr (parseAgentMeterConfig sample_meter_config))"

lemma sample_config_parses: "parseAgentMeterConfig sample_meter_config = Inr (Some sample_config)"
proof -
  have "case parseAgentMeterConfig sample_meter_config of Inr (Some cfg) \<Rightarrow> True | _ \<Rightarrow> False" by code_simp
  then show ?thesis by (auto simp: sample_config_def split: sum.splits option.splits)
qed

lemma parsed_configurations_ok_witness:
  "config_ok sample_config \<and> map mr_priceUsd (mc_routes sample_config) = [''1.5'']"
proof -
  have "map mr_priceUsd (mc_routes sample_config) = [''1.5'']" by code_simp
  with parsed_configurations_ok [OF sample_config_parses] show ?thesis by simp
qed

text \<open>C13. Whatever calls reach the service, in any order and with any credentials, amounts and
  outcomes, no account's remaining credits become negative, and they never exceed the credits
  provisioned for it.\<close>

theorem accounts_never_overdrawn:
  assumes "map_get (agentMeterAccounts (run_ops (agent_exec sha https_url config) calls empty_meter)) a = Some account"
  shows "0 \<le> ma_remainingCredits account \<and> ma_remainingCredits account \<le> ma_provisionedCredits account"
proof -
  let ?s = "run_ops (agent_exec sha https_url config) calls empty_meter"
  have s: "balanced ?s" "funded ?s" using agent.inv_history [of sha https_url config calls] by (simp_all add: solvent_def)
  have "0 \<le> charge a (snd ku)" if "ku \<in> set (agentMeterUsage ?s)" for ku
    using s(2) that by (cases ku) (auto simp: funded_def charge_def credits_of_def dest!: positiveUint_value)
  then have "0 \<le> charged ?s a" unfolding charged_def by (intro sum_list_nonneg) auto
  with s assms show ?thesis by (auto simp: balanced_def funded_def)
qed

definition sample_calls :: "agent_call list" where
  "sample_calls = [AuthorizeCall ''GET'' ''/v1/x'' (Some (replicate 30 (CHR ''k''))) (Some ''key1'') 1,
     AuthorizeCall ''GET'' ''/v1/x'' (Some (replicate 30 (CHR ''k''))) (Some ''key2'') 2]"

lemma accounts_never_overdrawn_witness:
  "\<exists>account. map_get (agentMeterAccounts (run_ops (agent_exec sample_sha (\<lambda>_. False) sample_meter_config) sample_calls empty_meter)) ''acme'' = Some account
    \<and> ma_remainingCredits account = 4 \<and> 0 \<le> ma_remainingCredits account"
proof -
  have "map_get (agentMeterAccounts (run_ops (agent_exec sample_sha (\<lambda>_. False) sample_meter_config) sample_calls empty_meter)) ''acme''
      = Some \<lparr>ma_credentialHash = replicate 64 (CHR ''b''), ma_provisionedCredits = 10, ma_remainingCredits = 4, ma_status = ''active''\<rparr>"
    by code_simp
  with accounts_never_overdrawn [OF this] show ?thesis by simp
qed

text \<open>Repeating a metered call that was authorized, with the same credential and request key, at
  any time, returns the same reservation and changes nothing in the store: it is not charged again.\<close>

theorem repeated_call_not_charged:
  assumes "balanced s" "authorize_call sha cfg meth path credential key now s = (Inr (Some (a, u)), s')"
  shows "authorize_call sha cfg meth path credential key now' s' = (Inr (Some (a, u)), s')"
  using assms(2)
proof (rule authorized_call)
  fix route account s1 reply
  assume route: "find (\<lambda>candidate. mr_method candidate = meth \<and> routeMatches (mr_path candidate) path) (mc_routes cfg) = Some route"
    and headers: "\<not> (credential = None \<or> credential = Some [] \<or> key = None \<or> \<not> IDENTIFIER (the key))"
    and account: "requireAccount sha cfg credential s = (Inr account, s1)" "a = ai_accountId account"
    and r: "reserveAgentUsage sha \<lparr>ur_accountId = a, ur_routeId = mr_routeId route, ur_requestKey = the key,
       ur_credits = mr_credits route, ur_reservedAt = now\<rparr> s1 = Inr (s', reply)" "reply = Replayed u \<or> reply = Reserved u"
  obtain e where e: "map_get (agentMeterAccounts s1) (ai_accountId account) = Some e"
    using required_account_exists [OF assms(1) account(1)] by blast
  obtain n where "agentMeterAccounts s' = map_set (ai_accountId account) (e\<lparr>ma_remainingCredits := n\<rparr>) (agentMeterAccounts s1)"
    using reserve_accounts [OF r(1)] e account(2) by auto
  from requireAccount_again [OF assms(1) account(1) e this]
  have "requireAccount sha cfg credential s' = (Inr account, s')" .
  moreover have "reserveAgentUsage sha \<lparr>ur_accountId = a, ur_routeId = mr_routeId route, ur_requestKey = the key,
       ur_credits = mr_credits route, ur_reservedAt = now'\<rparr> s' = Inr (s', Replayed u)"
    by (rule reserve_again [OF r, where now = now']) simp
  ultimately show ?thesis
    unfolding authorize_call_def route using headers account(2)
    by (auto simp: guardA_def bindA_def callA_def returnA_def)
qed

lemma repeated_call_not_charged_witness:
  "\<exists>u s. authorize_call sample_sha sample_config ''GET'' ''/v1/x'' (Some (replicate 30 (CHR ''k''))) (Some ''key1'') 9 s
      = (Inr (Some (''acme'', u)), s)
    \<and> map_option ma_remainingCredits (map_get (agentMeterAccounts s) ''acme'') = Some 4"
proof -
  let ?call = "\<lambda>now. authorize_call sample_sha sample_config ''GET'' ''/v1/x'' (Some (replicate 30 (CHR ''k''))) (Some ''key1'') now"
  have "case ?call 1 empty_meter of (Inr (Some (a, u)), s) \<Rightarrow> a = ''acme'' \<and>
      map_option ma_remainingCredits (map_get (agentMeterAccounts s) ''acme'') = Some 4 | _ \<Rightarrow> False"
    by code_simp
  then obtain u s where first: "?call 1 empty_meter = (Inr (Some (''acme'', u)), s)"
    "map_option ma_remainingCredits (map_get (agentMeterAccounts s) ''acme'') = Some 4"
    by (auto split: prod.splits sum.splits option.splits)
  from repeated_call_not_charged [OF balanced_empty first(1), of 9] first(2) show ?thesis by blast
qed

end
