(* ===== verification/Binding.thy ===== *)
theory Binding
  imports Hyperliquid
begin

text \<open>
  src/domain/execution.mjs, binding.mjs, outcome.mjs and compliance.mjs: the normal form of
  an observed execution, the reasons why an execution is not the one an intent describes, the
  outcome of an execution and the compliance assessment.  Shown: an execution binds
  exactly when it agrees with the intent in everything the intent fixes; COMPLETED and COMPLIANT mean a
  confirmed (or, for COMPLIANT, reverted) execution that binds.
\<close>

section \<open>Executions\<close>

text \<open>\<^verbatim>\<open>v?.toLowerCase()\<close> and \<^verbatim>\<open>v.toLowerCase()\<close>.\<close>

definition lower_opt :: "jsval \<Rightarrow> jsval result" where
  "lower_opt v = (case v of Undef \<Rightarrow> Inr Undef | Null \<Rightarrow> Inr Undef | Str s \<Rightarrow> Inr (Str (lower s)) | _ \<Rightarrow> Inl TypeErr)"

definition lower_str :: "jsval \<Rightarrow> jsval result" where
  "lower_str v = (case v of Str s \<Rightarrow> Inr (Str (lower s)) | _ \<Rightarrow> Inl TypeErr)"

definition EXECUTION_SCHEMA :: string where
  "EXECUTION_SCHEMA = ''priorseal.execution-observation.v1''"

definition eip7702_delegation :: "jsval \<Rightarrow> jsval result" where
  "eip7702_delegation d =
     letE (getE d ''delegateAddress'') (\<lambda>address. letE (lower_str address) (\<lambda>delegateAddress.
     letE (lower_str (fld d ''delegateCodeHash'')) (\<lambda>delegateCodeHash.
     let base = set_field ''delegateCodeHash'' delegateCodeHash (set_field ''delegateAddress'' delegateAddress (props d)) in
     letE (if truthy (fld d ''delegateObservedForExecution'')
           then letE (lower_str (fld d ''delegateObservedForExecution'')) (\<lambda>v. Inr (set_field ''delegateObservedForExecution'' v base))
           else Inr base) (\<lambda>observed.
     letE (if truthy (fld d ''delegateAfter'')
           then letE (lower_str (fld d ''delegateAfter'')) (\<lambda>v. Inr (set_field ''delegateAfter'' v observed))
           else Inr observed) (\<lambda>kvs. Inr (Obj kvs))))))"

text \<open>\<^verbatim>\<open>now\<close> is the wall clock in seconds, read when the input has no observation time.\<close>

definition normalizeExecution :: "int \<Rightarrow> jsval \<Rightarrow> jsval result" where
  "normalizeExecution now input =
     letE (getE input ''chainRef'') (\<lambda>chainRef.
     let solana = starts_with ''solana:'' (js_string (orElse chainRef (Str [])));
         address = (\<lambda>k. if solana then Inr (orElse (fld input k) Null)
                        else letE (lower_opt (fld input k)) (\<lambda>v. Inr (orElse v Null)));
         kept = (\<lambda>k d. (k, orElse (fld input k) d));
         present = (\<lambda>k. spread_if (truthy (fld input k)) [(k, fld input k)]);
         lowered = (\<lambda>k. opt_field (truthy (fld input k)) k (lower_str (fld input k)))
     in
     letE (if solana then Inr (fld input ''txHash'') else lower_opt (fld input ''txHash'')) (\<lambda>txHash.
     letE (address ''sender'') (\<lambda>sender.
     letE (address ''recipient'') (\<lambda>recipient.
     letE (address ''target'') (\<lambda>target.
     letE (lower_opt (fld input ''calldataHash'')) (\<lambda>calldataHash.
     letE (lowered ''userOperationHash'') (\<lambda>userOperationHash.
     letE (lowered ''entryPoint'') (\<lambda>entryPoint.
     letE (lowered ''entryPointCodeHash'') (\<lambda>entryPointCodeHash.
     letE (lowered ''accountCallTarget'') (\<lambda>accountCallTarget.
     letE (lowered ''accountCallDataHash'') (\<lambda>accountCallDataHash.
     letE (opt_field (truthy (fld input ''eip7702Delegation'')) ''eip7702Delegation''
            (eip7702_delegation (fld input ''eip7702Delegation''))) (\<lambda>delegation.
     Inr (Obj (
       [(''schema'', Str EXECUTION_SCHEMA), (''chainId'', fld input ''chainId'')]
       @ present ''chainRef''
       @ [(''txHash'', txHash), (''status'', fld input ''status''), kept ''blockNumber'' Null, kept ''blockHash'' Null,
          kept ''executedAt'' Null, kept ''observedAt'' (Num now), kept ''action'' Null, kept ''nonce'' Null,
          (''sender'', sender), (''recipient'', recipient), (''target'', target),
          (''calldataHash'', orElse calldataHash Null), kept ''asset'' Null, kept ''amount'' Null,
          kept ''transfers'' (Arr []), kept ''transferMatchUnique'' (Bool False), kept ''nativeValue'' Null,
          kept ''tokenValue'' Null, kept ''gasUsed'' Null, kept ''fee'' Null]
       @ userOperationHash @ entryPoint @ entryPointCodeHash @ present ''entryPointVersion''
       @ spread_if (fld input ''userOperationSuccess'' \<noteq> Undef) [(''userOperationSuccess'', fld input ''userOperationSuccess'')]
       @ spread_if (\<not> nullish (fld input ''actualGasCost'')) [(''actualGasCost'', fld input ''actualGasCost'')]
       @ present ''accountCallProfile'' @ accountCallTarget
       @ spread_if (\<not> nullish (fld input ''accountCallValue'')) [(''accountCallValue'', fld input ''accountCallValue'')]
       @ accountCallDataHash @ delegation
       @ present ''solanaTransaction'' @ present ''hyperliquidOrder'' @ present ''hyperliquidInfoObservation''
       @ [kept ''executionDataAvailable'' (Bool True), kept ''observationSource'' (Str ''unknown''),
          kept ''finalityState'' (Str ''UNKNOWN''), kept ''confirmations'' (Num 0)]
       @ present ''temporalEvidence''))))))))))))))"

definition detectReorg :: "jsval \<Rightarrow> jsval \<Rightarrow> bool" where
  "detectReorg previous current = (
     if \<not> truthy previous \<or> \<not> truthy current \<or> \<not> js_eq (fld previous ''txHash'') (fld current ''txHash'') then False else
     if truthy (fld previous ''blockHash'') \<and> fld current ''status'' = Str ''NOT_FOUND'' then True else
     truthy (fld previous ''blockHash'') \<and> truthy (fld current ''blockHash'')
       \<and> \<not> js_eq (fld previous ''blockHash'') (fld current ''blockHash''))"

section \<open>Binding an execution to an intent\<close>

definition text_of :: "jsval \<Rightarrow> string" where
  "text_of v = js_string (orElse v (Str []))"

definition same :: "jsval \<Rightarrow> jsval \<Rightarrow> bool" where
  "same a b = (lower (text_of a) = lower (text_of b))"

definition sameAddress :: "jsval \<Rightarrow> jsval \<Rightarrow> bool \<Rightarrow> bool" where
  "sameAddress a b caseSensitive = (if caseSensitive then text_of a = text_of b else same a b)"

definition matchesEip7702 :: "jsval \<Rightarrow> jsval \<Rightarrow> bool" where
  "matchesEip7702 expected evidence = (
     if \<not> truthy evidence \<or> \<not> same (fld evidence ''delegateAddress'') (fld expected ''delegateAddress'')
        \<or> \<not> same (fld evidence ''delegateCodeHash'') (fld expected ''delegateCodeHash'')
        \<or> \<not> same (fld evidence ''authorizationTupleHash'') (fld expected ''authorizationTupleHash'')
        \<or> fld evidence ''authorizationIncluded'' \<noteq> Bool (\<not> nullish (fld expected ''authorizationTupleHash''))
        \<or> fld evidence ''operationIncluded'' \<noteq> Bool True then False else
     if fld evidence ''outerTransactionStatus'' = Str ''REVERTED'' \<and> fld evidence ''operationSuccess'' = Null then
       fld evidence ''stateAtTransactionEnd'' = Str ''ACTIVE'' \<and> same (fld evidence ''delegateAfter'') (fld expected ''delegateAddress'') else
     fld evidence ''outerTransactionStatus'' = Str ''SUCCESS'')"

text \<open>Lines 55 to 67: the reasons a Hyperliquid intent adds; a throw counts against the execution.\<close>

definition hyperliquid_reasons :: "jsval \<Rightarrow> jsval \<Rightarrow> string list" where
  "hyperliquid_reasons intent execution = (
     let orderMatches = (case normalizeHyperliquidSpotIocExecution (fld execution ''hyperliquidOrder'') of
           Inl e \<Rightarrow> False | Inr observed \<Rightarrow> sameHyperliquidSpotIocOrder (fld intent ''hyperliquidOrder'') observed)
     in reason_if (fld intent ''chainRef'' \<noteq> Str HYPERLIQUID_MAINNET_CHAIN_REF \<or> \<not> orderMatches) ''HYPERLIQUID_ORDER_MISMATCH''
        @ (case normalizeHyperliquidInfoObservationEvidence (fld execution ''hyperliquidInfoObservation'') of
             Inl e \<Rightarrow> [''EXECUTION_UNAVAILABLE'']
           | Inr evidence \<Rightarrow> reason_if (\<not> truthy (fld evidence ''fillsComplete'')) ''EXECUTION_UNAVAILABLE''))"

definition execution_time :: "jsval \<Rightarrow> jsval" where
  "execution_time execution = orElse (fld execution ''executedAt'') (fld execution ''observedAt'')"

definition outside_window :: "jsval \<Rightarrow> jsval \<Rightarrow> bool" where
  "outside_window intent execution = (\<not> nullish (execution_time execution) \<and>
     js_less (fld intent ''validUntil'') (execution_time execution))"

definition finality_reasons :: "jsval \<Rightarrow> jsval \<Rightarrow> string list" where
  "finality_reasons constraints execution = (
     let confirmations = to_num (orElse (fld execution ''confirmations'') (Num 0)) in
     reason_if (\<not> nullish (fld constraints ''minConfirmations'') \<and>
         num_less confirmations (to_num (fld constraints ''minConfirmations''))) ''INSUFFICIENT_FINALITY''
     @ reason_if (\<not> nullish (fld constraints ''maxToleratedReorgDepth'') \<and>
         num_leq confirmations (to_num (prim (fld constraints ''maxToleratedReorgDepth'')))) ''INSUFFICIENT_FINALITY''
     @ reason_if (fld constraints ''finalityRequirement'' = Str ''RPC_FINALIZED'' \<and>
         fld execution ''finalityState'' \<noteq> Str ''FINALIZED'') ''INSUFFICIENT_FINALITY'')"

definition gas_reasons :: "jsval \<Rightarrow> jsval \<Rightarrow> string list result" where
  "gas_reasons constraints execution = (
     if nullish (fld constraints ''maxGasUsed'') then Inr [] else
     if nullish (fld execution ''gasUsed'') then Inr [''EXECUTION_UNAVAILABLE''] else
     letE (js_BigInt (fld execution ''gasUsed'')) (\<lambda>used. letE (js_BigInt (fld constraints ''maxGasUsed'')) (\<lambda>limit.
     Inr (reason_if (limit < used) ''GAS_LIMIT_EXCEEDED''))))"

definition solana_differs :: "jsval \<Rightarrow> jsval \<Rightarrow> bool result" where
  "solana_differs intent execution = (
     if \<not> truthy (fld intent ''solanaTransaction'') \<or> \<not> truthy (fld execution ''solanaTransaction'') then Inr True else
     letE (canonicalize (fld intent ''solanaTransaction'')) (\<lambda>a.
     letE (canonicalize (fld execution ''solanaTransaction'')) (\<lambda>b. Inr (a \<noteq> b))))"

text \<open>
  The reasons in the order they are pushed, given whether the Solana messages differ and the
  reasons of the gas limit, the two parts whose computation may throw.
\<close>

definition binding_reasons :: "jsval \<Rightarrow> jsval \<Rightarrow> bool \<Rightarrow> string list \<Rightarrow> string list" where
  "binding_reasons intent execution messageDiffers gas = (
     let e = fld execution; i = fld intent; profile = i ''executionProfile'';
         exactCall = (profile = Str ''priorseal.execution-profile.exact-call.v1'');
         erc4337 = (profile = Str ''priorseal.execution-profile.erc4337-user-operation.v1'');
         solanaTransaction = (profile = Str ''priorseal.execution-profile.solana-transaction.v2'');
         hyperliquidSpotIoc = (profile = Str HYPERLIQUID_SPOT_IOC_PROFILE);
         exactProfile = (exactCall \<or> solanaTransaction \<or> hyperliquidSpotIoc);
         constraints = orElse (i ''constraints'') (Obj []) in
       reason_if (e ''executionDataAvailable'' = Bool False) ''EXECUTION_UNAVAILABLE''
       @ reason_if (\<not> js_eq (e ''chainId'') (i ''chainId'')) ''CHAIN_MISMATCH''
       @ reason_if (\<not> js_eq (orElse (e ''chainRef'') Null) (orElse (i ''chainRef'') Null)) ''CHAINREF_MISMATCH''
       @ reason_if (\<not> same (e ''action'') (i ''action'')) ''ACTION_MISMATCH''
       @ reason_if (\<not> sameAddress (e ''sender'') (i ''sender'') solanaTransaction) ''SENDER_MISMATCH''
       @ reason_if (\<not> exactProfile \<and> \<not> sameAddress (e ''recipient'') (i ''recipient'') solanaTransaction) ''RECIPIENT_MISMATCH''
       @ reason_if (\<not> exactProfile \<and> \<not> same (e ''asset'') (i ''asset'')) ''ASSET_MISMATCH''
       @ reason_if (\<not> exactProfile \<and> text_of (e ''amount'') \<noteq> js_string (i ''amount'')) ''AMOUNT_MISMATCH''
       @ reason_if (text_of (e ''nonce'') \<noteq> js_string (orElse (i ''nonce'') (Str ''0''))) ''NONCE_MISMATCH''
       @ reason_if (\<not> nullish (i ''callTarget'') \<and> \<not> same (e ''target'') (i ''callTarget'')) ''CALL_TARGET_MISMATCH''
       @ reason_if (\<not> nullish (i ''calldataHash'') \<and> \<not> same (e ''calldataHash'') (i ''calldataHash'')) ''CALLDATA_MISMATCH''
       @ reason_if (\<not> nullish (i ''transactionValue'') \<and> text_of (e ''nativeValue'') \<noteq> js_string (i ''transactionValue''))
           ''TRANSACTION_VALUE_MISMATCH''
       @ reason_if messageDiffers ''SOLANA_MESSAGE_MISMATCH''
       @ (if hyperliquidSpotIoc then hyperliquid_reasons intent execution else [])
       @ reason_if (erc4337 \<and> \<not> same (e ''userOperationHash'') (i ''userOperationHash'')) ''USER_OPERATION_HASH_MISMATCH''
       @ reason_if (erc4337 \<and> \<not> same (e ''entryPoint'') (i ''entryPoint'')) ''ENTRY_POINT_MISMATCH''
       @ reason_if (erc4337 \<and> \<not> same (e ''entryPointVersion'') (i ''entryPointVersion'')) ''ENTRY_POINT_VERSION_MISMATCH''
       @ reason_if (erc4337 \<and> \<not> same (e ''entryPointCodeHash'') (i ''entryPointCodeHash'')) ''ENTRY_POINT_CODE_HASH_MISMATCH''
       @ reason_if (\<not> nullish (i ''accountCallProfile'') \<and>
            (\<not> same (e ''accountCallProfile'') (i ''accountCallProfile'') \<or> \<not> same (e ''accountCallTarget'') (i ''accountCallTarget'')
             \<or> text_of (e ''accountCallValue'') \<noteq> text_of (i ''accountCallValue'')
             \<or> \<not> same (e ''accountCallDataHash'') (i ''accountCallDataHash''))) ''CALLDATA_MISMATCH''
       @ reason_if (erc4337 \<and> \<not> nullish (i ''eip7702'') \<and> \<not> matchesEip7702 (i ''eip7702'') (e ''eip7702Delegation''))
           ''EIP7702_DELEGATION_MISMATCH''
       @ reason_if (outside_window intent execution) ''OUTSIDE_TIME_WINDOW''
       @ finality_reasons constraints execution
       @ gas
       @ reason_if (\<not> exactCall \<and> is_arr (e ''transfers'') \<and> 1 < length (elems (e ''transfers''))
            \<and> \<not> truthy (e ''transferMatchUnique'')) ''AMBIGUOUS_TRANSFER'')"

definition bindIntentExecution :: "jsval \<Rightarrow> jsval \<Rightarrow> jsval result" where
  "bindIntentExecution intent execution = (
     if nullish execution \<or> nullish intent then Inl TypeErr else
     letE (if fld intent ''executionProfile'' = Str ''priorseal.execution-profile.solana-transaction.v2''
           then solana_differs intent execution else Inr False) (\<lambda>messageDiffers.
     letE (gas_reasons (orElse (fld intent ''constraints'') (Obj [])) execution) (\<lambda>gas.
     let reasons = binding_reasons intent execution messageDiffers gas
     in Inr (Obj [(''bound'', Bool (reasons = [])), (''reasonCodes'', str_arr (dedupe reasons))]))))"

section \<open>Outcome and compliance\<close>

definition classifyOutcome :: "jsval \<Rightarrow> jsval \<Rightarrow> string result" where
  "classifyOutcome intent execution =
     letE (getE execution ''status'') (\<lambda>status.
     if status = Str ''REORGED'' \<or> fld execution ''finalityState'' = Str ''REORGED'' then Inr ''REORGED'' else
     if fld execution ''finalityState'' = Str ''INSUFFICIENT_FINALITY'' then Inr ''PENDING'' else
     if status = Str ''PENDING'' then Inr ''PENDING'' else
     if status = Str ''REVERTED'' then Inr ''FAILED'' else
     if is_any (orElse status (Str [])) [''NOT_FOUND'', ''RPC_ERROR'', ''UNSUPPORTED_CHAIN''] then Inr ''UNDETERMINED'' else
     if status \<noteq> Str ''CONFIRMED'' then Inr ''UNDETERMINED'' else
     letE (if nullish (execution_time execution) then Inr Undef else getE intent ''validUntil'') (\<lambda>_.
     if outside_window intent execution then Inr ''EXPIRED'' else
     letE (bindIntentExecution intent execution) (\<lambda>binding.
     if fld binding ''bound'' \<noteq> Bool True then Inr ''UNDETERMINED'' else Inr ''COMPLETED'')))"

definition classifyExecutionOutcome :: "jsval \<Rightarrow> string" where
  "classifyExecutionOutcome execution = (
     if fld execution ''status'' = Str ''REORGED'' \<or> fld execution ''finalityState'' = Str ''REORGED'' then ''REORGED'' else
     if fld execution ''finalityState'' = Str ''INSUFFICIENT_FINALITY'' then ''PENDING'' else
     if fld execution ''status'' = Str ''PENDING'' then ''PENDING'' else
     if fld execution ''status'' = Str ''REVERTED'' then ''FAILED'' else
     if fld execution ''status'' = Str ''CONFIRMED'' then ''COMPLETED'' else ''UNDETERMINED'')"

definition assessmentUnavailableReason :: "jsval \<Rightarrow> string option" where
  "assessmentUnavailableReason execution = (
     if \<not> truthy execution \<or> fld execution ''executionDataAvailable'' = Bool False then Some ''EXECUTION_UNAVAILABLE'' else
     if fld execution ''status'' = Str ''REORGED'' \<or> fld execution ''finalityState'' = Str ''REORGED'' then Some ''EXECUTION_REORGED'' else
     if fld execution ''finalityState'' = Str ''INSUFFICIENT_FINALITY'' then Some ''EXECUTION_PENDING'' else
     if fld execution ''status'' = Str ''PENDING'' then Some ''EXECUTION_PENDING'' else
     if fld execution ''status'' = Str ''NOT_FOUND'' then Some ''EXECUTION_NOT_FOUND'' else
     if is_any (fld execution ''status'') [''RPC_ERROR'', ''UNSUPPORTED_CHAIN''] then Some ''EXECUTION_UNAVAILABLE'' else
     if \<not> is_any (fld execution ''status'') [''CONFIRMED'', ''REVERTED''] then Some ''EXECUTION_UNAVAILABLE'' else None)"

definition assessment :: "string \<Rightarrow> jsval list \<Rightarrow> jsval" where
  "assessment status reasonCodes = Obj [(''schema'', Str ''priorseal.compliance-assessment.v1''),
     (''status'', Str status), (''reasonCodes'', Arr reasonCodes)]"

text \<open>The authorization is a built one: its chain reference is a string or absent, its executor a string.\<close>

definition assessCompliance :: "jsval \<Rightarrow> jsval \<Rightarrow> jsval \<Rightarrow> jsval" where
  "assessCompliance authorization execution binding = (
     case assessmentUnavailableReason execution of Some reason \<Rightarrow> assessment ''NOT_ASSESSABLE'' [Str reason] | None \<Rightarrow>
     let unavailable = filter (\<lambda>code. is_any code [''EXECUTION_UNAVAILABLE'', ''INSUFFICIENT_FINALITY'']) (elems (fld binding ''reasonCodes'')) in
     if unavailable \<noteq> [] then assessment ''NOT_ASSESSABLE'' unavailable else
     let intent = fld authorization ''intent''; ref = fld intent ''chainRef'';
         solana = (is_str ref \<and> starts_with ''solana:'' (str_of ref));
         nonEvm = (solana \<or> ref = Str ''hyperliquid:mainnet'');
         executor = fld (fld authorization ''delegate'') ''executor'';
         correlation =
           reason_if (js_string (fld execution ''chainId'') \<noteq> js_string (fld intent ''chainId'')
             \<or> nonEvm \<and> \<not> js_eq (fld execution ''chainRef'') ref) ''CHAIN_MISMATCH''
           @ reason_if (if solana then Str (text_of (fld execution ''sender'')) \<noteq> executor
                        else lower (text_of (fld execution ''sender'')) \<noteq> lower (str_of executor)) ''EXECUTOR_MISMATCH''
           @ reason_if (text_of (fld execution ''nonce'') \<noteq> js_string (fld intent ''nonce'')) ''NONCE_MISMATCH'' in
     if correlation \<noteq> [] then assessment ''NOT_ASSESSABLE'' (map Str correlation) else
     if truthy (fld binding ''bound'') then assessment ''COMPLIANT'' []
     else assessment ''NON_COMPLIANT'' (elems (fld binding ''reasonCodes'')))"

section \<open>What a bound execution is\<close>

text \<open>The order of numbers, spelled out: \<^verbatim>\<open>x\<close> is not below, respectively above \<^verbatim>\<open>y\<close>; nothing is below or above NaN.\<close>

definition not_below :: "jnum \<Rightarrow> jnum \<Rightarrow> bool" where
  "not_below x y = (x = NotANumber \<or> y = NotANumber \<or> x = PosInf \<or> y = NegInf \<or> (\<exists>p q. x = Fin p \<and> y = Fin q \<and> q \<le> p))"

definition above :: "jnum \<Rightarrow> jnum \<Rightarrow> bool" where
  "above x y = (x = NotANumber \<or> y = NotANumber \<or> x = PosInf \<and> y \<noteq> PosInf \<or> y = NegInf \<and> x \<noteq> NegInf
     \<or> (\<exists>p q. x = Fin p \<and> y = Fin q \<and> q < p))"

text \<open>The confirmations of an execution; none when it says nothing about them.\<close>

definition seen_confirmations :: "jsval \<Rightarrow> jnum" where
  "seen_confirmations execution = (if nullish (fld execution ''confirmations'') then Fin 0 else to_num (fld execution ''confirmations''))"

definition finality_met :: "jsval \<Rightarrow> jsval \<Rightarrow> bool" where
  "finality_met constraints execution = (
     (\<not> nullish (fld constraints ''minConfirmations'') \<longrightarrow>
        not_below (seen_confirmations execution) (to_num (fld constraints ''minConfirmations'')))
     \<and> (\<not> nullish (fld constraints ''maxToleratedReorgDepth'') \<longrightarrow>
        above (seen_confirmations execution) (to_num (prim (fld constraints ''maxToleratedReorgDepth''))))
     \<and> (fld constraints ''finalityRequirement'' = Str ''RPC_FINALIZED'' \<longrightarrow> fld execution ''finalityState'' = Str ''FINALIZED''))"

text \<open>The delegation a user operation ran under is the one the intent names.\<close>

definition delegation_matches :: "jsval \<Rightarrow> jsval \<Rightarrow> bool" where
  "delegation_matches expected evidence = (truthy evidence
     \<and> (\<forall>k\<in>{''delegateAddress'', ''delegateCodeHash'', ''authorizationTupleHash''}. same (fld evidence k) (fld expected k))
     \<and> fld evidence ''authorizationIncluded'' = Bool (\<not> nullish (fld expected ''authorizationTupleHash''))
     \<and> fld evidence ''operationIncluded'' = Bool True
     \<and> (fld evidence ''outerTransactionStatus'' = Str ''SUCCESS''
        \<or> fld evidence ''outerTransactionStatus'' = Str ''REVERTED'' \<and> fld evidence ''operationSuccess'' = Null
          \<and> fld evidence ''stateAtTransactionEnd'' = Str ''ACTIVE'' \<and> same (fld evidence ''delegateAfter'') (fld expected ''delegateAddress'')))"

definition call_matches :: "jsval \<Rightarrow> jsval \<Rightarrow> bool" where
  "call_matches intent execution = (let e = fld execution; i = fld intent in
     (\<not> nullish (i ''callTarget'') \<longrightarrow> same (e ''target'') (i ''callTarget''))
     \<and> (\<not> nullish (i ''calldataHash'') \<longrightarrow> same (e ''calldataHash'') (i ''calldataHash''))
     \<and> (\<not> nullish (i ''transactionValue'') \<longrightarrow> text_of (e ''nativeValue'') = js_string (i ''transactionValue''))
     \<and> (\<not> nullish (i ''accountCallProfile'') \<longrightarrow> same (e ''accountCallProfile'') (i ''accountCallProfile'')
          \<and> same (e ''accountCallTarget'') (i ''accountCallTarget'') \<and> text_of (e ''accountCallValue'') = text_of (i ''accountCallValue'')
          \<and> same (e ''accountCallDataHash'') (i ''accountCallDataHash'')))"

definition profile_matches :: "jsval \<Rightarrow> jsval \<Rightarrow> bool" where
  "profile_matches intent execution = (let e = fld execution; i = fld intent; profile = i ''executionProfile'' in
     (profile = Str ''priorseal.execution-profile.solana-transaction.v2'' \<longrightarrow>
        truthy (i ''solanaTransaction'') \<and> truthy (e ''solanaTransaction'')
        \<and> (\<exists>s. canonicalize (i ''solanaTransaction'') = Inr s \<and> canonicalize (e ''solanaTransaction'') = Inr s))
     \<and> (profile = Str HYPERLIQUID_SPOT_IOC_PROFILE \<longrightarrow> i ''chainRef'' = Str HYPERLIQUID_MAINNET_CHAIN_REF
        \<and> (\<exists>w. normalizeHyperliquidSpotIocExecution (e ''hyperliquidOrder'') = Inr w \<and> fill_consistent w \<and> truthy (i ''hyperliquidOrder'')
           \<and> (\<forall>k\<in>{''assetId'', ''isBuy'', ''limitPrice'', ''size'', ''timeInForce'', ''clientOrderId'', ''expiresAfter''}.
                js_eq (fld (i ''hyperliquidOrder'') k) (fld w k)))
        \<and> (\<exists>ev. normalizeHyperliquidInfoObservationEvidence (e ''hyperliquidInfoObservation'') = Inr ev \<and> truthy (fld ev ''fillsComplete'')))
     \<and> (profile = Str ''priorseal.execution-profile.erc4337-user-operation.v1'' \<longrightarrow>
        list_all (\<lambda>k. same (e k) (i k)) [''userOperationHash'', ''entryPoint'', ''entryPointVersion'', ''entryPointCodeHash'']
        \<and> (\<not> nullish (i ''eip7702'') \<longrightarrow> delegation_matches (i ''eip7702'') (e ''eip7702Delegation'')))
     \<and> (\<not> is_any profile [''priorseal.execution-profile.exact-call.v1'', ''priorseal.execution-profile.solana-transaction.v2'',
            HYPERLIQUID_SPOT_IOC_PROFILE] \<longrightarrow>
        same (e ''recipient'') (i ''recipient'') \<and> same (e ''asset'') (i ''asset'') \<and> text_of (e ''amount'') = js_string (i ''amount'')))"

definition matches_intent :: "jsval \<Rightarrow> jsval \<Rightarrow> bool" where
  "matches_intent intent execution = (let e = fld execution; i = fld intent; constraints = orElse (i ''constraints'') (Obj []) in
     e ''executionDataAvailable'' \<noteq> Bool False
     \<and> js_eq (e ''chainId'') (i ''chainId'') \<and> js_eq (orElse (e ''chainRef'') Null) (orElse (i ''chainRef'') Null)
     \<and> same (e ''action'') (i ''action'')
     \<and> (if i ''executionProfile'' = Str ''priorseal.execution-profile.solana-transaction.v2'' then text_of (e ''sender'') = text_of (i ''sender'')
        else same (e ''sender'') (i ''sender''))
     \<and> text_of (e ''nonce'') = js_string (orElse (i ''nonce'') (Str ''0''))
     \<and> (let t = orElse (e ''executedAt'') (e ''observedAt'') in nullish t \<or> \<not> js_less (i ''validUntil'') t)
     \<and> (i ''executionProfile'' \<noteq> Str ''priorseal.execution-profile.exact-call.v1'' \<and> is_arr (e ''transfers'') \<longrightarrow>
          length (elems (e ''transfers'')) \<le> 1 \<or> truthy (e ''transferMatchUnique''))
     \<and> call_matches intent execution \<and> profile_matches intent execution \<and> finality_met constraints execution
     \<and> (\<not> nullish (fld constraints ''maxGasUsed'') \<longrightarrow>
          (\<exists>u m. js_BigInt (e ''gasUsed'') = Inr u \<and> js_BigInt (fld constraints ''maxGasUsed'') = Inr m \<and> u \<le> m)))"

lemma number_orders: "num_less x y \<longleftrightarrow> \<not> not_below x y" "num_leq x y \<longleftrightarrow> \<not> above x y"
  by (cases x; cases y; auto simp: not_below_def above_def num_leq_def)+

lemma finality_reasons_Nil: "finality_reasons constraints execution = [] \<longleftrightarrow> finality_met constraints execution"
proof -
  have "to_num (orElse (fld execution ''confirmations'') (Num 0)) = seen_confirmations execution"
    by (simp add: seen_confirmations_def orElse_def)
  then show ?thesis
    unfolding finality_reasons_def Let_def append_is_Nil_conv reason_if_Nil finality_met_def by (simp add: number_orders) blast
qed

lemma matchesEip7702_iff: "matchesEip7702 expected evidence \<longleftrightarrow> delegation_matches expected evidence"
  by (simp add: matchesEip7702_def delegation_matches_def) blast

lemma hyperliquid_reasons_Nil:
  "hyperliquid_reasons intent execution = [] \<longleftrightarrow> fld intent ''chainRef'' = Str HYPERLIQUID_MAINNET_CHAIN_REF
    \<and> (\<exists>w. normalizeHyperliquidSpotIocExecution (fld execution ''hyperliquidOrder'') = Inr w \<and> fill_consistent w \<and> truthy (fld intent ''hyperliquidOrder'')
       \<and> (\<forall>k\<in>{''assetId'', ''isBuy'', ''limitPrice'', ''size'', ''timeInForce'', ''clientOrderId'', ''expiresAfter''}.
            js_eq (fld (fld intent ''hyperliquidOrder'') k) (fld w k)))
    \<and> (\<exists>ev. normalizeHyperliquidInfoObservationEvidence (fld execution ''hyperliquidInfoObservation'') = Inr ev \<and> truthy (fld ev ''fillsComplete''))"
proof -
  have same: "sameHyperliquidSpotIocOrder o' w \<longleftrightarrow> truthy o'
      \<and> (\<forall>k\<in>{''assetId'', ''isBuy'', ''limitPrice'', ''size'', ''timeInForce'', ''clientOrderId'', ''expiresAfter''}. js_eq (fld o' k) (fld w k))"
    if "normalizeHyperliquidSpotIocExecution v = Inr w" for o' v w
  proof -
    from that have "truthy w" by (rule execution_Inr) simp
    then show ?thesis by (simp add: sameHyperliquidSpotIocOrder_def)
  qed
  show ?thesis
    by (cases "normalizeHyperliquidSpotIocExecution (fld execution ''hyperliquidOrder'')";
        cases "normalizeHyperliquidInfoObservationEvidence (fld execution ''hyperliquidInfoObservation'')")
      (use execution_consistent same in \<open>auto simp: hyperliquid_reasons_def Let_def simp del: ball_simps\<close>)
qed

lemma bind_Inr:
  assumes "bindIntentExecution intent execution = Inr b"
  obtains d g where
    "(if fld intent ''executionProfile'' = Str ''priorseal.execution-profile.solana-transaction.v2''
      then solana_differs intent execution else Inr False) = Inr d"
    "gas_reasons (orElse (fld intent ''constraints'') (Obj [])) execution = Inr g"
    "b = Obj [(''bound'', Bool (binding_reasons intent execution d g = [])),
              (''reasonCodes'', str_arr (dedupe (binding_reasons intent execution d g)))]"
  using assms unfolding bindIntentExecution_def Let_def by (elim result_elims) (rule that, assumption+)

lemma gas_reasons_Nil:
  assumes "gas_reasons constraints execution = Inr g"
  shows "g = [] \<longleftrightarrow> (\<not> nullish (fld constraints ''maxGasUsed'') \<longrightarrow>
    (\<exists>u m. js_BigInt (fld execution ''gasUsed'') = Inr u \<and> js_BigInt (fld constraints ''maxGasUsed'') = Inr m \<and> u \<le> m))"
proof -
  have "js_BigInt v \<noteq> Inr u" if "nullish v" for v u using that by (auto simp: nullish_def js_BigInt_def)
  with assms show ?thesis by (auto simp: gas_reasons_def letE_eq_Inr split: if_splits)
qed

lemma solana_differs_iff:
  assumes "(if P then solana_differs intent execution else Inr False) = Inr d"
  shows "\<not> d \<longleftrightarrow> (P \<longrightarrow> truthy (fld intent ''solanaTransaction'') \<and> truthy (fld execution ''solanaTransaction'')
    \<and> (\<exists>s. canonicalize (fld intent ''solanaTransaction'') = Inr s \<and> canonicalize (fld execution ''solanaTransaction'') = Inr s))"
  using assms by (auto simp: solana_differs_def letE_eq_Inr split: if_splits)

lemma bound_iff:
  assumes bind: "bindIntentExecution intent execution = Inr b"
  shows "truthy (fld b ''bound'') \<longleftrightarrow> matches_intent intent execution"
proof -
  let ?p = "fld intent ''executionProfile''" and ?c = "orElse (fld intent ''constraints'') (Obj [])"
  from bind obtain d g where
    d: "(if ?p = Str ''priorseal.execution-profile.solana-transaction.v2'' then solana_differs intent execution else Inr False) = Inr d"
    and g: "gas_reasons ?c execution = Inr g" and
    b: "b = Obj [(''bound'', Bool (binding_reasons intent execution d g = [])),
              (''reasonCodes'', str_arr (dedupe (binding_reasons intent execution d g)))]"
    by (rule bind_Inr)
  have bound: "truthy (fld b ''bound'') \<longleftrightarrow> binding_reasons intent execution d g = []" by (simp add: b)
  note facts = solana_differs_iff [OF d] gas_reasons_Nil [OF g]
  have hyper: "(if P then hyperliquid_reasons intent execution else []) = [] \<longleftrightarrow> (P \<longrightarrow> hyperliquid_reasons intent execution = [])" for P by simp
  have plain: "\<not> is_any ?p [''priorseal.execution-profile.exact-call.v1'', ''priorseal.execution-profile.solana-transaction.v2'', HYPERLIQUID_SPOT_IOC_PROFILE]
     \<longleftrightarrow> ?p \<noteq> Str ''priorseal.execution-profile.exact-call.v1'' \<and> ?p \<noteq> Str ''priorseal.execution-profile.solana-transaction.v2''
       \<and> ?p \<noteq> Str HYPERLIQUID_SPOT_IOC_PROFILE" by auto
  have keys: "list_all P [''userOperationHash'', ''entryPoint'', ''entryPointVersion'', ''entryPointCodeHash'']
     \<longleftrightarrow> P ''userOperationHash'' \<and> P ''entryPoint'' \<and> P ''entryPointVersion'' \<and> P ''entryPointCodeHash''" for P by simp
  show ?thesis
    unfolding bound binding_reasons_def matches_intent_def call_matches_def profile_matches_def Let_def append_is_Nil_conv reason_if_Nil
      facts hyper plain keys hyperliquid_reasons_Nil finality_reasons_Nil matchesEip7702_iff outside_window_def
      execution_time_def sameAddress_def not_less if_bool_eq_conj de_Morgan_conj de_Morgan_disj not_not
    by satx
qed

lemma bound_matches:
  assumes "bindIntentExecution intent execution = Inr b" "truthy (fld b ''bound'')"
  shows "matches_intent intent execution"
  using bound_iff [OF assms(1)] assms(2) by simp

lemma completed_bound:
  assumes "classifyOutcome intent execution = Inr ''COMPLETED''"
  shows "fld execution ''status'' = Str ''CONFIRMED'' \<and> fld execution ''finalityState'' \<noteq> Str ''REORGED''
    \<and> fld execution ''finalityState'' \<noteq> Str ''INSUFFICIENT_FINALITY'' \<and> matches_intent intent execution"
proof -
  from assms obtain b where b: "bindIntentExecution intent execution = Inr b" "fld b ''bound'' = Bool True" and
    s: "fld execution ''status'' = Str ''CONFIRMED''" "fld execution ''finalityState'' \<noteq> Str ''REORGED''"
    "fld execution ''finalityState'' \<noteq> Str ''INSUFFICIENT_FINALITY''"
    by (auto simp: classifyOutcome_def letE_eq_Inr getE_def split: if_splits)
  with bound_matches [OF b(1)] show ?thesis by simp
qed

text \<open>The executor named by the authorization sent the transaction, with the intent's nonce, on its chain.\<close>

definition executor_correlates :: "jsval \<Rightarrow> jsval \<Rightarrow> bool" where
  "executor_correlates authorization execution = (
     let intent = fld authorization ''intent''; executor = fld (fld authorization ''delegate'') ''executor'' in
     js_string (fld execution ''chainId'') = js_string (fld intent ''chainId'')
     \<and> text_of (fld execution ''nonce'') = js_string (fld intent ''nonce'')
     \<and> lower (text_of (fld execution ''sender'')) = lower (str_of executor))"

definition final_status :: "jsval \<Rightarrow> bool" where
  "final_status execution = (is_any (fld execution ''status'') [''CONFIRMED'', ''REVERTED'']
     \<and> fld execution ''finalityState'' \<noteq> Str ''REORGED'' \<and> fld execution ''finalityState'' \<noteq> Str ''INSUFFICIENT_FINALITY''
     \<and> fld execution ''executionDataAvailable'' \<noteq> Bool False)"

lemma assessable_final: "assessmentUnavailableReason execution = None \<Longrightarrow> final_status execution"
  by (simp add: assessmentUnavailableReason_def final_status_def split: if_splits)

lemma assessment_status [simp]: "fld (assessment s rs) ''status'' = Str s"
  by (simp add: assessment_def)

lemma compliant_facts:
  assumes "fld (assessCompliance authorization execution binding) ''status'' = Str ''COMPLIANT''"
  shows "final_status execution" "executor_correlates authorization execution" "truthy (fld binding ''bound'')"
proof -
  let ?executor = "fld (fld authorization ''delegate'') ''executor''"
  show "final_status execution"
    using assms by (auto simp: assessCompliance_def split: option.splits intro: assessable_final)
  show "truthy (fld binding ''bound'')"
    using assms by (auto simp: assessCompliance_def Let_def split: option.splits if_splits)
  have "(if is_str (fld (fld authorization ''intent'') ''chainRef'') \<and> starts_with ''solana:'' (str_of (fld (fld authorization ''intent'') ''chainRef''))
     then Str (text_of (fld execution ''sender'')) = ?executor
     else lower (text_of (fld execution ''sender'')) = lower (str_of ?executor))"
    "js_string (fld execution ''chainId'') = js_string (fld (fld authorization ''intent'') ''chainId'')"
    "text_of (fld execution ''nonce'') = js_string (fld (fld authorization ''intent'') ''nonce'')"
    using assms by (auto simp: assessCompliance_def Let_def split: option.splits if_splits)
  then show "executor_correlates authorization execution"
    by (auto simp: executor_correlates_def split: if_splits dest: sym)
qed

section \<open>Properties\<close>

text \<open>C30. An execution binds to an intent exactly when it agrees with it: its data was available; it has the
  intent's chain, action, sender (on Solana to the letter, elsewhere up to case) and nonce; its time, when
  known, is not after the intent's validity; it does not carry several transfers of which none is the only match
  (unless the intent fixes the call itself); it has the confirmations, the depth beyond the tolerated
  reorganisation and the finality the intent demands, an execution that says nothing about its confirmations
  having none; its gas is known and within the limit when there is one; and, as the profile asks, the same
  call, the same user operation under the same delegation, the same Solana message, a consistent Hyperliquid
  fill of the same order with all its fills seen, or the same recipient, asset and amount.\<close>

theorem bound_executions_match:
  assumes "bindIntentExecution intent execution = Inr b"
  shows "truthy (fld b ''bound'') \<longleftrightarrow> matches_intent intent execution"
  by (rule bound_iff [OF assms])

definition sample_bound_intent :: jsval where
  "sample_bound_intent = Obj [(''chainId'', Num 8453), (''action'', Str ''TRANSFER''), (''sender'', Str ''0xaa''),
     (''recipient'', Str ''0xbb''), (''asset'', Str ''eip155:8453/native''), (''amount'', Str ''5''), (''nonce'', Str ''7''),
     (''validUntil'', Num 100), (''constraints'', Obj [(''minConfirmations'', Num 2), (''maxGasUsed'', Str ''30000'')])]"

definition sample_bound_execution :: jsval where
  "sample_bound_execution = Obj [(''chainId'', Num 8453), (''action'', Str ''transfer''), (''sender'', Str ''0xAA''),
     (''recipient'', Str ''0xBB''), (''asset'', Str ''eip155:8453/native''), (''amount'', Num 5), (''nonce'', Num 7),
     (''status'', Str ''CONFIRMED''), (''executedAt'', Num 90), (''confirmations'', Num 3), (''gasUsed'', Str ''21000'')]"

text \<open>The same execution with nothing said about its confirmations, and with two transfers of which none is
  the only match; a Solana execution whose sender differs from the intent's in the case of a letter.\<close>

definition sample_unconfirmed :: jsval where
  "sample_unconfirmed = with_field sample_bound_execution ''confirmations'' Undef"

definition sample_ambiguous :: jsval where
  "sample_ambiguous = with_field sample_bound_execution ''transfers'' (Arr [Obj [], Obj []])"

definition sample_solana_intent :: jsval where
  "sample_solana_intent = Obj [(''executionProfile'', Str ''priorseal.execution-profile.solana-transaction.v2''),
     (''action'', Str ''CONTRACT_CALL''), (''sender'', Str ''4Ab''), (''solanaTransaction'', Obj [(''messageHash'', Str ''0x01'')]),
     (''validUntil'', Num 100)]"

definition sample_solana_execution :: "string \<Rightarrow> jsval" where
  "sample_solana_execution sender = Obj [(''action'', Str ''CONTRACT_CALL''), (''sender'', Str sender),
     (''solanaTransaction'', Obj [(''messageHash'', Str ''0x01'')]), (''nonce'', Str ''0''), (''executedAt'', Num 90)]"

lemma bound_executions_match_witness:
  "matches_intent sample_bound_intent sample_bound_execution
   \<and> \<not> matches_intent sample_bound_intent sample_unconfirmed
   \<and> \<not> matches_intent sample_bound_intent sample_ambiguous
   \<and> matches_intent sample_solana_intent (sample_solana_execution ''4Ab'')
   \<and> \<not> matches_intent sample_solana_intent (sample_solana_execution ''4aB'')"
proof -
  have 1: "bindIntentExecution sample_bound_intent sample_bound_execution
    = Inr (Obj [(''bound'', Bool True), (''reasonCodes'', Arr [])])" by code_simp
  have 2: "bindIntentExecution sample_bound_intent sample_unconfirmed
    = Inr (Obj [(''bound'', Bool False), (''reasonCodes'', Arr [Str ''INSUFFICIENT_FINALITY''])])" by code_simp
  have 3: "bindIntentExecution sample_bound_intent sample_ambiguous
    = Inr (Obj [(''bound'', Bool False), (''reasonCodes'', Arr [Str ''AMBIGUOUS_TRANSFER''])])" by code_simp
  have 4: "bindIntentExecution sample_solana_intent (sample_solana_execution ''4Ab'')
    = Inr (Obj [(''bound'', Bool True), (''reasonCodes'', Arr [])])" by code_simp
  have 5: "bindIntentExecution sample_solana_intent (sample_solana_execution ''4aB'')
    = Inr (Obj [(''bound'', Bool False), (''reasonCodes'', Arr [Str ''SENDER_MISMATCH''])])" by code_simp
  show ?thesis
    using bound_executions_match [OF 1] bound_executions_match [OF 2] bound_executions_match [OF 3]
      bound_executions_match [OF 4] bound_executions_match [OF 5] by simp
qed

text \<open>COMPLETED means that the execution is confirmed, not reorganised, final as far as the
  intent requires, and binds to the intent.\<close>

theorem completed_executions_match:
  assumes "classifyOutcome intent execution = Inr ''COMPLETED''"
  shows "fld execution ''status'' = Str ''CONFIRMED'' \<and> fld execution ''finalityState'' \<noteq> Str ''REORGED''
    \<and> fld execution ''finalityState'' \<noteq> Str ''INSUFFICIENT_FINALITY'' \<and> matches_intent intent execution"
  by (rule completed_bound [OF assms])

lemma completed_executions_match_witness:
  "classifyOutcome sample_bound_intent sample_bound_execution = Inr ''COMPLETED''
    \<and> matches_intent sample_bound_intent sample_bound_execution"
proof -
  have "classifyOutcome sample_bound_intent sample_bound_execution = Inr ''COMPLETED''" by code_simp
  with completed_executions_match [OF this] show ?thesis by simp
qed

text \<open>COMPLIANT means that the execution is final, was sent by the executor the authorization
  delegates to, on the intent's chain with its nonce, and matches the intent it was bound to.\<close>

theorem compliant_executions_match:
  assumes "bindIntentExecution (fld authorization ''intent'') execution = Inr binding"
    "fld (assessCompliance authorization execution binding) ''status'' = Str ''COMPLIANT''"
  shows "final_status execution \<and> executor_correlates authorization execution
    \<and> matches_intent (fld authorization ''intent'') execution"
  using compliant_facts [OF assms(2)] bound_matches [OF assms(1)] by simp

definition sample_bound_authorization :: jsval where
  "sample_bound_authorization = Obj [(''intent'', sample_bound_intent),
     (''delegate'', Obj [(''agentId'', Str ''bot''), (''executor'', Str ''0xaa'')])]"

lemma compliant_executions_match_witness:
  "final_status sample_bound_execution \<and> executor_correlates sample_bound_authorization sample_bound_execution"
proof -
  have i: "fld sample_bound_authorization ''intent'' = sample_bound_intent" by (simp add: sample_bound_authorization_def)
  have "bindIntentExecution (fld sample_bound_authorization ''intent'') sample_bound_execution
      = Inr (Obj [(''bound'', Bool True), (''reasonCodes'', Arr [])])"
    unfolding i by code_simp
  moreover have "fld (assessCompliance sample_bound_authorization sample_bound_execution
      (Obj [(''bound'', Bool True), (''reasonCodes'', Arr [])])) ''status'' = Str ''COMPLIANT''" by code_simp
  ultimately show ?thesis using compliant_executions_match by blast
qed

end
