(* ===== verification/Jobs.thy ===== *)
theory Jobs
  imports Atomic_Store Binding
begin

text \<open>
  The observation jobs: the queue of src/infrastructure/persistence/memory-store.mjs, the worker of
  src/application/observations/observation-worker.mjs, and the message consumer of
  src/bootstrap/cloudflare-observations.mjs with cloudflare-retry.mjs.  A claim hands a copy of the
  job to a worker, which observes and then saves its copy.  Between the two any other operation may
  happen, so the interleavings are a step relation over the queue and the copies in flight.

  The clock, the jitter, the observer's answer, the earlier observation and the saving of an
  observation are those of one attempt and are given with it; the products of delays and jitter are exact.
  Job identifiers are those of randomUUID: given, and fresh.
\<close>

section \<open>Jobs\<close>

datatype job_state = QUEUED | RUNNING | RETRY_WAIT | COMPLETED | UNDETERMINED | FAILED

definition runnable :: "job_state \<Rightarrow> bool" where
  "runnable st = (st \<in> {QUEUED, RETRY_WAIT})"

definition active :: "job_state \<Rightarrow> bool" where
  "active st = (st \<in> {QUEUED, RUNNING, RETRY_WAIT})"

definition terminal :: "job_state \<Rightarrow> bool" where
  "terminal st = (st \<in> {COMPLETED, UNDETERMINED, FAILED})"

lemma state_simps [simp]:
  "runnable QUEUED" "runnable RETRY_WAIT" "\<not> runnable RUNNING" "\<not> runnable COMPLETED" "\<not> runnable UNDETERMINED" "\<not> runnable FAILED"
  "active QUEUED" "active RUNNING" "active RETRY_WAIT" "\<not> active COMPLETED" "\<not> active UNDETERMINED" "\<not> active FAILED"
  "terminal COMPLETED" "terminal UNDETERMINED" "terminal FAILED" "\<not> terminal QUEUED" "\<not> terminal RUNNING" "\<not> terminal RETRY_WAIT"
  by (simp_all add: runnable_def active_def terminal_def)

lemma active_iff: "active st \<longleftrightarrow> \<not> terminal st"
  by (cases st) simp_all

lemma runnable_active: "runnable st \<Longrightarrow> active st"
  by (cases st) simp_all

record job =
  jb_jobId :: string
  jb_idempotencyKey :: jsval
  jb_coalesceKey :: jsval
  jb_input :: jsval
  jb_state :: job_state
  jb_attempts :: int
  jb_createdAt :: int
  jb_nextAttemptAt :: int
  jb_observation :: jsval
  jb_result :: jsval
  jb_error :: "string option"
  jb_updatedAt :: "int option"

type_synonym job_queue = "(string, job) js_map"

definition due :: "int \<Rightarrow> job \<Rightarrow> bool" where
  "due now job = (runnable (jb_state job) \<and> jb_nextAttemptAt job \<le> now)"

section \<open>The queue of the store\<close>

definition same_work :: "job \<Rightarrow> job \<Rightarrow> bool" where
  "same_work new candidate = (js_eq (jb_idempotencyKey candidate) (jb_idempotencyKey new)
     \<or> (js_eq (jb_coalesceKey candidate) (jb_coalesceKey new) \<and> active (jb_state candidate)))"

definition enqueueJob :: "job \<Rightarrow> job_queue \<Rightarrow> job_queue \<times> job" where
  "enqueueJob job q = (case find (same_work job) (map_values q) of
       Some existing \<Rightarrow> (q, existing)
     | None \<Rightarrow> (map_set (jb_jobId job) job q, job))"

definition claimed :: "int \<Rightarrow> job \<Rightarrow> job" where
  "claimed now job = job\<lparr>jb_state := RUNNING, jb_attempts := jb_attempts job + 1, jb_updatedAt := Some now\<rparr>"

definition claim_all :: "int \<Rightarrow> job list \<Rightarrow> job_queue \<Rightarrow> job_queue" where
  "claim_all now jobs q = fold (\<lambda>job. map_set (jb_jobId job) (claimed now job)) jobs q"

definition claimDueJobs :: "int \<Rightarrow> nat \<Rightarrow> job_queue \<Rightarrow> job_queue \<times> job list" where
  "claimDueJobs now limit q = (let jobs = take limit (filter (due now) (map_values q))
     in (claim_all now jobs q, map (claimed now) jobs))"

definition claimJob :: "string \<Rightarrow> int \<Rightarrow> job_queue \<Rightarrow> job_queue \<times> job option" where
  "claimJob jobId now q = (case map_get q jobId of
       None \<Rightarrow> (q, None)
     | Some job \<Rightarrow> if due now job then (map_set jobId (claimed now job) q, Some (claimed now job)) else (q, None))"

definition saveJob :: "job \<Rightarrow> job_queue \<Rightarrow> job_queue" where
  "saveJob job q = map_set (jb_jobId job) job q"

definition getJob :: "string \<Rightarrow> job_queue \<Rightarrow> job option" where
  "getJob jobId q = map_get q jobId"

definition listJobs :: "job_queue \<Rightarrow> job list" where
  "listJobs q = map_values q"

section \<open>Retries\<close>

record retry_plan =
  rp_maxAttempts :: jsval
  rp_retryDelayMs :: "int \<Rightarrow> jsval"

record worker_config =
  wc_retryPolicy :: "jsval \<Rightarrow> retry_plan option"
  wc_maxAttempts :: int
  wc_retryDelayMs :: int
  wc_observerManagesEvidence :: bool

definition SOLANA_RETRY_DELAYS_MS :: "int list" where
  "SOLANA_RETRY_DELAYS_MS = [5000, 15000, 45000, 90000, 180000]"

definition EVM_RETRY_DELAYS_MS :: "int list" where
  "EVM_RETRY_DELAYS_MS = [8000, 24000, 72000, 180000]"

definition chainObservationRetryPolicy :: "jsval \<Rightarrow> retry_plan" where
  "chainObservationRetryPolicy input = (
     let delays = (if num_eq (to_num (fld input ''chainId'')) (Fin 0) then SOLANA_RETRY_DELAYS_MS else EVM_RETRY_DELAYS_MS)
     in \<lparr>rp_maxAttempts = Num (int (length delays) + 1),
         rp_retryDelayMs = (\<lambda>attempt. Num (delays ! nat (min (max 0 (attempt - 1)) (int (length delays) - 1))))\<rparr>)"

definition retryPlan :: "worker_config \<Rightarrow> job \<Rightarrow> retry_plan option result" where
  "retryPlan cfg job = (case wc_retryPolicy cfg (jb_input job) of
       None \<Rightarrow> Inr None
     | Some plan \<Rightarrow> if \<not> is_safe_integer (rp_maxAttempts plan) \<or> int_of (rp_maxAttempts plan) < 1 then Inl TypeErr
                   else Inr (Some plan))"

definition attemptLimit :: "worker_config \<Rightarrow> job \<Rightarrow> int result" where
  "attemptLimit cfg job = letE (retryPlan cfg job) (\<lambda>plan.
     Inr (case plan of None \<Rightarrow> wc_maxAttempts cfg | Some p \<Rightarrow> int_of (rp_maxAttempts p)))"

text \<open>One attempt: the time, the jitter and the answers of what the worker calls.\<close>

record attempt =
  at_clock :: int
  at_jitter :: rat
  at_observe :: "jsval \<Rightarrow> jsval result"
  at_getObservation :: "(jsval \<Rightarrow> jsval \<Rightarrow> jsval result) option"
  at_saveObservation :: "jsval \<Rightarrow> unit result"

definition nextRetry :: "worker_config \<Rightarrow> attempt \<Rightarrow> job \<Rightarrow> int result" where
  "nextRetry cfg att job = letE (retryPlan cfg job) (\<lambda>plan.
     let delay = (case plan of
           Some p \<Rightarrow> rp_retryDelayMs p (jb_attempts job)
         | None \<Rightarrow> Num (wc_retryDelayMs cfg * min (2 ^ nat (max 0 (jb_attempts job - 1))) 32)) in
     if \<not> is_safe_integer delay \<or> int_of delay < 0 then Inl TypeErr else
     Inr (at_clock att + \<lfloor>of_int (int_of delay) * (3 / 4 + at_jitter att * (1 / 2))\<rfloor>))"

section \<open>One attempt at a job\<close>

definition isWorkerObservation :: "jsval \<Rightarrow> bool" where
  "isWorkerObservation v = (is_obj v \<and> is_str (fld v ''status'') \<and> is_str (fld v ''txHash''))"

definition isObservationResult :: "jsval \<Rightarrow> bool" where
  "isObservationResult v = (is_obj v \<and> isWorkerObservation (fld v ''observation''))"

definition retryable :: "jsval \<Rightarrow> bool" where
  "retryable status = (status \<in> {Str ''PENDING'', Str ''NOT_FOUND'', Str ''RPC_ERROR'', Str ''RPC_TIMEOUT''})"

definition observe_phase :: "worker_config \<Rightarrow> attempt \<Rightarrow> job \<Rightarrow> (jsval \<times> jsval) result" where
  "observe_phase cfg att job = (
     let manages = wc_observerManagesEvidence cfg in
     letE (if manages then Inr Null
           else if \<not> nullish (jb_observation job) then Inr (jb_observation job)
           else (case at_getObservation att of None \<Rightarrow> Inr Null
                 | Some get \<Rightarrow> get (fld (jb_input job) ''chainId'') (fld (jb_input job) ''txHash''))) (\<lambda>previous.
     letE (at_observe att (jb_input job)) (\<lambda>observed.
     let isResult = isObservationResult observed;
         seen = (if isResult then fld observed ''observation'' else observed) in
     if \<not> isWorkerObservation seen then Inl TypeErr else
     let observation = (if \<not> manages \<and> detectReorg previous seen
           then with_field (with_field (with_field seen ''status'' (Str ''REORGED'')) ''finalityState'' (Str ''REORGED''))
                  ''previousBlockHash'' (fld previous ''blockHash'')
           else seen)
     in Inr (observation, if isResult then with_field observed ''observation'' observation else Null))))"

definition settle_job :: "worker_config \<Rightarrow> attempt \<Rightarrow> job \<Rightarrow> job result" where
  "settle_job cfg att job = (
     let status = fld (jb_observation job) ''status'' in
     letE (if retryable status then letE (attemptLimit cfg job) (\<lambda>limit. Inr (jb_attempts job < limit)) else Inr False) (\<lambda>retry.
     if retry then letE (nextRetry cfg att job) (\<lambda>t. Inr (job\<lparr>jb_state := RETRY_WAIT, jb_nextAttemptAt := t\<rparr>))
     else Inr (job\<lparr>jb_state := if status = Str ''CONFIRMED'' \<or> status = Str ''REVERTED'' then COMPLETED else UNDETERMINED\<rparr>)))"

text \<open>The catch block; it may throw itself, and the job keeps what was already written.\<close>

definition fail_job :: "worker_config \<Rightarrow> attempt \<Rightarrow> jerr \<Rightarrow> job \<Rightarrow> job \<times> jerr option" where
  "fail_job cfg att e job = (
     let code = (case errorCode e of None \<Rightarrow> ''OBSERVATION_ERROR'' | Some c \<Rightarrow> if c = [] then ''OBSERVATION_ERROR'' else c);
         job1 = job\<lparr>jb_error := Some code\<rparr> in
     case attemptLimit cfg job1 of
       Inl e' \<Rightarrow> (job1, Some e')
     | Inr limit \<Rightarrow>
         let job2 = job1\<lparr>jb_state := if jb_attempts job1 < limit then RETRY_WAIT else FAILED\<rparr> in
         (case nextRetry cfg att job2 of
            Inl e' \<Rightarrow> (job2, Some e')
          | Inr t \<Rightarrow> (job2\<lparr>jb_nextAttemptAt := t\<rparr>, None)))"

definition process_job :: "worker_config \<Rightarrow> attempt \<Rightarrow> bool \<Rightarrow> job \<Rightarrow> job \<times> jerr option" where
  "process_job cfg att persistentClaims job = (
     let job0 = job\<lparr>jb_state := RUNNING, jb_attempts := jb_attempts job + (if persistentClaims then 0 else 1)\<rparr> in
     case observe_phase cfg att job0 of
       Inl e \<Rightarrow> fail_job cfg att e job0
     | Inr (observation, result) \<Rightarrow>
         let job1 = job0\<lparr>jb_observation := observation, jb_result := result\<rparr> in
         (case (if wc_observerManagesEvidence cfg then Inr () else at_saveObservation att observation) of
            Inl e \<Rightarrow> fail_job cfg att e job1
          | Inr u \<Rightarrow>
              let job2 = job1\<lparr>jb_error := None\<rparr> in
              (case settle_job cfg att job2 of Inl e \<Rightarrow> fail_job cfg att e job2 | Inr job3 \<Rightarrow> (job3, None))))"

section \<open>The worker over the store\<close>

definition natural_key :: "jsval \<Rightarrow> string" where
  "natural_key input = js_string (fld input ''chainId'') @ '':'' @ js_string (fld input ''txHash'') @ '':''
     @ js_string (orElse (fld input ''confirmations'') (Num 0))"

definition key_or :: "jsval \<Rightarrow> string \<Rightarrow> jsval" where
  "key_or v natural = (if truthy v then v else Str natural)"

definition new_job :: "string \<Rightarrow> int \<Rightarrow> jsval \<Rightarrow> job" where
  "new_job jobId now input = \<lparr>jb_jobId = jobId, jb_idempotencyKey = key_or (fld input ''idempotencyKey'') (natural_key input),
     jb_coalesceKey = key_or (fld input ''coalesceKey'') (natural_key input),
     jb_input = without_field (without_field input ''idempotencyKey'') ''coalesceKey'', jb_state = QUEUED, jb_attempts = 0,
     jb_createdAt = now, jb_nextAttemptAt = now, jb_observation = Null, jb_result = Null, jb_error = None, jb_updatedAt = None\<rparr>"

definition enqueuePersistent :: "string \<Rightarrow> int \<Rightarrow> jsval \<Rightarrow> job_queue \<Rightarrow> job_queue \<times> job" where
  "enqueuePersistent jobId now input q = enqueueJob (new_job jobId now input) q"

primrec processJobs :: "worker_config \<Rightarrow> (job \<Rightarrow> attempt) \<Rightarrow> job list \<Rightarrow> job_queue \<Rightarrow> job_queue \<times> job list result" where
  "processJobs cfg att [] q = (q, Inr [])"
| "processJobs cfg att (job # jobs) q = (case process_job cfg (att job) True job of
       (j, Some e) \<Rightarrow> (q, Inl e)
     | (j, None) \<Rightarrow> (case processJobs cfg att jobs (saveJob j q) of
           (q', r) \<Rightarrow> (q', letE r (\<lambda>js. Inr (j # js)))))"

definition runOnce :: "worker_config \<Rightarrow> int \<Rightarrow> (job \<Rightarrow> attempt) \<Rightarrow> job_queue \<Rightarrow> job_queue \<times> job list result" where
  "runOnce cfg now att q = (case claimDueJobs now 10 q of (q', jobs) \<Rightarrow> processJobs cfg att jobs q')"

definition runJob :: "worker_config \<Rightarrow> int \<Rightarrow> (job \<Rightarrow> attempt) \<Rightarrow> string \<Rightarrow> job_queue \<Rightarrow> job_queue \<times> job option result" where
  "runJob cfg now att jobId q = (case claimJob jobId now q of
       (q', None) \<Rightarrow> (q', Inr (getJob jobId q'))
     | (q', Some job) \<Rightarrow> (case processJobs cfg att [job] q' of
           (q'', r) \<Rightarrow> (q'', letE r (\<lambda>js. Inr (Some (hd js))))))"

section \<open>The worker without a store\<close>

text \<open>
  The jobs are shared objects: \<^verbatim>\<open>wk_jobs\<close> holds them by identifier, the other two maps refer to
  them by it.  A pass processes its jobs one after the other; what happens between is not modelled here.
\<close>

record local_worker =
  wk_jobs :: job_queue
  jobsByKey :: "(jsval, string) js_map"
  activeJobsByCoalesceKey :: "(jsval, string) js_map"

definition job_at :: "local_worker \<Rightarrow> string option \<Rightarrow> job option" where
  "job_at w i = (case i of None \<Rightarrow> None | Some jobId \<Rightarrow> map_get (wk_jobs w) jobId)"

definition enqueue :: "string \<Rightarrow> int \<Rightarrow> jsval \<Rightarrow> local_worker \<Rightarrow> local_worker \<times> job" where
  "enqueue jobId now input w = (
     let job = new_job jobId now input in
     case job_at w (map_get (jobsByKey w) (jb_idempotencyKey job)) of
       Some existing \<Rightarrow> (w, existing)
     | None \<Rightarrow>
         let fresh = (w\<lparr>wk_jobs := map_set jobId job (wk_jobs w), jobsByKey := map_set (jb_idempotencyKey job) jobId (jobsByKey w),
                activeJobsByCoalesceKey := map_set (jb_coalesceKey job) jobId (activeJobsByCoalesceKey w)\<rparr>, job) in
         (case job_at w (map_get (activeJobsByCoalesceKey w) (jb_coalesceKey job)) of
            Some other \<Rightarrow> if \<not> terminal (jb_state other) then (w, other) else fresh
          | None \<Rightarrow> fresh))"

definition release_job :: "job \<Rightarrow> local_worker \<Rightarrow> local_worker" where
  "release_job job w = (
     if terminal (jb_state job) \<and> truthy (jb_coalesceKey job)
        \<and> map_option jb_jobId (job_at w (map_get (activeJobsByCoalesceKey w) (jb_coalesceKey job))) = Some (jb_jobId job)
     then w\<lparr>activeJobsByCoalesceKey := AList.delete (jb_coalesceKey job) (activeJobsByCoalesceKey w)\<rparr> else w)"

primrec processLocal :: "worker_config \<Rightarrow> (job \<Rightarrow> attempt) \<Rightarrow> string list \<Rightarrow> local_worker \<Rightarrow> local_worker \<times> job list result" where
  "processLocal cfg att [] w = (w, Inr [])"
| "processLocal cfg att (i # is') w = (case map_get (wk_jobs w) i of
       None \<Rightarrow> processLocal cfg att is' w
     | Some job \<Rightarrow> (case process_job cfg (att job) False job of (j, failed) \<Rightarrow>
         let w1 = w\<lparr>wk_jobs := map_set i j (wk_jobs w)\<rparr> in
         (case failed of
            Some e \<Rightarrow> (w1, Inl e)
          | None \<Rightarrow> (case processLocal cfg att is' (release_job j w1) of
              (w', r) \<Rightarrow> (w', letE r (\<lambda>js. Inr (j # js)))))))"

definition runOnceLocal :: "worker_config \<Rightarrow> int \<Rightarrow> (job \<Rightarrow> attempt) \<Rightarrow> local_worker \<Rightarrow> local_worker \<times> job list result" where
  "runOnceLocal cfg now att w = processLocal cfg att (map jb_jobId (filter (due now) (map_values (wk_jobs w)))) w"

definition runJobLocal :: "worker_config \<Rightarrow> int \<Rightarrow> (job \<Rightarrow> attempt) \<Rightarrow> string \<Rightarrow> local_worker \<Rightarrow> local_worker \<times> job option result" where
  "runJobLocal cfg now att jobId w = (case map_get (wk_jobs w) jobId of
       None \<Rightarrow> (w, Inr None)
     | Some job \<Rightarrow> if due now job then (case processLocal cfg att [jobId] w of
           (w', r) \<Rightarrow> (w', letE r (\<lambda>js. Inr (Some (hd js)))))
         else (w, Inr (Some job)))"

section \<open>The message consumer\<close>

definition shouldRedeliverJob :: "job option \<Rightarrow> bool" where
  "shouldRedeliverJob job = (case job of None \<Rightarrow> False | Some j \<Rightarrow> active (jb_state j))"

definition retryDelaySeconds :: "int \<Rightarrow> int \<Rightarrow> job list \<Rightarrow> int option" where
  "retryDelaySeconds now runningDelaySeconds jobs = (if jobs = [] then None else
     let nextAttemptAt = Min (set (map (\<lambda>job. if jb_state job = RUNNING then now + runningDelaySeconds * 1000 else jb_nextAttemptAt job) jobs))
     in Some (max 1 (min 86400 \<lceil>of_int (nextAttemptAt - now) / (1000 :: rat)\<rceil>)))"

datatype delivery = Acked | Resent int | Redelivered int

text \<open>One message: the reply of the job run may be a throw, and so may the sending.\<close>

definition processMessage ::
  "worker_config \<Rightarrow> int \<Rightarrow> (job \<Rightarrow> attempt) \<Rightarrow> (jsval \<Rightarrow> int \<Rightarrow> unit result) \<Rightarrow> jsval \<Rightarrow> job_queue \<Rightarrow> job_queue \<times> delivery" where
  "processMessage cfg now att send body q = (
     let jobId = fld body ''jobId'' in
     if \<not> is_str jobId \<or> \<not> truthy jobId then (q, Acked) else
     case runJob cfg now att (str_of jobId) q of
       (q', Inl e) \<Rightarrow> (q', Redelivered 30)
     | (q', Inr job) \<Rightarrow>
         if shouldRedeliverJob job then
           let delay = the (retryDelaySeconds now 30 [the job]) in
           (case send jobId delay of Inl e \<Rightarrow> (q', Redelivered 30) | Inr u \<Rightarrow> (q', Resent delay))
         else (q', Acked))"

text \<open>A batch: each message with the time it is handled.\<close>

primrec processObservationQueue ::
  "worker_config \<Rightarrow> (job \<Rightarrow> attempt) \<Rightarrow> (jsval \<Rightarrow> int \<Rightarrow> unit result) \<Rightarrow> (jsval \<times> int) list \<Rightarrow> job_queue \<Rightarrow> job_queue \<times> delivery list" where
  "processObservationQueue cfg att send [] q = (q, [])"
| "processObservationQueue cfg att send (m # ms) q = (case processMessage cfg (snd m) att send (fst m) q of
       (q', d) \<Rightarrow> (case processObservationQueue cfg att send ms q' of (q'', ds) \<Rightarrow> (q'', d # ds)))"

section \<open>What an attempt does to a job\<close>

definition same_job :: "job \<Rightarrow> job \<Rightarrow> bool" where
  "same_job j j' = (jb_jobId j' = jb_jobId j \<and> jb_input j' = jb_input j \<and> jb_idempotencyKey j' = jb_idempotencyKey j
     \<and> jb_coalesceKey j' = jb_coalesceKey j)"

lemma same_job_simps [simp]:
  "same_job j j" "same_job j (claimed now j)"
  by (simp_all add: same_job_def claimed_def)

lemma attemptLimit_input: "jb_input j' = jb_input j \<Longrightarrow> attemptLimit cfg j' = attemptLimit cfg j"
  by (simp add: attemptLimit_def retryPlan_def)

lemma retryPlan_input: "jb_input j' = jb_input j \<Longrightarrow> retryPlan cfg j' = retryPlan cfg j"
  by (simp add: retryPlan_def)

text \<open>A job after an attempt that did not throw: finished, or waiting with attempts left.\<close>

definition outcome_ok :: "worker_config \<Rightarrow> job \<Rightarrow> job \<Rightarrow> bool" where
  "outcome_ok cfg job j' = (same_job job j' \<and> jb_attempts j' = jb_attempts job
     \<and> (terminal (jb_state j') \<or> (jb_state j' = RETRY_WAIT \<and> (\<exists>limit. attemptLimit cfg job = Inr limit \<and> jb_attempts job < limit))))"

lemma fail_outcome:
  assumes "fail_job cfg att e j = (j', None)"
  shows "outcome_ok cfg j j'"
  using assms
  by (auto simp: fail_job_def Let_def outcome_ok_def same_job_def attemptLimit_input [of "j\<lparr>jb_error := c\<rparr>" j for c]
      split: sum.splits if_splits)

lemma settle_outcome:
  assumes "settle_job cfg att j = Inr j'"
  shows "outcome_ok cfg j j'"
  using assms by (auto simp: settle_job_def Let_def letE_eq_Inr outcome_ok_def same_job_def split: if_splits)

text \<open>Only the identity, the input and the number of attempts of the job before matter.\<close>

lemma outcome_same [simp]:
  "outcome_ok cfg (job\<lparr>jb_state := st\<rparr>) j' = outcome_ok cfg job j'"
  "outcome_ok cfg (job\<lparr>jb_observation := ob\<rparr>) j' = outcome_ok cfg job j'"
  "outcome_ok cfg (job\<lparr>jb_result := r\<rparr>) j' = outcome_ok cfg job j'"
  "outcome_ok cfg (job\<lparr>jb_error := c\<rparr>) j' = outcome_ok cfg job j'"
  by (simp_all add: outcome_ok_def same_job_def attemptLimit_def retryPlan_def)

lemma process_outcome:
  assumes "process_job cfg att True job = (j', None)"
  shows "outcome_ok cfg job j'"
  using assms unfolding process_job_def Let_def
  by (auto split: sum.splits prod.splits if_splits dest!: fail_outcome settle_outcome)

section \<open>The queue under interleaving\<close>

text \<open>
  The invariant: identifiers are the keys, no two jobs share an idempotency key, no two active ones a
  coalesce key, a waiting job has attempts left, and each copy in flight is the stored running job.
\<close>

definition within_limit :: "worker_config \<Rightarrow> job \<Rightarrow> bool" where
  "within_limit cfg j = (0 \<le> jb_attempts j \<and> (jb_state j = QUEUED \<longrightarrow> jb_attempts j = 0)
     \<and> (\<forall>limit. attemptLimit cfg j = Inr limit \<longrightarrow> jb_attempts j \<le> limit \<and> (jb_state j = RETRY_WAIT \<longrightarrow> jb_attempts j < limit)))"

definition apart :: "job \<Rightarrow> job \<Rightarrow> bool" where
  "apart j k = (\<not> js_eq (jb_idempotencyKey j) (jb_idempotencyKey k)
     \<and> \<not> (active (jb_state j) \<and> active (jb_state k) \<and> js_eq (jb_coalesceKey j) (jb_coalesceKey k)))"

definition each_ok :: "worker_config \<Rightarrow> job_queue \<Rightarrow> bool" where
  "each_ok cfg q = (\<forall>i j. map_get q i = Some j \<longrightarrow> jb_jobId j = i \<and> within_limit cfg j)"

definition pairs_apart :: "job_queue \<Rightarrow> bool" where
  "pairs_apart q = (\<forall>i j i' j'. map_get q i = Some j \<longrightarrow> map_get q i' = Some j' \<longrightarrow> i \<noteq> i' \<longrightarrow> apart j j')"

definition queue_ok :: "worker_config \<Rightarrow> job_queue \<Rightarrow> bool" where
  "queue_ok cfg q = (distinct_keys q \<and> each_ok cfg q \<and> pairs_apart q)"

definition flight_ok :: "job_queue \<Rightarrow> job list \<Rightarrow> bool" where
  "flight_ok q copies = (distinct (map jb_jobId copies)
     \<and> (\<forall>j\<in>set copies. map_get q (jb_jobId j) = Some j \<and> jb_state j = RUNNING))"

lemma each_okD: "each_ok cfg q \<Longrightarrow> map_get q i = Some j \<Longrightarrow> jb_jobId j = i \<and> within_limit cfg j"
  unfolding each_ok_def by blast

lemma pairs_apartD: "pairs_apart q \<Longrightarrow> map_get q i = Some j \<Longrightarrow> map_get q i' = Some j' \<Longrightarrow> i \<noteq> i' \<Longrightarrow> apart j j'"
  unfolding pairs_apart_def by (erule allE [of _ i], erule allE [of _ j], erule allE [of _ i'], erule allE [of _ j']) simp

lemma queue_okD:
  assumes "queue_ok cfg q"
  shows "map_get q i = Some j \<Longrightarrow> jb_jobId j = i"
    and "map_get q i = Some j \<Longrightarrow> within_limit cfg j"
    and "map_get q i = Some j \<Longrightarrow> map_get q i' = Some j' \<Longrightarrow> i \<noteq> i' \<Longrightarrow> apart j j'"
    and "distinct_keys q"
proof -
  from assms have q: "distinct_keys q" "each_ok cfg q" "pairs_apart q" by (simp_all only: queue_ok_def)
  show "jb_jobId j = i" if "map_get q i = Some j" using each_okD [OF q(2) that] by (rule conjunct1)
  show "within_limit cfg j" if "map_get q i = Some j" using each_okD [OF q(2) that] by (rule conjunct2)
  show "apart j j'" if "map_get q i = Some j" "map_get q i' = Some j'" "i \<noteq> i'" by (rule pairs_apartD [OF q(3) that])
  show "distinct_keys q" by (rule q(1))
qed

text \<open>A job may be replaced by a later version of itself, unless that would wake it up.\<close>

lemma queue_ok_replace:
  assumes ok: "queue_ok cfg q" and old: "map_get q i = Some j" and same: "same_job j j'"
    and active: "active (jb_state j') \<Longrightarrow> active (jb_state j)" and limit: "within_limit cfg j'"
  shows "queue_ok cfg (map_set i j' q)"
  unfolding queue_ok_def each_ok_def pairs_apart_def
proof (intro conjI allI impI)
  show "distinct_keys (map_set i j' q)" using queue_okD(4) [OF ok] by simp
next
  fix k x assume "map_get (map_set i j' q) k = Some x"
  then have "jb_jobId x = k \<and> within_limit cfg x"
  proof (cases rule: map_get_setE)
    case set
    with queue_okD(1) [OF ok old] same limit show ?thesis by (simp add: same_job_def)
  next
    case kept
    with queue_okD(1,2) [OF ok] show ?thesis by blast
  qed
  then show "jb_jobId x = k" "within_limit cfg x" by simp_all
next
  fix k x k' x' assume m: "map_get (map_set i j' q) k = Some x" "map_get (map_set i j' q) k' = Some x'" "k \<noteq> k'"
  have less: "apart j y \<Longrightarrow> apart j' y" "apart y j \<Longrightarrow> apart y j'" for y
    using same active by (auto simp: apart_def same_job_def)
  from m(1) show "apart x x'"
  proof (cases rule: map_get_setE)
    case set
    from m(2,3) set(1) have "map_get q k' = Some x'" by simp
    with queue_okD(3) [OF ok old this] m(3) set less(1) show ?thesis by simp
  next
    case kept
    note x = this
    from m(2) show ?thesis
    proof (cases rule: map_get_setE)
      case set
      with queue_okD(3) [OF ok x(2) old x(1)] less(2) show ?thesis by simp
    next
      case kept
      from queue_okD(3) [OF ok x(2) kept(2) m(3)] show ?thesis .
    qed
  qed
qed

lemma claimed_within:
  assumes "within_limit cfg j" "runnable (jb_state j)" "\<And>limit. attemptLimit cfg j = Inr limit \<Longrightarrow> 1 \<le> limit"
  shows "within_limit cfg (claimed now j)"
  using assms by (auto simp: within_limit_def claimed_def runnable_def attemptLimit_input [of "claimed now j" j])
    (simp_all add: attemptLimit_def retryPlan_def)

lemma attemptLimit_positive: "1 \<le> wc_maxAttempts cfg \<Longrightarrow> attemptLimit cfg j = Inr limit \<Longrightarrow> 1 \<le> limit"
  by (auto simp: attemptLimit_def retryPlan_def letE_eq_Inr split: option.splits if_splits)

definition limit_positive :: "worker_config \<Rightarrow> bool" where
  "limit_positive cfg = (\<forall>j limit. attemptLimit cfg j = Inr limit \<longrightarrow> 1 \<le> limit)"

lemma limit_positiveI: "1 \<le> wc_maxAttempts cfg \<Longrightarrow> limit_positive cfg"
  unfolding limit_positive_def using attemptLimit_positive by blast

lemma claim_one:
  assumes ok: "queue_ok cfg q" and pos: "limit_positive cfg" and j: "map_get q i = Some j" and run: "runnable (jb_state j)"
  shows "queue_ok cfg (map_set i (claimed now j) q)"
proof (rule queue_ok_replace [OF ok j])
  show "active (jb_state j)" using run by (rule runnable_active)
  show "within_limit cfg (claimed now j)"
    using queue_okD(2) [OF ok j] run pos by (intro claimed_within) (auto simp: limit_positive_def)
qed simp

lemma claim_flight:
  assumes ok: "queue_ok cfg q" and fl: "flight_ok q copies" and j: "map_get q i = Some j" and run: "runnable (jb_state j)"
  shows "flight_ok (map_set i (claimed now j) q) (claimed now j # copies)"
proof -
  have id: "jb_jobId j = i" using queue_okD(1) [OF ok j] .
  have new: "jb_jobId x \<noteq> i" if "x \<in> set copies" for x
    using fl that j run by (auto simp: flight_ok_def)
  then have "i \<notin> jb_jobId ` set copies" by blast
  then have "jb_jobId (claimed now j) \<notin> jb_jobId ` set copies" using id by (simp add: claimed_def)
  moreover have "map_get (map_set i (claimed now j) q) (jb_jobId x) = Some x" if "x \<in> set copies" for x
    using fl new [OF that] that by (simp add: flight_ok_def)
  ultimately show ?thesis using fl id by (simp add: flight_ok_def claimed_def)
qed

lemma claim_all_ok:
  assumes "queue_ok cfg q" "flight_ok q copies" "limit_positive cfg" "distinct (map jb_jobId jobs)"
    and "\<And>j. j \<in> set jobs \<Longrightarrow> map_get q (jb_jobId j) = Some j \<and> runnable (jb_state j)"
  shows "queue_ok cfg (claim_all now jobs q) \<and> flight_ok (claim_all now jobs q) (rev (map (claimed now) jobs) @ copies)"
  using assms
proof (induction jobs arbitrary: q copies)
  case Nil
  then show ?case by (simp add: claim_all_def)
next
  case (Cons j jobs)
  let ?q = "map_set (jb_jobId j) (claimed now j) q"
  have j: "map_get q (jb_jobId j) = Some j" "runnable (jb_state j)" using Cons.prems(5) [of j] by simp_all
  have "map_get ?q (jb_jobId x) = Some x \<and> runnable (jb_state x)" if "x \<in> set jobs" for x
  proof -
    have "jb_jobId x \<noteq> jb_jobId j" using Cons.prems(4) that by (metis distinct.simps(2) image_eqI list.set_map list.simps(9))
    with Cons.prems(5) [of x] that show ?thesis by simp
  qed
  then have "queue_ok cfg (claim_all now jobs ?q) \<and> flight_ok (claim_all now jobs ?q) (rev (map (claimed now) jobs) @ (claimed now j # copies))"
    using Cons.prems(3,4) claim_one [OF Cons.prems(1,3) j] claim_flight [OF Cons.prems(1,2) j]
    by (intro Cons.IH) simp_all
  then show ?case by (simp add: claim_all_def)
qed

lemma map_values_mem: "distinct_keys m \<Longrightarrow> v \<in> set (map_values m) \<longleftrightarrow> (\<exists>k. map_get m k = Some v)"
  by (force simp: map_values_def map_get_mem)

lemma queue_values:
  assumes "queue_ok cfg q"
  shows "v \<in> set (map_values q) \<Longrightarrow> map_get q (jb_jobId v) = Some v" "distinct (map jb_jobId (map_values q))"
proof -
  note d = queue_okD(4) [OF assms]
  show *: "map_get q (jb_jobId v) = Some v" if v: "v \<in> set (map_values q)" for v
  proof -
    from v obtain k where k: "map_get q k = Some v" using map_values_mem [OF d] by blast
    from queue_okD(1) [OF assms k] k show ?thesis by simp
  qed
  have "map jb_jobId (map_values q) = map fst q"
    unfolding map_values_def map_map
  proof (rule map_cong [OF refl], clarsimp)
    fix k v assume "(k, v) \<in> set q"
    then have "map_get q k = Some v" using d by (simp add: map_get_mem)
    then show "jb_jobId v = k" by (rule queue_okD(1) [OF assms])
  qed
  with d show "distinct (map jb_jobId (map_values q))" by (simp add: distinct_keys_def)
qed

lemma claimDue_ok:
  assumes ok: "queue_ok cfg q" and "flight_ok q copies" "limit_positive cfg" and c: "claimDueJobs now limit q = (q', js)"
  shows "queue_ok cfg q' \<and> flight_ok q' (rev js @ copies)"
proof -
  let ?jobs = "take limit (filter (due now) (map_values q))"
  have "distinct (map jb_jobId ?jobs)"
    using queue_values(2) [OF ok] by (simp add: distinct_map_filter take_map [symmetric] distinct_take)
  moreover have "map_get q (jb_jobId j) = Some j \<and> runnable (jb_state j)" if "j \<in> set ?jobs" for j
    using set_take_subset [of limit "filter (due now) (map_values q)"] that queue_values(1) [OF ok, of j] by (auto simp: due_def)
  ultimately have "queue_ok cfg (claim_all now ?jobs q) \<and> flight_ok (claim_all now ?jobs q) (rev (map (claimed now) ?jobs) @ copies)"
    by (intro claim_all_ok assms)
  with c show ?thesis by (auto simp: claimDueJobs_def Let_def)
qed

lemma enqueue_ok:
  assumes ok: "queue_ok cfg q" and pos: "limit_positive cfg" and fresh: "map_get q (jb_jobId job) = None"
    and new: "jb_state job = QUEUED" "jb_attempts job = 0" and e: "enqueueJob job q = (q', j)"
    and fl: "flight_ok q copies"
  shows "queue_ok cfg q' \<and> flight_ok q' copies"
proof (cases "find (same_work job) (map_values q)")
  case None
  then have q': "q' = map_set (jb_jobId job) job q" using e by (auto simp: enqueueJob_def)
  have other: "\<not> same_work job x" if "map_get q k = Some x" for k x
    using None that map_values_mem [OF queue_okD(4) [OF ok]] by (auto simp: find_None_iff)
  have sym: "js_eq a b \<Longrightarrow> js_eq b a" for a b by (cases a; cases b) auto
  have ap: "apart job x" "apart x job" if "map_get q k = Some x" for k x
    using other [OF that] sym by (auto simp: same_work_def apart_def)
  have "1 \<le> limit" if "attemptLimit cfg job = Inr limit" for limit
    using pos that unfolding limit_positive_def by blast
  then have "within_limit cfg job" using new by (force simp: within_limit_def)
  then have "each_ok cfg q'"
    unfolding each_ok_def q' using queue_okD(1,2) [OF ok] by (auto elim!: map_get_setE)
  moreover have "pairs_apart q'"
    unfolding pairs_apart_def q'
  proof (intro allI impI)
    fix i x i' x' assume m: "map_get (map_set (jb_jobId job) job q) i = Some x" "map_get (map_set (jb_jobId job) job q) i' = Some x'" "i \<noteq> i'"
    from m(1) show "apart x x'"
      by (cases rule: map_get_setE) (use m(2,3) ap queue_okD(3) [OF ok] in \<open>auto split: if_splits\<close>)
  qed
  moreover have "distinct_keys q'" using queue_okD(4) [OF ok] by (simp add: q')
  moreover have "flight_ok q' copies" using fl fresh by (auto simp: flight_ok_def q')
  ultimately show ?thesis by (simp add: queue_ok_def)
qed (use ok e fl in \<open>simp add: enqueueJob_def\<close>)

lemma distinct_remove1_map: "distinct (map f xs) \<Longrightarrow> distinct (map f (remove1 x xs))"
  by (induction xs) (auto dest: set_mp [OF set_remove1_subset])

lemma flight_drop: "flight_ok q copies \<Longrightarrow> flight_ok q (remove1 j copies)"
  unfolding flight_ok_def by (auto intro: distinct_remove1_map dest: set_mp [OF set_remove1_subset])

lemma outcome_within: "outcome_ok cfg j j' \<Longrightarrow> within_limit cfg j \<Longrightarrow> within_limit cfg j'"
  by (auto simp: outcome_ok_def within_limit_def same_job_def attemptLimit_input [of j' j])

lemma finish_ok:
  assumes ok: "queue_ok cfg q" and fl: "flight_ok q copies" and j: "j \<in> set copies"
    and p: "process_job cfg att True j = (j', None)"
  shows "queue_ok cfg (saveJob j' q) \<and> flight_ok (saveJob j' q) (remove1 j copies)"
proof -
  have o: "outcome_ok cfg j j'" using p by (rule process_outcome)
  then have same: "same_job j j'" "jb_jobId j' = jb_jobId j" by (simp_all add: outcome_ok_def same_job_def)
  have st: "map_get q (jb_jobId j) = Some j" "jb_state j = RUNNING" using fl j by (auto simp: flight_ok_def)
  have "queue_ok cfg (saveJob j' q)"
    unfolding saveJob_def same(2)
    by (rule queue_ok_replace [OF ok st(1) same(1)]) (use o st queue_okD(2) [OF ok st(1)] outcome_within in auto)
  moreover have "jb_jobId x \<noteq> jb_jobId j" if "x \<in> set (remove1 j copies)" for x
    using fl j that by (auto simp: flight_ok_def distinct_map inj_on_def dest: set_mp [OF set_remove1_subset])
  then have "flight_ok (saveJob j' q) (remove1 j copies)"
    using flight_drop [OF fl, of j] same(2) by (auto simp: flight_ok_def saveJob_def)
  ultimately show ?thesis by simp
qed

text \<open>The operations in any interleaving; a copy in flight may be lost with its worker.\<close>

inductive queue_step :: "worker_config \<Rightarrow> job_queue \<times> job list \<Rightarrow> job_queue \<times> job list \<Rightarrow> bool" for cfg where
  enqueues: "map_get q jobId = None \<Longrightarrow> enqueuePersistent jobId now input q = (q', j) \<Longrightarrow> queue_step cfg (q, copies) (q', copies)"
| claims_due: "claimDueJobs now limit q = (q', js) \<Longrightarrow> queue_step cfg (q, copies) (q', rev js @ copies)"
| claims: "claimJob jobId now q = (q', Some j) \<Longrightarrow> queue_step cfg (q, copies) (q', j # copies)"
| finishes: "j \<in> set copies \<Longrightarrow> process_job cfg att True j = (j', None) \<Longrightarrow>
    queue_step cfg (q, copies) (saveJob j' q, remove1 j copies)"
| loses: "j \<in> set copies \<Longrightarrow> queue_step cfg (q, copies) (q, remove1 j copies)"

inductive_cases queue_stepE: "queue_step cfg s s'"

inductive queue_reachable :: "worker_config \<Rightarrow> job_queue \<times> job list \<Rightarrow> bool" for cfg where
  empty: "queue_reachable cfg ([], [])"
| step: "queue_reachable cfg s \<Longrightarrow> queue_step cfg s s' \<Longrightarrow> queue_reachable cfg s'"

lemma step_ok:
  assumes "queue_step cfg (q, copies) (q', copies')" "limit_positive cfg" "queue_ok cfg q" "flight_ok q copies"
  shows "queue_ok cfg q' \<and> flight_ok q' copies'"
  using assms(1)
proof cases
  case (enqueues jobId now input j)
  with assms show ?thesis
    by (intro enqueue_ok [of cfg q "new_job jobId now input"]) (auto simp: enqueuePersistent_def new_job_def)
next
  case (claims_due now limit js)
  with assms claimDue_ok show ?thesis by blast
next
  case (claims jobId now j)
  then obtain k where "map_get q jobId = Some k" "due now k" "j = claimed now k" "q' = map_set jobId (claimed now k) q"
    by (auto simp: claimJob_def split: option.splits if_splits)
  with claims assms claim_one claim_flight show ?thesis by (auto simp: due_def)
next
  case (finishes j att j')
  with assms finish_ok show ?thesis by blast
next
  case (loses j)
  with assms flight_drop show ?thesis by blast
qed

lemma reachable_ok:
  assumes "limit_positive cfg" "queue_reachable cfg s"
  shows "queue_ok cfg (fst s) \<and> flight_ok (fst s) (snd s)"
  using assms(2)
proof (induction rule: queue_reachable.induct)
  case empty
  show ?case by (simp add: queue_ok_def each_ok_def pairs_apart_def flight_ok_def)
next
  case (step s s')
  with step_ok [OF _ assms(1)] show ?case by (cases s; cases s') auto
qed

section \<open>Jobs end\<close>

text \<open>The retry plan of the configuration never throws.\<close>

definition plan_ok :: "worker_config \<Rightarrow> bool" where
  "plan_ok cfg = (\<forall>job. (\<exists>limit. attemptLimit cfg job = Inr limit \<and> 1 \<le> limit) \<and> (\<forall>att. \<exists>t. nextRetry cfg att job = Inr t))"

lemma plan_okD:
  "plan_ok cfg \<Longrightarrow> \<exists>limit. attemptLimit cfg job = Inr limit \<and> 1 \<le> limit"
  "plan_ok cfg \<Longrightarrow> \<exists>t. nextRetry cfg att job = Inr t"
  by (simp_all add: plan_ok_def)

definition runtime_config :: worker_config where
  "runtime_config = \<lparr>wc_retryPolicy = (\<lambda>input. Some (chainObservationRetryPolicy input)), wc_maxAttempts = 8,
     wc_retryDelayMs = 5000, wc_observerManagesEvidence = True\<rparr>"

lemma delay_in_table:
  assumes "delays \<noteq> []"
  shows "delays ! nat (min (max 0 (n - 1)) (int (length delays) - 1)) \<in> set delays"
proof -
  have "0 < length delays" using assms by simp
  then have "nat (min (max 0 (n - 1)) (int (length delays) - 1)) < length delays" by linarith
  then show ?thesis by (rule nth_mem)
qed

lemma retry_delays_ok:
  "SOLANA_RETRY_DELAYS_MS ! nat (min (max 0 (n - 1)) (int (length SOLANA_RETRY_DELAYS_MS) - 1)) \<le> max_safe"
  "0 \<le> SOLANA_RETRY_DELAYS_MS ! nat (min (max 0 (n - 1)) (int (length SOLANA_RETRY_DELAYS_MS) - 1))"
  "EVM_RETRY_DELAYS_MS ! nat (min (max 0 (n - 1)) (int (length EVM_RETRY_DELAYS_MS) - 1)) \<le> max_safe"
  "0 \<le> EVM_RETRY_DELAYS_MS ! nat (min (max 0 (n - 1)) (int (length EVM_RETRY_DELAYS_MS) - 1))"
proof -
  have s: "\<forall>d\<in>set SOLANA_RETRY_DELAYS_MS. d \<le> max_safe \<and> 0 \<le> d" and "SOLANA_RETRY_DELAYS_MS \<noteq> []"
    by (simp_all add: SOLANA_RETRY_DELAYS_MS_def max_safe_def)
  from bspec [OF s delay_in_table [OF this(2)], of n] show
    "SOLANA_RETRY_DELAYS_MS ! nat (min (max 0 (n - 1)) (int (length SOLANA_RETRY_DELAYS_MS) - 1)) \<le> max_safe"
    "0 \<le> SOLANA_RETRY_DELAYS_MS ! nat (min (max 0 (n - 1)) (int (length SOLANA_RETRY_DELAYS_MS) - 1))" by simp_all
  have e: "\<forall>d\<in>set EVM_RETRY_DELAYS_MS. d \<le> max_safe \<and> 0 \<le> d" and "EVM_RETRY_DELAYS_MS \<noteq> []"
    by (simp_all add: EVM_RETRY_DELAYS_MS_def max_safe_def)
  from bspec [OF e delay_in_table [OF this(2)], of n] show
    "EVM_RETRY_DELAYS_MS ! nat (min (max 0 (n - 1)) (int (length EVM_RETRY_DELAYS_MS) - 1)) \<le> max_safe"
    "0 \<le> EVM_RETRY_DELAYS_MS ! nat (min (max 0 (n - 1)) (int (length EVM_RETRY_DELAYS_MS) - 1))" by simp_all
qed

lemma runtime_plan_ok: "plan_ok runtime_config"
proof -
  have delay: "is_safe_integer (rp_retryDelayMs (chainObservationRetryPolicy input) n) \<and> 0 \<le> int_of (rp_retryDelayMs (chainObservationRetryPolicy input) n)"
    for input n
    by (simp add: chainObservationRetryPolicy_def Let_def retry_delays_ok abs_of_nonneg)
  have limit: "is_safe_integer (rp_maxAttempts (chainObservationRetryPolicy input)) \<and> 1 \<le> int_of (rp_maxAttempts (chainObservationRetryPolicy input))" for input
    by (auto simp: chainObservationRetryPolicy_def Let_def SOLANA_RETRY_DELAYS_MS_def EVM_RETRY_DELAYS_MS_def max_safe_def)
  then have plan: "retryPlan runtime_config job = Inr (Some (chainObservationRetryPolicy (jb_input job)))" for job
    by (simp add: retryPlan_def runtime_config_def not_less)
  show ?thesis
    using delay limit by (simp add: plan_ok_def attemptLimit_def nextRetry_def plan not_less Let_def)
qed

lemma fail_returns:
  assumes ok: "plan_ok cfg"
  shows "\<exists>j'. fail_job cfg att e j = (j', None)"
proof -
  define code where "code = (case errorCode e of None \<Rightarrow> ''OBSERVATION_ERROR'' | Some c \<Rightarrow> if c = [] then ''OBSERVATION_ERROR'' else c)"
  let ?j1 = "j\<lparr>jb_error := Some code\<rparr>"
  obtain limit where l: "attemptLimit cfg ?j1 = Inr limit" using plan_okD(1) [OF ok] by blast
  let ?j2 = "?j1\<lparr>jb_state := if jb_attempts ?j1 < limit then RETRY_WAIT else FAILED\<rparr>"
  obtain t where "nextRetry cfg att ?j2 = Inr t" using plan_okD(2) [OF ok] by blast
  with l show ?thesis unfolding fail_job_def code_def [symmetric] Let_def by simp
qed

lemma settle_returns:
  assumes "plan_ok cfg"
  shows "\<exists>j'. settle_job cfg att j = Inr j'"
proof -
  obtain limit t where "attemptLimit cfg j = Inr limit" "nextRetry cfg att j = Inr t" using plan_okD [OF assms] by blast
  then show ?thesis by (simp add: settle_job_def Let_def)
qed

lemma process_returns:
  assumes "plan_ok cfg"
  shows "\<exists>j'. process_job cfg att True job = (j', None)"
proof (cases "observe_phase cfg att (job\<lparr>jb_state := RUNNING, jb_attempts := jb_attempts job + 0\<rparr>)")
  case (Inl e)
  with fail_returns [OF assms] show ?thesis unfolding process_job_def Let_def by simp
next
  case (Inr seen)
  obtain ob r where seen: "seen = (ob, r)" by (cases seen)
  let ?job1 = "job\<lparr>jb_state := RUNNING, jb_attempts := jb_attempts job + 0, jb_observation := ob, jb_result := r\<rparr>"
  obtain j' where s: "settle_job cfg att (?job1\<lparr>jb_error := None\<rparr>) = Inr j'" using settle_returns [OF assms] by blast
  have f: "\<exists>j'. fail_job cfg att e ?job1 = (j', None)" for e by (rule fail_returns [OF assms])
  show ?thesis
    using Inr s f unfolding process_job_def Let_def seen
    by (cases "wc_observerManagesEvidence cfg"; cases "at_saveObservation att ob") simp_all
qed

lemma run_progress:
  assumes ok: "plan_ok cfg" and j: "map_get q i = Some j" "jb_jobId j = i" and d: "due now j"
  shows "\<exists>j'. map_get (fst (runJob cfg now att i q)) i = Some j' \<and> jb_jobId j' = i \<and> jb_input j' = jb_input j
    \<and> jb_attempts j' = jb_attempts j + 1
    \<and> (terminal (jb_state j') \<or> (jb_state j' = RETRY_WAIT \<and> (\<exists>limit. attemptLimit cfg j = Inr limit \<and> jb_attempts j' < limit)))"
proof -
  let ?c = "claimed now j"
  obtain j' where p: "process_job cfg (att ?c) True ?c = (j', None)" using process_returns [OF ok] by blast
  then have o: "outcome_ok cfg ?c j'" by (rule process_outcome)
  then have id: "jb_jobId j' = i" using j(2) by (simp add: outcome_ok_def same_job_def claimed_def)
  have "fst (runJob cfg now att i q) = saveJob j' (map_set i ?c q)"
    using j d p by (simp add: runJob_def claimJob_def)
  moreover have "attemptLimit cfg ?c = attemptLimit cfg j" by (rule attemptLimit_input) (simp add: claimed_def)
  moreover have "jb_attempts ?c = jb_attempts j + 1" "jb_input ?c = jb_input j" by (simp_all add: claimed_def)
  ultimately show ?thesis using o id by (auto simp: saveJob_def outcome_ok_def same_job_def)
qed

lemma run_terminal:
  "map_get q i = Some j \<Longrightarrow> terminal (jb_state j) \<Longrightarrow> fst (runJob cfg now att i q) = q"
  by (cases "jb_state j") (simp_all add: runJob_def claimJob_def due_def)

text \<open>Rounds: the times at which a job is run and the attempts made then; each comes when the job is due.\<close>

primrec run_rounds :: "worker_config \<Rightarrow> string \<Rightarrow> (int \<times> attempt) list \<Rightarrow> job_queue \<Rightarrow> job_queue" where
  "run_rounds cfg i [] q = q"
| "run_rounds cfg i (r # rs) q = run_rounds cfg i rs (fst (runJob cfg (fst r) (\<lambda>j. snd r) i q))"

primrec rounds_due :: "worker_config \<Rightarrow> string \<Rightarrow> (int \<times> attempt) list \<Rightarrow> job_queue \<Rightarrow> bool" where
  "rounds_due cfg i [] q = True"
| "rounds_due cfg i (r # rs) q = ((case map_get q i of None \<Rightarrow> False
       | Some j \<Rightarrow> terminal (jb_state j) \<or> jb_nextAttemptAt j \<le> fst r)
     \<and> rounds_due cfg i rs (fst (runJob cfg (fst r) (\<lambda>j. snd r) i q)))"

lemma rounds_terminal:
  "map_get q i = Some j \<Longrightarrow> terminal (jb_state j) \<Longrightarrow> run_rounds cfg i rs q = q"
  by (induction rs arbitrary: q) (simp_all add: run_terminal)

lemma rounds_end:
  assumes "plan_ok cfg" "map_get q i = Some j" "jb_jobId j = i" "attemptLimit cfg j = Inr limit"
    and "terminal (jb_state j) \<or> (runnable (jb_state j) \<and> jb_attempts j < limit)"
    and "limit - jb_attempts j \<le> int (length rs)" "rounds_due cfg i rs q" "jb_attempts j \<le> limit"
  shows "\<exists>j'. map_get (run_rounds cfg i rs q) i = Some j' \<and> terminal (jb_state j') \<and> jb_attempts j' \<le> limit"
  using assms
proof (induction rs arbitrary: q j)
  case (Cons r rs)
  show ?case
  proof (cases "terminal (jb_state j)")
    case True
    from rounds_terminal [OF Cons.prems(2) this, of cfg "r # rs"] True Cons.prems(2,8) show ?thesis by simp
  next
    case False
    with Cons.prems have d: "due (fst r) j" "jb_attempts j < limit" by (simp_all add: due_def)
    let ?q = "fst (runJob cfg (fst r) (\<lambda>j. snd r) i q)"
    from run_progress [OF Cons.prems(1-3) d(1), of "\<lambda>j. snd r"] Cons.prems(4)
    obtain j' where j': "map_get ?q i = Some j'" "jb_jobId j' = i" "jb_input j' = jb_input j" "jb_attempts j' = jb_attempts j + 1"
      "terminal (jb_state j') \<or> (jb_state j' = RETRY_WAIT \<and> jb_attempts j' < limit)" by auto
    have l: "attemptLimit cfg j' = Inr limit" using Cons.prems(4) attemptLimit_input [OF j'(3)] by simp
    have st: "terminal (jb_state j') \<or> (runnable (jb_state j') \<and> jb_attempts j' < limit)" using j'(5) by auto
    have "limit - jb_attempts j' \<le> int (length rs)" "rounds_due cfg i rs ?q" "jb_attempts j' \<le> limit"
      using Cons.prems(6,7) j'(4) d(2) by simp_all
    from Cons.IH [OF Cons.prems(1) j'(1,2) l st this] show ?thesis by simp
  qed
qed auto

section \<open>Properties\<close>

text \<open>C16. However enqueueing, claiming, finishing and losing workers interleave: jobs are stored under
  their identifiers, no job is attempted more often than its limit and one that waits has attempts left,
  no two jobs share an idempotency key, no two unfinished ones a coalesce key, and every copy in
  flight is the stored running job, with at most one copy of each.\<close>

theorem queue_consistent:
  assumes "1 \<le> wc_maxAttempts cfg" "queue_reachable cfg (q, copies)"
  shows "each_ok cfg q \<and> pairs_apart q \<and> flight_ok q copies"
  using reachable_ok [OF limit_positiveI [OF assms(1)] assms(2)] by (simp add: queue_ok_def)

text \<open>C17. A job that is run each time it is due comes to an end: after as many rounds as it has
  attempts left, at the latest, its state is terminal, whatever the observer answers or throws.\<close>

theorem jobs_come_to_an_end:
  assumes "plan_ok cfg" "map_get q i = Some j" "jb_jobId j = i" "runnable (jb_state j)"
    and "attemptLimit cfg j = Inr limit" "jb_attempts j < limit"
    and "rounds_due cfg i rounds q" "limit - jb_attempts j \<le> int (length rounds)"
  shows "\<exists>j'. map_get (run_rounds cfg i rounds q) i = Some j' \<and> terminal (jb_state j') \<and> jb_attempts j' \<le> limit"
  using assms by (intro rounds_end) auto

definition sample_input :: jsval where
  "sample_input = Obj [(''chainId'', Num 1), (''txHash'', Str ''0xab'')]"

definition sample_queue :: job_queue where
  "sample_queue = fst (enqueuePersistent ''j1'' 0 sample_input [])"

definition timed_out :: "int \<Rightarrow> int \<times> attempt" where
  "timed_out now = (now, \<lparr>at_clock = now, at_jitter = 1 / 2, at_observe = (\<lambda>i. Inl (CodedError ''RPC_TIMEOUT'')),
     at_getObservation = None, at_saveObservation = (\<lambda>v. Inr ())\<rparr>)"

definition five_timeouts :: "(int \<times> attempt) list" where
  "five_timeouts = map timed_out [0, 10000, 50000, 200000, 500000]"

lemma queue_consistent_witness:
  "each_ok runtime_config sample_queue \<and> pairs_apart sample_queue \<and> flight_ok sample_queue []"
proof -
  have "queue_step runtime_config ([], []) (sample_queue, [])"
    by (rule queue_step.enqueues [of "[]" "''j1''" 0 sample_input _ "snd (enqueuePersistent ''j1'' 0 sample_input [])"])
      (simp_all add: sample_queue_def)
  then have "queue_reachable runtime_config (sample_queue, [])"
    by (rule queue_reachable.step [OF queue_reachable.empty])
  from queue_consistent [OF _ this] show ?thesis by (simp add: runtime_config_def)
qed

lemma sample_rounds:
  "map_get sample_queue ''j1'' = Some (new_job ''j1'' 0 sample_input)"
  "attemptLimit runtime_config (new_job ''j1'' 0 sample_input) = Inr 5"
  "rounds_due runtime_config ''j1'' five_timeouts sample_queue"
  by code_simp+

lemma jobs_come_to_an_end_witness:
  "\<exists>j. map_get (run_rounds runtime_config ''j1'' five_timeouts sample_queue) ''j1'' = Some j
    \<and> terminal (jb_state j) \<and> jb_attempts j \<le> 5"
  by (rule jobs_come_to_an_end [OF runtime_plan_ok sample_rounds(1) _ _ sample_rounds(2) _ sample_rounds(3)])
    (simp_all add: new_job_def five_timeouts_def)

end
