(* ===== verification/Signing.thy ===== *)
theory Signing
  imports Json
begin

text \<open>
  src/domain/ed25519.mjs: signed JSON statements.  The key parser and the Ed25519 primitives of
  node:crypto are the parameter \<^verbatim>\<open>ed25519\<close>; a signature is a list of bytes.  base64url, part of
  the language's library, is modelled.  Shown: base64url round trips, a signed statement verifies under
  the matching key, and a verified signature is the canonical text of 64 bytes over the statement
  without its signature.
\<close>

section \<open>Parameters\<close>

text \<open>
  Parsing a key gives its type and the key, or throws; \<^verbatim>\<open>ed_spki\<close> is the DER export of a public key
  and \<^verbatim>\<open>ed_derived\<close> that of the public key of a private one.
\<close>

record ed25519 =
  ed_privateKey :: "jsval \<Rightarrow> (string \<times> string) result"
  ed_publicKey :: "jsval \<Rightarrow> (string \<times> string) result"
  ed_sign :: "string \<Rightarrow> string \<Rightarrow> nat list"
  ed_verify :: "string \<Rightarrow> string \<Rightarrow> nat list \<Rightarrow> bool"
  ed_spki :: "string \<Rightarrow> string"
  ed_derived :: "string \<Rightarrow> string"

section \<open>base64url\<close>

definition b64_alphabet :: string where
  "b64_alphabet = ''ABCDEFGHIJKLMNOPQRSTUVWXYZabcdefghijklmnopqrstuvwxyz0123456789-_''"

definition b64_char :: "nat \<Rightarrow> char" where
  "b64_char n = b64_alphabet ! n"

definition b64_val :: "char \<Rightarrow> nat" where
  "b64_val c = length (takeWhile (\<lambda>d. d \<noteq> c) b64_alphabet)"

fun b64_encode :: "nat list \<Rightarrow> string" where
  "b64_encode [] = []"
| "b64_encode [a] = [b64_char (a div 4), b64_char (a mod 4 * 16)]"
| "b64_encode [a, b] = [b64_char (a div 4), b64_char (a mod 4 * 16 + b div 16), b64_char (b mod 16 * 4)]"
| "b64_encode (a # b # c # rest) =
     b64_char (a div 4) # b64_char (a mod 4 * 16 + b div 16) # b64_char (b mod 16 * 4 + c div 64) # b64_char (c mod 64)
     # b64_encode rest"

text \<open>\<^verbatim>\<open>Buffer.from(s, "base64url")\<close> for a text over the alphabet.\<close>

fun b64_bytes :: "nat list \<Rightarrow> nat list" where
  "b64_bytes (p # q # r # s # rest) = (p * 4 + q div 16) # (q mod 16 * 16 + r div 4) # (r mod 4 * 64 + s) # b64_bytes rest"
| "b64_bytes [p, q, r] = [p * 4 + q div 16, q mod 16 * 16 + r div 4]"
| "b64_bytes [p, q] = [p * 4 + q div 16]"
| "b64_bytes _ = []"

definition b64_decode :: "string \<Rightarrow> nat list" where
  "b64_decode s = b64_bytes (map b64_val s)"

definition ED25519_SIGNATURE_RE :: "string \<Rightarrow> bool" where
  "ED25519_SIGNATURE_RE s = (length s = 86 \<and> list_all (\<lambda>c. c \<in> set b64_alphabet) s)"

section \<open>Signed statements\<close>

definition unsigned_statement :: "jsval \<Rightarrow> jsval" where
  "unsigned_statement statement = without_field (orElse statement (Obj [])) ''signature''"

definition signEd25519Statement :: "ed25519 \<Rightarrow> jsval \<Rightarrow> jsval \<Rightarrow> jsval result" where
  "signEd25519Statement ed statement privateKeyPem = (
     let unsigned = unsigned_statement statement in
     letE (ed_privateKey ed privateKeyPem) (\<lambda>(kind, key).
     if kind \<noteq> ''ed25519'' then Inl TypeErr else
     letE (canonicalize unsigned) (\<lambda>text.
     Inr (with_field unsigned ''signature'' (Str (b64_encode (ed_sign ed key text)))))))"

definition verifyEd25519Statement :: "ed25519 \<Rightarrow> jsval \<Rightarrow> jsval \<Rightarrow> bool" where
  "verifyEd25519Statement ed statement publicKeyPem = (
     let signature = fld (orElse statement (Obj [])) ''signature'' in
     if \<not> is_str signature \<or> \<not> ED25519_SIGNATURE_RE (str_of signature) then False else
     let signatureBytes = b64_decode (str_of signature) in
     if length signatureBytes \<noteq> 64 \<or> b64_encode signatureBytes \<noteq> str_of signature then False else
     (case ed_publicKey ed publicKeyPem of
        Inl e \<Rightarrow> False
      | Inr (kind, key) \<Rightarrow> if kind \<noteq> ''ed25519'' then False else
          (case canonicalize (unsigned_statement statement) of
             Inl e \<Rightarrow> False
           | Inr text \<Rightarrow> ed_verify ed key text signatureBytes)))"

definition assertEd25519KeyPair :: "ed25519 \<Rightarrow> jsval \<Rightarrow> jsval \<Rightarrow> bool result" where
  "assertEd25519KeyPair ed privateKeyPem publicKeyPem =
     letE (ed_privateKey ed privateKeyPem) (\<lambda>(privateKind, privateKey).
     letE (ed_publicKey ed publicKeyPem) (\<lambda>(publicKind, publicKey).
     if privateKind \<noteq> ''ed25519'' \<or> publicKind \<noteq> ''ed25519'' then Inl TypeErr else
     if ed_derived ed privateKey \<noteq> ed_spki ed publicKey then Inl TypeErr else Inr True))"

section \<open>base64url round trips\<close>

lemma length_alphabet [simp]: "length b64_alphabet = 64"
  by (simp add: b64_alphabet_def)

lemma distinct_alphabet: "distinct b64_alphabet"
  by code_simp

lemma b64_val_char [simp]:
  assumes "n < 64"
  shows "b64_val (b64_char n) = n"
proof -
  have "takeWhile (\<lambda>d. d \<noteq> b64_alphabet ! n) b64_alphabet = take n b64_alphabet"
  proof (rule takeWhile_eq_take_P_nth)
    fix i assume "i < n" "i < length b64_alphabet"
    then show "b64_alphabet ! i \<noteq> b64_alphabet ! n"
      using distinct_alphabet assms by (simp add: nth_eq_iff_index_eq)
  next
    assume "n < length b64_alphabet"
    then show "\<not> b64_alphabet ! n \<noteq> b64_alphabet ! n" by simp
  qed
  with assms show ?thesis by (simp add: b64_val_def b64_char_def)
qed

lemma b64_char_mem [simp]: "n < 64 \<Longrightarrow> b64_char n \<in> set b64_alphabet"
  by (simp add: b64_char_def)

lemma byte_parts:
  fixes a b :: nat
  assumes "a < 256" "b < 256"
  shows "a div 4 < 64" "a mod 4 * 16 + b div 16 < 64" "b mod 16 * 4 + a div 64 < 64" "a mod 4 * 16 < 64" "b mod 16 * 4 < 64" "a mod 64 < 64"
  using assms by auto

lemma byte_div: "(a::nat) < 256 \<Longrightarrow> a div 4 < 64"
  by simp

lemma b64_round_trip: "\<forall>b\<in>set bs. b < 256 \<Longrightarrow> b64_decode (b64_encode bs) = bs"
  by (induction bs rule: b64_encode.induct) (auto simp: b64_decode_def byte_parts)

lemma b64_encode_alphabet: "\<forall>b\<in>set bs. b < 256 \<Longrightarrow> list_all (\<lambda>c. c \<in> set b64_alphabet) (b64_encode bs)"
proof (induction bs rule: b64_encode.induct)
  case (2 a)
  then show ?case by (simp add: byte_parts)
next
  case (3 a b)
  then show ?case using byte_parts [of a b] byte_parts [of b a] byte_div [of a] by simp
next
  case (4 a b c r)
  then show ?case using byte_parts [of a b] byte_parts [of c b] byte_div [of a] by simp
qed simp

lemma length_b64_encode: "length (b64_encode bs) = (4 * length bs + 2) div 3"
  by (induction bs rule: b64_encode.induct) simp_all

section \<open>Signing and verifying\<close>

text \<open>What Ed25519 promises of a key pair: 64 bytes, accepted for the same msg.\<close>

definition key_pair :: "ed25519 \<Rightarrow> jsval \<Rightarrow> jsval \<Rightarrow> bool" where
  "key_pair ed privateKeyPem publicKeyPem = (\<exists>k p. ed_privateKey ed privateKeyPem = Inr (''ed25519'', k)
     \<and> ed_publicKey ed publicKeyPem = Inr (''ed25519'', p)
     \<and> (\<forall>msg. length (ed_sign ed k msg) = 64 \<and> (\<forall>b\<in>set (ed_sign ed k msg). b < 256)
          \<and> ed_verify ed p msg (ed_sign ed k msg)))"

lemma filter_set_field: "filter (\<lambda>kv. fst kv \<noteq> k) (set_field k v (filter (\<lambda>kv. fst kv \<noteq> k) kvs)) = filter (\<lambda>kv. fst kv \<noteq> k) kvs"
  by (induction kvs) auto

lemma without_obj: "\<exists>kvs. without_field v k = Obj kvs"
  by (cases v) (simp_all add: without_field_def)

lemma unsigned_signed: "unsigned_statement (with_field (unsigned_statement st) ''signature'' s) = unsigned_statement st"
  by (cases "orElse st (Obj [])") (simp_all add: unsigned_statement_def without_field_def with_field_def filter_set_field)

lemma fld_unsigned: "k \<noteq> ''signature'' \<Longrightarrow> is_obj st \<Longrightarrow> fld (unsigned_statement st) k = fld st k"
  by (auto simp: unsigned_statement_def fld_without_field elim!: is_objE)

lemma signed_statement:
  assumes "signEd25519Statement ed st privateKeyPem = Inr signed"
  shows "unsigned_statement signed = unsigned_statement st" "is_obj signed" "is_str (fld signed ''signature'')"
    "k \<noteq> ''signature'' \<Longrightarrow> fld signed k = fld (unsigned_statement st) k"
proof -
  obtain kvs where u: "unsigned_statement st = Obj kvs"
    using without_obj unfolding unsigned_statement_def by blast
  from assms obtain bs where s: "signed = with_field (unsigned_statement st) ''signature'' (Str (b64_encode bs))"
    by (auto simp: signEd25519Statement_def Let_def letE_eq_Inr split: prod.splits if_splits)
  show "unsigned_statement signed = unsigned_statement st" unfolding s by (rule unsigned_signed)
  show "is_obj signed" by (simp add: s u with_field_def)
  show "is_str (fld signed ''signature'')" by (simp add: s u fld_with_field)
  show "fld signed k = fld (unsigned_statement st) k" if "k \<noteq> ''signature''" using that by (simp add: s u fld_with_field)
qed

text \<open>A statement signed with the private key of a pair verifies with the public one.\<close>

lemma signed_verifies:
  assumes pair: "key_pair ed privateKeyPem publicKeyPem" and s: "signEd25519Statement ed st privateKeyPem = Inr signed"
  shows "verifyEd25519Statement ed signed publicKeyPem" "truthy (fld signed ''signature'')"
proof -
  from pair obtain k p where kp: "ed_privateKey ed privateKeyPem = Inr (''ed25519'', k)" "ed_publicKey ed publicKeyPem = Inr (''ed25519'', p)"
    "\<And>msg. length (ed_sign ed k msg) = 64" "\<And>msg. \<forall>b\<in>set (ed_sign ed k msg). b < 256" "\<And>msg. ed_verify ed p msg (ed_sign ed k msg)"
    unfolding key_pair_def by blast
  obtain kvs where u: "unsigned_statement st = Obj kvs"
    using without_obj unfolding unsigned_statement_def by blast
  from s kp(1) obtain msg where t: "canonicalize (unsigned_statement st) = Inr msg"
    and signed: "signed = with_field (unsigned_statement st) ''signature'' (Str (b64_encode (ed_sign ed k msg)))"
    by (auto simp: signEd25519Statement_def Let_def letE_eq_Inr)
  let ?sig = "b64_encode (ed_sign ed k msg)"
  have len: "length ?sig = 86" using kp(3) by (simp add: length_b64_encode)
  have "orElse signed (Obj []) = signed" "fld signed ''signature'' = Str ?sig"
    by (simp_all add: signed u with_field_def fld_set_field)
  moreover have "ED25519_SIGNATURE_RE ?sig" using b64_encode_alphabet [OF kp(4)] len by (simp add: ED25519_SIGNATURE_RE_def)
  moreover have "unsigned_statement signed = unsigned_statement st" unfolding signed by (rule unsigned_signed)
  ultimately show "verifyEd25519Statement ed signed publicKeyPem"
    using kp t b64_round_trip [OF kp(4), of msg] by (simp add: verifyEd25519Statement_def)
  show "truthy (fld signed ''signature'')" using \<open>fld signed _ = _\<close> len by auto
qed

text \<open>Signing keeps a statement safe JSON, and adds no field but the signature.\<close>

lemma set_set_field: "set (set_field k v kvs) \<subseteq> insert (k, v) (set kvs)"
  by (induction k v kvs rule: set_field.induct) auto

lemma signed_fields:
  assumes "signEd25519Statement ed st privateKeyPem = Inr signed" "st = Obj kvs"
  obtains s kvs' where "signed = Obj kvs'" "set kvs' \<subseteq> insert (''signature'', Str s) (set kvs)"
proof -
  from assms obtain s where "signed = with_field (unsigned_statement st) ''signature'' (Str s)"
    by (auto simp: signEd25519Statement_def Let_def letE_eq_Inr split: prod.splits if_splits)
  then have "signed = Obj (set_field ''signature'' (Str s) (filter (\<lambda>kv. fst kv \<noteq> ''signature'') kvs))"
    by (simp add: assms(2) unsigned_statement_def without_field_def with_field_def)
  moreover have "set (set_field ''signature'' (Str s) (filter (\<lambda>kv. fst kv \<noteq> ''signature'') kvs)) \<subseteq> insert (''signature'', Str s) (set kvs)"
    using set_set_field [of "''signature''" "Str s" "filter (\<lambda>kv. fst kv \<noteq> ''signature'') kvs"] by auto
  ultimately show ?thesis by (rule that)
qed

lemma signed_safe:
  assumes "signEd25519Statement ed st privateKeyPem = Inr signed" "is_obj st" "assertSafeJson st = Inr st"
  shows "assertSafeJson signed = Inr signed"
proof -
  from assms(2) obtain kvs where st: "st = Obj kvs" by (auto elim: is_objE)
  from signed_fields [OF assms(1) st] obtain s kvs' where s: "signed = Obj kvs'"
    "set kvs' \<subseteq> insert (''signature'', Str s) (set kvs)" by blast
  from assms(3) have "\<forall>kv\<in>set kvs. Suc (js_depth (snd kv)) \<le> 16 \<and> fst kv \<notin> set FORBIDDEN_KEYS \<and> clean_json (snd kv)"
    by (simp add: assertSafeJson_Inr safe_visit_iff st fold_max_le list_all_iff)
  then have "\<forall>kv\<in>set kvs'. Suc (js_depth (snd kv)) \<le> 16 \<and> fst kv \<notin> set FORBIDDEN_KEYS \<and> clean_json (snd kv)"
    using s(2) by (auto simp: FORBIDDEN_KEYS_def dest!: subsetD)
  then show ?thesis by (simp add: assertSafeJson_Inr safe_visit_iff s(1) fold_max_le list_all_iff)
qed

text \<open>What a verified statement is.\<close>

lemma verified_statement:
  assumes "verifyEd25519Statement ed st publicKeyPem"
  obtains key msg bytes where "ed_publicKey ed publicKeyPem = Inr (''ed25519'', key)"
    "canonicalize (unsigned_statement st) = Inr msg" "fld (orElse st (Obj [])) ''signature'' = Str (b64_encode bytes)"
    "length bytes = 64" "ed_verify ed key msg bytes"
proof -
  let ?sig = "fld (orElse st (Obj [])) ''signature''"
  from assms have sig: "is_str ?sig" "length (b64_decode (str_of ?sig)) = 64" "b64_encode (b64_decode (str_of ?sig)) = str_of ?sig"
    by (simp_all add: verifyEd25519Statement_def Let_def split: if_splits)
  have "\<exists>p. ed_publicKey ed publicKeyPem = Inr p"
    using assms sig by (cases "ed_publicKey ed publicKeyPem") (simp_all add: verifyEd25519Statement_def Let_def split: if_splits)
  then obtain kind key where k: "ed_publicKey ed publicKeyPem = Inr (kind, key)" by auto
  have "\<exists>msg. canonicalize (unsigned_statement st) = Inr msg"
    using assms sig k by (cases "canonicalize (unsigned_statement st)") (simp_all add: verifyEd25519Statement_def Let_def split: if_splits)
  then obtain msg where c: "canonicalize (unsigned_statement st) = Inr msg" by blast
  have "kind = ''ed25519''" "ed_verify ed key msg (b64_decode (str_of ?sig))"
    using assms sig k c by (simp_all add: verifyEd25519Statement_def Let_def split: if_splits)
  moreover have "?sig = Str (b64_encode (b64_decode (str_of ?sig)))" using sig(1,3) by (auto elim: is_strE)
  ultimately show ?thesis using that k c sig(2) by blast
qed

text \<open>A toy scheme on which the hypotheses about key pairs hold: any text is a key, every signature is zero bytes.\<close>

definition toy_scheme :: ed25519 where
  "toy_scheme = \<lparr>ed_privateKey = (\<lambda>pem. Inr (''ed25519'', str_of pem)), ed_publicKey = (\<lambda>pem. Inr (''ed25519'', str_of pem)),
     ed_sign = (\<lambda>k msg. replicate 64 0), ed_verify = (\<lambda>k msg bytes. bytes = replicate 64 0), ed_spki = (\<lambda>k. k), ed_derived = (\<lambda>k. k)\<rparr>"

lemma toy_key_pair: "key_pair toy_scheme a b"
  by (simp add: key_pair_def toy_scheme_def)

end
