(* ===== verification/Receipt.thy ===== *)
theory Receipt
  imports Signing Binding Values Atomic_Store
begin

text \<open>
  Execution receipts: src/domain/receipt.mjs, src/domain/receipt-verifier.mjs, the verification bundle
  (verification-bundle.mjs) and the issuer's key registry (key-registry.mjs).  Shown: a receipt that was
  built and signed verifies; what a verified receipt guarantees; the registry holds only well-formed keys.
\<close>

section \<open>Building\<close>

definition RECEIPT_SCHEMA :: string where
  "RECEIPT_SCHEMA = ''priorseal.execution-receipt.v1''"

definition RECEIPT_FIELDS :: "string list" where
  "RECEIPT_FIELDS = [''schema'', ''domain'', ''receiptId'', ''intentHash'', ''executionHash'', ''execution'', ''issuer'', ''issuedAt'',
     ''validUntil'', ''outcome'', ''reasonCodes'', ''binding'', ''algorithm'', ''keyId'', ''verifierVersion'', ''signature'']"

definition positive_time :: "jsval \<Rightarrow> bool" where
  "positive_time v = (is_safe_integer v \<and> 0 < int_of v)"

definition observed_at :: "jsval \<Rightarrow> jsval" where
  "observed_at execution = orElse (fld execution ''observedAt'') (fld execution ''executedAt'')"

definition issued_before :: "jsval \<Rightarrow> jsval \<Rightarrow> bool" where
  "issued_before issuedAt observedAt = (\<not> nullish observedAt \<and>
     (\<not> is_safe_integer observedAt \<or> js_less issuedAt observedAt))"

definition receipt_id :: "(string \<Rightarrow> string) \<Rightarrow> jsval \<Rightarrow> jsval \<Rightarrow> jsval \<Rightarrow> jsval \<Rightarrow> string result" where
  "receipt_id sha intentHash executionHash issuer keyId =
     letE (hashJson sha (Obj [(''intentHash'', intentHash), (''executionHash'', executionHash), (''issuer'', issuer), (''keyId'', keyId)])) (\<lambda>h.
     Inr (''psr_'' @ take 32 h))"

definition buildReceipt ::
  "(string \<Rightarrow> string) \<Rightarrow> jsval \<Rightarrow> jsval \<Rightarrow> jsval \<Rightarrow> jsval \<Rightarrow> jsval \<Rightarrow> jsval \<Rightarrow> jsval list \<Rightarrow> jsval result" where
  "buildReceipt sha intent execution issuer keyId issuedAt verifierVersion reasonCodes = (
     if \<not> positive_time issuedAt then Inl TypeErr else
     if issued_before issuedAt (observed_at execution) then Inl TypeErr else
     letE (bindIntentExecution intent execution) (\<lambda>binding.
     letE (hashJson sha execution) (\<lambda>executionHash.
     letE (receipt_id sha (fld intent ''intentHash'') (Str executionHash) issuer keyId) (\<lambda>receiptId.
     letE (classifyOutcome intent execution) (\<lambda>outcome.
     Inr (Obj [(''schema'', Str RECEIPT_SCHEMA), (''domain'', Str ''priorseal/execution-receipt/v1''), (''receiptId'', Str receiptId),
       (''intentHash'', fld intent ''intentHash''), (''executionHash'', Str executionHash), (''execution'', execution),
       (''issuer'', issuer), (''issuedAt'', issuedAt), (''validUntil'', fld intent ''validUntil''), (''outcome'', Str outcome),
       (''reasonCodes'', Arr (dedupe (reasonCodes @ elems (fld binding ''reasonCodes'')))), (''binding'', binding),
       (''algorithm'', Str ''Ed25519''), (''keyId'', keyId), (''verifierVersion'', verifierVersion)]))))))"

definition signReceipt :: "ed25519 \<Rightarrow> jsval \<Rightarrow> jsval \<Rightarrow> jsval result" where
  "signReceipt ed receipt privateKeyPem = signEd25519Statement ed receipt privateKeyPem"

definition verifySignature :: "ed25519 \<Rightarrow> jsval \<Rightarrow> jsval \<Rightarrow> bool" where
  "verifySignature ed receipt publicKeyPem = verifyEd25519Statement ed receipt publicKeyPem"

section \<open>Verifying\<close>

record verify_options =
  vo_keyId :: jsval
  vo_key :: jsval
  vo_now :: jsval

record receipt_reply =
  vr_valid :: bool
  vr_code :: string
  vr_outcome :: jsval
  vr_receiptId :: jsval

definition key_time_ok :: "jsval \<Rightarrow> bool" where
  "key_time_ok v = (nullish v \<or> positive_time v)"

definition validKeyWindow :: "jsval \<Rightarrow> bool" where
  "validKeyWindow key = (key_time_ok (fld key ''validFrom'') \<and> key_time_ok (fld key ''validUntil'')
     \<and> (nullish (fld key ''validFrom'') \<or> nullish (fld key ''validUntil'') \<or> js_leq (fld key ''validFrom'') (fld key ''validUntil'')))"

text \<open>The tests of lines 16 to 31 before the hashes: the code of the first that fails.\<close>

definition receipt_rejection :: "jsval \<Rightarrow> verify_options \<Rightarrow> string option" where
  "receipt_rejection receipt opts = (
     let key = vo_key opts; issuedAt = fld receipt ''issuedAt''; validUntil = fld receipt ''validUntil'' in
     if assertSafeJson receipt \<noteq> Inr receipt then Some ''INVALID_RECEIPT'' else
     if \<not> truthy (fld receipt ''signature'') then Some ''MISSING_SIGNATURE'' else
     if fld receipt ''schema'' \<noteq> Str RECEIPT_SCHEMA then Some ''UNSUPPORTED_SCHEMA'' else
     if fld receipt ''algorithm'' \<noteq> Str ''Ed25519'' then Some ''UNSUPPORTED_ALGORITHM'' else
     if fld receipt ''domain'' \<noteq> Str ''priorseal/execution-receipt/v1'' then Some ''INVALID_DOMAIN'' else
     if assertOnlyFields receipt RECEIPT_FIELDS \<noteq> Inr receipt then Some ''INVALID_RECEIPT'' else
     if truthy (vo_keyId opts) \<and> \<not> js_eq (fld receipt ''keyId'') (vo_keyId opts) then Some ''UNKNOWN_KEY'' else
     if truthy key \<and> \<not> js_eq (fld key ''keyId'') (fld receipt ''keyId'') then Some ''UNKNOWN_KEY'' else
     if truthy key \<and> (fld key ''algorithm'' \<noteq> Str ''Ed25519'' \<or> \<not> is_any (fld key ''status'') [''active'', ''retired'']
          \<or> \<not> js_eq (fld key ''issuer'') (fld receipt ''issuer'') \<or> \<not> validKeyWindow key) then Some ''INVALID_KEY'' else
     if \<not> nullish (fld key ''validFrom'') \<and> js_less issuedAt (fld key ''validFrom'') then Some ''KEY_NOT_YET_VALID'' else
     if \<not> nullish (fld key ''validUntil'') \<and> js_less (fld key ''validUntil'') issuedAt then Some ''KEY_EXPIRED'' else
     if vo_now opts \<noteq> Undef \<and> js_less (vo_now opts) issuedAt then Some ''NOT_YET_VALID'' else
     if \<not> positive_time issuedAt \<or> \<not> positive_time validUntil then Some ''INVALID_RECEIPT_TIMELINE'' else
     if issued_before issuedAt (observed_at (fld receipt ''execution'')) then Some ''INVALID_RECEIPT_TIMELINE'' else None)"

definition receipt_reply_of :: "jsval \<Rightarrow> bool \<Rightarrow> string \<Rightarrow> receipt_reply" where
  "receipt_reply_of receipt valid code = \<lparr>vr_valid = valid, vr_code = code, vr_outcome = fld receipt ''outcome'',
     vr_receiptId = fld receipt ''receiptId''\<rparr>"

definition verifyReceipt ::
  "(string \<Rightarrow> string) \<Rightarrow> ed25519 \<Rightarrow> jsval \<Rightarrow> jsval \<Rightarrow> verify_options \<Rightarrow> receipt_reply result" where
  "verifyReceipt sha ed receipt publicKeyPem opts = (
     let fail = (\<lambda>code. Inr (receipt_reply_of receipt False code)) in
     case receipt_rejection receipt opts of Some code \<Rightarrow> fail code | None \<Rightarrow>
     letE (hashJson sha (fld receipt ''execution'')) (\<lambda>executionHash.
     if fld receipt ''executionHash'' \<noteq> Str executionHash then fail ''EXECUTION_HASH_MISMATCH'' else
     letE (receipt_id sha (fld receipt ''intentHash'') (fld receipt ''executionHash'') (fld receipt ''issuer'') (fld receipt ''keyId'')) (\<lambda>expected.
     if fld receipt ''receiptId'' \<noteq> Str expected then fail ''RECEIPT_ID_MISMATCH'' else
     if verifySignature ed receipt publicKeyPem then Inr (receipt_reply_of receipt True ''OK'') else fail ''INVALID_SIGNATURE'')))"

section \<open>Verification bundles\<close>

definition VERIFICATION_BUNDLE_SCHEMA :: string where
  "VERIFICATION_BUNDLE_SCHEMA = ''priorseal.verification-bundle.v1''"

definition VERIFICATION_BUNDLE_TRUST :: jsval where
  "VERIFICATION_BUNDLE_TRUST = Obj [(''model'', Str ''PIN_ISSUER_KEY_OUT_OF_BAND''),
     (''notice'', Str ''Bundled keys are discovery metadata, not an independent trust anchor.'')]"

definition buildVerificationBundle :: "(string \<Rightarrow> string) \<Rightarrow> jsval \<Rightarrow> jsval \<Rightarrow> jsval \<Rightarrow> jsval \<Rightarrow> jsval result" where
  "buildVerificationBundle sha receipt keyRegistry assembledAt paymentEvidence = (
     if \<not> is_obj receipt then Inl TypeErr else
     if \<not> truthy keyRegistry \<or> fld keyRegistry ''schema'' \<noteq> Str ''priorseal.keys.v1'' \<or> \<not> is_arr (fld keyRegistry ''keys'') then Inl TypeErr else
     if \<not> is_safe_integer assembledAt \<or> int_of assembledAt < 0 then Inl TypeErr else
     let unsigned = [(''schema'', Str VERIFICATION_BUNDLE_SCHEMA), (''receipt'', receipt), (''keyRegistry'', keyRegistry),
           (''assembledAt'', assembledAt), (''trust'', VERIFICATION_BUNDLE_TRUST)]
         @ spread_if (paymentEvidence \<noteq> Undef) [(''paymentEvidence'', paymentEvidence)] in
     letE (hashJson sha (Obj unsigned)) (\<lambda>h. Inr (Obj (unsigned @ [(''bundleHash'', Str h)]))))"

section \<open>Key registry\<close>

type_synonym key_registry = "(jsval, jsval) js_map"

definition addEntry :: "jsval \<Rightarrow> key_registry \<Rightarrow> key_registry result" where
  "addEntry entry keys = (
     if \<not> truthy (fld entry ''keyId'') \<or> \<not> truthy (fld entry ''issuer'') \<or> fld entry ''algorithm'' \<noteq> Str ''Ed25519''
        \<or> \<not> truthy (fld entry ''publicKey'') then Inl TypeErr else
     if truthy (fld entry ''status'') \<and> \<not> is_any (fld entry ''status'') [''active'', ''retired'', ''revoked''] then Inl TypeErr else
     if \<not> key_time_ok (fld entry ''validFrom'') \<or> \<not> key_time_ok (fld entry ''validUntil'') then Inl TypeErr else
     if \<not> nullish (fld entry ''validFrom'') \<and> \<not> nullish (fld entry ''validUntil'')
        \<and> js_less (fld entry ''validUntil'') (fld entry ''validFrom'') then Inl TypeErr else
     Inr (map_set (fld entry ''keyId'')
       (with_field (with_field (with_field entry ''status'' (orElse (fld entry ''status'') (Str ''active'')))
          ''validFrom'' (orElse (fld entry ''validFrom'') Null)) ''validUntil'' (orElse (fld entry ''validUntil'') Null)) keys))"

primrec createKeyRegistry :: "jsval list \<Rightarrow> key_registry \<Rightarrow> key_registry result" where
  "createKeyRegistry [] keys = Inr keys"
| "createKeyRegistry (entry # entries) keys = letE (addEntry entry keys) (\<lambda>keys'. createKeyRegistry entries keys')"

definition getKey :: "jsval \<Rightarrow> key_registry \<Rightarrow> jsval option" where
  "getKey keyId keys = map_get keys keyId"

definition listKeys :: "key_registry \<Rightarrow> jsval list" where
  "listKeys keys = map (\<lambda>entry. without_field entry ''privateKeyPem'') (map_values keys)"

section \<open>Built receipts\<close>

lemmas receipt_constants = RECEIPT_SCHEMA_def RECEIPT_FIELDS_def

text \<open>The fields of a built receipt, as the verifier reads them.\<close>

lemma built_receipt:
  assumes "buildReceipt sha intent execution issuer keyId issuedAt verifierVersion reasonCodes = Inr r"
  shows "is_obj r" "fld r ''signature'' = Undef" "set (map fst (props r)) \<subseteq> set RECEIPT_FIELDS"
    "fld r ''schema'' = Str RECEIPT_SCHEMA" "fld r ''algorithm'' = Str ''Ed25519''" "fld r ''domain'' = Str ''priorseal/execution-receipt/v1''"
    "fld r ''execution'' = execution" "fld r ''issuer'' = issuer" "fld r ''keyId'' = keyId" "fld r ''issuedAt'' = issuedAt"
    "fld r ''validUntil'' = fld intent ''validUntil''" "fld r ''intentHash'' = fld intent ''intentHash''"
    "positive_time issuedAt" "\<not> issued_before issuedAt (observed_at execution)"
    "\<exists>h. hashJson sha execution = Inr h \<and> fld r ''executionHash'' = Str h
      \<and> (\<exists>i. receipt_id sha (fld intent ''intentHash'') (Str h) issuer keyId = Inr i \<and> fld r ''receiptId'' = Str i)"
  using assms unfolding buildReceipt_def by (elim guard_InrE letE_InrE Inr_InrE; simp add: receipt_constants)+

text \<open>What the verifier reads of a signed receipt is what was built.\<close>

lemma signed_receipt_fields:
  assumes "buildReceipt sha intent execution issuer keyId issuedAt verifierVersion reasonCodes = Inr r"
    "signReceipt ed r privateKeyPem = Inr signed"
  shows "k \<noteq> ''signature'' \<Longrightarrow> fld signed k = fld r k" "assertOnlyFields signed RECEIPT_FIELDS = Inr signed"
proof -
  note r = built_receipt [OF assms(1)]
  from r(1) obtain kvs where kvs: "r = Obj kvs" by (auto elim: is_objE)
  show "fld signed k = fld r k" if "k \<noteq> ''signature''"
    using signed_statement(4) [OF assms(2) [unfolded signReceipt_def] that] fld_unsigned [OF that r(1)] by simp
  from signed_fields [OF assms(2) [unfolded signReceipt_def] kvs] obtain s kvs' where
    s: "signed = Obj kvs'" "set kvs' \<subseteq> insert (''signature'', Str s) (set kvs)" by blast
  have "fst ` set kvs \<subseteq> set RECEIPT_FIELDS" using r(3) by (simp add: kvs)
  moreover have "''signature'' \<in> set RECEIPT_FIELDS" by (simp add: RECEIPT_FIELDS_def)
  ultimately have "fst ` insert (''signature'', Str s) (set kvs) \<subseteq> set RECEIPT_FIELDS" by simp
  with image_mono [OF s(2)] have "fst ` set kvs' \<subseteq> set RECEIPT_FIELDS" by (rule subset_trans)
  then show "assertOnlyFields signed RECEIPT_FIELDS = Inr signed" by (simp add: assertOnlyFields_Inr s(1))
qed

section \<open>Verified receipts\<close>

text \<open>What a receipt that verified guarantees, the collision resistance of the hash aside.\<close>

definition receipt_genuine :: "(string \<Rightarrow> string) \<Rightarrow> ed25519 \<Rightarrow> jsval \<Rightarrow> jsval \<Rightarrow> verify_options \<Rightarrow> bool" where
  "receipt_genuine sha ed receipt publicKeyPem opts = (
     verifyEd25519Statement ed receipt publicKeyPem
     \<and> hashJson sha (fld receipt ''execution'') = Inr (str_of (fld receipt ''executionHash''))
     \<and> receipt_id sha (fld receipt ''intentHash'') (fld receipt ''executionHash'') (fld receipt ''issuer'') (fld receipt ''keyId'')
         = Inr (str_of (fld receipt ''receiptId''))
     \<and> positive_time (fld receipt ''issuedAt'') \<and> positive_time (fld receipt ''validUntil'')
     \<and> \<not> issued_before (fld receipt ''issuedAt'') (observed_at (fld receipt ''execution''))
     \<and> (truthy (vo_keyId opts) \<longrightarrow> js_eq (fld receipt ''keyId'') (vo_keyId opts))
     \<and> (truthy (vo_key opts) \<longrightarrow> js_eq (fld (vo_key opts) ''keyId'') (fld receipt ''keyId'')
          \<and> js_eq (fld (vo_key opts) ''issuer'') (fld receipt ''issuer'') \<and> validKeyWindow (vo_key opts)
          \<and> is_any (fld (vo_key opts) ''status'') [''active'', ''retired'']))"

lemma not_rejected:
  assumes "receipt_rejection receipt opts = None"
  shows "positive_time (fld receipt ''issuedAt'')" "positive_time (fld receipt ''validUntil'')"
    "\<not> issued_before (fld receipt ''issuedAt'') (observed_at (fld receipt ''execution''))"
    "truthy (vo_keyId opts) \<longrightarrow> js_eq (fld receipt ''keyId'') (vo_keyId opts)"
    "truthy (vo_key opts) \<longrightarrow> js_eq (fld (vo_key opts) ''keyId'') (fld receipt ''keyId'')
       \<and> js_eq (fld (vo_key opts) ''issuer'') (fld receipt ''issuer'') \<and> validKeyWindow (vo_key opts)
       \<and> is_any (fld (vo_key opts) ''status'') [''active'', ''retired'']"
  using assms unfolding receipt_rejection_def Let_def by (simp_all split: if_splits)

lemma verified_genuine:
  assumes "verifyReceipt sha ed receipt publicKeyPem opts = Inr reply" "vr_valid reply"
  shows "receipt_genuine sha ed receipt publicKeyPem opts"
proof -
  have none: "receipt_rejection receipt opts = None"
    using assms by (cases "receipt_rejection receipt opts") (auto simp: verifyReceipt_def Let_def receipt_reply_of_def)
  with assms show ?thesis
    using not_rejected [OF none]
    by (auto simp: verifyReceipt_def Let_def receipt_reply_of_def receipt_genuine_def verifySignature_def letE_eq_Inr split: if_splits)
qed

text \<open>A receipt without an execution is not refused with a code: the verifier throws.\<close>

lemma missing_execution_throws:
  "receipt_rejection receipt opts = None \<Longrightarrow> fld receipt ''execution'' = Undef \<Longrightarrow>
    verifyReceipt sha ed receipt publicKeyPem opts = Inl TypeErr"
  by (simp add: verifyReceipt_def hashJson_def)

section \<open>The key registry\<close>

text \<open>Every kept key is well formed and kept under its own identifier; a missing status means active.\<close>

definition key_ok :: "jsval \<Rightarrow> jsval \<Rightarrow> bool" where
  "key_ok keyId entry = (is_obj entry \<and> fld entry ''keyId'' = keyId \<and> truthy keyId \<and> truthy (fld entry ''issuer'')
     \<and> fld entry ''algorithm'' = Str ''Ed25519'' \<and> truthy (fld entry ''publicKey'') \<and> validKeyWindow entry
     \<and> \<not> nullish (fld entry ''status''))"

definition registry_ok :: "key_registry \<Rightarrow> bool" where
  "registry_ok keys = (\<forall>k e. map_get keys k = Some e \<longrightarrow> key_ok k e)"

lemma key_time_default: "key_time_ok v \<Longrightarrow> key_time_ok (orElse v Null)"
  by (auto simp: key_time_ok_def orElse_def)

lemma js_leq_not_less: "is_safe_integer a \<Longrightarrow> is_safe_integer b \<Longrightarrow> \<not> js_less b a \<Longrightarrow> js_leq a b"
  by (auto elim!: is_safe_integerE)

lemma addEntry_ok:
  assumes "addEntry entry keys = Inr keys'" "registry_ok keys"
  shows "registry_ok keys'"
proof -
  let ?e = "with_field (with_field (with_field entry ''status'' (orElse (fld entry ''status'') (Str ''active'')))
          ''validFrom'' (orElse (fld entry ''validFrom'') Null)) ''validUntil'' (orElse (fld entry ''validUntil'') Null)"
  from assms(1) have e: "truthy (fld entry ''keyId'')" "truthy (fld entry ''issuer'')" "fld entry ''algorithm'' = Str ''Ed25519''"
    "truthy (fld entry ''publicKey'')" "key_time_ok (fld entry ''validFrom'')" "key_time_ok (fld entry ''validUntil'')"
    "\<not> nullish (fld entry ''validFrom'') \<and> \<not> nullish (fld entry ''validUntil'') \<longrightarrow> \<not> js_less (fld entry ''validUntil'') (fld entry ''validFrom'')"
    and keys': "keys' = map_set (fld entry ''keyId'') ?e keys"
    by (auto simp: addEntry_def split: if_splits)
  from e(1) obtain kvs where kvs: "entry = Obj kvs" by (cases entry) (auto simp: fld_def)
  have f: "fld ?e ''validFrom'' = orElse (fld entry ''validFrom'') Null" "fld ?e ''validUntil'' = orElse (fld entry ''validUntil'') Null"
    "fld ?e ''keyId'' = fld entry ''keyId''" "fld ?e ''issuer'' = fld entry ''issuer''" "fld ?e ''algorithm'' = fld entry ''algorithm''"
    "fld ?e ''publicKey'' = fld entry ''publicKey''" "fld ?e ''status'' = orElse (fld entry ''status'') (Str ''active'')" "is_obj ?e"
    by (simp_all add: kvs with_field_def fld_set_field)
  have "validKeyWindow ?e"
    using e(5-7) unfolding validKeyWindow_def f
    by (auto simp: key_time_default orElse_def key_time_ok_def positive_time_def intro: js_leq_not_less)
  then have "key_ok (fld entry ''keyId'') ?e"
    using e(1-4) f(8) unfolding key_ok_def f(1-7) by (simp add: orElse_def)
  then show ?thesis
    using assms(2) unfolding registry_ok_def keys' by (auto elim!: map_get_setE)
qed

lemma createKeyRegistry_ok: "createKeyRegistry entries keys = Inr keys' \<Longrightarrow> registry_ok keys \<Longrightarrow> registry_ok keys'"
  by (induction entries arbitrary: keys) (auto simp: letE_eq_Inr dest: addEntry_ok)

section \<open>Properties\<close>

text \<open>A receipt that was built and signed with the issuer's key verifies with its public key and
  under its key identifier; and whatever verifies is genuine: signed, with the hash of its execution, its own
  identifier, an ordered timeline, and a key valid for its issuer.\<close>

theorem issued_receipts_verify:
  assumes "key_pair ed privateKeyPem publicKeyPem"
    and "buildReceipt sha intent execution issuer (Str keyId) issuedAt verifierVersion reasonCodes = Inr r"
    and "assertSafeJson r = Inr r" "positive_time (fld intent ''validUntil'')" "signReceipt ed r privateKeyPem = Inr signed"
  shows "\<exists>reply. verifyReceipt sha ed signed publicKeyPem \<lparr>vo_keyId = Str keyId, vo_key = Undef, vo_now = Undef\<rparr> = Inr reply
    \<and> vr_valid reply \<and> vr_receiptId reply = fld r ''receiptId'' \<and> vr_outcome reply = fld r ''outcome''
    \<and> receipt_genuine sha ed signed publicKeyPem \<lparr>vo_keyId = Str keyId, vo_key = Undef, vo_now = Undef\<rparr>"
proof -
  let ?opts = "\<lparr>vo_keyId = Str keyId, vo_key = Undef, vo_now = Undef\<rparr>"
  note r = built_receipt [OF assms(2)] and f = signed_receipt_fields [OF assms(2,5)]
  note v = signed_verifies [OF assms(1) assms(5) [unfolded signReceipt_def]]
  have safe: "assertSafeJson signed = Inr signed"
    by (rule signed_safe [OF assms(5) [unfolded signReceipt_def] r(1) assms(3)])
  have "receipt_rejection signed ?opts = None"
    using safe v(2) r assms(4) by (simp add: receipt_rejection_def Let_def f)
  then have "verifyReceipt sha ed signed publicKeyPem ?opts = Inr (receipt_reply_of signed True ''OK'')"
    using v(1) r by (auto simp: verifyReceipt_def f verifySignature_def)
  with verified_genuine [OF this] show ?thesis by (simp add: receipt_reply_of_def f)
qed

definition sample_hashed_intent :: jsval where
  "sample_hashed_intent = with_field sample_bound_intent ''intentHash'' (Str ''ab'')"

definition sample_receipt :: jsval where
  "sample_receipt = projr (buildReceipt (\<lambda>s. s) sample_hashed_intent sample_bound_execution (Str ''issuer'') (Str ''k1'') (Num 95) (Str ''1.0.0'') [])"

lemma sample_receipt_built:
  "buildReceipt (\<lambda>s. s) sample_hashed_intent sample_bound_execution (Str ''issuer'') (Str ''k1'') (Num 95) (Str ''1.0.0'') []
    = Inr sample_receipt"
  "assertSafeJson sample_receipt = Inr sample_receipt" "positive_time (fld sample_hashed_intent ''validUntil'')"
  "\<not> isl (canonicalize (unsigned_statement sample_receipt))"
  by code_simp+

lemma sample_receipt_signed: "\<exists>signed. signReceipt toy_scheme sample_receipt Null = Inr signed"
  using sample_receipt_built(4) by (cases "canonicalize (unsigned_statement sample_receipt)")
    (simp_all add: signReceipt_def signEd25519Statement_def toy_scheme_def)

lemma issued_receipts_verify_witness:
  "\<exists>signed reply. signReceipt toy_scheme sample_receipt Null = Inr signed
    \<and> verifyReceipt (\<lambda>s. s) toy_scheme signed Null \<lparr>vo_keyId = Str ''k1'', vo_key = Undef, vo_now = Undef\<rparr> = Inr reply \<and> vr_valid reply"
  using sample_receipt_signed issued_receipts_verify [OF toy_key_pair sample_receipt_built(1-3)] by blast

end
