(* ===== verification/Witness.thy ===== *)
theory Witness
  imports Signing Values Atomic_Store
begin

text \<open>
  Witness quorums: src/domain/witness.mjs, the witness service's
  src/application/witnesses/attest-authorization.mjs and its in-memory store
  (memory-witness-store.mjs).  A checked policy is a record; requests, attestations and evidence are JSON.
  Shown: evidence that verifies holds enough attestations of distinct witnesses of the policy, each signed
  with the witness's own key over this authorization, made in the admitted time.
\<close>

section \<open>Policies\<close>

definition WITNESS_POLICY_SCHEMA :: string where
  "WITNESS_POLICY_SCHEMA = ''priorseal.witness-policy.v1''"

definition WITNESS_REQUEST_SCHEMA :: string where
  "WITNESS_REQUEST_SCHEMA = ''priorseal.witness-request.v1''"

definition WITNESS_ATTESTATION_SCHEMA :: string where
  "WITNESS_ATTESTATION_SCHEMA = ''priorseal.witness-attestation.v1''"

definition WITNESS_EVIDENCE_SCHEMA :: string where
  "WITNESS_EVIDENCE_SCHEMA = ''priorseal.witness-evidence.v1''"

record policy_witness =
  w_witnessId :: jsval
  w_keyId :: jsval
  w_publicKey :: string

record witness_policy =
  wp_threshold :: int
  wp_maxClockSkewSeconds :: int
  wp_witnesses :: "policy_witness list"

definition witness_value :: "policy_witness \<Rightarrow> jsval" where
  "witness_value w = Obj [(''witnessId'', w_witnessId w), (''keyId'', w_keyId w), (''algorithm'', Str ''Ed25519''),
     (''publicKey'', Str (w_publicKey w))]"

definition policy_value :: "witness_policy \<Rightarrow> jsval" where
  "policy_value p = Obj [(''schema'', Str WITNESS_POLICY_SCHEMA), (''threshold'', Num (wp_threshold p)),
     (''maxClockSkewSeconds'', Num (wp_maxClockSkewSeconds p)), (''witnesses'', Arr (map witness_value (wp_witnesses p)))]"

text \<open>One entry: the witness and the fingerprint of its key.\<close>

definition policy_entry :: "ed25519 \<Rightarrow> jsval \<Rightarrow> (policy_witness \<times> string) result" where
  "policy_entry ed entry =
     letE (assertOnlyFields entry [''witnessId'', ''keyId'', ''algorithm'', ''publicKey'']) (\<lambda>witness.
     let pem = trim (str_of (fld witness ''publicKey'')) in
     if fld witness ''algorithm'' \<noteq> Str ''Ed25519'' \<or> \<not> is_str (fld witness ''publicKey'') \<or> pem = []
       then Inl (PriorSealError ''INVALID_WITNESS_POLICY'') else
     (case ed_publicKey ed (Str pem) of
        Inl e \<Rightarrow> Inl (PriorSealError ''INVALID_WITNESS_POLICY'')
      | Inr (kind, key) \<Rightarrow> if kind \<noteq> ''ed25519'' then Inl (PriorSealError ''INVALID_WITNESS_POLICY'') else
          letE (protocolId (fld witness ''witnessId'')) (\<lambda>witnessId.
          letE (protocolId (fld witness ''keyId'')) (\<lambda>keyId.
          Inr (\<lparr>w_witnessId = witnessId, w_keyId = keyId, w_publicKey = pem\<rparr>, ed_spki ed key)))))"

definition buildWitnessPolicy :: "ed25519 \<Rightarrow> jsval \<Rightarrow> witness_policy result" where
  "buildWitnessPolicy ed inputValue =
     letE (assertSafeJson inputValue) (\<lambda>_.
     letE (assertOnlyFields inputValue [''schema'', ''threshold'', ''maxClockSkewSeconds'', ''witnesses'']) (\<lambda>input.
     if fld input ''schema'' \<noteq> Str WITNESS_POLICY_SCHEMA then Inl (PriorSealError ''INVALID_WITNESS_POLICY'') else
     if \<not> is_arr (fld input ''witnesses'') \<or> length (elems (fld input ''witnesses'')) < 2
       then Inl (PriorSealError ''INVALID_WITNESS_POLICY'') else
     letE (mapE (policy_entry ed) (elems (fld input ''witnesses''))) (\<lambda>entries.
     let witnesses = map fst entries in
     if \<not> distinct (map w_witnessId witnesses) then Inl (PriorSealError ''INVALID_WITNESS_POLICY'') else
     if \<not> distinct (map snd entries) then Inl (PriorSealError ''INVALID_WITNESS_POLICY'') else
     (case safe_int (to_num (fld input ''threshold'')) of
        None \<Rightarrow> Inl (PriorSealError ''INVALID_WITNESS_POLICY'')
      | Some threshold \<Rightarrow> if threshold < 2 \<or> int (length witnesses) < threshold then Inl (PriorSealError ''INVALID_WITNESS_POLICY'') else
     (case safe_int (to_num (orElse (fld input ''maxClockSkewSeconds'') (Num 60))) of
        None \<Rightarrow> Inl (PriorSealError ''INVALID_WITNESS_POLICY'')
      | Some skew \<Rightarrow> if skew < 0 \<or> 3600 < skew then Inl (PriorSealError ''INVALID_WITNESS_POLICY'') else
     Inr \<lparr>wp_threshold = threshold, wp_maxClockSkewSeconds = skew, wp_witnesses = witnesses\<rparr>)))))"

section \<open>Requests and attestations\<close>

definition hashValue :: "jsval \<Rightarrow> jsval result" where
  "hashValue value = (let normalized = lower (js_string (orElse value (Str []))) in
     if hash64 normalized then Inr (Str normalized) else Inl (PriorSealError ''INVALID_WITNESS_REQUEST''))"

definition buildWitnessRequest :: "jsval \<Rightarrow> jsval result" where
  "buildWitnessRequest inputValue =
     letE (assertSafeJson inputValue) (\<lambda>_.
     letE (assertOnlyFields inputValue [''schema'', ''domain'', ''authorizationId'', ''authorizationHash'', ''intentHash'',
       ''requester'', ''requestedAt'', ''expiresAt'']) (\<lambda>input.
     letE (protocolId (fld input ''authorizationId'')) (\<lambda>authorizationId.
     letE (hashValue (fld input ''authorizationHash'')) (\<lambda>authorizationHash.
     letE (hashValue (fld input ''intentHash'')) (\<lambda>intentHash.
     letE (protocolId (fld input ''requester'')) (\<lambda>requester.
     letE (unixSeconds (fld input ''requestedAt'')) (\<lambda>requestedAt.
     letE (unixSeconds (fld input ''expiresAt'')) (\<lambda>expiresAt.
     if int_of expiresAt < int_of requestedAt then Inl (PriorSealError ''INVALID_WITNESS_REQUEST'') else
     if truthy (fld input ''schema'') \<and> fld input ''schema'' \<noteq> Str WITNESS_REQUEST_SCHEMA then Inl (PriorSealError ''INVALID_WITNESS_REQUEST'') else
     if truthy (fld input ''domain'') \<and> fld input ''domain'' \<noteq> Str ''priorseal/witness-request/v1'' then Inl (PriorSealError ''INVALID_WITNESS_REQUEST'') else
     Inr (Obj [(''schema'', Str WITNESS_REQUEST_SCHEMA), (''domain'', Str ''priorseal/witness-request/v1''),
       (''authorizationId'', authorizationId), (''authorizationHash'', authorizationHash), (''intentHash'', intentHash),
       (''requester'', requester), (''requestedAt'', requestedAt), (''expiresAt'', expiresAt)])))))))))"

definition witnessRequestForAuthorization :: "(string \<Rightarrow> string) \<Rightarrow> jsval \<Rightarrow> jsval \<Rightarrow> jsval \<Rightarrow> jsval result" where
  "witnessRequestForAuthorization sha authorization requester requestedAt =
     letE (hashJson sha authorization) (\<lambda>authorizationHash.
     buildWitnessRequest (Obj [(''authorizationId'', fld authorization ''authorizationId''), (''authorizationHash'', Str authorizationHash),
       (''intentHash'', fld authorization ''intentHash''), (''requester'', requester), (''requestedAt'', requestedAt),
       (''expiresAt'', fld authorization ''expiresAt'')]))"

definition buildWitnessAttestation :: "(string \<Rightarrow> string) \<Rightarrow> jsval \<Rightarrow> jsval \<Rightarrow> jsval \<Rightarrow> jsval \<Rightarrow> jsval result" where
  "buildWitnessAttestation sha request witnessId keyId observedAt =
     letE (buildWitnessRequest request) (\<lambda>normalized.
     letE (unixSeconds observedAt) (\<lambda>timestamp.
     if int_of (fld normalized ''expiresAt'') < int_of timestamp then Inl (PriorSealError ''WITNESS_REQUEST_EXPIRED'') else
     letE (protocolId witnessId) (\<lambda>witnessId.
     letE (protocolId keyId) (\<lambda>keyId.
     letE (hashJson sha normalized) (\<lambda>requestHash.
     Inr (Obj [(''schema'', Str WITNESS_ATTESTATION_SCHEMA), (''domain'', Str ''priorseal/witness-attestation/v1''),
       (''witnessId'', witnessId), (''keyId'', keyId), (''algorithm'', Str ''Ed25519''), (''requestHash'', Str requestHash),
       (''authorizationId'', fld normalized ''authorizationId''), (''authorizationHash'', fld normalized ''authorizationHash''),
       (''intentHash'', fld normalized ''intentHash''), (''observedAt'', timestamp), (''expiresAt'', fld normalized ''expiresAt'')]))))))"

definition signWitnessAttestation :: "ed25519 \<Rightarrow> jsval \<Rightarrow> jsval \<Rightarrow> jsval result" where
  "signWitnessAttestation ed attestation privateKeyPem = (
     if \<not> truthy privateKeyPem then Inl (PriorSealError ''WITNESS_NOT_CONFIGURED'') else signEd25519Statement ed attestation privateKeyPem)"

definition attestation_fields :: "string list" where
  "attestation_fields = [''schema'', ''domain'', ''witnessId'', ''keyId'', ''algorithm'', ''requestHash'', ''authorizationId'',
     ''authorizationHash'', ''intentHash'', ''observedAt'', ''expiresAt'', ''signature'']"

definition verifyWitnessAttestation :: "(string \<Rightarrow> string) \<Rightarrow> ed25519 \<Rightarrow> jsval \<Rightarrow> jsval \<Rightarrow> policy_witness \<Rightarrow> bool result" where
  "verifyWitnessAttestation sha ed attestation request witness = (
     if assertSafeJson attestation \<noteq> Inr attestation \<or> assertOnlyFields attestation attestation_fields \<noteq> Inr attestation then Inr False else
     if \<not> truthy (fld attestation ''signature'') \<or> fld attestation ''schema'' \<noteq> Str WITNESS_ATTESTATION_SCHEMA
        \<or> fld attestation ''domain'' \<noteq> Str ''priorseal/witness-attestation/v1'' then Inr False else
     if \<not> js_eq (fld attestation ''witnessId'') (w_witnessId witness) \<or> \<not> js_eq (fld attestation ''keyId'') (w_keyId witness)
        \<or> fld attestation ''algorithm'' \<noteq> Str ''Ed25519'' then Inr False else
     letE (hashJson sha request) (\<lambda>requestHash.
     if fld attestation ''requestHash'' \<noteq> Str requestHash
        \<or> \<not> js_eq (fld attestation ''authorizationId'') (fld request ''authorizationId'')
        \<or> \<not> js_eq (fld attestation ''authorizationHash'') (fld request ''authorizationHash'')
        \<or> \<not> js_eq (fld attestation ''intentHash'') (fld request ''intentHash'')
        \<or> \<not> js_eq (fld attestation ''expiresAt'') (fld request ''expiresAt'') then Inr False else
     if \<not> is_safe_integer (fld attestation ''observedAt'') \<or> int_of (fld attestation ''observedAt'') < 0
        \<or> js_less (fld request ''expiresAt'') (fld attestation ''observedAt'') then Inr False else
     Inr (verifyEd25519Statement ed attestation (Str (w_publicKey witness)))))"

section \<open>Evidence\<close>

record evidence_reply =
  er_valid :: bool
  er_code :: string
  er_threshold :: int
  er_validWitnessIds :: "jsval list"

definition refused_evidence :: "string \<Rightarrow> evidence_reply" where
  "refused_evidence code = \<lparr>er_valid = False, er_code = code, er_threshold = 0, er_validWitnessIds = []\<rparr>"

text \<open>The bounds on an attestation's time: not before the request less the skew, not after \<^verbatim>\<open>before\<close>.\<close>

definition in_time :: "witness_policy \<Rightarrow> jsval \<Rightarrow> jsval \<Rightarrow> jsval \<Rightarrow> bool" where
  "in_time policy request before attestation = (
     \<not> js_less (fld attestation ''observedAt'') (Num (int_of (fld request ''requestedAt'') - wp_maxClockSkewSeconds policy))
     \<and> \<not> (before \<noteq> Undef \<and> js_less before (fld attestation ''observedAt'')))"

primrec count_witnesses ::
  "(string \<Rightarrow> string) \<Rightarrow> ed25519 \<Rightarrow> witness_policy \<Rightarrow> jsval \<Rightarrow> jsval \<Rightarrow> jsval list \<Rightarrow> jsval list \<Rightarrow> jsval list result" where
  "count_witnesses sha ed policy request before [] validIds = Inr validIds"
| "count_witnesses sha ed policy request before (attestation # rest) validIds = (
     case find (\<lambda>w. js_eq (w_witnessId w) (fld attestation ''witnessId'')) (wp_witnesses policy) of
       None \<Rightarrow> count_witnesses sha ed policy request before rest validIds
     | Some witness \<Rightarrow>
         if w_witnessId witness \<in> set validIds then count_witnesses sha ed policy request before rest validIds else
         if \<not> in_time policy request before attestation then count_witnesses sha ed policy request before rest validIds else
         letE (verifyWitnessAttestation sha ed attestation request witness) (\<lambda>ok.
         count_witnesses sha ed policy request before rest (if ok then validIds @ [w_witnessId witness] else validIds)))"

text \<open>The tests against the authorization, which may be absent: the code of the first that fails.\<close>

definition authorization_rejection :: "(string \<Rightarrow> string) \<Rightarrow> jsval \<Rightarrow> jsval \<Rightarrow> string option result" where
  "authorization_rejection sha request authorization = (
     if \<not> truthy authorization then Inr None else
     if \<not> js_eq (fld request ''authorizationId'') (fld authorization ''authorizationId'') then Inr (Some ''WITNESS_AUTHORIZATION_MISMATCH'') else
     letE (hashJson sha authorization) (\<lambda>authorizationHash.
     if fld request ''authorizationHash'' \<noteq> Str authorizationHash
        \<or> \<not> js_eq (fld request ''intentHash'') (fld authorization ''intentHash'')
        \<or> \<not> js_eq (fld request ''expiresAt'') (fld authorization ''expiresAt'') then Inr (Some ''WITNESS_AUTHORIZATION_MISMATCH'') else
     if js_less (fld request ''requestedAt'') (fld authorization ''issuedAt'')
        \<or> js_less (fld authorization ''expiresAt'') (fld request ''requestedAt'') then Inr (Some ''INVALID_WITNESS_REQUEST'') else
     Inr None))"

definition quorum_reply :: "witness_policy \<Rightarrow> jsval list \<Rightarrow> evidence_reply" where
  "quorum_reply p ids = (if int (length ids) < wp_threshold p
     then \<lparr>er_valid = False, er_code = ''WITNESS_QUORUM_NOT_MET'', er_threshold = wp_threshold p, er_validWitnessIds = ids\<rparr>
     else \<lparr>er_valid = True, er_code = ''OK'', er_threshold = wp_threshold p, er_validWitnessIds = ids\<rparr>)"

text \<open>Lines 117 to 134, once the policy and the request are normalised.\<close>

definition check_evidence ::
  "(string \<Rightarrow> string) \<Rightarrow> ed25519 \<Rightarrow> witness_policy \<Rightarrow> jsval \<Rightarrow> jsval \<Rightarrow> jsval \<Rightarrow> jsval \<Rightarrow> jsval \<Rightarrow> evidence_reply result" where
  "check_evidence sha ed normalizedPolicy request evidence authorization expectedRequestedAt before = (
     if fld evidence ''schema'' \<noteq> Str WITNESS_EVIDENCE_SCHEMA \<or> fld evidence ''domain'' \<noteq> Str ''priorseal/witness-evidence/v1''
       then Inr (refused_evidence ''INVALID_WITNESS_EVIDENCE'') else
     letE (hashJson sha (policy_value normalizedPolicy)) (\<lambda>policyHash.
     if fld evidence ''policyHash'' \<noteq> Str policyHash \<or> \<not> is_arr (fld evidence ''attestations'')
       then Inr (refused_evidence ''WITNESS_POLICY_MISMATCH'') else
     letE (authorization_rejection sha request authorization) (\<lambda>rejection.
     case rejection of Some code \<Rightarrow> Inr (refused_evidence code) | None \<Rightarrow>
     if expectedRequestedAt \<noteq> Undef \<and> \<not> js_eq (fld request ''requestedAt'') expectedRequestedAt
       then Inr (refused_evidence ''WITNESS_ACCEPTANCE_MISMATCH'') else
     letE (count_witnesses sha ed normalizedPolicy request before (elems (fld evidence ''attestations'')) []) (\<lambda>ids.
     Inr (quorum_reply normalizedPolicy ids)))))"

definition verifyWitnessEvidence ::
  "(string \<Rightarrow> string) \<Rightarrow> ed25519 \<Rightarrow> jsval \<Rightarrow> jsval \<Rightarrow> jsval \<Rightarrow> jsval \<Rightarrow> jsval \<Rightarrow> evidence_reply result" where
  "verifyWitnessEvidence sha ed evidence authorization policy expectedRequestedAt before = (
     case letE (buildWitnessPolicy ed policy) (\<lambda>p. letE (buildWitnessRequest (fld evidence ''request'')) (\<lambda>r. Inr (p, r))) of
       Inl e \<Rightarrow> Inr (refused_evidence (case errorCode e of None \<Rightarrow> ''INVALID_WITNESS_EVIDENCE'' | Some c \<Rightarrow> c))
     | Inr (p, r) \<Rightarrow> check_evidence sha ed p r evidence authorization expectedRequestedAt before)"

definition buildWitnessEvidence :: "(string \<Rightarrow> string) \<Rightarrow> ed25519 \<Rightarrow> jsval \<Rightarrow> jsval list \<Rightarrow> jsval \<Rightarrow> jsval result" where
  "buildWitnessEvidence sha ed request attestations policy =
     letE (buildWitnessPolicy ed policy) (\<lambda>normalizedPolicy.
     letE (buildWitnessRequest request) (\<lambda>normalizedRequest.
     letE (hashJson sha (policy_value normalizedPolicy)) (\<lambda>policyHash.
     let evidence = Obj [(''schema'', Str WITNESS_EVIDENCE_SCHEMA), (''domain'', Str ''priorseal/witness-evidence/v1''),
           (''policyHash'', Str policyHash), (''request'', normalizedRequest), (''attestations'', Arr attestations)] in
     letE (verifyWitnessEvidence sha ed evidence Null (policy_value normalizedPolicy) Undef Undef) (\<lambda>result.
     if \<not> er_valid result then Inl (PriorSealError (er_code result)) else Inr evidence))))"

section \<open>The witness service\<close>

type_synonym witness_store = "(string, jsval) js_map"

definition witness_key :: "string \<Rightarrow> string \<Rightarrow> string" where
  "witness_key requestHash witnessId = witnessId @ '':'' @ requestHash"

definition get_attestation :: "string \<Rightarrow> string \<Rightarrow> witness_store \<Rightarrow> jsval option" where
  "get_attestation requestHash witnessId s = map_get s (witness_key requestHash witnessId)"

definition save_attestation :: "string \<Rightarrow> string \<Rightarrow> jsval \<Rightarrow> witness_store \<Rightarrow> witness_store \<times> jsval" where
  "save_attestation requestHash witnessId attestation s = (case get_attestation requestHash witnessId s of
       Some existing \<Rightarrow> (s, existing)
     | None \<Rightarrow> (map_set (witness_key requestHash witnessId) attestation s, attestation))"

definition attestAuthorization ::
  "(string \<Rightarrow> string) \<Rightarrow> ed25519 \<Rightarrow> jsval \<Rightarrow> string \<Rightarrow> jsval \<Rightarrow> jsval \<Rightarrow> int \<Rightarrow> int \<Rightarrow> witness_store
    \<Rightarrow> (witness_store \<times> bool \<times> jsval) result" where
  "attestAuthorization sha ed input witnessId keyId privateKeyPem nowMs maxRequestAgeSeconds s =
     letE (buildWitnessRequest input) (\<lambda>request.
     let observedAt = nowMs div 1000; requestedAt = int_of (fld request ''requestedAt'') in
     if observedAt + 60 < requestedAt then Inl (PriorSealError ''WITNESS_REQUEST_IN_FUTURE'') else
     if maxRequestAgeSeconds < observedAt - requestedAt then Inl (PriorSealError ''WITNESS_REQUEST_TOO_OLD'') else
     if int_of (fld request ''expiresAt'') < observedAt then Inl (PriorSealError ''WITNESS_REQUEST_EXPIRED'') else
     letE (hashJson sha request) (\<lambda>requestHash.
     case get_attestation requestHash witnessId s of
       Some existing \<Rightarrow> Inr (s, True, existing)
     | None \<Rightarrow>
         letE (buildWitnessAttestation sha request (Str witnessId) keyId (Num observedAt)) (\<lambda>unsigned.
         letE (signWitnessAttestation ed unsigned privateKeyPem) (\<lambda>attestation.
         case save_attestation requestHash witnessId attestation s of (s', saved) \<Rightarrow> Inr (s', False, saved)))))"

section \<open>What verified evidence is\<close>

lemma policy_facts:
  assumes "buildWitnessPolicy ed v = Inr p"
  shows "2 \<le> wp_threshold p" "wp_threshold p \<le> int (length (wp_witnesses p))" "distinct (map w_witnessId (wp_witnesses p))"
    "0 \<le> wp_maxClockSkewSeconds p" "wp_maxClockSkewSeconds p \<le> 3600"
  using assms unfolding buildWitnessPolicy_def Let_def
  by (elim letE_InrE guard_InrE option_InrE Inr_InrE; simp)+

text \<open>
  An attestation of a witness over an authorization with the given hash: signed with the witness's
  key, made while the request was open, and inside the bounds on its time.
\<close>

definition attests :: "ed25519 \<Rightarrow> witness_policy \<Rightarrow> jsval \<Rightarrow> jsval \<Rightarrow> string \<Rightarrow> policy_witness \<Rightarrow> jsval \<Rightarrow> bool" where
  "attests ed p request before authorizationHash w attestation = (
     verifyEd25519Statement ed attestation (Str (w_publicKey w))
     \<and> fld attestation ''witnessId'' = w_witnessId w \<and> fld attestation ''keyId'' = w_keyId w
     \<and> fld attestation ''authorizationHash'' = Str authorizationHash
     \<and> is_safe_integer (fld attestation ''observedAt'')
     \<and> \<not> js_less (fld request ''expiresAt'') (fld attestation ''observedAt'') \<and> in_time p request before attestation)"

lemma js_eq_imp_eq: "js_eq a b \<Longrightarrow> is_str b \<Longrightarrow> a = b"
  by (auto elim!: is_strE)

lemma attestation_verified:
  assumes "verifyWitnessAttestation sha ed attestation request w = Inr True" "in_time p request before attestation"
    "fld request ''authorizationHash'' = Str h" "is_str (w_witnessId w)" "is_str (w_keyId w)"
  shows "attests ed p request before h w attestation"
  using assms unfolding verifyWitnessAttestation_def attests_def
  by (auto simp: letE_eq_Inr js_eq_imp_eq split: if_splits)

lemma count_sound:
  assumes "count_witnesses sha ed p request before attestations ids0 = Inr ids" "distinct ids0"
    and "\<forall>i\<in>set ids0. P i"
    and "\<And>a w. a \<in> set attestations \<Longrightarrow> w \<in> set (wp_witnesses p) \<Longrightarrow> in_time p request before a \<Longrightarrow>
      verifyWitnessAttestation sha ed a request w = Inr True \<Longrightarrow> P (w_witnessId w)"
  shows "distinct ids \<and> (\<forall>i\<in>set ids. P i)"
  using assms
proof (induction attestations arbitrary: ids0)
  case (Cons a rest)
  have step: "distinct ids \<and> (\<forall>i\<in>set ids. P i)"
    if "count_witnesses sha ed p request before rest js = Inr ids" "distinct js" "\<forall>i\<in>set js. P i" for js
    by (rule Cons.IH [OF that]) (use Cons.prems(4) in auto)
  show ?case
  proof (cases "find (\<lambda>w. js_eq (w_witnessId w) (fld a ''witnessId'')) (wp_witnesses p)")
    case (Some w)
    then have w: "w \<in> set (wp_witnesses p)" using find_Some_mem by fast
    consider "w_witnessId w \<in> set ids0 \<or> \<not> in_time p request before a"
      | b where "w_witnessId w \<notin> set ids0" "in_time p request before a" "verifyWitnessAttestation sha ed a request w = Inr b"
        "count_witnesses sha ed p request before rest (if b then ids0 @ [w_witnessId w] else ids0) = Inr ids"
      using Cons.prems(1) Some by (auto simp: letE_eq_Inr split: if_splits)
    then show ?thesis
    proof cases
      case 1
      then have "count_witnesses sha ed p request before rest ids0 = Inr ids" using Cons.prems(1) Some by (auto split: if_splits)
      then show ?thesis using Cons.prems(2,3) by (intro step) simp_all
    next
      case (2 b)
      then have "distinct (if b then ids0 @ [w_witnessId w] else ids0)" using Cons.prems(2) by simp
      moreover have "\<forall>i\<in>set (if b then ids0 @ [w_witnessId w] else ids0). P i"
        using Cons.prems(3) Cons.prems(4) [OF _ w 2(2)] 2(3) by auto
      ultimately show ?thesis using 2(4) by (intro step) simp_all
    qed
  qed (use Cons.prems(1-3) step in simp)
qed simp

lemma policy_ids_text:
  assumes "buildWitnessPolicy ed v = Inr p" "w \<in> set (wp_witnesses p)"
  shows "is_str (w_witnessId w)" "is_str (w_keyId w)"
proof -
  from assms(1) obtain entries where e: "mapE (policy_entry ed) (elems (fld v ''witnesses'')) = Inr entries"
    and p: "wp_witnesses p = map fst entries"
    unfolding buildWitnessPolicy_def Let_def by (elim check_elims letE_InrE guard_InrE option_InrE Inr_InrE) simp
  from assms(2) p obtain f where "(w, f) \<in> set entries" by auto
  then obtain x where "policy_entry ed x = Inr (w, f)" using mapE_Inr_mem [OF e] by blast
  then have "is_id (w_witnessId w) \<and> is_id (w_keyId w)"
    by (auto simp: policy_entry_def Let_def letE_eq_Inr protocolId_normal split: if_splits sum.splits prod.splits)
  then show "is_str (w_witnessId w)" "is_str (w_keyId w)" by (auto simp: is_id_def split: jsval.splits)
qed

lemma request_hash_text:
  assumes "buildWitnessRequest v = Inr r"
  shows "\<exists>h. fld r ''authorizationHash'' = Str h"
  using assms unfolding buildWitnessRequest_def hashValue_def Let_def
  by (elim check_elims letE_InrE guard_InrE Inr_InrE) (auto split: if_splits)

text \<open>A reply that is valid got past each refusal.\<close>

lemma refusalE:
  "(if c then Inr (refused_evidence code) else m) = (Inr reply :: evidence_reply result) \<Longrightarrow> er_valid reply \<Longrightarrow>
    (\<not> c \<Longrightarrow> m = Inr reply \<Longrightarrow> P) \<Longrightarrow> P"
  by (auto simp: refused_evidence_def split: if_splits)

lemma rejectionE:
  "(case x of None \<Rightarrow> m | Some code \<Rightarrow> Inr (refused_evidence code)) = (Inr reply :: evidence_reply result) \<Longrightarrow> er_valid reply \<Longrightarrow>
    (x = None \<Longrightarrow> m = Inr reply \<Longrightarrow> P) \<Longrightarrow> P"
  by (auto simp: refused_evidence_def split: option.splits)

lemma check_accepted:
  assumes "check_evidence sha ed p r evidence authorization expected before = Inr reply" "er_valid reply"
  shows "authorization_rejection sha r authorization = Inr None \<and> (expected = Undef \<or> js_eq (fld r ''requestedAt'') expected)
    \<and> count_witnesses sha ed p r before (elems (fld evidence ''attestations'')) [] = Inr (er_validWitnessIds reply)
    \<and> wp_threshold p \<le> int (length (er_validWitnessIds reply))"
  using assms unfolding check_evidence_def
  by (elim letE_InrE refusalE rejectionE Inr_InrE) (auto simp: quorum_reply_def split: if_splits)

lemma evidence_accepted:
  assumes "verifyWitnessEvidence sha ed evidence authorization policy expected before = Inr reply" "er_valid reply"
  shows "\<exists>p r. buildWitnessPolicy ed policy = Inr p \<and> buildWitnessRequest (fld evidence ''request'') = Inr r
    \<and> check_evidence sha ed p r evidence authorization expected before = Inr reply"
  using assms by (auto simp: verifyWitnessEvidence_def refused_evidence_def letE_eq_Inr split: sum.splits)

section \<open>Properties\<close>

text \<open>C18. Evidence that verifies for an authorization names at least the policy's threshold, itself at
  least two, of distinct witnesses; for each the evidence holds an attestation signed with that
  witness's key, stating the hash of this authorization, made before its request expired and, where a
  bound is given, before it, and not before the request less the admitted skew.\<close>

theorem witness_quorum_sound:
  assumes "verifyWitnessEvidence sha ed evidence authorization policy expected before = Inr reply" "er_valid reply"
    and "truthy authorization"
  shows "\<exists>p r h. buildWitnessPolicy ed policy = Inr p \<and> buildWitnessRequest (fld evidence ''request'') = Inr r
    \<and> hashJson sha authorization = Inr h \<and> 2 \<le> wp_threshold p \<and> wp_threshold p \<le> int (length (er_validWitnessIds reply))
    \<and> distinct (er_validWitnessIds reply)
    \<and> (\<forall>i\<in>set (er_validWitnessIds reply). \<exists>w\<in>set (wp_witnesses p). w_witnessId w = i
         \<and> (\<exists>a\<in>set (elems (fld evidence ''attestations'')). attests ed p r before h w a))"
proof -
  from evidence_accepted [OF assms(1,2)] obtain p r where p: "buildWitnessPolicy ed policy = Inr p"
    and r: "buildWitnessRequest (fld evidence ''request'') = Inr r"
    and c: "check_evidence sha ed p r evidence authorization expected before = Inr reply" by blast
  from check_accepted [OF c assms(2)] have rej: "authorization_rejection sha r authorization = Inr None"
    and ids: "count_witnesses sha ed p r before (elems (fld evidence ''attestations'')) [] = Inr (er_validWitnessIds reply)"
    "wp_threshold p \<le> int (length (er_validWitnessIds reply))" by simp_all
  from rej assms(3) obtain h where h: "hashJson sha authorization = Inr h" "fld r ''authorizationHash'' = Str h"
    by (auto simp: authorization_rejection_def letE_eq_Inr split: if_splits)
  let ?P = "\<lambda>i. \<exists>w\<in>set (wp_witnesses p). w_witnessId w = i
         \<and> (\<exists>a\<in>set (elems (fld evidence ''attestations'')). attests ed p r before h w a)"
  have "distinct (er_validWitnessIds reply) \<and> (\<forall>i\<in>set (er_validWitnessIds reply). ?P i)"
  proof (rule count_sound [OF ids(1)])
    fix a w assume "a \<in> set (elems (fld evidence ''attestations''))" and w: "w \<in> set (wp_witnesses p)"
      and "in_time p r before a" "verifyWitnessAttestation sha ed a r w = Inr True"
    with attestation_verified [OF _ _ h(2) policy_ids_text [OF p w]] show "?P (w_witnessId w)" by blast
  qed simp_all
  with p r h(1) ids(2) policy_facts(1) [OF p] show ?thesis by blast
qed

definition sample_witness_policy :: jsval where
  "sample_witness_policy = Obj [(''schema'', Str WITNESS_POLICY_SCHEMA), (''threshold'', Num 2),
     (''witnesses'', Arr [Obj [(''witnessId'', Str ''w1''), (''keyId'', Str ''k1''), (''algorithm'', Str ''Ed25519''), (''publicKey'', Str ''A'')],
       Obj [(''witnessId'', Str ''w2''), (''keyId'', Str ''k2''), (''algorithm'', Str ''Ed25519''), (''publicKey'', Str ''B'')]])]"

definition sample_witnessed_authorization :: jsval where
  "sample_witnessed_authorization = Obj [(''authorizationId'', Str ''a1''), (''intentHash'', Str (zero_hash [])),
     (''issuedAt'', Num 10), (''expiresAt'', Num 100)]"

definition sample_attestation :: "jsval \<Rightarrow> string \<Rightarrow> string \<Rightarrow> jsval result" where
  "sample_attestation request witnessId keyId =
     letE (buildWitnessAttestation zero_hash request (Str witnessId) (Str keyId) (Num 21)) (\<lambda>a.
     signWitnessAttestation toy_scheme a (Str ''A''))"

definition sample_evidence :: "jsval result" where
  "sample_evidence =
     letE (witnessRequestForAuthorization zero_hash sample_witnessed_authorization (Str ''issuer'') (Num 20)) (\<lambda>request.
     letE (sample_attestation request ''w1'' ''k1'') (\<lambda>a. letE (sample_attestation request ''w2'' ''k2'') (\<lambda>b.
     buildWitnessEvidence zero_hash toy_scheme request [a, b] sample_witness_policy)))"

lemma sample_evidence_verifies:
  "\<exists>reply. verifyWitnessEvidence zero_hash toy_scheme (projr sample_evidence) sample_witnessed_authorization sample_witness_policy Undef Undef
    = Inr reply \<and> er_valid reply"
proof -
  let ?v = "verifyWitnessEvidence zero_hash toy_scheme (projr sample_evidence) sample_witnessed_authorization sample_witness_policy Undef Undef"
  have "(case ?v of Inl e \<Rightarrow> False | Inr reply \<Rightarrow> er_valid reply)" by code_simp
  then show ?thesis by (cases ?v) auto
qed

lemma witness_quorum_sound_witness:
  "\<exists>reply p. verifyWitnessEvidence zero_hash toy_scheme (projr sample_evidence) sample_witnessed_authorization sample_witness_policy Undef Undef
    = Inr reply \<and> buildWitnessPolicy toy_scheme sample_witness_policy = Inr p \<and> 2 \<le> length (er_validWitnessIds reply)
    \<and> distinct (er_validWitnessIds reply)"
proof -
  have t: "truthy sample_witnessed_authorization" by (simp add: sample_witnessed_authorization_def)
  from sample_evidence_verifies obtain reply where
    v: "verifyWitnessEvidence zero_hash toy_scheme (projr sample_evidence) sample_witnessed_authorization sample_witness_policy Undef Undef = Inr reply"
    "er_valid reply" by blast
  from witness_quorum_sound [OF v t] v(1) show ?thesis by fastforce
qed

end
