(* ===== verification/Idempotency.thy ===== *)
theory Idempotency
  imports Atomic_Store Values
begin

text \<open>
  src/application/idempotency.mjs: replaying the response of an earlier request with the same
  Idempotency-Key.  The store is an argument of the code; what the code relies on is the locale
  \<^verbatim>\<open>idempotency_store\<close>.  Shown in it: within a day the same request gets the first
  response, a different request with the same key is refused.
\<close>

section \<open>The client\<close>

record idem_record =
  ir_requestHash :: string
  ir_response :: jsval
  ir_expiresAt :: int

definition IDEMPOTENCY_KEY :: "string \<Rightarrow> bool" where
  "IDEMPOTENCY_KEY s = (1 \<le> length s \<and> length s \<le> 128 \<and> list_all id_char s)"

definition day_ms :: int where
  "day_ms = 86400000"

definition findIdempotentReplay ::
  "(string \<Rightarrow> string) \<Rightarrow> (string \<Rightarrow> string \<Rightarrow> idem_record option) \<Rightarrow> string \<Rightarrow> jsval \<Rightarrow> jsval \<Rightarrow> int
    \<Rightarrow> (string option \<times> jsval option) result" where
  "findIdempotentReplay sha getIdempotency scope key request now = (
     if \<not> truthy key then Inr (None, None) else
     if \<not> (is_str key \<and> IDEMPOTENCY_KEY (str_of key)) then Inl (PriorSealError ''INVALID_IDEMPOTENCY_KEY'') else
     letE (hashJson sha request) (\<lambda>requestHash.
     case getIdempotency scope (str_of key) of
       None \<Rightarrow> Inr (Some requestHash, None)
     | Some existing \<Rightarrow>
         if ir_expiresAt existing \<le> now then Inr (Some requestHash, None) else
         if ir_requestHash existing \<noteq> requestHash then Inl (PriorSealError ''IDEMPOTENCY_CONFLICT'') else
         Inr (Some requestHash, Some (ir_response existing))))"

definition reserveIdempotentResponse ::
  "(string \<Rightarrow> string) \<Rightarrow> (int \<Rightarrow> string \<Rightarrow> string \<Rightarrow> idem_record \<Rightarrow> 's \<Rightarrow> ('s \<times> bool \<times> jsval) result)
    \<Rightarrow> string \<Rightarrow> jsval \<Rightarrow> jsval \<Rightarrow> string option \<Rightarrow> jsval \<Rightarrow> int \<Rightarrow> 's \<Rightarrow> ('s \<times> bool \<times> jsval) result" where
  "reserveIdempotentResponse sha reserve scope key request requestHash response now s = (
     if \<not> truthy key then Inr (s, False, response) else
     letE (case requestHash of Some h \<Rightarrow> Inr h | None \<Rightarrow> hashJson sha request) (\<lambda>h.
     reserve now scope (str_of key) \<lparr>ir_requestHash = h, ir_response = response, ir_expiresAt = now + day_ms\<rparr> s))"

section \<open>The contract of the store\<close>

locale idempotency_store =
  fixes get :: "'s \<Rightarrow> string \<Rightarrow> string \<Rightarrow> idem_record option"
    and reserve :: "int \<Rightarrow> string \<Rightarrow> string \<Rightarrow> idem_record \<Rightarrow> 's \<Rightarrow> ('s \<times> bool \<times> jsval) result"
    and scope_ok :: "string \<Rightarrow> bool"
  assumes reserve_live: "get s scope key = Some r \<Longrightarrow> now < ir_expiresAt r \<Longrightarrow> reserve now scope key new s =
      (if ir_requestHash r = ir_requestHash new then Inr (s, True, ir_response r) else Inl (CodedError ''IDEMPOTENCY_CONFLICT''))"
    and reserve_free: "(\<And>r. get s scope key = Some r \<Longrightarrow> ir_expiresAt r \<le> now) \<Longrightarrow>
      \<exists>s'. reserve now scope key new s = Inr (s', False, ir_response new) \<and> get s' scope key = Some new"
    and reserve_other: "reserve now scope key new s = Inr (s', reply) \<Longrightarrow> scope_ok scope \<Longrightarrow> scope_ok scope' \<Longrightarrow>
      (scope', key') \<noteq> (scope, key) \<Longrightarrow> get s' scope' key' = get s scope' key'"
begin

definition live :: "'s \<Rightarrow> string \<Rightarrow> string \<Rightarrow> int \<Rightarrow> idem_record option" where
  "live s scope key now = (case get s scope key of None \<Rightarrow> None
     | Some r \<Rightarrow> if ir_expiresAt r \<le> now then None else Some r)"

text \<open>A reservation answers with the live record of its key, or makes its own live.\<close>

lemma reserve_reply:
  assumes "reserve now scope key new s = Inr (s', replay, response)" "now < ir_expiresAt new"
  shows "\<exists>r. live s' scope key now = Some r \<and> response = ir_response r \<and> ir_requestHash r = ir_requestHash new
    \<and> (replay \<longrightarrow> s' = s) \<and> (\<not> replay \<longrightarrow> r = new)"
proof (cases "\<exists>r. get s scope key = Some r \<and> now < ir_expiresAt r")
  case True
  then obtain r where r: "get s scope key = Some r" "now < ir_expiresAt r" by blast
  with reserve_live [OF r, where new = new] assms show ?thesis
    by (auto simp: live_def split: if_splits)
next
  case False
  then have free: "\<And>r. get s scope key = Some r \<Longrightarrow> ir_expiresAt r \<le> now" by (auto simp: not_less)
  have "\<exists>s'. reserve now scope key new s = Inr (s', False, ir_response new) \<and> get s' scope key = Some new"
    by (rule reserve_free) (rule free)
  with assms show ?thesis by (auto simp: live_def)
qed

lemma live_later: "live s scope key now = Some r \<Longrightarrow> now' < ir_expiresAt r \<Longrightarrow> live s scope key now' = Some r"
  by (auto simp: live_def split: option.splits if_splits)

lemma find_live:
  assumes "live s scope (str_of key) now = Some r" "truthy key" "is_str key" "IDEMPOTENCY_KEY (str_of key)"
    "hashJson sha request = Inr h"
  shows "findIdempotentReplay sha (get s) scope key request now =
    (if ir_requestHash r = h then Inr (Some h, Some (ir_response r)) else Inl (PriorSealError ''IDEMPOTENCY_CONFLICT''))"
  using assms by (auto simp: findIdempotentReplay_def live_def split: option.splits if_splits)

text \<open>After a request was answered, asking again within the life of its record.\<close>

lemma answered_again:
  assumes r: "reserveIdempotentResponse sha reserve scope key request None response now s = Inr (s', replay, answer)"
    and key: "truthy key" "is_str key" "IDEMPOTENCY_KEY (str_of key)"
    and first: "\<not> replay" and now: "now' < now + day_ms" and h: "hashJson sha request' = Inr h'"
  shows "\<exists>h. hashJson sha request = Inr h \<and> findIdempotentReplay sha (get s') scope key request' now' =
    (if h = h' then Inr (Some h', Some answer) else Inl (PriorSealError ''IDEMPOTENCY_CONFLICT''))"
proof -
  from r key obtain h where h0: "hashJson sha request = Inr h"
    "reserve now scope (str_of key) \<lparr>ir_requestHash = h, ir_response = response, ir_expiresAt = now + day_ms\<rparr> s = Inr (s', replay, answer)"
    by (auto simp: reserveIdempotentResponse_def letE_eq_Inr)
  have "\<exists>r. live s' scope (str_of key) now = Some r \<and> answer = ir_response r \<and> ir_requestHash r = h \<and> ir_expiresAt r = now + day_ms"
    using reserve_reply [OF h0(2)] first by (auto simp: day_ms_def)
  then obtain r where l: "live s' scope (str_of key) now = Some r" and
    r: "answer = ir_response r" "ir_requestHash r = h" "ir_expiresAt r = now + day_ms" by blast
  have "live s' scope (str_of key) now' = Some r" using now r(3) by (intro live_later [OF l]) simp
  from find_live [OF this key h] h0(1) r show ?thesis by auto
qed

end

end
