(* ===== verification/Auth_Store.thy ===== *)
theory Auth_Store
  imports Idempotency Merkle Hyperliquid
begin

text \<open>
  The authorizations of src/infrastructure/persistence/memory-store.mjs: intents, the
  authorization log with its Merkle index, accepted authorizations with their nonces and reserved
  Hyperliquid order ids, the binding of an authorization to a transaction, observations, receipts
  (with receipt-identity.mjs) and idempotency records.  Documents are JSON values; the maps are keyed
  by the identifiers in them.  The store of the code keeps and hands out references to the documents; the model
  keeps the values.  The difference would show only if a caller changed a document in place after saving or reading it, which
  none of the modelled services does.  Shown: in every history the log is a hash chain with a complete Merkle
  index, nonces and order ids are used once, and an authorization stays bound to its first transaction.
\<close>

section \<open>State\<close>

record log_entry =
  le_sequence :: nat
  le_authorizationHash :: string
  le_acceptedAt :: int
  le_previousEntryHash :: "string option"
  le_entryHash :: string

record auth_store =
  st_intents :: "(jsval, jsval) js_map"
  st_receipts :: "(jsval, jsval) js_map"
  st_observations :: "(string, jsval list) js_map"
  st_idempotency :: "(string, idem_record) js_map"
  st_authorizations :: "(jsval, jsval) js_map"
  authorizationLog :: "log_entry list"
  logByAuthorizationHash :: "(string, log_entry) js_map"
  merkleNodes :: "(string, string) js_map"
  usedAuthorizationNonces :: "jsval list"
  hyperliquidCloids :: "(string, jsval) js_map"

definition empty_store :: auth_store where
  "empty_store = \<lparr>st_intents = [], st_receipts = [], st_observations = [], st_idempotency = [], st_authorizations = [],
     authorizationLog = [], logByAuthorizationHash = [], merkleNodes = [], usedAuthorizationNonces = [], hyperliquidCloids = []\<rparr>"

section \<open>The log\<close>

definition hash_or_null :: "string option \<Rightarrow> jsval" where
  "hash_or_null h = (case h of None \<Rightarrow> Null | Some s \<Rightarrow> Str s)"

definition entry_value :: "nat \<Rightarrow> string \<Rightarrow> int \<Rightarrow> string option \<Rightarrow> jsval" where
  "entry_value sequence authorizationHash acceptedAt previousEntryHash = Obj [(''sequence'', Num (int sequence)),
     (''authorizationHash'', Str authorizationHash), (''acceptedAt'', Num acceptedAt),
     (''previousEntryHash'', hash_or_null previousEntryHash)]"

definition last_hash :: "log_entry list \<Rightarrow> string option" where
  "last_hash entries = (if entries = [] then None else Some (le_entryHash (last entries)))"

definition next_entry :: "(string \<Rightarrow> string) \<Rightarrow> string \<Rightarrow> int \<Rightarrow> auth_store \<Rightarrow> log_entry result" where
  "next_entry sha authorizationHash acceptedAt s = (
     let sequence = length (authorizationLog s) + 1; previousEntryHash = last_hash (authorizationLog s) in
     letE (hashJson sha (entry_value sequence authorizationHash acceptedAt previousEntryHash)) (\<lambda>entryHash.
     Inr \<lparr>le_sequence = sequence, le_authorizationHash = authorizationHash, le_acceptedAt = acceptedAt,
       le_previousEntryHash = previousEntryHash, le_entryHash = entryHash\<rparr>))"

definition set_nodes :: "merkle_node list \<Rightarrow> (string, string) js_map \<Rightarrow> (string, string) js_map" where
  "set_nodes nodes m = fold (\<lambda>node. map_set (merkleNodeKey (nr_start node) (nr_level node)) (mn_hash node)) nodes m"

definition appendLogEntry :: "(string \<Rightarrow> string) \<Rightarrow> log_entry \<Rightarrow> auth_store \<Rightarrow> auth_store result" where
  "appendLogEntry sha entry s =
     letE (merkleAppendNodes sha (le_sequence entry) (le_entryHash entry)
            (\<lambda>start level. map_get (merkleNodes s) (merkleNodeKey start level))) (\<lambda>nodes.
     Inr (s\<lparr>authorizationLog := authorizationLog s @ [entry],
            logByAuthorizationHash := map_set (le_authorizationHash entry) entry (logByAuthorizationHash s),
            merkleNodes := set_nodes nodes (merkleNodes s)\<rparr>))"

definition appendAuthorizationLog :: "(string \<Rightarrow> string) \<Rightarrow> string \<Rightarrow> int \<Rightarrow> auth_store \<Rightarrow> (auth_store \<times> log_entry) result" where
  "appendAuthorizationLog sha authorizationHash acceptedAt s = (
     case map_get (logByAuthorizationHash s) authorizationHash of
       Some existing \<Rightarrow> Inr (s, existing)
     | None \<Rightarrow> letE (next_entry sha authorizationHash acceptedAt s) (\<lambda>entry.
         letE (appendLogEntry sha entry s) (\<lambda>s'. Inr (s', entry))))"

definition listAuthorizationLog :: "auth_store \<Rightarrow> log_entry list" where
  "listAuthorizationLog s = authorizationLog s"

record merkle_snapshot =
  sn_size :: int
  sn_headEntryHash :: string
  sn_merkleRoot :: string
  sn_proof :: "proof_step list"

text \<open>The acceptance is given by its sequence and entry hash; a missing size is the log's.\<close>

definition getAuthorizationMerkleSnapshot ::
  "(string \<Rightarrow> string) \<Rightarrow> int \<Rightarrow> string \<Rightarrow> int option \<Rightarrow> auth_store \<Rightarrow> merkle_snapshot result" where
  "getAuthorizationMerkleSnapshot sha sequence entryHash sz s = (
     let entries = authorizationLog s in
     if sequence < 1 \<or> int (length entries) < sequence \<or> le_entryHash (entries ! nat (sequence - 1)) \<noteq> entryHash then Inl TypeErr else
     let checkpointSize = (case sz of None \<Rightarrow> int (length entries) | Some n \<Rightarrow> n) in
     if max_safe < \<bar>checkpointSize\<bar> \<or> checkpointSize < sequence \<or> int (length entries) < checkpointSize then Inl TypeErr else
     letE (createMerkleProof sha entryHash (nat sequence) (nat checkpointSize) (map_get (merkleNodes s))) (\<lambda>(root, path).
     Inr \<lparr>sn_size = checkpointSize, sn_headEntryHash = le_entryHash (entries ! nat (checkpointSize - 1)),
       sn_merkleRoot = root, sn_proof = path\<rparr>))"

section \<open>Authorizations\<close>

text \<open>The key under which the order id of a Hyperliquid intent is reserved.\<close>

definition cloid_key :: "jsval \<Rightarrow> jsval \<Rightarrow> jsval \<Rightarrow> string" where
  "cloid_key networkRef account clientOrderId =
     js_string networkRef @ '':'' @ js_string account @ '':'' @ js_string clientOrderId"

definition reservation_key :: "jsval \<Rightarrow> string option" where
  "reservation_key intent = (let reservation = hyperliquidCloidReservation intent in
     if reservation = Null then None
     else Some (cloid_key (fld reservation ''networkRef'') (fld reservation ''account'') (fld reservation ''clientOrderId'')))"

text \<open>The tests both save operations make before anything is written.\<close>

definition refused :: "jsval \<Rightarrow> auth_store \<Rightarrow> string option" where
  "refused authorization s = (
     if fld authorization ''authorizationNonce'' \<in> set (usedAuthorizationNonces s) then Some ''AUTHORIZATION_NONCE_REUSED'' else
     (case reservation_key (fld authorization ''intent'') of
        None \<Rightarrow> None
      | Some key \<Rightarrow> if map_get (hyperliquidCloids s) key \<noteq> None then Some ''HYPERLIQUID_CLOID_ALREADY_AUTHORIZED'' else None))"

text \<open>What both then write: the record, its nonce and its reserved order id.\<close>

definition keep_authorization :: "jsval \<Rightarrow> jsval \<Rightarrow> auth_store \<Rightarrow> auth_store" where
  "keep_authorization authorization rec s = s\<lparr>
     st_authorizations := map_set (fld authorization ''authorizationId'') rec (st_authorizations s),
     usedAuthorizationNonces := fld authorization ''authorizationNonce'' # usedAuthorizationNonces s,
     hyperliquidCloids := (case reservation_key (fld authorization ''intent'') of
        None \<Rightarrow> hyperliquidCloids s
      | Some key \<Rightarrow> map_set key (fld authorization ''authorizationId'') (hyperliquidCloids s))\<rparr>"

definition saveAcceptedAuthorization ::
  "(string \<Rightarrow> string) \<Rightarrow> jsval \<Rightarrow> int \<Rightarrow> (log_entry \<Rightarrow> jsval result) \<Rightarrow> auth_store \<Rightarrow> (auth_store \<times> jsval) result" where
  "saveAcceptedAuthorization sha authorization acceptedAt createRecord s = (
     case map_get (st_authorizations s) (fld authorization ''authorizationId'') of
       Some existing \<Rightarrow> Inr (s, existing)
     | None \<Rightarrow>
         (case refused authorization s of Some code \<Rightarrow> Inl (CodedError code) | None \<Rightarrow>
          let intent = fld authorization ''intent'';
              existingIntent = map_get (st_intents s) (fld intent ''intentId'') in
          if existingIntent \<noteq> None \<and> truthy (the existingIntent) \<and> \<not> js_eq (fld (the existingIntent) ''intentHash'') (fld authorization ''intentHash'')
            then Inl (PlainErr ''DUPLICATE_INTENT'') else
          letE (hashJson sha authorization) (\<lambda>authorizationHash.
          let existingLog = map_get (logByAuthorizationHash s) authorizationHash in
          letE (case existingLog of Some entry \<Rightarrow> Inr entry | None \<Rightarrow> next_entry sha authorizationHash acceptedAt s) (\<lambda>entry.
          letE (createRecord entry) (\<lambda>rec.
          letE (if existingLog = None then appendLogEntry sha entry s else Inr s) (\<lambda>s'.
          Inr (keep_authorization authorization rec
                 (s'\<lparr>st_intents := map_set (fld intent ''intentId'') intent (st_intents s')\<rparr>), rec)))))))"

definition saveAuthorization :: "jsval \<Rightarrow> auth_store \<Rightarrow> (auth_store \<times> jsval) result" where
  "saveAuthorization rec s = (let authorization = fld rec ''authorization'' in
     case map_get (st_authorizations s) (fld authorization ''authorizationId'') of
       Some existing \<Rightarrow> Inr (s, existing)
     | None \<Rightarrow> (case refused authorization s of Some code \<Rightarrow> Inl (CodedError code)
               | None \<Rightarrow> Inr (keep_authorization authorization rec s, rec)))"

definition getAuthorization :: "jsval \<Rightarrow> auth_store \<Rightarrow> jsval option" where
  "getAuthorization authorizationId s = map_get (st_authorizations s) authorizationId"

definition findHyperliquidCloidAuthorization :: "jsval \<Rightarrow> auth_store \<Rightarrow> jsval" where
  "findHyperliquidCloidAuthorization input s = (case map_get (hyperliquidCloids s)
       (cloid_key (fld input ''networkRef'') (fld input ''account'') (fld input ''clientOrderId'')) of
     None \<Rightarrow> Null | Some authorizationId \<Rightarrow> orElse authorizationId Null)"

section \<open>Binding to a transaction\<close>

datatype bind_reply = Bound jsval | BindRefused string

definition bound_record :: "jsval \<Rightarrow> jsval \<Rightarrow> jsval" where
  "bound_record rec tx = with_field (with_field (with_field rec ''boundTxHash'' tx) ''uses'' (Num 1)) ''status'' (Str ''BOUND'')"

definition set_record :: "jsval \<Rightarrow> jsval \<Rightarrow> auth_store \<Rightarrow> auth_store" where
  "set_record authorizationId rec s = s\<lparr>st_authorizations := map_set authorizationId rec (st_authorizations s)\<rparr>"

definition claimAuthorization :: "jsval \<Rightarrow> jsval \<Rightarrow> auth_store \<Rightarrow> (auth_store \<times> bind_reply) result" where
  "claimAuthorization authorizationId tx s = (case map_get (st_authorizations s) authorizationId of
       None \<Rightarrow> Inr (s, BindRefused ''AUTHORIZATION_NOT_FOUND'')
     | Some rec \<Rightarrow>
         if truthy (fld rec ''boundTxHash'') \<or> \<not> js_eq (fld rec ''uses'') (Num 0) \<or> fld rec ''status'' \<noteq> Str ''ACCEPTED''
         then Inr (s, BindRefused ''AUTHORIZATION_ALREADY_USED'')
         else Inr (set_record authorizationId (bound_record rec tx) s, Bound (bound_record rec tx)))"

definition bindAuthorization :: "jsval \<Rightarrow> jsval \<Rightarrow> auth_store \<Rightarrow> (auth_store \<times> bind_reply) result" where
  "bindAuthorization authorizationId tx s = (case map_get (st_authorizations s) authorizationId of
       None \<Rightarrow> Inr (s, BindRefused ''AUTHORIZATION_NOT_FOUND'')
     | Some rec \<Rightarrow>
         if truthy (fld rec ''boundTxHash'') \<and> \<not> js_eq (fld rec ''boundTxHash'') tx
         then Inr (s, BindRefused ''AUTHORIZATION_ALREADY_USED'') else
         let rec' = (if truthy (fld rec ''boundTxHash'') then rec else bound_record rec tx)
         in Inr (set_record authorizationId rec' s, Bound rec'))"

section \<open>Receipts and observations\<close>

definition assertReceiptIdentity :: "(string \<Rightarrow> string) \<Rightarrow> jsval option \<Rightarrow> jsval \<Rightarrow> unit result" where
  "assertReceiptIdentity sha existing candidate = (
     if existing = None \<or> \<not> truthy (the existing) \<or> \<not> truthy candidate then Inr () else
     letE (hashJson sha (the existing)) (\<lambda>a. letE (hashJson sha candidate) (\<lambda>b.
     if a = b then Inr () else Inl (CodedError ''RECEIPT_ID_CONFLICT''))))"

definition observation_key :: "jsval \<Rightarrow> jsval \<Rightarrow> string" where
  "observation_key chain tx = js_string chain @ '':'' @ js_string tx"

definition push_observation :: "jsval \<Rightarrow> auth_store \<Rightarrow> auth_store" where
  "push_observation value s = (let compound = observation_key (fld value ''chainId'') (fld value ''txHash'');
       versions = (case map_get (st_observations s) compound of None \<Rightarrow> [] | Some vs \<Rightarrow> vs)
     in s\<lparr>st_observations := map_set compound (versions @ [value]) (st_observations s)\<rparr>)"

definition saveObservationReceipt ::
  "(string \<Rightarrow> string) \<Rightarrow> jsval \<Rightarrow> bool \<Rightarrow> jsval \<Rightarrow> jsval \<Rightarrow> auth_store \<Rightarrow> (auth_store \<times> bind_reply) result" where
  "saveObservationReceipt sha authorizationId claims observation receipt s = (
     let rec = (if truthy authorizationId then map_get (st_authorizations s) authorizationId else None) in
     letE (assertReceiptIdentity sha
            (if truthy receipt then map_get (st_receipts s) (fld receipt ''receiptId'') else None) receipt) (\<lambda>_.
     if claims \<and> rec = None then Inr (s, BindRefused ''AUTHORIZATION_NOT_FOUND'') else
     let bound = (case rec of None \<Rightarrow> Undef | Some r \<Rightarrow> fld r ''boundTxHash'') in
     if claims \<and> truthy bound \<and> \<not> js_eq bound (fld observation ''txHash'')
       then Inr (s, BindRefused ''AUTHORIZATION_ALREADY_USED'') else
     let binds = claims \<and> \<not> truthy bound;
         rec' = (case rec of None \<Rightarrow> Null | Some r \<Rightarrow> if binds then bound_record r (fld observation ''txHash'') else r);
         s1 = (if binds then set_record authorizationId rec' s else s);
         s2 = push_observation observation s1
     in Inr (if truthy receipt \<and> map_get (st_receipts s) (fld receipt ''receiptId'') = None
             then s2\<lparr>st_receipts := map_set (fld receipt ''receiptId'') receipt (st_receipts s2)\<rparr> else s2, Bound rec')))"

definition saveReceipt :: "(string \<Rightarrow> string) \<Rightarrow> jsval \<Rightarrow> auth_store \<Rightarrow> (auth_store \<times> jsval) result" where
  "saveReceipt sha value s = (let existing = map_get (st_receipts s) (fld value ''receiptId'') in
     letE (assertReceiptIdentity sha existing value) (\<lambda>_.
     case existing of
       Some r \<Rightarrow> if truthy r then Inr (s, r)
                 else Inr (s\<lparr>st_receipts := map_set (fld value ''receiptId'') value (st_receipts s)\<rparr>, value)
     | None \<Rightarrow> Inr (s\<lparr>st_receipts := map_set (fld value ''receiptId'') value (st_receipts s)\<rparr>, value)))"

definition getReceipt :: "jsval \<Rightarrow> auth_store \<Rightarrow> jsval option" where
  "getReceipt receiptId s = map_get (st_receipts s) receiptId"

definition saveIntent :: "jsval \<Rightarrow> auth_store \<Rightarrow> (auth_store \<times> jsval) result" where
  "saveIntent intent s = (let existing = map_get (st_intents s) (fld intent ''intentId'') in
     if existing \<noteq> None \<and> truthy (the existing) \<and> \<not> js_eq (fld (the existing) ''intentHash'') (fld intent ''intentHash'')
     then Inl (PlainErr ''DUPLICATE_INTENT'')
     else Inr (s\<lparr>st_intents := map_set (fld intent ''intentId'') intent (st_intents s)\<rparr>, intent))"

definition getIntent :: "jsval \<Rightarrow> auth_store \<Rightarrow> jsval option" where
  "getIntent intentId s = map_get (st_intents s) intentId"

definition saveObservation :: "jsval \<Rightarrow> auth_store \<Rightarrow> (auth_store \<times> jsval) result" where
  "saveObservation value s = Inr (push_observation value s, value)"

definition getObservation :: "jsval \<Rightarrow> jsval \<Rightarrow> auth_store \<Rightarrow> jsval option" where
  "getObservation chain tx s = (case map_get (st_observations s) (observation_key chain tx) of
     None \<Rightarrow> None | Some versions \<Rightarrow> if versions = [] then None else Some (last versions))"

section \<open>Idempotency records\<close>

definition getIdempotency :: "auth_store \<Rightarrow> string \<Rightarrow> string \<Rightarrow> idem_record option" where
  "getIdempotency s scope key = map_get (st_idempotency s) (scope @ '':'' @ key)"

definition reserveIdempotency ::
  "int \<Rightarrow> string \<Rightarrow> string \<Rightarrow> idem_record \<Rightarrow> auth_store \<Rightarrow> (auth_store \<times> bool \<times> jsval) result" where
  "reserveIdempotency clock scope key new s = (
     let compound = scope @ '':'' @ key;
         saved = Inr (s\<lparr>st_idempotency := map_set compound new (st_idempotency s)\<rparr>, False, ir_response new) in
     case map_get (st_idempotency s) compound of
       None \<Rightarrow> saved
     | Some existing \<Rightarrow> if ir_expiresAt existing \<le> clock then saved else
         if ir_requestHash existing \<noteq> ir_requestHash new then Inl (CodedError ''IDEMPOTENCY_CONFLICT'')
         else Inr (s, True, ir_response existing))"

section \<open>Histories\<close>

text \<open>
  The callback that creates the record of an accepted authorization is the one authorize-intent.mjs
  passes: the authorization, followed by fields that may depend on the log entry.
\<close>

definition create_record :: "jsval \<Rightarrow> (log_entry \<Rightarrow> (string \<times> jsval) list result) \<Rightarrow> log_entry \<Rightarrow> jsval result" where
  "create_record authorization extra entry =
     letE (extra entry) (\<lambda>kvs. Inr (Obj ((''authorization'', authorization) # kvs)))"

datatype store_op =
    AppendLog string int
  | SaveAccepted jsval int "log_entry \<Rightarrow> (string \<times> jsval) list result"
  | SaveAuthorization jsval
  | Claim jsval jsval
  | Bind jsval jsval
  | SaveObservationReceipt jsval bool jsval jsval
  | SaveReceipt jsval
  | SaveIntent jsval
  | SaveObservation jsval
  | ReserveIdempotency int string string idem_record

definition state_only :: "('s \<times> 'r) result \<Rightarrow> ('s \<times> unit) result" where
  "state_only m = letE m (\<lambda>(s, _). Inr (s, ()))"

fun store_exec :: "(string \<Rightarrow> string) \<Rightarrow> store_op \<Rightarrow> auth_store \<Rightarrow> (auth_store \<times> unit) result" where
  "store_exec sha (AppendLog h t) s = state_only (appendAuthorizationLog sha h t s)"
| "store_exec sha (SaveAccepted a t extra) s = state_only (saveAcceptedAuthorization sha a t (create_record a extra) s)"
| "store_exec sha (SaveAuthorization r) s = state_only (saveAuthorization r s)"
| "store_exec sha (Claim i tx) s = state_only (claimAuthorization i tx s)"
| "store_exec sha (Bind i tx) s = state_only (bindAuthorization i tx s)"
| "store_exec sha (SaveObservationReceipt i c ob r) s = state_only (saveObservationReceipt sha i c ob r s)"
| "store_exec sha (SaveReceipt r) s = state_only (saveReceipt sha r s)"
| "store_exec sha (SaveIntent i) s = state_only (saveIntent i s)"
| "store_exec sha (SaveObservation ob) s = state_only (saveObservation ob s)"
| "store_exec sha (ReserveIdempotency now sc k new) s = state_only (reserveIdempotency now sc k new s)"

lemma state_only_Inr: "state_only m = Inr (s', u) \<Longrightarrow> \<exists>r. m = Inr (s', r)"
  by (auto simp: state_only_def letE_eq_Inr)

section \<open>The log is a hash chain with a complete index\<close>

definition chained :: "(string \<Rightarrow> string) \<Rightarrow> log_entry list \<Rightarrow> bool" where
  "chained sha entries = (\<forall>i<length entries. let e = entries ! i in
     le_sequence e = i + 1 \<and> le_previousEntryHash e = last_hash (take i entries)
     \<and> hashJson sha (entry_value (i + 1) (le_authorizationHash e) (le_acceptedAt e) (le_previousEntryHash e)) = Inr (le_entryHash e))"

text \<open>The entry hashes by sequence number, as the Merkle tree counts them.\<close>

definition entry_hash :: "log_entry list \<Rightarrow> nat \<Rightarrow> string" where
  "entry_hash entries i = le_entryHash (entries ! (i - 1))"

definition log_ok :: "(string \<Rightarrow> string) \<Rightarrow> auth_store \<Rightarrow> bool" where
  "log_ok sha s = (chained sha (authorizationLog s)
     \<and> (\<forall>h e. map_get (logByAuthorizationHash s) h = Some e \<longleftrightarrow> e \<in> set (authorizationLog s) \<and> le_authorizationHash e = h)
     \<and> int (length (authorizationLog s)) \<le> max_safe
     \<and> merkle_index sha (entry_hash (authorizationLog s)) (length (authorizationLog s)) (map_get (merkleNodes s)))"

lemma log_ok_index:
  "log_ok sha s \<Longrightarrow> map_get (logByAuthorizationHash s) h = Some e \<longleftrightarrow> e \<in> set (authorizationLog s) \<and> le_authorizationHash e = h"
  by (simp add: log_ok_def)

lemma log_ok_cong:
  "authorizationLog s' = authorizationLog s \<Longrightarrow> logByAuthorizationHash s' = logByAuthorizationHash s \<Longrightarrow>
    merkleNodes s' = merkleNodes s \<Longrightarrow> log_ok sha s' = log_ok sha s"
  by (simp add: log_ok_def)

lemma map_get_set_nodes: "map_get (set_nodes nodes m) = store_nodes (map_get m) nodes"
proof (induction nodes arbitrary: m)
  case (Cons node nodes)
  have "map_get (map_set k v m) = (map_get m)(k \<mapsto> v)" for k v and m :: "(string, string) js_map"
    by (rule ext) simp
  with Cons show ?case by (simp add: set_nodes_def store_nodes_def)
qed (simp add: set_nodes_def store_nodes_def)

lemma chained_snoc:
  assumes "chained sha entries" "hashJson sha (entry_value (length entries + 1) (le_authorizationHash e) (le_acceptedAt e)
      (le_previousEntryHash e)) = Inr (le_entryHash e)" "le_sequence e = length entries + 1" "le_previousEntryHash e = last_hash entries"
  shows "chained sha (entries @ [e])"
  using assms unfolding chained_def by (auto simp: nth_append less_Suc_eq Let_def)

lemma append_log_ok:
  assumes ok: "log_ok sha s" and hex: "hex_hash sha" and new: "map_get (logByAuthorizationHash s) h = None"
    and e: "next_entry sha h t s = Inr e" and a: "appendLogEntry sha e s = Inr s'"
  shows "log_ok sha s'"
proof -
  let ?es = "authorizationLog s" and ?N = "length (authorizationLog s)"
  from e have e': "le_sequence e = ?N + 1" "le_authorizationHash e = h" "le_previousEntryHash e = last_hash ?es"
    "hashJson sha (entry_value (?N + 1) (le_authorizationHash e) (le_acceptedAt e) (le_previousEntryHash e)) = Inr (le_entryHash e)"
    by (auto simp: next_entry_def Let_def letE_eq_Inr)
  from a obtain nodes where n: "merkleAppendNodes sha (Suc ?N) (le_entryHash e) (\<lambda>start level. map_get (merkleNodes s) (merkleNodeKey start level)) = Inr nodes"
    and s': "s' = s\<lparr>authorizationLog := ?es @ [e], logByAuthorizationHash := map_set h e (logByAuthorizationHash s),
      merkleNodes := set_nodes nodes (merkleNodes s)\<rparr>"
    by (auto simp: appendLogEntry_def letE_eq_Inr e')
  have N: "int (Suc ?N) \<le> max_safe" using n by (auto simp: merkleAppendNodes_def split: if_splits)
  let ?f = "entry_hash (?es @ [e])"
  have "merkle_index sha (entry_hash ?es) ?N (map_get (merkleNodes s))" using ok by (simp add: log_ok_def)
  then have "merkle_index sha ?f ?N (map_get (merkleNodes s))"
    by (subst merkle_index_cong [where g = "entry_hash ?es"]) (auto simp: entry_hash_def nth_append)
  from append_index [OF this hex N] n have "merkle_index sha ?f (Suc ?N) (map_get (merkleNodes s'))"
    by (auto simp: s' map_get_set_nodes entry_hash_def)
  moreover have "chained sha (?es @ [e])" using ok e' by (intro chained_snoc) (simp_all add: log_ok_def)
  moreover have "le_authorizationHash x \<noteq> h" if "x \<in> set ?es" for x
  proof
    assume "le_authorizationHash x = h"
    with ok that have "map_get (logByAuthorizationHash s) h = Some x" by (simp add: log_ok_def)
    with new show False by simp
  qed
  then have "map_get (logByAuthorizationHash s') k = Some x \<longleftrightarrow> x \<in> set (?es @ [e]) \<and> le_authorizationHash x = k" for k x
    using ok e'(2) by (auto simp: s' log_ok_def)
  ultimately show ?thesis using N by (simp add: log_ok_def s')
qed

text \<open>Everything but the log operations leaves the log alone.\<close>

definition same_log :: "auth_store \<Rightarrow> auth_store \<Rightarrow> bool" where
  "same_log s s' = (authorizationLog s' = authorizationLog s \<and> logByAuthorizationHash s' = logByAuthorizationHash s
     \<and> merkleNodes s' = merkleNodes s)"

lemma same_log_simps [simp]:
  "same_log s s" "same_log s (keep_authorization a r s) \<longleftrightarrow> True" "same_log s (set_record i r s)"
  "same_log s (s\<lparr>st_intents := x1\<rparr>)" "same_log s (s\<lparr>st_receipts := x2\<rparr>)" "same_log s (s\<lparr>st_idempotency := x3\<rparr>)"
  "same_log s (push_observation v s)"
  by (simp_all add: same_log_def keep_authorization_def set_record_def push_observation_def Let_def)

lemma same_log_trans: "same_log s s' \<Longrightarrow> same_log s' s'' \<Longrightarrow> same_log s s''"
  by (simp add: same_log_def)

text \<open>What an accepted authorization does: nothing when known, else it may append to the log, then keeps it.\<close>

lemma saveAccepted_cases:
  assumes "saveAcceptedAuthorization sha a t createRecord s = Inr (s', rec)"
  obtains (known) "s' = s" "map_get (st_authorizations s) (fld a ''authorizationId'') = Some rec"
  | (saved) s1 entry where "map_get (st_authorizations s) (fld a ''authorizationId'') = None" "refused a s = None"
    "createRecord entry = Inr rec"
    "s' = keep_authorization a rec (s1\<lparr>st_intents := map_set (fld (fld a ''intent'') ''intentId'') (fld a ''intent'') (st_intents s1)\<rparr>)"
    "s1 = s \<or> (\<exists>h. map_get (logByAuthorizationHash s) h = None \<and> next_entry sha h t s = Inr entry \<and> appendLogEntry sha entry s = Inr s1)"
proof (cases "map_get (st_authorizations s) (fld a ''authorizationId'')")
  case (Some r)
  with assms known show ?thesis by (simp add: saveAcceptedAuthorization_def)
next
  case None
  with assms have r: "refused a s = None"
    by (cases "refused a s") (simp_all add: saveAcceptedAuthorization_def)
  from assms obtain h entry s1 where
    h: "hashJson sha a = Inr h"
    and entry: "(case map_get (logByAuthorizationHash s) h of Some e \<Rightarrow> Inr e | None \<Rightarrow> next_entry sha h t s) = Inr entry"
    and rec: "createRecord entry = Inr rec"
    and s1: "(if map_get (logByAuthorizationHash s) h = None then appendLogEntry sha entry s else Inr s) = Inr s1"
    and s': "s' = keep_authorization a rec (s1\<lparr>st_intents := map_set (fld (fld a ''intent'') ''intentId'') (fld a ''intent'') (st_intents s1)\<rparr>)"
    unfolding saveAcceptedAuthorization_def Let_def None r option.case prod.inject
    by (elim letE_InrE guard_InrE) (use that in \<open>auto\<close>)
  moreover from entry s1 have "s1 = s \<or> (\<exists>h. map_get (logByAuthorizationHash s) h = None \<and> next_entry sha h t s = Inr entry \<and> appendLogEntry sha entry s = Inr s1)"
    by (cases "map_get (logByAuthorizationHash s) h") auto
  ultimately show ?thesis using saved [OF None r rec s'] by blast
qed

lemma same_log_ops:
  "saveAuthorization r s = Inr (s', x1) \<Longrightarrow> same_log s s'"
  "claimAuthorization i tx s = Inr (s', x2) \<Longrightarrow> same_log s s'"
  "bindAuthorization i tx s = Inr (s', x2) \<Longrightarrow> same_log s s'"
  "saveReceipt sha r s = Inr (s', x1) \<Longrightarrow> same_log s s'"
  "saveIntent r s = Inr (s', x1) \<Longrightarrow> same_log s s'"
  "saveObservation r s = Inr (s', x1) \<Longrightarrow> same_log s s'"
  "reserveIdempotency now sc k new s = Inr (s', x3) \<Longrightarrow> same_log s s'"
  by (auto simp: saveAuthorization_def claimAuthorization_def bindAuthorization_def saveReceipt_def saveIntent_def
      saveObservation_def reserveIdempotency_def Let_def letE_eq_Inr split: option.splits if_splits)

lemma same_log_observation:
  assumes "saveObservationReceipt sha i c ob r s = Inr (s', x)"
  shows "same_log s s'"
proof -
  have "same_log s1 s2 \<Longrightarrow> same_log s1 (s2\<lparr>st_receipts := v\<rparr>)" for s1 s2 v by (simp add: same_log_def)
  moreover have "same_log s (push_observation ob (set_record i q s))" for q
    by (rule same_log_trans [of _ "set_record i q s"]) simp_all
  ultimately show ?thesis using assms
    unfolding saveObservationReceipt_def Let_def by (auto simp: letE_eq_Inr split: if_splits)
qed

lemma same_log_ok: "same_log s s' \<Longrightarrow> log_ok sha s \<Longrightarrow> log_ok sha s'"
  by (simp add: same_log_def log_ok_def)

lemma log_ok_append:
  "hex_hash sha \<Longrightarrow> log_ok sha s \<Longrightarrow> appendAuthorizationLog sha h t s = Inr (s', e) \<Longrightarrow> log_ok sha s'"
  by (auto simp: appendAuthorizationLog_def letE_eq_Inr split: option.splits intro: append_log_ok)

lemma log_ok_accepted:
  assumes "hex_hash sha" "log_ok sha s" "saveAcceptedAuthorization sha a t createRecord s = Inr (s', r)"
  shows "log_ok sha s'"
  using assms(3)
proof (cases rule: saveAccepted_cases)
  case (saved s1 entry)
  from saved(5) have "log_ok sha s1" using append_log_ok [OF assms(2,1)] assms(2) by blast
  moreover have "same_log s1 s'"
    by (simp add: saved(4) same_log_def keep_authorization_def)
  ultimately show ?thesis by (rule same_log_ok [rotated])
qed (use assms in simp)

lemma log_ok_exec:
  assumes "hex_hash sha" "log_ok sha s" "store_exec sha c s = Inr (s', r)"
  shows "log_ok sha s'"
  using assms by (cases c) (auto dest!: state_only_Inr dest: log_ok_append log_ok_accepted same_log_ops same_log_observation same_log_ok)

lemma log_ok_empty: "log_ok sha empty_store"
  by (simp add: log_ok_def empty_store_def chained_def index_0 max_safe_def)

section \<open>Nonces and order ids are used once\<close>

definition auth_of :: "jsval \<Rightarrow> jsval" where
  "auth_of rec = fld rec ''authorization''"

definition cloid_of :: "jsval \<Rightarrow> string option" where
  "cloid_of rec = reservation_key (fld (auth_of rec) ''intent'')"

definition nonce_of :: "jsval \<Rightarrow> jsval" where
  "nonce_of rec = fld (auth_of rec) ''authorizationNonce''"

definition ids_ok :: "auth_store \<Rightarrow> bool" where
  "ids_ok s = ((\<forall>i rec. map_get (st_authorizations s) i = Some rec \<longrightarrow>
       fld (auth_of rec) ''authorizationId'' = i \<and> nonce_of rec \<in> set (usedAuthorizationNonces s)
       \<and> (\<forall>key. cloid_of rec = Some key \<longrightarrow> map_get (hyperliquidCloids s) key = Some i))
     \<and> (\<forall>i j p q. map_get (st_authorizations s) i = Some p \<and> map_get (st_authorizations s) j = Some q
          \<and> nonce_of p = nonce_of q \<longrightarrow> i = j))"

definition same_ids :: "auth_store \<Rightarrow> auth_store \<Rightarrow> bool" where
  "same_ids s s' = (st_authorizations s' = st_authorizations s \<and> usedAuthorizationNonces s' = usedAuthorizationNonces s
     \<and> hyperliquidCloids s' = hyperliquidCloids s)"

lemma same_ids_ok: "same_ids s s' \<Longrightarrow> ids_ok s' = ids_ok s"
  by (simp add: same_ids_def ids_ok_def)

lemma fld_with_field_other: "k' \<noteq> k \<Longrightarrow> fld (with_field v k x) k' = fld v k'"
  by (cases v) (simp_all add: with_field_def fld_set_field)

lemma auth_of_bound [simp]: "auth_of (bound_record rec tx) = auth_of rec"
  by (simp add: auth_of_def bound_record_def fld_with_field_other)

lemma ids_ok_record:
  assumes "ids_ok s" "map_get (st_authorizations s) i = Some rec"
  shows "fld (auth_of rec) ''authorizationId'' = i" "nonce_of rec \<in> set (usedAuthorizationNonces s)"
    "cloid_of rec = Some key \<Longrightarrow> map_get (hyperliquidCloids s) key = Some i"
  using assms by (simp_all add: ids_ok_def)

lemma ids_ok_unique:
  "ids_ok s \<Longrightarrow> map_get (st_authorizations s) i = Some p \<Longrightarrow> map_get (st_authorizations s) j = Some q \<Longrightarrow>
    nonce_of p = nonce_of q \<Longrightarrow> i = j"
  unfolding ids_ok_def by blast

text \<open>A record may be replaced by one with the same authorization.\<close>

lemma same_auth_ids:
  assumes ok: "ids_ok s" and old: "map_get (st_authorizations s) i = Some rec" and same: "auth_of rec' = auth_of rec"
  shows "ids_ok (set_record i rec' s)"
proof -
  let ?s = "set_record i rec' s"
  have earlier: "\<exists>p'. map_get (st_authorizations s) j = Some p' \<and> auth_of p' = auth_of p"
    if "map_get (st_authorizations ?s) j = Some p" for j p
    using that old same by (cases "j = i") (auto simp: set_record_def)
  have rest: "usedAuthorizationNonces ?s = usedAuthorizationNonces s" "hyperliquidCloids ?s = hyperliquidCloids s"
    by (simp_all add: set_record_def)
  have eqs: "nonce_of p' = nonce_of p \<and> cloid_of p' = cloid_of p" if "auth_of p' = auth_of p" for p p'
    using that by (simp add: nonce_of_def cloid_of_def)
  show ?thesis
    unfolding ids_ok_def rest
  proof (intro conjI allI impI; (elim conjE)?)
    fix j p assume "map_get (st_authorizations ?s) j = Some p"
    then obtain p' where p': "map_get (st_authorizations s) j = Some p'" "auth_of p' = auth_of p" using earlier by blast
    note facts = ids_ok_record [OF ok p'(1)]
    show "fld (auth_of p) ''authorizationId'' = j" using facts(1) p'(2) by simp
    show "nonce_of p \<in> set (usedAuthorizationNonces s)" using facts(2) eqs [OF p'(2)] by simp
    show "map_get (hyperliquidCloids s) key = Some j" if "cloid_of p = Some key" for key
      using facts(3) eqs [OF p'(2)] that by simp
  next
    fix j k p q assume "map_get (st_authorizations ?s) j = Some p" "map_get (st_authorizations ?s) k = Some q" "nonce_of p = nonce_of q"
    then obtain p' q' where pq: "map_get (st_authorizations s) j = Some p'" "map_get (st_authorizations s) k = Some q'"
      and "auth_of p' = auth_of p" "auth_of q' = auth_of q" using earlier by meson
    then have "nonce_of p' = nonce_of q'" using \<open>nonce_of p = nonce_of q\<close> by (simp add: nonce_of_def)
    then show "j = k" by (rule ids_ok_unique [OF ok pq])
  qed
qed

lemma ids_keep:
  assumes ok: "ids_ok s" and new: "map_get (st_authorizations s) (fld a ''authorizationId'') = None"
    and r: "refused a s = None" and rec: "auth_of rec = a"
  shows "ids_ok (keep_authorization a rec s)"
proof -
  have nonce: "fld a ''authorizationNonce'' \<notin> set (usedAuthorizationNonces s)"
    using r by (auto simp: refused_def split: if_splits)
  have key: "map_get (hyperliquidCloids s) k = None" if "reservation_key (fld a ''intent'') = Some k" for k
    using r that by (auto simp: refused_def split: if_splits)
  have other: "nonce_of q \<noteq> fld a ''authorizationNonce''" if "map_get (st_authorizations s) i = Some q" for i q
    using ok nonce that unfolding ids_ok_def by metis
  have keeps: "map_get (hyperliquidCloids (keep_authorization a rec s)) k = Some i"
    if "map_get (hyperliquidCloids s) k = Some i" for k i
    using that key by (auto simp: keep_authorization_def split: option.splits)
  show ?thesis
    unfolding ids_ok_def
  proof (intro conjI allI impI; (elim conjE)?)
    fix i q assume q: "map_get (st_authorizations (keep_authorization a rec s)) i = Some q"
    have old: "fld (auth_of q) ''authorizationId'' = i \<and> nonce_of q \<in> set (usedAuthorizationNonces s)
        \<and> (\<forall>key. cloid_of q = Some key \<longrightarrow> map_get (hyperliquidCloids s) key = Some i)" if "i \<noteq> fld a ''authorizationId''"
      using ok q that unfolding ids_ok_def by (simp add: keep_authorization_def)
    show "fld (auth_of q) ''authorizationId'' = i"
      using q old rec by (auto simp: keep_authorization_def split: if_splits)
    show "nonce_of q \<in> set (usedAuthorizationNonces (keep_authorization a rec s))"
      using q old rec by (auto simp: keep_authorization_def nonce_of_def split: if_splits)
    show "map_get (hyperliquidCloids (keep_authorization a rec s)) k = Some i" if "cloid_of q = Some k" for k
    proof (cases "i = fld a ''authorizationId''")
      case True
      with q have "q = rec" by (simp add: keep_authorization_def)
      with that True rec show ?thesis by (simp add: keep_authorization_def cloid_of_def)
    qed (use old that keeps in auto)
  next
    fix i j p q
    let ?i = "fld a ''authorizationId''"
    assume p: "map_get (st_authorizations (keep_authorization a rec s)) i = Some p"
      and q: "map_get (st_authorizations (keep_authorization a rec s)) j = Some q" and n: "nonce_of p = nonce_of q"
    have rec_nonce: "nonce_of rec = fld a ''authorizationNonce''" using rec by (simp add: nonce_of_def)
    consider "i = ?i" "j = ?i" | "i = ?i" "j \<noteq> ?i" | "i \<noteq> ?i" "j = ?i" | "i \<noteq> ?i" "j \<noteq> ?i" by blast
    then show "i = j"
    proof cases
      case 2
      with p q have "p = rec" "map_get (st_authorizations s) j = Some q" by (simp_all add: keep_authorization_def)
      with n other [of j q] rec_nonce show ?thesis by simp
    next
      case 3
      with p q have "q = rec" "map_get (st_authorizations s) i = Some p" by (simp_all add: keep_authorization_def)
      with n other [of i p] rec_nonce show ?thesis by simp
    next
      case 4
      with p q have "map_get (st_authorizations s) i = Some p" "map_get (st_authorizations s) j = Some q"
        by (simp_all add: keep_authorization_def)
      with ok n show ?thesis unfolding ids_ok_def by blast
    qed simp
  qed
qed

lemma same_ids_simps [simp]:
  "same_ids s s" "same_ids s (s\<lparr>st_intents := x1\<rparr>)" "same_ids s (s\<lparr>st_receipts := x2\<rparr>)" "same_ids s (s\<lparr>st_idempotency := x3\<rparr>)"
  "same_ids s (push_observation v s)"
  by (simp_all add: same_ids_def push_observation_def Let_def)

lemma same_ids_append: "appendLogEntry sha e s = Inr s' \<Longrightarrow> same_ids s s'"
  by (auto simp: appendLogEntry_def letE_eq_Inr same_ids_def)

lemma ids_ok_accepted:
  assumes "ids_ok s" "saveAcceptedAuthorization sha a t (create_record a extra) s = Inr (s', r)"
  shows "ids_ok s'"
  using assms(2)
proof (cases rule: saveAccepted_cases)
  case (saved s1 entry)
  let ?s2 = "s1\<lparr>st_intents := map_set (fld (fld a ''intent'') ''intentId'') (fld a ''intent'') (st_intents s1)\<rparr>"
  have same: "same_ids s ?s2" using saved(5) same_ids_append by (fastforce simp: same_ids_def)
  have "auth_of r = a" using saved(3) by (auto simp: create_record_def letE_eq_Inr auth_of_def)
  moreover have "refused a ?s2 = None" "map_get (st_authorizations ?s2) (fld a ''authorizationId'') = None"
    using saved(1,2) same by (auto simp: refused_def same_ids_def split: option.splits if_splits)
  moreover have "ids_ok ?s2" using assms(1) same by (simp only: same_ids_ok)
  ultimately show ?thesis unfolding saved(4) by (intro ids_keep)
qed (use assms in simp)

lemma ids_ok_save:
  "ids_ok s \<Longrightarrow> saveAuthorization rec s = Inr (s', r) \<Longrightarrow> ids_ok s'"
  by (auto simp: saveAuthorization_def Let_def auth_of_def intro!: ids_keep split: option.splits)

lemma ids_ok_same:
  "appendAuthorizationLog sha h t s = Inr (s', x) \<Longrightarrow> same_ids s s'"
  "saveReceipt sha v s = Inr (s', x1) \<Longrightarrow> same_ids s s'"
  "saveIntent v s = Inr (s', x1) \<Longrightarrow> same_ids s s'"
  "saveObservation v s = Inr (s', x1) \<Longrightarrow> same_ids s s'"
  "reserveIdempotency now sc k new s = Inr (s', x3) \<Longrightarrow> same_ids s s'"
  by (auto simp: appendAuthorizationLog_def saveReceipt_def saveIntent_def saveObservation_def reserveIdempotency_def
      Let_def letE_eq_Inr split: option.splits if_splits intro: same_ids_append)

section \<open>A bound authorization stays bound\<close>

definition bound_to :: "auth_store \<Rightarrow> jsval \<times> jsval \<Rightarrow> bool" where
  "bound_to s b = (case map_get (st_authorizations s) (fst b) of None \<Rightarrow> False
     | Some rec \<Rightarrow> fld rec ''boundTxHash'' = snd b \<and> truthy (snd b))"

text \<open>What a change of the records may do to them: keep each, or bind one that was unbound.\<close>

inductive records_step :: "auth_store \<Rightarrow> auth_store \<Rightarrow> bool" where
  same: "same_ids s s' \<Longrightarrow> records_step s s'"
| binds: "map_get (st_authorizations s) i = Some rec \<Longrightarrow> \<not> truthy (fld rec ''boundTxHash'') \<Longrightarrow>
    same_ids (set_record i (bound_record rec tx) s) s' \<Longrightarrow> records_step s s'"

inductive_cases records_stepE: "records_step s s'"

lemma binds_record:
  "map_get (st_authorizations s) i = Some rec \<Longrightarrow> \<not> truthy (fld rec ''boundTxHash'') \<Longrightarrow>
    records_step s (set_record i (bound_record rec tx) s)"
  by (rule records_step.binds [where i = i and rec = rec and tx = tx]) simp_all

lemma set_record_same: "map_get (st_authorizations s) i = Some rec \<Longrightarrow> set_record i rec s = s"
  by (simp add: set_record_def update_triv)

lemma same_step: "records_step s s"
  by (simp add: records_step.same)

lemma claim_step: "claimAuthorization i tx s = Inr (s', r) \<Longrightarrow> records_step s s'"
  by (auto simp: claimAuthorization_def split: option.splits if_splits intro: same_step binds_record)

lemma bind_step: "bindAuthorization i tx s = Inr (s', r) \<Longrightarrow> records_step s s'"
  by (auto simp: bindAuthorization_def Let_def set_record_same split: option.splits if_splits
      intro: same_step binds_record)

lemma same_ids_receipts:
  "same_ids s s' \<Longrightarrow> same_ids s (if c then s'\<lparr>st_receipts := v\<rparr> else s')"
  "same_ids s s' \<Longrightarrow> same_ids s (s'\<lparr>st_receipts := v\<rparr>)"
  by (simp_all add: same_ids_def)

lemma observation_cases:
  assumes "saveObservationReceipt sha i c ob r s = Inr (s', x)"
  obtains (refuses) "s' = s"
  | (writes) v b where "same_ids s s'"
  | (bound) rec where "map_get (st_authorizations s) i = Some rec" "\<not> truthy (fld rec ''boundTxHash'')"
    "same_ids (set_record i (bound_record rec (fld ob ''txHash'')) s) s'"
proof (cases "if truthy i then map_get (st_authorizations s) i else None")
  case None
  with assms have "s' = s \<or> same_ids s s'"
    unfolding saveObservationReceipt_def Let_def None option.case
    by (elim letE_InrE) (auto simp: same_ids_receipts split: if_splits)
  then show ?thesis using refuses writes by blast
next
  case (Some rec)
  then have rec: "map_get (st_authorizations s) i = Some rec" by (simp split: if_splits)
  show ?thesis
  proof (cases "c \<and> \<not> truthy (fld rec ''boundTxHash'')")
    case True
    with assms have "same_ids (set_record i (bound_record rec (fld ob ''txHash'')) s) s'"
      unfolding saveObservationReceipt_def Let_def Some option.case
      by (elim letE_InrE) (auto simp: same_ids_receipts split: if_splits)
    with True rec show ?thesis by (intro bound) auto
  next
    case False
    with assms have "s' = s \<or> same_ids s s'"
      unfolding saveObservationReceipt_def Let_def Some option.case
      by (elim letE_InrE) (auto simp: same_ids_receipts split: if_splits)
    then show ?thesis using refuses writes by blast
  qed
qed

lemma observation_step:
  assumes "saveObservationReceipt sha i c ob r s = Inr (s', x)"
  shows "records_step s s'"
  using assms by (cases rule: observation_cases) (auto intro: records_step.intros)

lemma records_step_bound:
  assumes "records_step s s'" "bound_to s b"
  shows "bound_to s' b"
  using assms(1)
proof cases
  case same
  with assms(2) show ?thesis by (simp add: bound_to_def same_ids_def)
next
  case (binds i rec tx)
  with assms(2) show ?thesis
    by (cases "fst b = i") (auto simp: bound_to_def same_ids_def set_record_def)
qed

lemma records_step_ids:
  assumes "records_step s s'" "ids_ok s"
  shows "ids_ok s'"
  using assms(1)
proof cases
  case same
  with assms(2) show ?thesis by (simp add: same_ids_ok)
next
  case (binds i rec tx)
  from same_auth_ids [OF assms(2) binds(1) auth_of_bound] binds(3) show ?thesis by (simp add: same_ids_ok)
qed

lemma keep_bound:
  "map_get (st_authorizations s) (fld a ''authorizationId'') = None \<Longrightarrow> bound_to s b \<Longrightarrow> bound_to (keep_authorization a rec s) b"
  by (auto simp: bound_to_def keep_authorization_def split: option.splits)

lemma same_ids_bound: "same_ids s s' \<Longrightarrow> bound_to s' b = bound_to s b"
  by (simp add: bound_to_def same_ids_def)

lemma bound_accepted:
  assumes "bound_to s b" "saveAcceptedAuthorization sha a t createRecord s = Inr (s', r)"
  shows "bound_to s' b"
  using assms(2)
proof (cases rule: saveAccepted_cases)
  case (saved s1 entry)
  let ?s2 = "s1\<lparr>st_intents := map_set (fld (fld a ''intent'') ''intentId'') (fld a ''intent'') (st_intents s1)\<rparr>"
  have same: "same_ids s ?s2" using saved(5) same_ids_append by (fastforce simp: same_ids_def)
  with assms(1) saved(1) show ?thesis
    unfolding saved(4) by (intro keep_bound) (simp_all add: same_ids_bound, simp add: same_ids_def)
qed (use assms in simp)

lemma bound_save: "bound_to s b \<Longrightarrow> saveAuthorization rec s = Inr (s', r) \<Longrightarrow> bound_to s' b"
  by (auto simp: saveAuthorization_def Let_def intro: keep_bound split: option.splits)

lemmas records_steps = claim_step bind_step observation_step ids_ok_same [THEN records_step.same]

definition store_ok :: "(string \<Rightarrow> string) \<Rightarrow> auth_store \<Rightarrow> bool" where
  "store_ok sha s = ((hex_hash sha \<longrightarrow> log_ok sha s) \<and> ids_ok s)"

lemma ids_ok_exec: "ids_ok s \<Longrightarrow> store_exec sha c s = Inr (s', r) \<Longrightarrow> ids_ok s'"
  by (cases c) (auto dest!: state_only_Inr dest: ids_ok_accepted ids_ok_save records_steps [THEN records_step_ids])

lemma bound_exec: "bound_to s b \<Longrightarrow> store_exec sha c s = Inr (s', r) \<Longrightarrow> bound_to s' b"
  by (cases c) (auto dest!: state_only_Inr dest: bound_accepted bound_save records_steps [THEN records_step_bound])

lemma ids_ok_empty: "ids_ok empty_store"
  by (simp add: ids_ok_def empty_store_def)

lemma store_ok_empty: "store_ok sha empty_store"
  unfolding store_ok_def using log_ok_empty [of sha] ids_ok_empty by blast

lemma store_ok_exec: "store_ok sha s \<Longrightarrow> store_exec sha c s = Inr (s', r) \<Longrightarrow> store_ok sha s'"
  unfolding store_ok_def using log_ok_exec ids_ok_exec by blast

interpretation store: growing_store "store_exec sha" empty_store "store_ok sha" bound_to for sha
  using store_ok_empty store_ok_exec bound_exec by unfold_locales blast+

section \<open>The store as the idempotency layer sees it\<close>

definition scope_ok :: "string \<Rightarrow> bool" where
  "scope_ok scope = (CHR '':'' \<notin> set scope)"

lemma scoped_key_inj:
  "scope_ok a \<Longrightarrow> scope_ok b \<Longrightarrow> a @ '':'' @ x = b @ '':'' @ y \<longleftrightarrow> a = b \<and> x = y"
proof (induction a arbitrary: b)
  case Nil
  then show ?case by (cases b) (auto simp: scope_ok_def)
next
  case (Cons c a)
  then show ?case by (cases b) (auto simp: scope_ok_def)
qed

lemma reserve_known:
  "getIdempotency s scope key = Some r \<Longrightarrow> now < ir_expiresAt r \<Longrightarrow> reserveIdempotency now scope key new s =
    (if ir_requestHash r = ir_requestHash new then Inr (s, True, ir_response r) else Inl (CodedError ''IDEMPOTENCY_CONFLICT''))"
  by (simp add: getIdempotency_def reserveIdempotency_def Let_def)

lemma reserve_new:
  assumes "\<And>r. getIdempotency s scope key = Some r \<Longrightarrow> ir_expiresAt r \<le> now"
  shows "\<exists>s'. reserveIdempotency now scope key new s = Inr (s', False, ir_response new) \<and> getIdempotency s' scope key = Some new"
  using assms by (cases "getIdempotency s scope key") (simp_all add: getIdempotency_def reserveIdempotency_def Let_def)

lemma reserve_apart:
  assumes "reserveIdempotency now scope key new s = Inr (s', reply)" "scope_ok scope" "scope_ok scope'"
    "(scope', key') \<noteq> (scope, key)"
  shows "getIdempotency s' scope' key' = getIdempotency s scope' key'"
proof -
  have "scope' @ '':'' @ key' \<noteq> scope @ '':'' @ key"
    using scoped_key_inj [OF assms(3,2)] assms(4) by simp
  with assms(1) show ?thesis
    by (cases "map_get (st_idempotency s) (scope @ '':'' @ key)")
      (auto simp: getIdempotency_def reserveIdempotency_def Let_def split: if_splits)
qed

interpretation idempotency: idempotency_store getIdempotency reserveIdempotency scope_ok
  by unfold_locales (rule reserve_known reserve_new reserve_apart; assumption)+

section \<open>The registry the store implements\<close>

text \<open>
  The abstract specification: an append-only list of authorization hashes without repetitions, and for
  each registered authorization the transaction it is bound to, which is set at most once.
\<close>

record registry =
  rg_log :: "string list"
  rg_bound :: "jsval \<Rightarrow> jsval option"

definition appended :: "string list \<Rightarrow> registry \<Rightarrow> registry" where
  "appended hs g = g\<lparr>rg_log := rg_log g @ hs\<rparr>"

definition registered :: "jsval \<Rightarrow> jsval \<Rightarrow> registry \<Rightarrow> registry" where
  "registered i b g = g\<lparr>rg_bound := (rg_bound g)(i \<mapsto> b)\<rparr>"

inductive registry_step :: "registry \<Rightarrow> registry \<Rightarrow> bool" where
  stays: "registry_step g g"
| appends: "h \<notin> set (rg_log g) \<Longrightarrow> registry_step g (appended [h] g)"
| registers: "rg_bound g i = None \<Longrightarrow> registry_step g (registered i b g)"
| accepts: "rg_bound g i = None \<Longrightarrow> h \<notin> set (rg_log g) \<Longrightarrow> registry_step g (registered i b (appended [h] g))"
| binds: "rg_bound g i = Some b \<Longrightarrow> \<not> truthy b \<Longrightarrow> registry_step g (registered i tx g)"

inductive_simps registry_step_iff: "registry_step g g'"

definition registry_of :: "auth_store \<Rightarrow> registry" where
  "registry_of s = \<lparr>rg_log = map le_authorizationHash (authorizationLog s),
     rg_bound = (\<lambda>i. map_option (\<lambda>rec. fld rec ''boundTxHash'') (map_get (st_authorizations s) i))\<rparr>"

definition empty_registry :: registry where
  "empty_registry = \<lparr>rg_log = [], rg_bound = (\<lambda>i. None)\<rparr>"

lemma registry_of_empty: "registry_of empty_store = empty_registry"
  by (simp add: registry_of_def empty_store_def empty_registry_def)

lemma registry_of_cong:
  "same_log s s' \<Longrightarrow> st_authorizations s' = st_authorizations s \<Longrightarrow> registry_of s' = registry_of s"
  by (simp add: registry_of_def same_log_def)

lemma registry_of_keep:
  "registry_of (keep_authorization a rec s) = registered (fld a ''authorizationId'') (fld rec ''boundTxHash'') (registry_of s)"
  by (auto simp: registry_of_def keep_authorization_def registered_def)

lemma registry_of_set:
  "registry_of (set_record i rec s) = registered i (fld rec ''boundTxHash'') (registry_of s)"
  by (auto simp: registry_of_def set_record_def registered_def)

lemma registry_records:
  assumes "records_step s s'" "same_log s s'"
  shows "registry_step (registry_of s) (registry_of s')"
  using assms(1)
proof cases
  case same
  then have "registry_of s' = registry_of s" using assms(2) by (intro registry_of_cong) (simp_all add: same_ids_def)
  then show ?thesis by (simp add: registry_step.stays)
next
  case (binds i rec tx)
  have "registry_of s' = registry_of (set_record i (bound_record rec tx) s)"
    using binds(3) assms(2) by (simp add: registry_of_def same_ids_def same_log_def set_record_def)
  moreover have "rg_bound (registry_of s) i = Some (fld rec ''boundTxHash'')" using binds(1) by (simp add: registry_of_def)
  ultimately show ?thesis unfolding registry_of_set using binds(2) by (simp add: registry_step.binds)
qed

lemma registry_append:
  assumes ok: "log_ok sha s" and new: "map_get (logByAuthorizationHash s) h = None"
    and e: "next_entry sha h t s = Inr e" and a: "appendLogEntry sha e s = Inr s'"
  shows "registry_of s' = appended [h] (registry_of s)" "h \<notin> set (rg_log (registry_of s))"
proof -
  from e have "le_authorizationHash e = h" by (auto simp: next_entry_def Let_def letE_eq_Inr)
  moreover from a have "authorizationLog s' = authorizationLog s @ [e]" "st_authorizations s' = st_authorizations s"
    by (auto simp: appendLogEntry_def letE_eq_Inr)
  ultimately show "registry_of s' = appended [h] (registry_of s)" by (simp add: registry_of_def appended_def)
  have "le_authorizationHash x \<noteq> h" if "x \<in> set (authorizationLog s)" for x
    using log_ok_index [OF ok, of h x] new that by auto
  then show "h \<notin> set (rg_log (registry_of s))" by (auto simp: registry_of_def)
qed

lemma registry_accepted:
  assumes ok: "log_ok sha s" and a: "saveAcceptedAuthorization sha a t createRecord s = Inr (s', r)"
  shows "registry_step (registry_of s) (registry_of s')"
  using a
proof (cases rule: saveAccepted_cases)
  case known
  then show ?thesis by (simp add: registry_step.stays)
next
  case (saved s1 entry)
  have none: "rg_bound (registry_of s) (fld a ''authorizationId'') = None" using saved(1) by (simp add: registry_of_def)
  have s': "registry_of s' = registered (fld a ''authorizationId'') (fld r ''boundTxHash'') (registry_of s1)"
    unfolding saved(4) registry_of_keep by (simp add: registry_of_def)
  from saved(5) show ?thesis
  proof
    assume "s1 = s"
    with s' none show ?thesis by (simp add: registry_step.registers)
  next
    assume "\<exists>h. map_get (logByAuthorizationHash s) h = None \<and> next_entry sha h t s = Inr entry \<and> appendLogEntry sha entry s = Inr s1"
    then obtain h where "map_get (logByAuthorizationHash s) h = None" "next_entry sha h t s = Inr entry" "appendLogEntry sha entry s = Inr s1"
      by blast
    with registry_append [OF ok this] none s' show ?thesis by (simp add: registry_step.accepts)
  qed
qed

lemma registry_append_log:
  assumes ok: "log_ok sha s" and a: "appendAuthorizationLog sha h t s = Inr (s', e)"
  shows "registry_step (registry_of s) (registry_of s')"
proof (cases "map_get (logByAuthorizationHash s) h")
  case None
  with a have "next_entry sha h t s = Inr e" "appendLogEntry sha e s = Inr s'"
    by (auto simp: appendAuthorizationLog_def letE_eq_Inr)
  with registry_append [OF ok None this] show ?thesis by (simp add: registry_step.appends)
qed (use a in \<open>simp add: appendAuthorizationLog_def registry_step.stays\<close>)

lemma registry_save:
  assumes "saveAuthorization rec s = Inr (s', r)"
  shows "registry_step (registry_of s) (registry_of s')"
proof (cases "map_get (st_authorizations s) (fld (fld rec ''authorization'') ''authorizationId'')")
  case None
  with assms have "s' = keep_authorization (fld rec ''authorization'') rec s"
    by (auto simp: saveAuthorization_def Let_def split: option.splits)
  moreover have "rg_bound (registry_of s) (fld (fld rec ''authorization'') ''authorizationId'') = None"
    using None by (simp add: registry_of_def)
  ultimately show ?thesis by (simp add: registry_of_keep registry_step.registers)
qed (use assms in \<open>simp add: saveAuthorization_def registry_step.stays\<close>)

lemmas registry_other = claim_step [THEN registry_records, OF _ same_log_ops(2)]
  bind_step [THEN registry_records, OF _ same_log_ops(3)] ids_ok_same(2) [THEN records_step.same, THEN registry_records, OF _ same_log_ops(4)]
  ids_ok_same(3) [THEN records_step.same, THEN registry_records, OF _ same_log_ops(5)]
  ids_ok_same(4) [THEN records_step.same, THEN registry_records, OF _ same_log_ops(6)]
  ids_ok_same(5) [THEN records_step.same, THEN registry_records, OF _ same_log_ops(7)]
  observation_step [THEN registry_records, OF _ same_log_observation]

lemma registry_exec:
  assumes "log_ok sha s" "store_exec sha c s = Inr (s', r)"
  shows "registry_step (registry_of s) (registry_of s')"
proof (cases c)
  case (SaveAccepted a t extra)
  with assms show ?thesis by (auto dest!: state_only_Inr intro: registry_accepted)
next
  case (AppendLog h t)
  with assms show ?thesis by (auto dest!: state_only_Inr intro: registry_append_log)
next
  case (SaveAuthorization rec)
  with assms show ?thesis by (auto dest!: state_only_Inr intro: registry_save)
qed (use assms in \<open>auto dest!: state_only_Inr dest: registry_other\<close>)

section \<open>Properties\<close>

lemma entry_hash_Suc: "entry_hash es (Suc i) = le_entryHash (es ! i)"
  by (simp add: entry_hash_def)

lemma chained_hash64:
  assumes "chained sha es" "hex_hash sha" "i < length es"
  shows "hash64 (entry_hash es (Suc i))"
proof -
  from assms(1,3) have "\<exists>v. hashJson sha v = Inr (le_entryHash (es ! i))"
    unfolding chained_def Let_def by blast
  with hash64_hashJson [OF _ assms(2)] show ?thesis by (auto simp: entry_hash_def)
qed

definition history :: "(string \<Rightarrow> string) \<Rightarrow> store_op list \<Rightarrow> auth_store" where
  "history sha ops = run_ops (store_exec sha) ops empty_store"

lemma history_ok: "store_ok sha (history sha ops)"
  unfolding history_def by (rule store.inv_history)

lemmas history_ids = history_ok [unfolded store_ok_def, THEN conjunct2]

lemma history_log: "hex_hash sha \<Longrightarrow> log_ok sha (history sha ops)"
  using history_ok [of sha ops] by (simp add: store_ok_def)

lemma history_snapshots:
  assumes "hex_hash sha" "es = authorizationLog (history sha ops)" "i < n" "n \<le> length es"
  shows "chained sha es \<and> (\<exists>path.
    getAuthorizationMerkleSnapshot sha (int i + 1) (le_entryHash (es ! i)) (Some (int n)) (history sha ops)
      = Inr \<lparr>sn_size = int n, sn_headEntryHash = le_entryHash (es ! (n - 1)), sn_merkleRoot = mth sha (entry_hash es) 1 n, sn_proof = path\<rparr>
    \<and> verifyMerkleProof sha (le_entryHash (es ! i)) (Suc i) n path (mth sha (entry_hash es) 1 n))"
proof -
  let ?s = "history sha ops"
  from history_log [OF assms(1)] assms(2) have ok: "chained sha es" "int (length es) \<le> max_safe"
    "merkle_index sha (entry_hash es) (length es) (map_get (merkleNodes ?s))"
    by (auto simp: log_ok_def)
  have "valid_range (Suc i) n" using assms(3,4) ok(2) by (simp add: valid_range_def)
  moreover have "i < length es" using assms(3,4) by simp
  note create_then_verify [OF ok(3) assms(1) chained_hash64 [OF ok(1) assms(1) this] calculation assms(4)]
  then obtain path where "createMerkleProof sha (le_entryHash (es ! i)) (Suc i) n (map_get (merkleNodes ?s)) = Inr (mth sha (entry_hash es) 1 n, path)"
    "verifyMerkleProof sha (le_entryHash (es ! i)) (Suc i) n path (mth sha (entry_hash es) 1 n)"
    unfolding entry_hash_Suc by blast
  moreover have "nat (int i + 1) = Suc i" "nat (int n - 1) = n - 1" by simp_all
  ultimately show ?thesis
    using assms ok(1,2) by (intro conjI exI [of _ path]) (simp_all add: getAuthorizationMerkleSnapshot_def Let_def)
qed

text \<open>C6. In every history of store operations the authorization log is a hash chain with
  consecutive sequence numbers, and for every entry and every tree size from its own up to the
  log's, the store returns a snapshot: the reference root of that prefix, its last entry hash,
  and a proof which the verifier accepts.\<close>

theorem history_snapshots_verify:
  assumes "hex_hash sha" "es = authorizationLog (history sha ops)" "i < n" "n \<le> length es"
  shows "chained sha es \<and> (\<exists>path.
    getAuthorizationMerkleSnapshot sha (int i + 1) (le_entryHash (es ! i)) (Some (int n)) (history sha ops)
      = Inr \<lparr>sn_size = int n, sn_headEntryHash = le_entryHash (es ! (n - 1)), sn_merkleRoot = mth sha (entry_hash es) 1 n, sn_proof = path\<rparr>
    \<and> verifyMerkleProof sha (le_entryHash (es ! i)) (Suc i) n path (mth sha (entry_hash es) 1 n))"
  using history_snapshots [OF assms] .

lemma hex_zero_hash: "hex_hash zero_hash"
  by (simp add: hex_hash_def hash64_zero_hash)

definition two_appends :: "store_op list" where
  "two_appends = [AppendLog ''a'' 5, AppendLog ''b'' 6]"

lemma two_appends_length: "length (authorizationLog (history zero_hash two_appends)) = 2"
  by code_simp

lemma history_snapshots_verify_witness:
  "\<exists>es path. es = authorizationLog (history zero_hash two_appends) \<and> length es = 2 \<and> chained zero_hash es
    \<and> verifyMerkleProof zero_hash (le_entryHash (es ! 0)) 1 2 path (mth zero_hash (entry_hash es) 1 2)"
  using history_snapshots_verify [OF hex_zero_hash refl, of 0 2 two_appends] two_appends_length by auto

text \<open>C7. Each authorization is kept under its own identifier, and two kept authorizations with the
  same nonce, or reserving the same Hyperliquid order id, are the same one.\<close>

theorem nonces_used_once:
  assumes "map_get (st_authorizations (history sha ops)) i = Some p" "map_get (st_authorizations (history sha ops)) j = Some q"
    and "nonce_of p = nonce_of q \<or> (cloid_of p \<noteq> None \<and> cloid_of p = cloid_of q)"
  shows "i = j \<and> fld (auth_of p) ''authorizationId'' = i"
proof -
  note p = ids_ok_record [OF history_ids assms(1)] and q = ids_ok_record [OF history_ids assms(2)]
  from assms(3) have "i = j"
  proof (elim disjE conjE)
    assume "nonce_of p = nonce_of q"
    then show "i = j" by (rule ids_ok_unique [OF history_ids assms(1,2)])
  next
    assume "cloid_of p \<noteq> None" "cloid_of p = cloid_of q"
    then obtain key where "cloid_of p = Some key" "cloid_of q = Some key" by auto
    with p(3) [OF this(1)] q(3) [OF this(2)] show "i = j" by simp
  qed
  with p(1) show ?thesis by simp
qed

definition sample_authorization :: "string \<Rightarrow> jsval" where
  "sample_authorization i = Obj [(''authorization'', Obj [(''authorizationId'', Str i), (''authorizationNonce'', Str ''n1''),
     (''intent'', Obj [])]), (''boundTxHash'', Null), (''uses'', Num 0), (''status'', Str ''ACCEPTED'')]"

definition two_saves :: "store_op list" where
  "two_saves = [SaveAuthorization (sample_authorization ''a1''), SaveAuthorization (sample_authorization ''a2'')]"

lemma two_saves_first: "map_get (st_authorizations (history zero_hash two_saves)) (Str ''a1'') = Some (sample_authorization ''a1'')"
  by code_simp

lemma nonces_used_once_witness:
  "fld (auth_of (sample_authorization ''a1'')) ''authorizationId'' = Str ''a1''
    \<and> map_get (st_authorizations (history zero_hash two_saves)) (Str ''a2'') \<noteq> Some (sample_authorization ''a2'')"
proof -
  have n: "nonce_of (sample_authorization ''a1'') = nonce_of (sample_authorization ''a2'')" by code_simp
  from nonces_used_once [OF two_saves_first two_saves_first] nonces_used_once [OF two_saves_first _ disjI1 [OF n]]
  show ?thesis by auto
qed

text \<open>C8. Once an authorization is bound to a transaction, every later operation leaves it bound to
  that transaction.\<close>

theorem bound_authorizations_stay_bound:
  assumes "map_get (st_authorizations (history sha xs)) i = Some rec" "fld rec ''boundTxHash'' = tx" "truthy tx"
  shows "\<exists>rec'. map_get (st_authorizations (history sha (xs @ ys))) i = Some rec' \<and> fld rec' ''boundTxHash'' = tx"
proof -
  have "bound_to (history sha xs) (i, tx)" using assms by (simp add: bound_to_def)
  then have "bound_to (history sha (xs @ ys)) (i, tx)"
    unfolding history_def by (rule store.keeps_history)
  then show ?thesis by (auto simp: bound_to_def split: option.splits)
qed

definition bound_once :: "store_op list" where
  "bound_once = [SaveAuthorization (sample_authorization ''a1''), Bind (Str ''a1'') (Str ''t1'')]"

lemma bound_once_record:
  "map_get (st_authorizations (history zero_hash bound_once)) (Str ''a1'') = Some (bound_record (sample_authorization ''a1'') (Str ''t1''))"
  "fld (bound_record (sample_authorization ''a1'') (Str ''t1'')) ''boundTxHash'' = Str ''t1''" "truthy (Str ''t1'')"
  by code_simp+

lemma bound_authorizations_stay_bound_witness:
  "\<exists>rec. map_get (st_authorizations (history zero_hash (bound_once @ [Bind (Str ''a1'') (Str ''t2'')]))) (Str ''a1'') = Some rec
    \<and> fld rec ''boundTxHash'' = Str ''t1''"
  by (rule bound_authorizations_stay_bound [OF bound_once_record])

text \<open>C9. Every operation of the store, in every history, is a step of the abstract registry: it
  appends at most one new hash to the log, registers at most one new authorization, or binds one that
  was not bound; the empty store is the empty registry.\<close>

theorem store_refines_registry:
  assumes "hex_hash sha" "store_exec sha c (history sha ops) = Inr (s', r)"
  shows "registry_of empty_store = empty_registry \<and> registry_step (registry_of (history sha ops)) (registry_of s')"
  using registry_exec [OF history_log [OF assms(1)] assms(2)] registry_of_empty by simp

lemma third_append: "\<exists>s'. store_exec zero_hash (AppendLog ''c'' 7) (history zero_hash two_appends) = Inr (s', ())"
proof -
  have "\<not> isl (store_exec zero_hash (AppendLog ''c'' 7) (history zero_hash two_appends))" by code_simp
  then show ?thesis by (cases "store_exec zero_hash (AppendLog ''c'' 7) (history zero_hash two_appends)") auto
qed

lemma store_refines_registry_witness:
  "\<exists>s'. store_exec zero_hash (AppendLog ''c'' 7) (history zero_hash two_appends) = Inr (s', ())
    \<and> registry_step (registry_of (history zero_hash two_appends)) (registry_of s')"
  using third_append store_refines_registry [OF hex_zero_hash] by blast

end
