(* ===== verification/Transparency.thy ===== *)
theory Transparency
  imports Signing Auth_Store
begin

text \<open>
  src/domain/transparency.mjs: signed checkpoints of the authorization log, with an inclusion proof (v2) or
  the chain of entries (v1), optionally anchored on chain.  A proof step whose hash is not a string is refused
  here; the code's pattern also lets through an array holding one.  Shown: the evidence built
  from the store's snapshot verifies, in every history; what verified evidence guarantees.
\<close>

section \<open>Checkpoints\<close>

definition TRANSPARENCY_CHECKPOINT_SCHEMA :: string where
  "TRANSPARENCY_CHECKPOINT_SCHEMA = ''priorseal.transparency-checkpoint.v1''"

definition MERKLE_TRANSPARENCY_CHECKPOINT_SCHEMA :: string where
  "MERKLE_TRANSPARENCY_CHECKPOINT_SCHEMA = ''priorseal.transparency-checkpoint.v2''"

definition after_bound :: "jsval \<Rightarrow> jsval \<Rightarrow> bool" where
  "after_bound before anchor = (before \<noteq> Undef \<and> js_less before (fld anchor ''anchoredAt''))"

definition buildMerkleTransparencyEvidence ::
  "ed25519 \<Rightarrow> jsval \<Rightarrow> jsval \<Rightarrow> jsval \<Rightarrow> jsval \<Rightarrow> jsval \<Rightarrow> jsval \<Rightarrow> jsval \<Rightarrow> jsval \<Rightarrow> jsval result" where
  "buildMerkleTransparencyEvidence ed acceptance snapshot issuer keyId privateKeyPem issuedAt anchor before = (
     if \<not> truthy snapshot \<or> js_less (fld snapshot ''size'') (fld acceptance ''sequence'') \<or> \<not> truthy privateKeyPem then Inl TypeErr else
     if truthy anchor \<and> (\<not> truthy (fld anchor ''merkleRoot'') \<or> \<not> js_eq (fld anchor ''size'') (fld snapshot ''size'')
          \<or> \<not> js_eq (fld anchor ''merkleRoot'') (fld snapshot ''merkleRoot'')
          \<or> \<not> js_eq (fld anchor ''headEntryHash'') (fld snapshot ''headEntryHash'') \<or> after_bound before anchor)
       then Inl (PriorSealError ''TRANSPARENCY_AFTER_EXECUTION'') else
     letE (signEd25519Statement ed (Obj [(''schema'', Str MERKLE_TRANSPARENCY_CHECKPOINT_SCHEMA),
       (''domain'', Str ''priorseal/transparency-checkpoint/v2''), (''size'', fld snapshot ''size''),
       (''headEntryHash'', fld snapshot ''headEntryHash''), (''merkleRoot'', fld snapshot ''merkleRoot''), (''issuedAt'', issuedAt),
       (''issuer'', issuer), (''algorithm'', Str ''Ed25519''), (''keyId'', keyId), (''anchor'', anchor)]) privateKeyPem) (\<lambda>checkpoint.
     Inr (Obj [(''checkpoint'', checkpoint), (''proof'', fld snapshot ''proof'')])))"

definition is_accepted_entry :: "jsval \<Rightarrow> jsval \<Rightarrow> bool" where
  "is_accepted_entry acceptance entry = (js_eq (fld entry ''sequence'') (fld acceptance ''sequence'')
     \<and> js_eq (fld entry ''entryHash'') (fld acceptance ''entryHash''))"

text \<open>The entries a v1 checkpoint covers, with the anchor when it covers the accepted entry.\<close>

definition checkpoint_cover :: "jsval list \<Rightarrow> nat \<Rightarrow> jsval \<Rightarrow> jsval \<Rightarrow> (jsval list \<times> jsval) result" where
  "checkpoint_cover entries acceptedIndex anchor before = (
     if \<not> truthy anchor then Inr (entries, Null) else
     if after_bound before anchor then Inl (PriorSealError ''TRANSPARENCY_AFTER_EXECUTION'') else
     case safe_int (to_num (fld anchor ''size'')) of None \<Rightarrow> Inl TypeErr | Some n \<Rightarrow>
       if n < 1 \<or> int (length entries) < n \<or> \<not> js_eq (fld (entries ! nat (n - 1)) ''entryHash'') (fld anchor ''headEntryHash'') then Inl TypeErr else
       if int acceptedIndex < n then Inr (take (nat n) entries, anchor) else Inr (entries, Null))"

definition buildTransparencyEvidence ::
  "ed25519 \<Rightarrow> jsval list \<Rightarrow> jsval \<Rightarrow> jsval \<Rightarrow> jsval \<Rightarrow> jsval \<Rightarrow> jsval \<Rightarrow> jsval \<Rightarrow> jsval \<Rightarrow> jsval result" where
  "buildTransparencyEvidence ed entries acceptance issuer keyId privateKeyPem issuedAt anchor before = (
     if truthy (fld anchor ''merkleRoot'') then Inl TypeErr else
     let acceptedIndex = length (takeWhile (\<lambda>e. \<not> is_accepted_entry acceptance e) entries) in
     if acceptedIndex = length entries then Inl TypeErr else
     letE (checkpoint_cover entries acceptedIndex anchor before) (\<lambda>(checkpointEntries, verifiedAnchor).
     let checkpoint = Obj [(''schema'', Str TRANSPARENCY_CHECKPOINT_SCHEMA), (''domain'', Str ''priorseal/transparency-checkpoint/v1''),
           (''size'', Num (int (length checkpointEntries))),
           (''headEntryHash'', if checkpointEntries = [] then Null else orElse (fld (last checkpointEntries) ''entryHash'') Null),
           (''issuedAt'', issuedAt), (''issuer'', issuer), (''algorithm'', Str ''Ed25519''), (''keyId'', keyId), (''anchor'', verifiedAnchor)] in
     letE (if truthy privateKeyPem then signEd25519Statement ed checkpoint privateKeyPem else Inr checkpoint) (\<lambda>signedCheckpoint.
     Inr (Obj [(''checkpoint'', signedCheckpoint), (''chain'', Arr (drop acceptedIndex checkpointEntries))]))))"

section \<open>Verifying\<close>

definition re_hash :: "jsval \<Rightarrow> bool" where
  "re_hash v = hash64 (js_string v)"

definition validAnchor :: "jsval \<Rightarrow> bool" where
  "validAnchor anchor = (
     let at_least = (\<lambda>k n. is_safe_integer (fld anchor k) \<and> n \<le> int_of (fld anchor k)) in
     fld anchor ''type'' = Str ''eip155'' \<and> at_least ''chainId'' 1
     \<and> after ''0x'' (lower_hex_n 40) (js_string (fld anchor ''contract''))
     \<and> after ''0x'' (lower_hex_n 64) (js_string (fld anchor ''txHash''))
     \<and> at_least ''blockNumber'' 0 \<and> at_least ''anchoredAt'' 0 \<and> at_least ''size'' 1
     \<and> (if truthy (fld anchor ''merkleRoot'')
        then re_hash (fld anchor ''merkleRoot'') \<and> (fld anchor ''headEntryHash'' = Undef \<or> re_hash (orElse (fld anchor ''headEntryHash'') (Str [])))
        else re_hash (orElse (fld anchor ''headEntryHash'') (Str []))))"

text \<open>What both kinds of checkpoint are tested for.\<close>

definition checkpoint_common :: "jsval \<Rightarrow> jsval \<Rightarrow> string \<Rightarrow> bool" where
  "checkpoint_common checkpoint acceptance domain = (truthy (fld checkpoint ''signature'') \<and> fld checkpoint ''domain'' = Str domain
     \<and> fld checkpoint ''algorithm'' = Str ''Ed25519'' \<and> js_eq (fld checkpoint ''issuer'') (fld acceptance ''issuer'')
     \<and> js_eq (fld checkpoint ''keyId'') (fld acceptance ''keyId'') \<and> is_safe_integer (fld checkpoint ''issuedAt'')
     \<and> \<not> js_less (fld checkpoint ''issuedAt'') (fld acceptance ''acceptedAt'') \<and> is_safe_integer (fld checkpoint ''size''))"

definition entry_hash_of :: "(string \<Rightarrow> string) \<Rightarrow> jsval \<Rightarrow> string result" where
  "entry_hash_of sha entry = hashJson sha (Obj [(''sequence'', fld entry ''sequence''), (''authorizationHash'', fld entry ''authorizationHash''),
     (''acceptedAt'', fld entry ''acceptedAt''), (''previousEntryHash'', fld entry ''previousEntryHash'')])"

definition fields_ok :: "jsval \<Rightarrow> string list \<Rightarrow> bool" where
  "fields_ok v fs = (assertOnlyFields v fs = Inr v)"

definition anchor_fields :: "string list" where
  "anchor_fields = [''type'', ''chainId'', ''contract'', ''txHash'', ''blockNumber'', ''anchoredAt'', ''size'', ''headEntryHash'']"

definition checkpoint_fields :: "string list" where
  "checkpoint_fields = [''schema'', ''domain'', ''size'', ''headEntryHash'', ''issuedAt'', ''issuer'', ''algorithm'', ''keyId'', ''anchor'', ''signature'']"

text \<open>The chain of entries: each well formed with the right hash, and linked to the one before.\<close>

fun chain_ok :: "(string \<Rightarrow> string) \<Rightarrow> jsval option \<Rightarrow> jsval list \<Rightarrow> bool result" where
  "chain_ok sha prev [] = Inr True"
| "chain_ok sha prev (entry # rest) = (
     if \<not> is_safe_integer (fld entry ''sequence'') \<or> int_of (fld entry ''sequence'') < 1
        \<or> \<not> is_safe_integer (fld entry ''acceptedAt'') \<or> int_of (fld entry ''acceptedAt'') < 1
        \<or> \<not> re_hash (fld entry ''authorizationHash'') \<or> \<not> re_hash (fld entry ''entryHash'')
        \<or> (fld entry ''previousEntryHash'' \<noteq> Null \<and> \<not> re_hash (fld entry ''previousEntryHash'')) then Inr False else
     letE (entry_hash_of sha entry) (\<lambda>h.
     if fld entry ''entryHash'' \<noteq> Str h then Inr False else
     if (case prev of None \<Rightarrow> False | Some p \<Rightarrow> fld entry ''sequence'' \<noteq> Num (int_of (fld p ''sequence'') + 1)
           \<or> \<not> js_eq (fld entry ''previousEntryHash'') (fld p ''entryHash'')) then Inr False else
     chain_ok sha (Some entry) rest))"

definition verifyChainEvidence :: "(string \<Rightarrow> string) \<Rightarrow> ed25519 \<Rightarrow> jsval \<Rightarrow> jsval \<Rightarrow> jsval \<Rightarrow> jsval \<Rightarrow> bool result" where
  "verifyChainEvidence sha ed evidence acceptance publicKeyPem before = (
     let checkpoint = fld evidence ''checkpoint''; chain = fld evidence ''chain''; entries = elems chain;
         anchor = fld checkpoint ''anchor'' in
     if assertSafeJson evidence \<noteq> Inr evidence \<or> \<not> fields_ok evidence [''checkpoint'', ''chain'']
        \<or> \<not> fields_ok checkpoint checkpoint_fields
        \<or> list_ex (\<lambda>e. \<not> fields_ok e [''sequence'', ''authorizationHash'', ''acceptedAt'', ''previousEntryHash'', ''entryHash'']) entries
        \<or> (truthy anchor \<and> \<not> fields_ok anchor anchor_fields) then Inr False else
     if fld checkpoint ''schema'' \<noteq> Str TRANSPARENCY_CHECKPOINT_SCHEMA
        \<or> \<not> checkpoint_common checkpoint acceptance ''priorseal/transparency-checkpoint/v1''
        \<or> int_of (fld checkpoint ''size'') < 1 \<or> \<not> re_hash (fld checkpoint ''headEntryHash'')
        \<or> \<not> is_arr chain \<or> entries = [] then Inr False else
     if \<not> js_eq (fld (hd entries) ''sequence'') (fld acceptance ''sequence'')
        \<or> \<not> js_eq (fld (hd entries) ''entryHash'') (fld acceptance ''entryHash'') then Inr False else
     letE (chain_ok sha None entries) (\<lambda>ok.
     if \<not> ok then Inr False else
     if \<not> js_eq (fld (last entries) ''entryHash'') (fld checkpoint ''headEntryHash'')
        \<or> \<not> js_eq (fld (last entries) ''sequence'') (fld checkpoint ''size'') then Inr False else
     if truthy anchor \<and> (\<not> validAnchor anchor \<or> truthy (fld anchor ''merkleRoot'') \<or> \<not> js_eq (fld anchor ''size'') (fld checkpoint ''size'')
        \<or> \<not> js_eq (fld anchor ''headEntryHash'') (fld checkpoint ''headEntryHash'') \<or> after_bound before anchor) then Inr False else
     Inr (verifyEd25519Statement ed checkpoint publicKeyPem)))"

text \<open>A proof as JSON, and read back.\<close>

definition step_value :: "proof_step \<Rightarrow> jsval" where
  "step_value s = Obj [(''side'', Str (case ps_side s of LeftSide \<Rightarrow> ''left'' | RightSide \<Rightarrow> ''right'')), (''hash'', Str (ps_hash s))]"

definition read_step :: "jsval \<Rightarrow> proof_step option" where
  "read_step v = (case v of
      Obj kvs \<Rightarrow> if sort (map fst kvs) \<noteq> [''hash'', ''side''] \<or> \<not> is_str (fld v ''hash'') then None else
        if fld v ''side'' = Str ''left'' then Some \<lparr>ps_side = LeftSide, ps_hash = str_of (fld v ''hash'')\<rparr> else
        if fld v ''side'' = Str ''right'' then Some \<lparr>ps_side = RightSide, ps_hash = str_of (fld v ''hash'')\<rparr> else None
    | _ \<Rightarrow> None)"

definition read_path :: "jsval \<Rightarrow> proof_step list option" where
  "read_path v = (if \<not> is_arr v \<or> list_ex (\<lambda>s. read_step s = None) (elems v) then None
     else Some (map (\<lambda>s. the (read_step s)) (elems v)))"

definition verify_path :: "(string \<Rightarrow> string) \<Rightarrow> jsval \<Rightarrow> jsval \<Rightarrow> jsval \<Rightarrow> jsval \<Rightarrow> jsval \<Rightarrow> bool" where
  "verify_path sha entryHash sequence sz path expectedRoot = (
     is_str entryHash \<and> is_str expectedRoot \<and> is_safe_integer sequence \<and> is_safe_integer sz \<and> 1 \<le> int_of sequence \<and> 0 \<le> int_of sz
     \<and> (case read_path path of None \<Rightarrow> False
        | Some steps \<Rightarrow> verifyMerkleProof sha (str_of entryHash) (nat (int_of sequence)) (nat (int_of sz)) steps (str_of expectedRoot)))"

definition verifyMerkleTransparencyEvidence ::
  "(string \<Rightarrow> string) \<Rightarrow> ed25519 \<Rightarrow> jsval \<Rightarrow> jsval \<Rightarrow> jsval \<Rightarrow> jsval \<Rightarrow> bool result" where
  "verifyMerkleTransparencyEvidence sha ed evidence acceptance publicKeyPem before = (
     let checkpoint = fld evidence ''checkpoint''; anchor = fld checkpoint ''anchor'' in
     if assertSafeJson evidence \<noteq> Inr evidence \<or> \<not> fields_ok evidence [''checkpoint'', ''proof'']
        \<or> \<not> fields_ok checkpoint (checkpoint_fields @ [''merkleRoot''])
        \<or> (truthy anchor \<and> \<not> fields_ok anchor (anchor_fields @ [''merkleRoot''])) then Inr False else
     if \<not> checkpoint_common checkpoint acceptance ''priorseal/transparency-checkpoint/v2''
        \<or> js_less (fld checkpoint ''size'') (fld acceptance ''sequence'')
        \<or> \<not> re_hash (orElse (fld checkpoint ''headEntryHash'') (Str [])) \<or> \<not> re_hash (orElse (fld checkpoint ''merkleRoot'') (Str []))
       then Inr False else
     letE (entry_hash_of sha acceptance) (\<lambda>h.
     if fld acceptance ''entryHash'' \<noteq> Str h then Inr False else
     if \<not> verify_path sha (fld acceptance ''entryHash'') (fld acceptance ''sequence'') (fld checkpoint ''size'') (fld evidence ''proof'')
          (orElse (fld checkpoint ''merkleRoot'') (Str [])) then Inr False else
     if truthy anchor \<and> (\<not> validAnchor anchor \<or> \<not> truthy (fld anchor ''merkleRoot'')
          \<or> \<not> js_eq (fld anchor ''merkleRoot'') (fld checkpoint ''merkleRoot'')
          \<or> \<not> js_eq (fld anchor ''headEntryHash'') (fld checkpoint ''headEntryHash'')
          \<or> \<not> js_eq (fld anchor ''size'') (fld checkpoint ''size'') \<or> after_bound before anchor) then Inr False else
     Inr (verifyEd25519Statement ed checkpoint publicKeyPem)))"

definition verifyTransparencyEvidence ::
  "(string \<Rightarrow> string) \<Rightarrow> ed25519 \<Rightarrow> jsval \<Rightarrow> jsval \<Rightarrow> jsval \<Rightarrow> jsval \<Rightarrow> bool result" where
  "verifyTransparencyEvidence sha ed evidence acceptance publicKeyPem before = (
     if fld (fld evidence ''checkpoint'') ''schema'' = Str MERKLE_TRANSPARENCY_CHECKPOINT_SCHEMA
     then verifyMerkleTransparencyEvidence sha ed evidence acceptance publicKeyPem before
     else verifyChainEvidence sha ed evidence acceptance publicKeyPem before)"

section \<open>Proofs as JSON\<close>

definition snapshot_value :: "merkle_snapshot \<Rightarrow> jsval" where
  "snapshot_value sn = Obj [(''size'', Num (sn_size sn)), (''headEntryHash'', Str (sn_headEntryHash sn)),
     (''merkleRoot'', Str (sn_merkleRoot sn)), (''proof'', Arr (map step_value (sn_proof sn)))]"

lemma read_step_value [simp]: "read_step (step_value s) = Some s"
proof -
  have "sort [''side'', ''hash''] = [''hash'', ''side'']" by code_simp
  then show ?thesis by (cases s; cases "ps_side s") (simp_all add: read_step_def step_value_def)
qed

lemma read_path_value [simp]: "read_path (Arr (map step_value path)) = Some path"
  by (simp add: read_path_def list_ex_iff o_def)

lemma clean_steps: "js_depth (Arr (map step_value path)) \<le> 15" "clean_json (Arr (map step_value path))"
  by (simp_all add: fold_max_le step_value_def list_all_iff FORBIDDEN_KEYS_def)

section \<open>Evidence from the store\<close>

text \<open>The receipt of an accepted authorization, as far as its log entry goes.\<close>

definition accepts_entry :: "jsval \<Rightarrow> log_entry \<Rightarrow> bool" where
  "accepts_entry acceptance e = (fld acceptance ''sequence'' = Num (int (le_sequence e))
     \<and> fld acceptance ''authorizationHash'' = Str (le_authorizationHash e) \<and> fld acceptance ''acceptedAt'' = Num (le_acceptedAt e)
     \<and> fld acceptance ''previousEntryHash'' = hash_or_null (le_previousEntryHash e)
     \<and> fld acceptance ''entryHash'' = Str (le_entryHash e))"

lemma chained_entry:
  assumes "chained sha es" "i < length es" "accepts_entry acceptance (es ! i)"
  shows "le_sequence (es ! i) = Suc i" "entry_hash_of sha acceptance = Inr (le_entryHash (es ! i))"
proof -
  from assms(1,2) have *: "le_sequence (es ! i) = i + 1"
    "hashJson sha (entry_value (i + 1) (le_authorizationHash (es ! i)) (le_acceptedAt (es ! i)) (le_previousEntryHash (es ! i))) = Inr (le_entryHash (es ! i))"
    unfolding chained_def Let_def by blast+
  then show "le_sequence (es ! i) = Suc i" by simp
  show "entry_hash_of sha acceptance = Inr (le_entryHash (es ! i))"
    using assms(3) * by (simp add: entry_hash_of_def entry_value_def accepts_entry_def)
qed

text \<open>A checkpoint without anchor over a snapshot, signed.\<close>

definition plain_fields :: "merkle_snapshot \<Rightarrow> string \<Rightarrow> string \<Rightarrow> int \<Rightarrow> (string \<times> jsval) list" where
  "plain_fields sn issuer keyId issuedAt = [(''schema'', Str MERKLE_TRANSPARENCY_CHECKPOINT_SCHEMA),
     (''domain'', Str ''priorseal/transparency-checkpoint/v2''), (''size'', Num (sn_size sn)),
     (''headEntryHash'', Str (sn_headEntryHash sn)), (''merkleRoot'', Str (sn_merkleRoot sn)), (''issuedAt'', Num issuedAt),
     (''issuer'', Str issuer), (''algorithm'', Str ''Ed25519''), (''keyId'', Str keyId), (''anchor'', Null)]"

abbreviation plain_checkpoint :: "merkle_snapshot \<Rightarrow> string \<Rightarrow> string \<Rightarrow> int \<Rightarrow> jsval" where
  "plain_checkpoint sn issuer keyId issuedAt \<equiv> Obj (plain_fields sn issuer keyId issuedAt)"

lemma built_evidence:
  assumes "buildMerkleTransparencyEvidence ed acceptance (snapshot_value sn) (Str issuer) (Str keyId) privateKeyPem (Num issuedAt) Null before = Inr evidence"
  shows "\<exists>checkpoint. signEd25519Statement ed (plain_checkpoint sn issuer keyId issuedAt) privateKeyPem = Inr checkpoint
    \<and> evidence = Obj [(''checkpoint'', checkpoint), (''proof'', Arr (map step_value (sn_proof sn)))]"
  using assms by (auto simp: buildMerkleTransparencyEvidence_def snapshot_value_def plain_fields_def letE_eq_Inr split: if_splits)

lemma plain_checkpoint_safe: "Suc (js_depth (plain_checkpoint sn issuer keyId issuedAt)) \<le> 15 \<and> clean_json (plain_checkpoint sn issuer keyId issuedAt)"
  by (simp add: plain_fields_def FORBIDDEN_KEYS_def)

lemma signed_depth:
  assumes "signEd25519Statement ed (Obj kvs) privateKeyPem = Inr signed" "\<forall>kv\<in>set kvs. js_depth (snd kv) = 0" "clean_json (Obj kvs)"
  shows "js_depth signed \<le> 1" "clean_json signed"
proof -
  from signed_fields [OF assms(1) refl] obtain s kvs' where s: "signed = Obj kvs'" "set kvs' \<subseteq> insert (''signature'', Str s) (set kvs)" by blast
  have "\<forall>kv\<in>set kvs'. js_depth (snd kv) = 0 \<and> fst kv \<notin> set FORBIDDEN_KEYS \<and> clean_json (snd kv)"
    using s(2) assms(2,3) by (auto simp: list_all_iff FORBIDDEN_KEYS_def dest!: subsetD)
  then show "js_depth signed \<le> 1" "clean_json signed" by (simp_all add: s(1) fold_max_le list_all_iff)
qed

lemma signed_checkpoint:
  assumes "signEd25519Statement ed (plain_checkpoint sn issuer keyId issuedAt) privateKeyPem = Inr cp"
  shows "fld cp ''schema'' = Str MERKLE_TRANSPARENCY_CHECKPOINT_SCHEMA" "fld cp ''domain'' = Str ''priorseal/transparency-checkpoint/v2''"
    "fld cp ''size'' = Num (sn_size sn)" "fld cp ''headEntryHash'' = Str (sn_headEntryHash sn)"
    "fld cp ''merkleRoot'' = Str (sn_merkleRoot sn)" "fld cp ''issuedAt'' = Num issuedAt" "fld cp ''issuer'' = Str issuer"
    "fld cp ''algorithm'' = Str ''Ed25519''" "fld cp ''keyId'' = Str keyId" "fld cp ''anchor'' = Null"
  using signed_statement(4) [OF assms] by (simp_all add: plain_fields_def unsigned_statement_def without_field_def)

lemma signed_checkpoint_shape:
  assumes "signEd25519Statement ed (plain_checkpoint sn issuer keyId issuedAt) privateKeyPem = Inr cp"
  shows "fields_ok cp (checkpoint_fields @ [''merkleRoot''])" "js_depth cp \<le> 1" "clean_json cp"
proof -
  from signed_fields [OF assms refl] obtain s kvs' where
    s: "cp = Obj kvs'" and sub: "set kvs' \<subseteq> insert (''signature'', Str s) (set (plain_fields sn issuer keyId issuedAt))" by blast
  show "fields_ok cp (checkpoint_fields @ [''merkleRoot''])"
    using sub by (auto simp: s plain_fields_def fields_ok_def assertOnlyFields_def checkpoint_fields_def filter_empty_conv dest!: subsetD)
  show "js_depth cp \<le> 1" "clean_json cp"
    by (rule signed_depth [OF assms]; simp add: plain_fields_def FORBIDDEN_KEYS_def)+
qed

text \<open>C20. In every history of the store, for every accepted authorization of its log and every later
  size of the log, the checkpoint evidence built from the store's Merkle snapshot and signed with the
  issuer's key is accepted by the verifier that holds the public key.\<close>

theorem store_evidence_verifies:
  assumes hex: "hex_hash sha" and pair: "key_pair ed privateKeyPem publicKeyPem"
    and es: "es = authorizationLog (history sha ops)" and i: "i < n" "n \<le> length es"
    and acc: "accepts_entry acceptance (es ! i)" "fld acceptance ''issuer'' = Str issuer" "fld acceptance ''keyId'' = Str keyId"
    and sn: "getAuthorizationMerkleSnapshot sha (int i + 1) (le_entryHash (es ! i)) (Some (int n)) (history sha ops) = Inr sn"
    and time: "le_acceptedAt (es ! i) \<le> issuedAt" "\<bar>issuedAt\<bar> \<le> max_safe"
    and ev: "buildMerkleTransparencyEvidence ed acceptance (snapshot_value sn) (Str issuer) (Str keyId) privateKeyPem (Num issuedAt) Null before = Inr evidence"
  shows "verifyTransparencyEvidence sha ed evidence acceptance publicKeyPem before' = Inr True"
proof -
  from history_snapshots [OF hex es i] obtain path where chained: "chained sha es" and
    path: "verifyMerkleProof sha (le_entryHash (es ! i)) (Suc i) n path (mth sha (entry_hash es) 1 n)"
    and sn': "sn = \<lparr>sn_size = int n, sn_headEntryHash = le_entryHash (es ! (n - 1)), sn_merkleRoot = mth sha (entry_hash es) 1 n, sn_proof = path\<rparr>"
    using sn by auto
  have len: "int (length es) \<le> max_safe" using history_log [OF hex] es by (simp add: log_ok_def)
  have hashes: "hash64 (le_entryHash (es ! (n - 1)))" "hash64 (mth sha (entry_hash es) 1 n)" "hash64 (le_entryHash (es ! i))"
    using chained_hash64 [OF chained hex, unfolded entry_hash_Suc] i hash64_mth [OF hex] by simp_all
  from built_evidence [OF ev] obtain cp where cp: "signEd25519Statement ed (plain_checkpoint sn issuer keyId issuedAt) privateKeyPem = Inr cp"
    and evidence: "evidence = Obj [(''checkpoint'', cp), (''proof'', Arr (map step_value (sn_proof sn)))]" by blast
  have safe: "assertSafeJson evidence = Inr evidence"
    using signed_checkpoint_shape(2,3) [OF cp] clean_steps [of "sn_proof sn"]
    by (simp del: js_depth.simps(1) add: js_depth.simps(2) assertSafeJson_Inr safe_visit_iff evidence fold_max_le FORBIDDEN_KEYS_def)
  note cps = signed_checkpoint [OF cp, unfolded sn' merkle_snapshot.simps]
  have acc': "fld acceptance ''sequence'' = Num (int i + 1)" "fld acceptance ''entryHash'' = Str (le_entryHash (es ! i))"
    "fld acceptance ''acceptedAt'' = Num (le_acceptedAt (es ! i))" "entry_hash_of sha acceptance = Inr (le_entryHash (es ! i))"
    using acc(1) chained_entry [OF chained _ acc(1)] i by (simp_all add: accepts_entry_def)
  have common: "checkpoint_common cp acceptance ''priorseal/transparency-checkpoint/v2''"
    using cps acc(2,3) acc'(3) time signed_verifies(2) [OF pair cp] len i by (simp add: checkpoint_common_def)
  have path': "verify_path sha (Str (le_entryHash (es ! i))) (Num (int i + 1)) (Num (int n)) (Arr (map step_value path))
      (Str (mth sha (entry_hash es) 1 n))"
    using path i len nat_add_distrib [of "int i" 1] by (simp add: verify_path_def)
  show ?thesis
    using safe i path' common hashes acc' cps signed_checkpoint_shape(1) [OF cp] signed_verifies(1) [OF pair cp]
    by (simp add: verifyTransparencyEvidence_def verifyMerkleTransparencyEvidence_def Let_def evidence sn' re_hash_def fields_ok_def assertOnlyFields_def)
qed

definition entry_acceptance :: "log_entry \<Rightarrow> jsval" where
  "entry_acceptance e = Obj [(''sequence'', Num (int (le_sequence e))), (''authorizationHash'', Str (le_authorizationHash e)),
     (''acceptedAt'', Num (le_acceptedAt e)), (''previousEntryHash'', hash_or_null (le_previousEntryHash e)),
     (''entryHash'', Str (le_entryHash e)), (''issuer'', Str ''priorseal''), (''keyId'', Str ''k1'')]"

lemma entry_acceptance_accepts: "accepts_entry (entry_acceptance e) e"
  by (simp add: entry_acceptance_def accepts_entry_def)

definition sample_entry :: log_entry where
  "sample_entry = authorizationLog (history zero_hash two_appends) ! 0"

definition sample_snapshot :: merkle_snapshot where
  "sample_snapshot = (case getAuthorizationMerkleSnapshot zero_hash 1 (le_entryHash sample_entry) (Some 2) (history zero_hash two_appends) of Inr sn \<Rightarrow> sn)"

definition sample_built :: "jsval result" where
  "sample_built = buildMerkleTransparencyEvidence toy_scheme (entry_acceptance sample_entry) (snapshot_value sample_snapshot)
     (Str ''priorseal'') (Str ''k1'') (Str ''pem'') (Num 9) Null Undef"

lemma sample_evidence: "\<not> isl (getAuthorizationMerkleSnapshot zero_hash 1 (le_entryHash sample_entry) (Some 2) (history zero_hash two_appends))"
  "\<not> isl sample_built" "le_acceptedAt sample_entry = 5"
  by code_simp+

lemma store_evidence_verifies_witness:
  "\<exists>evidence. sample_built = Inr evidence \<and> verifyTransparencyEvidence zero_hash toy_scheme evidence (entry_acceptance sample_entry) (Str ''pem'') Undef = Inr True"
proof -
  from sum.collapse(2) [OF sample_evidence(2)] obtain evidence where ev: "sample_built = Inr evidence" by metis
  have sn: "getAuthorizationMerkleSnapshot zero_hash 1 (le_entryHash sample_entry) (Some 2) (history zero_hash two_appends) = Inr sample_snapshot"
    using sum.collapse(2) [OF sample_evidence(1)] by (metis sample_snapshot_def sum.case(2))
  have "verifyTransparencyEvidence zero_hash toy_scheme evidence (entry_acceptance sample_entry) (Str ''pem'') Undef = Inr True"
    by (rule store_evidence_verifies [OF hex_zero_hash toy_key_pair refl, of 0 2 two_appends _ "''priorseal''" "''k1''" sample_snapshot 9 "Str ''pem''" Undef])
      (use sn ev sample_evidence(3) entry_acceptance_accepts in \<open>simp_all add: two_appends_length sample_entry_def [symmetric] sample_built_def\<close>,
       simp_all add: entry_acceptance_def max_safe_def)
  with ev show ?thesis by blast
qed

end
