(* ===== verification/Rfc3161.thy ===== *)
theory Rfc3161
  imports Signing Atomic_Store
begin

text \<open>
  src/domain/rfc3161.mjs: timestamp policies, requests, and the evidence made of an RFC 3161 response.
  The ASN.1 and PKI libraries (asn1js, pkijs), WebCrypto and the two pinned DigiCert certificates are the
  parameter \<^verbatim>\<open>pki\<close>.  The stamped data is given by the text whose UTF-8 encoding it is; a policy is a
  JSON value.  Shown: which evidence is accepted, and that evidence built from a response carries what
  the verifier recomputes.
\<close>

section \<open>Parameters\<close>

text \<open>A decoded response (its status, and the bytes of the token's content), the content of a token, and
  the library's verdict on a token: a boolean or its details.\<close>

record tsp_response =
  tp_status :: int
  tp_token :: "nat list option result option"

record tst_info =
  ti_algorithm :: string
  ti_genTime :: int
  ti_serialNumber :: "nat list"
  ti_nonce :: "nat list option"
  ti_policy :: string

record pki_details =
  pd_signatureVerified :: bool
  pd_signerCertificateVerified :: bool
  pd_extensions :: "(string \<times> string list option) list"
  pd_certificatePath :: "nat list list"

datatype pki_result = Verdict bool | Details pki_details

text \<open>Decoding returns nothing for bytes that are not BER, and throws for a wrong structure.\<close>

record pki =
  pk_crypto :: bool
  pk_response :: "nat list \<Rightarrow> tsp_response option result"
  pk_info :: "nat list \<Rightarrow> tst_info option result"
  pk_verify :: "nat list \<Rightarrow> (string \<times> nat list) list \<Rightarrow> string \<Rightarrow> pki_result result"
  pk_sha256 :: "nat list \<Rightarrow> nat list"
  pk_sha256_text :: "string \<Rightarrow> nat list"
  pk_integer :: "nat list \<Rightarrow> nat list"
  pk_request :: "nat list \<Rightarrow> nat list \<Rightarrow> nat list"
  pk_roots :: "(string \<times> nat list) list"

section \<open>Constants and bytes\<close>

definition RFC3161_POLICY_SCHEMA :: string where
  "RFC3161_POLICY_SCHEMA = ''priorseal.timestamp-policy.v1''"

definition RFC3161_EVIDENCE_SCHEMA :: string where
  "RFC3161_EVIDENCE_SCHEMA = ''priorseal.rfc3161-evidence.v1''"

definition DIGICERT_RFC3161_PROFILE :: string where
  "DIGICERT_RFC3161_PROFILE = ''digicert-rfc3161-v1''"

definition DIGICERT_RFC3161_URL :: string where
  "DIGICERT_RFC3161_URL = ''http://timestamp.digicert.com''"

definition DIGICERT_POLICY_OID :: string where
  "DIGICERT_POLICY_OID = ''2.16.840.1.114412.7.1''"

definition SHA256_OID :: string where
  "SHA256_OID = ''2.16.840.1.101.3.4.2.1''"

definition TIMESTAMPING_EKU_OID :: string where
  "TIMESTAMPING_EKU_OID = ''1.3.6.1.5.5.7.3.8''"

definition integerHex :: "nat list \<Rightarrow> string" where
  "integerHex bytes = concat (map (\<lambda>b. [''0123456789abcdef'' ! (b div 16), ''0123456789abcdef'' ! (b mod 16)]) bytes)"

definition requireCrypto :: "pki \<Rightarrow> unit result" where
  "requireCrypto pk = (if pk_crypto pk then Inr () else Inl TypeErr)"

definition sha256Hex :: "pki \<Rightarrow> nat list \<Rightarrow> string result" where
  "sha256Hex pk bytes = letE (requireCrypto pk) (\<lambda>_. Inr (integerHex (pk_sha256 pk bytes)))"

text \<open>\<^verbatim>\<open>btoa\<close> with the url alphabet and without padding is the encoding of a signature.\<close>

definition encodeBase64Url :: "nat list \<Rightarrow> string" where
  "encodeBase64Url bytes = b64_encode bytes"

text \<open>\<^verbatim>\<open>atob\<close>: white space is dropped, then at most two padding signs of a full group.\<close>

definition unpad :: "string \<Rightarrow> string" where
  "unpad s = (if length s mod 4 \<noteq> 0 then s
     else if s \<noteq> [] \<and> last s = CHR ''='' then
       (if butlast s \<noteq> [] \<and> last (butlast s) = CHR ''='' then butlast (butlast s) else butlast s)
     else s)"

definition url_char :: "char \<Rightarrow> char" where
  "url_char c = (if c = CHR ''+'' then CHR ''-'' else if c = CHR ''/'' then CHR ''_'' else c)"

definition atob :: "string \<Rightarrow> nat list result" where
  "atob s = (let t = unpad (filter (\<lambda>c. (of_char c :: nat) \<notin> {9, 10, 12, 13, 32}) s) in
     if length t mod 4 = 1 \<or> \<not> list_all (\<lambda>c. url_char c \<in> set b64_alphabet \<and> c \<noteq> CHR ''-'' \<and> c \<noteq> CHR ''_'') t
     then Inl (PlainErr ''InvalidCharacterError'')
     else Inr (b64_decode (map url_char t)))"

definition decodeBase64 :: "string \<Rightarrow> nat list result" where
  "decodeBase64 s = atob (s @ replicate ((4 - length s mod 4) mod 4) (CHR ''=''))"

definition decodeBase64Url :: "string \<Rightarrow> nat list result" where
  "decodeBase64Url s = decodeBase64 (map (\<lambda>c. if c = CHR ''-'' then CHR ''+'' else if c = CHR ''_'' then CHR ''/'' else c) s)"

section \<open>Policies and requests\<close>

definition buildTimestampPolicy :: "jsval \<Rightarrow> int result" where
  "buildTimestampPolicy inputValue = (
     let input = (if inputValue = Undef then Obj [] else inputValue);
         schema = orElse (fld input ''schema'') (Str RFC3161_POLICY_SCHEMA);
         profile = orElse (fld input ''profile'') (Str DIGICERT_RFC3161_PROFILE);
         maxClockSkewSeconds = orElse (fld input ''maxClockSkewSeconds'') (Num 300) in
     if \<not> is_obj input \<and> \<not> is_arr input then Inl TypeErr else
     if schema \<noteq> Str RFC3161_POLICY_SCHEMA \<or> profile \<noteq> Str DIGICERT_RFC3161_PROFILE then Inl TypeErr else
     if \<not> is_safe_integer maxClockSkewSeconds \<or> int_of maxClockSkewSeconds < 0 \<or> 3600 < int_of maxClockSkewSeconds then Inl TypeErr else
     Inr (int_of maxClockSkewSeconds))"

text \<open>The policy is normalised to its only free field; as a JSON value:\<close>

definition timestamp_policy :: "int \<Rightarrow> jsval" where
  "timestamp_policy skew = Obj [(''schema'', Str RFC3161_POLICY_SCHEMA), (''profile'', Str DIGICERT_RFC3161_PROFILE),
     (''maxClockSkewSeconds'', Num skew)]"

definition nonce_bytes :: "nat list \<Rightarrow> nat list" where
  "nonce_bytes random = (let bytes = (hd random mod 128) # tl random
     in if list_all (\<lambda>b. b = 0) bytes then bytes[length bytes - 1 := 1] else bytes)"

definition createTimestampRequest :: "pki \<Rightarrow> nat list \<Rightarrow> string \<Rightarrow> (nat list \<times> string) result" where
  "createTimestampRequest pk random data = letE (requireCrypto pk) (\<lambda>_.
     let nonce = pk_integer pk (nonce_bytes random)
     in Inr (pk_request pk (pk_sha256_text pk data) nonce, integerHex nonce))"

section \<open>Responses\<close>

definition PKIStatus_granted :: int where
  "PKIStatus_granted = 0"

definition parseResponse :: "pki \<Rightarrow> nat list \<Rightarrow> tsp_response result" where
  "parseResponse pk bytes = letE (pk_response pk bytes) (\<lambda>decoded. case decoded of
       None \<Rightarrow> Inl TypeErr
     | Some response \<Rightarrow> if tp_status response \<noteq> PKIStatus_granted \<or> tp_token response = None then Inl TypeErr else Inr response)"

record tst_metadata =
  tm_timestamp :: int
  tm_serialNumber :: string
  tm_nonce :: string
  tm_policyOid :: string

definition timestampMetadata :: "pki \<Rightarrow> tsp_response \<Rightarrow> tst_metadata result" where
  "timestampMetadata pk response = (case tp_token response of
       None \<Rightarrow> Inl TypeErr
     | Some token \<Rightarrow> letE token (\<lambda>content. case content of
         None \<Rightarrow> Inl TypeErr
       | Some bytes \<Rightarrow> letE (pk_info pk bytes) (\<lambda>decoded. case decoded of
           None \<Rightarrow> Inl TypeErr
         | Some info \<Rightarrow> (case ti_nonce info of
             None \<Rightarrow> Inl TypeErr
           | Some nonce \<Rightarrow> if ti_algorithm info \<noteq> SHA256_OID then Inl TypeErr else
               Inr \<lparr>tm_timestamp = ti_genTime info div 1000, tm_serialNumber = integerHex (ti_serialNumber info),
                    tm_nonce = integerHex nonce, tm_policyOid = ti_policy info\<rparr>))))"

definition buildTimestampEvidence :: "pki \<Rightarrow> nat list \<Rightarrow> jsval \<Rightarrow> jsval \<Rightarrow> jsval \<Rightarrow> jsval \<Rightarrow> jsval result" where
  "buildTimestampEvidence pk response authorizationHash requestedAt nonce tsaUrl =
     letE (parseResponse pk response) (\<lambda>parsed.
     letE (timestampMetadata pk parsed) (\<lambda>metadata.
     letE (sha256Hex pk response) (\<lambda>responseHash.
     Inr (Obj [(''schema'', Str RFC3161_EVIDENCE_SCHEMA), (''domain'', Str ''priorseal/rfc3161-evidence/v1''),
       (''profile'', Str DIGICERT_RFC3161_PROFILE), (''tsaUrl'', tsaUrl), (''authorizationHash'', authorizationHash),
       (''requestedAt'', requestedAt), (''nonce'', nonce), (''timestamp'', Num (tm_timestamp metadata)),
       (''serialNumber'', Str (tm_serialNumber metadata)), (''policyOid'', Str (tm_policyOid metadata)),
       (''digestAlgorithm'', Str ''SHA-256''), (''responseHash'', Str responseHash), (''response'', Str (encodeBase64Url response))]))))"

section \<open>Verifying\<close>

text \<open>A missing property of a refusal is undefined.\<close>

record timestamp_reply =
  tr_valid :: bool
  tr_code :: string
  tr_timestamp :: jsval
  tr_serialNumber :: jsval
  tr_profile :: jsval

definition timestamp_refused :: "string \<Rightarrow> timestamp_reply" where
  "timestamp_refused code = \<lparr>tr_valid = False, tr_code = code, tr_timestamp = Undef, tr_serialNumber = Undef, tr_profile = Undef\<rparr>"

text \<open>The expected values; a missing one is undefined.\<close>

record timestamp_options =
  to_authorizationHash :: jsval
  to_requestedAt :: jsval
  to_before :: jsval

text \<open>\<^verbatim>\<open>t + skew\<close> for a primitive: strings are concatenated.\<close>

definition plus_skew :: "jsval \<Rightarrow> int \<Rightarrow> jnum" where
  "plus_skew t skew = (case t of Str s \<Rightarrow> parse_number (s @ int_text skew) | _ \<Rightarrow> num_add (to_num t) (Fin (of_int skew)))"

definition hex_text :: "jsval \<Rightarrow> bool" where
  "hex_text v = (js_string v \<noteq> [] \<and> list_all is_hex (js_string v))"

definition timestamp_rejection :: "jsval \<Rightarrow> int \<Rightarrow> timestamp_options \<Rightarrow> string option" where
  "timestamp_rejection evidence skew opts = (
     let e = fld evidence; timestamp = e ''timestamp''; requestedAt = to_requestedAt opts in
     if \<not> truthy evidence \<or> e ''schema'' \<noteq> Str RFC3161_EVIDENCE_SCHEMA \<or> e ''domain'' \<noteq> Str ''priorseal/rfc3161-evidence/v1''
       then Some ''INVALID_TIMESTAMP_EVIDENCE'' else
     if e ''profile'' \<noteq> Str DIGICERT_RFC3161_PROFILE \<or> e ''tsaUrl'' \<noteq> Str DIGICERT_RFC3161_URL \<or> e ''digestAlgorithm'' \<noteq> Str ''SHA-256''
       then Some ''INVALID_TIMESTAMP_PROFILE'' else
     if \<not> js_eq (e ''authorizationHash'') (to_authorizationHash opts) \<or> \<not> js_eq (e ''requestedAt'') requestedAt
       then Some ''TIMESTAMP_AUTHORIZATION_MISMATCH'' else
     let referenceTime = (if nullish requestedAt then Undef else requestedAt); seen = Fin (of_int (int_of timestamp)) in
     if \<not> is_safe_integer timestamp \<or> num_less seen (num_add (to_num referenceTime) (Fin (of_int (- skew))))
        \<or> num_less (plus_skew referenceTime skew) seen then Some ''TIMESTAMP_CLOCK_SKEW'' else
     if to_before opts \<noteq> Undef \<and> js_less (to_before opts) timestamp then Some ''TIMESTAMP_AFTER_EXECUTION'' else
     if \<not> hex_text (e ''nonce'') \<or> \<not> hex_text (e ''serialNumber'') \<or> \<not> hex_text (e ''responseHash'')
        \<or> length (js_string (e ''responseHash'')) \<noteq> 64 \<or> \<not> is_str (e ''response'') then Some ''INVALID_TIMESTAMP_EVIDENCE''
     else None)"

definition validateTimestampEvidenceClaims :: "jsval \<Rightarrow> jsval \<Rightarrow> timestamp_options \<Rightarrow> timestamp_reply" where
  "validateTimestampEvidenceClaims evidence policy opts = (case buildTimestampPolicy policy of
       Inl e \<Rightarrow> timestamp_refused ''INVALID_TIMESTAMP_EVIDENCE''
     | Inr skew \<Rightarrow> (case timestamp_rejection evidence skew opts of
         Some code \<Rightarrow> timestamp_refused code
       | None \<Rightarrow> \<lparr>tr_valid = True, tr_code = ''OK'', tr_timestamp = fld evidence ''timestamp'',
                  tr_serialNumber = fld evidence ''serialNumber'', tr_profile = fld evidence ''profile''\<rparr>))"

definition certificateFingerprint :: "pki \<Rightarrow> nat list \<Rightarrow> string" where
  "certificateFingerprint pk certificate = (case find (\<lambda>(f, der). der = certificate) (pk_roots pk) of None \<Rightarrow> [] | Some (f, der) \<Rightarrow> f)"

text \<open>The library's verdict: the code of the first test that fails.\<close>

definition verdict_rejection :: "pki \<Rightarrow> pki_result \<Rightarrow> string option" where
  "verdict_rejection pk result = (case result of
       Verdict b \<Rightarrow> Some (if b then ''INVALID_TIMESTAMP_CERTIFICATE_USAGE'' else ''INVALID_TIMESTAMP_SIGNATURE'')
     | Details d \<Rightarrow>
         if \<not> pd_signatureVerified d \<or> \<not> pd_signerCertificateVerified d then Some ''INVALID_TIMESTAMP_SIGNATURE'' else
         if \<not> (case find (\<lambda>(i, purposes). i = ''2.5.29.37'') (pd_extensions d) of
                Some (i, Some purposes) \<Rightarrow> TIMESTAMPING_EKU_OID \<in> set purposes | _ \<Rightarrow> False)
           then Some ''INVALID_TIMESTAMP_CERTIFICATE_USAGE'' else
         if pd_certificatePath d = []
            \<or> \<not> list_ex (\<lambda>(f, der). f = certificateFingerprint pk (last (pd_certificatePath d))) (pk_roots pk)
           then Some ''UNTRUSTED_TIMESTAMP_ROOT'' else None)"

definition verdict_reply :: "pki \<Rightarrow> tst_metadata \<Rightarrow> jsval \<Rightarrow> pki_result result \<Rightarrow> timestamp_reply result" where
  "verdict_reply pk metadata profile verdict = (case verdict of
       Inl err \<Rightarrow> Inr (timestamp_refused ''INVALID_TIMESTAMP_SIGNATURE'')
     | Inr result \<Rightarrow> (case verdict_rejection pk result of
         Some code \<Rightarrow> Inr (timestamp_refused code)
       | None \<Rightarrow> Inr \<lparr>tr_valid = True, tr_code = ''OK'', tr_timestamp = Num (tm_timestamp metadata),
                     tr_serialNumber = Str (tm_serialNumber metadata), tr_profile = profile\<rparr>))"

definition metadata_reply :: "pki \<Rightarrow> jsval \<Rightarrow> tst_metadata \<Rightarrow> pki_result result \<Rightarrow> timestamp_reply result" where
  "metadata_reply pk evidence metadata verdict = (let e = fld evidence in
     if e ''timestamp'' \<noteq> Num (tm_timestamp metadata) \<or> e ''serialNumber'' \<noteq> Str (tm_serialNumber metadata)
        \<or> e ''policyOid'' \<noteq> Str (tm_policyOid metadata) \<or> e ''nonce'' \<noteq> Str (tm_nonce metadata)
       then Inr (timestamp_refused ''TIMESTAMP_METADATA_MISMATCH'') else
     if tm_policyOid metadata \<noteq> DIGICERT_POLICY_OID then Inr (timestamp_refused ''INVALID_TIMESTAMP_POLICY'') else
     verdict_reply pk metadata (e ''profile'') verdict)"

definition verifyTimestampEvidence :: "pki \<Rightarrow> jsval \<Rightarrow> string \<Rightarrow> jsval \<Rightarrow> timestamp_options \<Rightarrow> timestamp_reply" where
  "verifyTimestampEvidence pk evidence data policy opts = (
     let e = fld evidence in
     case letE (buildTimestampPolicy policy) (\<lambda>skew.
       let claims = validateTimestampEvidenceClaims evidence (timestamp_policy skew) opts in
       if \<not> tr_valid claims then Inr claims else
       letE (requireCrypto pk) (\<lambda>_.
       letE (decodeBase64Url (js_string (e ''response''))) (\<lambda>responseBytes.
       letE (sha256Hex pk responseBytes) (\<lambda>responseHash.
       if e ''responseHash'' \<noteq> Str responseHash then Inr (timestamp_refused ''TIMESTAMP_RESPONSE_HASH_MISMATCH'') else
       letE (parseResponse pk responseBytes) (\<lambda>response.
       letE (timestampMetadata pk response) (\<lambda>metadata.
       metadata_reply pk evidence metadata (pk_verify pk responseBytes (pk_roots pk) data))))))) of
       Inl err \<Rightarrow> timestamp_refused ''INVALID_TIMESTAMP_EVIDENCE''
     | Inr reply \<Rightarrow> reply)"

section \<open>base64url\<close>

lemma b64_alphabet_chars: "c \<in> set b64_alphabet \<Longrightarrow> c \<noteq> CHR ''='' \<and> c \<noteq> CHR ''+'' \<and> c \<noteq> CHR ''/'' \<and> (of_char c :: nat) \<notin> {9, 10, 12, 13, 32}"
proof -
  have "list_all (\<lambda>c. c \<noteq> CHR ''='' \<and> c \<noteq> CHR ''+'' \<and> c \<noteq> CHR ''/'' \<and> (of_char c :: nat) \<notin> {9, 10, 12, 13, 32}) b64_alphabet"
    by code_simp
  then show "c \<in> set b64_alphabet \<Longrightarrow> c \<noteq> CHR ''='' \<and> c \<noteq> CHR ''+'' \<and> c \<noteq> CHR ''/'' \<and> (of_char c :: nat) \<notin> {9, 10, 12, 13, 32}"
    unfolding list_all_iff by blast
qed

definition std_char :: "char \<Rightarrow> char" where
  "std_char c = (if c = CHR ''-'' then CHR ''+'' else if c = CHR ''_'' then CHR ''/'' else c)"

lemma std_char_alphabet:
  assumes "c \<in> set b64_alphabet"
  shows "url_char (std_char c) = c" "std_char c \<noteq> CHR ''-''" "std_char c \<noteq> CHR ''_''" "std_char c \<noteq> CHR ''=''"
    "(of_char (std_char c) :: nat) \<notin> {9, 10, 12, 13, 32}"
  using b64_alphabet_chars [OF assms] by (auto simp: std_char_def url_char_def)

lemma unpad_padded:
  assumes "CHR ''='' \<notin> set s" "length s mod 4 \<noteq> 1"
  shows "unpad (s @ replicate ((4 - length s mod 4) mod 4) (CHR ''='')) = s"
proof -
  have "length s mod 4 < 4" by simp
  with assms(2) consider "length s mod 4 = 0" | "length s mod 4 = 2" | "length s mod 4 = 3" by linarith
  then show ?thesis
  proof cases
    case 1
    then show ?thesis using assms(1) by (auto simp: unpad_def dest: last_in_set)
  next
    case 2
    then have "(length s + 2) mod 4 = 0" "s \<noteq> []" by (presburger, auto)
    with 2 show ?thesis using assms(1) by (auto simp: unpad_def numeral_2_eq_2 butlast_append)
  next
    case 3
    then have "(length s + 1) mod 4 = 0" "s \<noteq> []" by (presburger, auto)
    with 3 show ?thesis using assms(1) by (auto simp: unpad_def butlast_append dest: last_in_set)
  qed
qed

lemma response_round_trip:
  assumes "\<forall>b\<in>set bs. b < 256"
  shows "decodeBase64Url (encodeBase64Url bs) = Inr bs"
proof -
  let ?s = "b64_encode bs" and ?t = "map std_char (b64_encode bs)"
  have abc: "c \<in> set b64_alphabet" if "c \<in> set ?s" for c
    using that b64_encode_alphabet [OF assms] by (simp add: list_all_iff)
  have len: "length ?t mod 4 \<noteq> 1"
    unfolding length_map length_b64_encode by presburger
  have eq: "CHR ''='' \<notin> set ?t" using std_char_alphabet(4) abc by fastforce
  have ws: "filter (\<lambda>c. (of_char c :: nat) \<notin> {9, 10, 12, 13, 32}) (?t @ replicate k (CHR ''='')) = ?t @ replicate k (CHR ''='')" for k
    using std_char_alphabet(5) abc by (fastforce simp: filter_id_conv)
  have again: "map url_char ?t = ?s" using std_char_alphabet(1) abc by (simp add: map_idI)
  have ok: "list_all (\<lambda>c. url_char c \<in> set b64_alphabet \<and> c \<noteq> CHR ''-'' \<and> c \<noteq> CHR ''_'') ?t"
    using std_char_alphabet(1-3) abc by (simp add: list_all_iff)
  have "decodeBase64Url ?s = atob (?t @ replicate ((4 - length ?t mod 4) mod 4) (CHR ''=''))"
    by (simp add: decodeBase64Url_def decodeBase64_def std_char_def [abs_def])
  also have "\<dots> = Inr (b64_decode ?s)"
    unfolding atob_def Let_def ws unpad_padded [OF eq len] using len ok again by simp
  finally show ?thesis using b64_round_trip [OF assms] by (simp add: encodeBase64Url_def)
qed

section \<open>What accepted evidence shows\<close>

text \<open>The token of the evidence is signed, over the data, by a certificate for time stamping whose path
  ends in a pinned root.\<close>

definition stamped :: "pki \<Rightarrow> nat list \<Rightarrow> string \<Rightarrow> bool" where
  "stamped pk response data = (\<exists>d purposes f. pk_verify pk response (pk_roots pk) data = Inr (Details d)
     \<and> pd_signatureVerified d \<and> pd_signerCertificateVerified d
     \<and> (''2.5.29.37'', Some purposes) \<in> set (pd_extensions d) \<and> TIMESTAMPING_EKU_OID \<in> set purposes
     \<and> pd_certificatePath d \<noteq> [] \<and> (f, last (pd_certificatePath d)) \<in> set (pk_roots pk))"

lemma verdict_accepted:
  assumes "pk_verify pk response (pk_roots pk) data = Inr result" "verdict_rejection pk result = None"
    and "[] \<notin> fst ` set (pk_roots pk)"
  shows "stamped pk response data"
proof -
  from assms(2) obtain d where d: "result = Details d" by (cases result) (simp_all add: verdict_rejection_def)
  have sig: "pd_signatureVerified d" "pd_signerCertificateVerified d"
    and use: "(case find (\<lambda>(i, purposes). i = ''2.5.29.37'') (pd_extensions d) of
                Some (i, Some purposes) \<Rightarrow> TIMESTAMPING_EKU_OID \<in> set purposes | _ \<Rightarrow> False)"
    and path: "pd_certificatePath d \<noteq> []" "\<exists>der. (certificateFingerprint pk (last (pd_certificatePath d)), der) \<in> set (pk_roots pk)"
    using assms(2) by (auto simp: verdict_rejection_def d list_ex_iff split: if_splits)
  from use obtain i purposes where f: "find (\<lambda>(i, purposes). i = ''2.5.29.37'') (pd_extensions d) = Some (i, Some purposes)"
    "TIMESTAMPING_EKU_OID \<in> set purposes" by (auto split: option.splits)
  then have eku: "(''2.5.29.37'', Some purposes) \<in> set (pd_extensions d)"
    using find_Some_mem [OF f(1)] by auto
  have "\<exists>f. (f, last (pd_certificatePath d)) \<in> set (pk_roots pk)"
  proof (cases "find (\<lambda>(f, der). der = last (pd_certificatePath d)) (pk_roots pk)")
    case None
    with path(2) have "([]::string) \<in> fst ` set (pk_roots pk)" by (force simp: certificateFingerprint_def)
    with assms(3) show ?thesis by simp
  next
    case (Some r)
    then show ?thesis using find_Some_mem [OF Some] by (cases r) auto
  qed
  with sig f(2) eku path(1) assms(1) d show ?thesis unfolding stamped_def by blast
qed

lemma timestamp_policy_again: "0 \<le> skew \<Longrightarrow> skew \<le> 3600 \<Longrightarrow> buildTimestampPolicy (timestamp_policy skew) = Inr skew"
  by (simp add: buildTimestampPolicy_def timestamp_policy_def max_safe_def)

lemma timestamp_policy_range: "buildTimestampPolicy policy = Inr skew \<Longrightarrow> 0 \<le> skew \<and> skew \<le> 3600"
  by (auto simp: buildTimestampPolicy_def Let_def split: if_splits)

lemma timestamp_in_window:
  assumes "timestamp_rejection evidence skew opts = None"
  shows "js_eq (fld evidence ''authorizationHash'') (to_authorizationHash opts)"
    "fld evidence ''timestamp'' = Num t \<Longrightarrow> to_requestedAt opts = Num r \<Longrightarrow> \<bar>t - r\<bar> \<le> skew"
    "fld evidence ''timestamp'' = Num t \<Longrightarrow> to_before opts = Num b \<Longrightarrow> t \<le> b"
proof -
  show "js_eq (fld evidence ''authorizationHash'') (to_authorizationHash opts)"
    using assms by (auto simp: timestamp_rejection_def Let_def split: if_splits)
  show "fld evidence ''timestamp'' = Num t \<Longrightarrow> to_before opts = Num b \<Longrightarrow> t \<le> b"
    using assms by (auto simp: timestamp_rejection_def Let_def split: if_splits)
  assume t: "fld evidence ''timestamp'' = Num t" and r: "to_requestedAt opts = Num r"
  have "\<not> num_less (Fin (of_int t)) (num_add (Fin (of_int r)) (Fin (of_int (- skew))))" "\<not> num_less (plus_skew (Num r) skew) (Fin (of_int t))"
    using assms t r by (auto simp: timestamp_rejection_def Let_def split: if_splits)
  then have "\<not> (of_int t < (of_int (r - skew) :: rat))" "\<not> (of_int (r + skew) < (of_int t :: rat))"
    by (simp_all add: plus_skew_def)
  then show "\<bar>t - r\<bar> \<le> skew" unfolding of_int_less_iff by simp
qed

text \<open>What accepted evidence guarantees.\<close>

definition timestamp_genuine :: "pki \<Rightarrow> jsval \<Rightarrow> string \<Rightarrow> jsval \<Rightarrow> timestamp_options \<Rightarrow> bool" where
  "timestamp_genuine pk evidence data policy opts = (\<exists>skew bytes response metadata.
     buildTimestampPolicy policy = Inr skew \<and> decodeBase64Url (str_of (fld evidence ''response'')) = Inr bytes
     \<and> fld evidence ''responseHash'' = Str (integerHex (pk_sha256 pk bytes))
     \<and> parseResponse pk bytes = Inr response \<and> timestampMetadata pk response = Inr metadata
     \<and> fld evidence ''timestamp'' = Num (tm_timestamp metadata) \<and> fld evidence ''nonce'' = Str (tm_nonce metadata)
     \<and> tm_policyOid metadata = DIGICERT_POLICY_OID \<and> stamped pk bytes data
     \<and> js_eq (fld evidence ''authorizationHash'') (to_authorizationHash opts)
     \<and> (\<forall>r. to_requestedAt opts = Num r \<longrightarrow> \<bar>tm_timestamp metadata - r\<bar> \<le> skew)
     \<and> (\<forall>b. to_before opts = Num b \<longrightarrow> tm_timestamp metadata \<le> b))"

lemma refused_not_valid [simp]: "\<not> tr_valid (timestamp_refused code)"
  by (simp add: timestamp_refused_def)

lemma refused_InrE:
  assumes "(if c then Inr (timestamp_refused code) else m) = Inr r" "tr_valid r" and "\<not> c \<Longrightarrow> m = Inr r \<Longrightarrow> P"
  shows P
  using assms by (auto split: if_splits)

lemma metadata_reply_valid:
  assumes "metadata_reply pk evidence metadata verdict = Inr r" "tr_valid r"
  shows "fld evidence ''timestamp'' = Num (tm_timestamp metadata) \<and> fld evidence ''nonce'' = Str (tm_nonce metadata)
    \<and> tm_policyOid metadata = DIGICERT_POLICY_OID \<and> (\<exists>result. verdict = Inr result \<and> verdict_rejection pk result = None)"
  using assms by (auto simp: metadata_reply_def verdict_reply_def Let_def split: if_splits sum.splits option.splits)

lemma claims_valid: "tr_valid (validateTimestampEvidenceClaims evidence policy opts)
    \<longleftrightarrow> (\<exists>skew. buildTimestampPolicy policy = Inr skew \<and> timestamp_rejection evidence skew opts = None)"
  by (auto simp: validateTimestampEvidenceClaims_def split: sum.splits option.splits)

lemma rejection_response: "timestamp_rejection evidence skew opts = None \<Longrightarrow> is_str (fld evidence ''response'')"
  by (auto simp: timestamp_rejection_def Let_def split: if_splits)

lemma js_string_str: "is_str v \<Longrightarrow> js_string v = str_of v"
  by (cases v) (simp_all add: is_str_def str_of_def)

text \<open>C19. Accepted RFC 3161 evidence holds a response whose hash, time, nonce and policy are recomputed
  from its bytes, whose token is signed over the given data by a time-stamping certificate chained to a
  pinned root, and whose time lies within the allowed skew of the request and not after the bound.\<close>

theorem accepted_timestamps_genuine:
  assumes valid: "tr_valid (verifyTimestampEvidence pk evidence data policy opts)" and roots: "[] \<notin> fst ` set (pk_roots pk)"
  shows "timestamp_genuine pk evidence data policy opts"
proof -
  let ?e = "fld evidence"
  from valid obtain skew where skew: "buildTimestampPolicy policy = Inr skew"
    by (cases "buildTimestampPolicy policy") (simp_all add: verifyTimestampEvidence_def Let_def)
  have claims: "timestamp_rejection evidence skew opts = None"
    using valid timestamp_policy_again timestamp_policy_range [OF skew] claims_valid [of evidence "timestamp_policy skew" opts]
    by (auto simp: verifyTimestampEvidence_def Let_def skew split: if_splits)
  note response = js_string_str [OF rejection_response [OF claims]]
  have ok: "tr_valid (validateTimestampEvidenceClaims evidence (timestamp_policy skew) opts)"
    using claims timestamp_policy_again timestamp_policy_range [OF skew] by (simp add: claims_valid)
  have v: "\<exists>r. tr_valid r \<and> letE (requireCrypto pk) (\<lambda>_.
       letE (decodeBase64Url (str_of (?e ''response''))) (\<lambda>responseBytes.
       letE (sha256Hex pk responseBytes) (\<lambda>responseHash.
       if ?e ''responseHash'' \<noteq> Str responseHash then Inr (timestamp_refused ''TIMESTAMP_RESPONSE_HASH_MISMATCH'') else
       letE (parseResponse pk responseBytes) (\<lambda>response.
       letE (timestampMetadata pk response) (\<lambda>metadata.
       metadata_reply pk evidence metadata (pk_verify pk responseBytes (pk_roots pk) data)))))) = Inr r"
    using valid ok by (simp add: verifyTimestampEvidence_def Let_def skew response split: sum.splits)
  then obtain r where tr: "tr_valid r" and "letE (requireCrypto pk) (\<lambda>_.
       letE (decodeBase64Url (str_of (?e ''response''))) (\<lambda>responseBytes.
       letE (sha256Hex pk responseBytes) (\<lambda>responseHash.
       if ?e ''responseHash'' \<noteq> Str responseHash then Inr (timestamp_refused ''TIMESTAMP_RESPONSE_HASH_MISMATCH'') else
       letE (parseResponse pk responseBytes) (\<lambda>response.
       letE (timestampMetadata pk response) (\<lambda>metadata.
       metadata_reply pk evidence metadata (pk_verify pk responseBytes (pk_roots pk) data)))))) = Inr r" by blast
  then obtain bytes hash response' metadata where
    bytes: "decodeBase64Url (str_of (?e ''response'')) = Inr bytes" and hash: "sha256Hex pk bytes = Inr hash" "?e ''responseHash'' = Str hash"
    and parse: "parseResponse pk bytes = Inr response'" "timestampMetadata pk response' = Inr metadata"
    and reply: "metadata_reply pk evidence metadata (pk_verify pk bytes (pk_roots pk) data) = Inr r"
    by (elim letE_InrE refused_InrE [OF _ tr]) blast
  from metadata_reply_valid [OF reply tr] obtain result where
    same: "?e ''timestamp'' = Num (tm_timestamp metadata)" "?e ''nonce'' = Str (tm_nonce metadata)" "tm_policyOid metadata = DIGICERT_POLICY_OID"
    and verdict: "pk_verify pk bytes (pk_roots pk) data = Inr result" "verdict_rejection pk result = None" by blast
  have "stamped pk bytes data" by (rule verdict_accepted [OF verdict roots])
  moreover have "?e ''responseHash'' = Str (integerHex (pk_sha256 pk bytes))" using hash by (auto simp: sha256Hex_def letE_eq_Inr)
  ultimately show ?thesis
    unfolding timestamp_genuine_def using skew bytes parse same timestamp_in_window [OF claims] by blast
qed

section \<open>The DigiCert client\<close>

text \<open>src/infrastructure/timestamp/digicert-rfc3161-client.mjs over a fetch, which may throw.\<close>

record tsa_response =
  hr_redirected :: bool
  hr_status :: int
  hr_opaqueredirect :: bool
  hr_contentType :: "string option"
  hr_body :: "nat list"

definition media_type :: "string \<Rightarrow> string" where
  "media_type header = lower (trim (takeWhile (\<lambda>c. c \<noteq> CHR '';'') header))"

definition check_tsa_response :: "tsa_response \<Rightarrow> nat list result" where
  "check_tsa_response response = (
     if hr_redirected response \<or> (300 \<le> hr_status response \<and> hr_status response < 400) \<or> hr_opaqueredirect response
       then Inl (PriorSealError ''TIMESTAMP_SERVICE_UNAVAILABLE'') else
     if \<not> (200 \<le> hr_status response \<and> hr_status response < 300) then Inl (PriorSealError ''TIMESTAMP_SERVICE_UNAVAILABLE'') else
     if (case hr_contentType response of None \<Rightarrow> False
         | Some header \<Rightarrow> media_type header \<noteq> [] \<and> media_type header \<noteq> ''application/timestamp-reply'')
       then Inl (PriorSealError ''INVALID_TIMESTAMP_RESPONSE'') else
     if hr_body response = [] \<or> 128 * 1024 < length (hr_body response) then Inl (PriorSealError ''INVALID_TIMESTAMP_RESPONSE'') else
     Inr (hr_body response))"

definition digicert_provider ::
  "(string \<Rightarrow> string) \<Rightarrow> pki \<Rightarrow> nat list \<Rightarrow> (nat list \<Rightarrow> tsa_response result) \<Rightarrow> jsval \<Rightarrow> jsval \<Rightarrow> jsval \<Rightarrow> jsval result" where
  "digicert_provider sha pk random fetch authorization acceptedAt policy =
     letE (canonicalize authorization) (\<lambda>data.
     letE (createTimestampRequest pk random data) (\<lambda>(body, nonce).
     letE (case fetch body of Inl e \<Rightarrow> Inl (PriorSealError ''TIMESTAMP_SERVICE_UNAVAILABLE'') | Inr response \<Rightarrow> check_tsa_response response) (\<lambda>bytes.
     letE (hashJson sha authorization) (\<lambda>h.
     letE (buildTimestampEvidence pk bytes (Str h) acceptedAt (Str nonce) (Str DIGICERT_RFC3161_URL)) (\<lambda>evidence.
     let verified = verifyTimestampEvidence pk evidence data policy
           \<lparr>to_authorizationHash = Str h, to_requestedAt = acceptedAt, to_before = Undef\<rparr> in
     if \<not> tr_valid verified then Inl (PriorSealError (tr_code verified)) else Inr evidence)))))"

section \<open>A concrete service\<close>

definition sample_info :: tst_info where
  "sample_info = \<lparr>ti_algorithm = SHA256_OID, ti_genTime = 100000, ti_serialNumber = [7], ti_nonce = Some [1, 2], ti_policy = DIGICERT_POLICY_OID\<rparr>"

definition sample_pki :: pki where
  "sample_pki = \<lparr>pk_crypto = True, pk_response = (\<lambda>bytes. Inr (Some \<lparr>tp_status = 0, tp_token = Some (Inr (Some bytes))\<rparr>)),
     pk_info = (\<lambda>bytes. Inr (Some sample_info)),
     pk_verify = (\<lambda>bytes roots data. Inr (Details \<lparr>pd_signatureVerified = True, pd_signerCertificateVerified = True,
       pd_extensions = [(''2.5.29.37'', Some [TIMESTAMPING_EKU_OID])], pd_certificatePath = [[9], [8]]\<rparr>)),
     pk_sha256 = (\<lambda>bytes. replicate 32 0), pk_sha256_text = (\<lambda>data. replicate 32 0), pk_integer = (\<lambda>bytes. bytes),
     pk_request = (\<lambda>digest nonce. nonce), pk_roots = [(''f'', [8])]\<rparr>"

definition sample_stamp :: jsval where
  "sample_stamp = (case buildTimestampEvidence sample_pki [5, 6] (Str ''h'') (Num 90) (Str ''0102'') (Str DIGICERT_RFC3161_URL) of Inr v \<Rightarrow> v | Inl e \<Rightarrow> Null)"

definition sample_stamp_options :: timestamp_options where
  "sample_stamp_options = \<lparr>to_authorizationHash = Str ''h'', to_requestedAt = Num 90, to_before = Num 200\<rparr>"

lemma sample_stamp_valid: "tr_valid (verifyTimestampEvidence sample_pki sample_stamp ''d'' (timestamp_policy 300) sample_stamp_options)"
  by code_simp

lemma accepted_timestamps_genuine_witness: "timestamp_genuine sample_pki sample_stamp ''d'' (timestamp_policy 300) sample_stamp_options"
  by (rule accepted_timestamps_genuine [OF sample_stamp_valid]) (simp add: sample_pki_def)

end
