(* ===== verification/Policy.thy ===== *)
theory Policy
  imports Values
begin

text \<open>
  src/domain/intent-policy.mjs: the operator's runtime policy over intents and
  authorizations.  Shown: an allowed intent respects every configured limit, an allowed
  authorization comes from a configured principal whose account is not the executor where
  the policy asks for that.
\<close>

section \<open>Intents\<close>

record policy_result =
  pr_allowed :: bool
  pr_reasonCodes :: "string list"
  pr_policyId :: jsval
  pr_evaluatedAt :: int

definition listHas :: "jsval \<Rightarrow> jsval \<Rightarrow> bool \<Rightarrow> bool" where
  "listHas xs value caseSensitive = (is_arr xs \<and>
     \<not> (if caseSensitive then js_string value \<in> set (map js_string (elems xs))
        else lower (js_string value) \<in> set (map (\<lambda>x. lower (js_string x)) (elems xs))))"

text \<open>\<^verbatim>\<open>chainRef?.startsWith("solana:") === true\<close>; a value that is not a string has no such method.\<close>

definition solana_ref :: "jsval \<Rightarrow> bool result" where
  "solana_ref ref = (case ref of
      Undef \<Rightarrow> Inr False | Null \<Rightarrow> Inr False
    | Str s \<Rightarrow> Inr (starts_with ''solana:'' s)
    | _ \<Rightarrow> Inl TypeErr)"

definition validRuntimePolicy :: "jsval \<Rightarrow> bool" where
  "validRuntimePolicy policy = (
     if \<not> is_obj policy then False else
     if list_ex (\<lambda>k. fld policy k \<noteq> Undef \<and> \<not> is_arr (fld policy k))
          [''allowedChainIds'', ''allowedActions'', ''allowedAssets'', ''allowedSenders'', ''allowedRecipients''] then False else
     if \<not> nullish (fld policy ''maxAmount'') \<and> \<not> uint_text (js_string (fld policy ''maxAmount'')) then False else
     if \<not> nullish (fld policy ''maxValiditySeconds'') \<and>
        (\<not> is_safe_integer (fld policy ''maxValiditySeconds'') \<or> int_of (fld policy ''maxValiditySeconds'') < 0) then False else
     if \<not> nullish (fld policy ''minConfirmations'') \<and>
        (\<not> is_safe_integer (fld policy ''minConfirmations'') \<or> int_of (fld policy ''minConfirmations'') < 1
         \<or> 10000 < int_of (fld policy ''minConfirmations'')) then False else
     if \<not> nullish (fld policy ''finalityRequirement'') \<and>
        js_string (fld policy ''finalityRequirement'') \<notin> {''CONFIRMATIONS'', ''RPC_FINALIZED''} then False else
     if \<not> nullish (fld policy ''maxToleratedReorgDepth'') \<and>
        (\<not> is_safe_integer (fld policy ''maxToleratedReorgDepth'') \<or> int_of (fld policy ''maxToleratedReorgDepth'') < 0
         \<or> 9999 < int_of (fld policy ''maxToleratedReorgDepth'')) then False else
     if \<not> nullish (fld policy ''requireDistinctAuthorizerAndExecutor'') \<and>
        \<not> is_bool (fld policy ''requireDistinctAuthorizerAndExecutor'') then False else True)"

text \<open>The checks inside the try block: the first that throws ends them with POLICY_INVALID.\<close>

fun run_checks :: "(string \<times> bool result) list \<Rightarrow> string list" where
  "run_checks [] = []"
| "run_checks ((code, Inr b) # checks) = reason_if b code @ run_checks checks"
| "run_checks ((code, Inl e) # checks) = [''POLICY_INVALID'']"

definition limit_checks :: "jsval \<Rightarrow> jsval \<Rightarrow> int \<Rightarrow> (string \<times> bool result) list" where
  "limit_checks intent policy now = (let constraints = fld intent ''constraints'' in
     [(''POLICY_AMOUNT_EXCEEDED'',
        if nullish (fld policy ''maxAmount'') then Inr False else
        letE (js_BigInt (fld intent ''amount'')) (\<lambda>a. letE (js_BigInt (fld policy ''maxAmount'')) (\<lambda>m. Inr (m < a)))),
      (''POLICY_EXPIRY_TOO_FAR'',
        Inr (\<not> nullish (fld policy ''maxValiditySeconds'') \<and>
             num_less (num_add (Fin (of_int now)) (to_num (fld policy ''maxValiditySeconds''))) (to_num (fld intent ''validUntil'')))),
      (''POLICY_MIN_CONFIRMATIONS_REQUIRED'',
        Inr (\<not> nullish (fld policy ''minConfirmations'') \<and>
             num_less (to_num (orElse (fld constraints ''minConfirmations'') (Num 0))) (to_num (fld policy ''minConfirmations'')))),
      (''POLICY_FINALIZED_BLOCK_REQUIRED'',
        Inr (fld policy ''finalityRequirement'' = Str ''RPC_FINALIZED'' \<and>
             fld constraints ''finalityRequirement'' \<noteq> Str ''RPC_FINALIZED'')),
      (''POLICY_REORG_BUFFER_REQUIRED'',
        Inr (\<not> nullish (fld policy ''maxToleratedReorgDepth'') \<and>
             num_less (to_num (orElse (fld constraints ''maxToleratedReorgDepth'') (Num (-1)))) (to_num (fld policy ''maxToleratedReorgDepth''))))])"

definition chain_admitted :: "jsval \<Rightarrow> jsval \<Rightarrow> bool" where
  "chain_admitted intent policy = (is_arr (fld policy ''allowedChainIds'') \<and>
     (js_string (fld intent ''chainId'') \<in> set (map js_string (elems (fld policy ''allowedChainIds'')))
      \<or> is_str (fld intent ''chainRef'') \<and> fld intent ''chainRef'' \<in> set (elems (fld policy ''allowedChainIds''))))"

definition evaluateIntentPolicy :: "jsval \<Rightarrow> jsval \<Rightarrow> int \<Rightarrow> policy_result result" where
  "evaluateIntentPolicy intent policyValue now = (
     let policy = (if policyValue = Undef then Obj [] else policyValue) in
     letE (getE intent ''chainRef'') (\<lambda>ref.
     letE (solana_ref ref) (\<lambda>caseSensitiveChain.
     if policy = Null then Inl TypeErr else
     let reasonCodes =
       reason_if (\<not> validRuntimePolicy policy) ''POLICY_INVALID''
       @ reason_if (is_arr (fld policy ''allowedChainIds'') \<and> \<not> chain_admitted intent policy) ''POLICY_CHAIN_NOT_ALLOWED''
       @ reason_if (listHas (fld policy ''allowedActions'') (fld intent ''action'') False) ''POLICY_ACTION_NOT_ALLOWED''
       @ reason_if (listHas (fld policy ''allowedAssets'') (fld intent ''asset'') caseSensitiveChain) ''POLICY_ASSET_NOT_ALLOWED''
       @ reason_if (listHas (fld policy ''allowedSenders'') (fld intent ''sender'') caseSensitiveChain) ''POLICY_SENDER_NOT_ALLOWED''
       @ reason_if (listHas (fld policy ''allowedRecipients'') (fld intent ''recipient'') caseSensitiveChain) ''POLICY_RECIPIENT_NOT_ALLOWED''
       @ run_checks (limit_checks intent policy now)
     in Inr \<lparr>pr_allowed = (reasonCodes = []), pr_reasonCodes = reasonCodes,
             pr_policyId = orElse (fld policy ''policyId'') Null, pr_evaluatedAt = now\<rparr>)))"

section \<open>Authorizations\<close>

text \<open>\<^verbatim>\<open>xs.some(p)\<close> where the predicate may throw.\<close>

fun someE :: "('a \<Rightarrow> bool result) \<Rightarrow> 'a list \<Rightarrow> bool result" where
  "someE p [] = Inr False"
| "someE p (x # xs) = letE (p x) (\<lambda>b. if b then Inr True else someE p xs)"

text \<open>The authorization is a built one: its principal, authorizer and delegate are objects.\<close>

definition principal_matches :: "jsval \<Rightarrow> jsval \<Rightarrow> bool result" where
  "principal_matches authorization entry = (
     let mine = fld authorization ''principal''; signer = fld authorization ''authorizer'' in
     if nullish entry then Inl TypeErr else
     if \<not> js_eq (fld entry ''id'') (fld mine ''id'') then Inr False else
     if \<not> js_eq (fld entry ''type'') (fld mine ''type'') then Inr False else
     letE (if fld signer ''type'' = Str ''solana-ed25519'' then Inr (js_eq (fld entry ''account'') (fld mine ''account''))
           else (case fld entry ''account'' of
                   Str s \<Rightarrow> Inr (fld mine ''account'' = Str (lower s)) | _ \<Rightarrow> Inl TypeErr)) (\<lambda>account.
     Inr (account \<and> js_eq (fld entry ''authorizerType'') (fld signer ''type''))))"

definition evaluateAuthorizationPolicy :: "jsval \<Rightarrow> jsval \<Rightarrow> int \<Rightarrow> policy_result result" where
  "evaluateAuthorizationPolicy authorization policyValue now = (
     let policy = (if policyValue = Undef then Obj [] else policyValue);
         principals = fld policy ''principals'';
         signer = fld authorization ''authorizer''; executor = fld (fld authorization ''delegate'') ''executor'' in
     letE (evaluateIntentPolicy (fld authorization ''intent'') policy now) (\<lambda>intentResult.
     letE (if is_arr principals then someE (principal_matches authorization) (elems principals) else Inr True) (\<lambda>matched.
     let reasonCodes = pr_reasonCodes intentResult
       @ reason_if (principals \<noteq> Undef \<and> \<not> is_arr principals) ''POLICY_INVALID''
       @ reason_if (\<not> matched) ''POLICY_PRINCIPAL_NOT_ALLOWED''
       @ reason_if (fld policy ''requireDistinctAuthorizerAndExecutor'' = Bool True \<and>
            (if fld signer ''type'' = Str ''solana-ed25519'' then js_eq (fld signer ''address'') executor
             else lower (js_string (orElse (fld signer ''address'') (Str []))) = lower (js_string (orElse executor (Str [])))))
           ''POLICY_AUTHORIZER_EXECUTOR_NOT_DISTINCT''
     in Inr (intentResult \<lparr>pr_allowed := (reasonCodes = []), pr_reasonCodes := dedupe reasonCodes\<rparr>))))"

definition evaluateNewIntentPolicyCompatibility :: "jsval \<Rightarrow> jsval \<Rightarrow> bool \<times> string list" where
  "evaluateNewIntentPolicyCompatibility intent policyValue = (
     let policy = (if policyValue = Undef then Obj [] else policyValue);
         exactCall = js_string (orElse (fld intent ''executionProfile'') (Str [])) \<in>
           {''priorseal.execution-profile.exact-call.v1'', ''priorseal.execution-profile.erc4337-user-operation.v1'',
            ''priorseal.execution-profile.solana-transaction.v2'', ''priorseal.execution-profile.hyperliquid-spot-ioc.v1''};
         semanticRestrictionsConfigured = fld policy ''allowedAssets'' \<noteq> Undef \<or> fld policy ''allowedRecipients'' \<noteq> Undef
           \<or> fld policy ''maxAmount'' \<noteq> Undef
     in if exactCall \<and> semanticRestrictionsConfigured then (False, [''POLICY_EXACT_CALL_SEMANTICS_UNSUPPORTED''])
        else (True, []))"

section \<open>What an allowed intent respects\<close>

definition listed :: "jsval \<Rightarrow> jsval \<Rightarrow> bool \<Rightarrow> bool" where
  "listed xs v cs = (\<exists>x\<in>set (elems xs). if cs then js_string x = js_string v
     else lower (js_string x) = lower (js_string v))"

text \<open>The policies the code takes for valid.\<close>

definition well_formed_policy :: "jsval \<Rightarrow> bool" where
  "well_formed_policy policy = (is_obj policy
     \<and> (\<forall>k\<in>{''allowedChainIds'', ''allowedActions'', ''allowedAssets'', ''allowedSenders'', ''allowedRecipients''}.
          fld policy k = Undef \<or> is_arr (fld policy k))
     \<and> (nullish (fld policy ''maxAmount'') \<or> uint_text (js_string (fld policy ''maxAmount'')))
     \<and> (nullish (fld policy ''maxValiditySeconds'') \<or> (\<exists>n. fld policy ''maxValiditySeconds'' = Num n \<and> 0 \<le> n \<and> n \<le> max_safe))
     \<and> (nullish (fld policy ''minConfirmations'') \<or> (\<exists>n. fld policy ''minConfirmations'' = Num n \<and> 1 \<le> n \<and> n \<le> 10000))
     \<and> (nullish (fld policy ''finalityRequirement'') \<or> js_string (fld policy ''finalityRequirement'') \<in> {''CONFIRMATIONS'', ''RPC_FINALIZED''})
     \<and> (nullish (fld policy ''maxToleratedReorgDepth'') \<or> (\<exists>n. fld policy ''maxToleratedReorgDepth'' = Num n \<and> 0 \<le> n \<and> n \<le> 9999))
     \<and> (nullish (fld policy ''requireDistinctAuthorizerAndExecutor'') \<or> is_bool (fld policy ''requireDistinctAuthorizerAndExecutor'')))"

text \<open>A number that is at least, at most \<^verbatim>\<open>m\<close>; what is no number is not compared.\<close>

definition at_least :: "jnum \<Rightarrow> int \<Rightarrow> bool" where
  "at_least x m = (case x of Fin q \<Rightarrow> of_int m \<le> q | PosInf \<Rightarrow> True | NegInf \<Rightarrow> False | NotANumber \<Rightarrow> True)"

definition at_most :: "jnum \<Rightarrow> int \<Rightarrow> bool" where
  "at_most x m = (case x of Fin q \<Rightarrow> q \<le> of_int m | PosInf \<Rightarrow> False | NegInf \<Rightarrow> True | NotANumber \<Rightarrow> True)"

definition policy_respected :: "jsval \<Rightarrow> jsval \<Rightarrow> int \<Rightarrow> bool" where
  "policy_respected intent policy now = (
     let cs = (\<exists>s. fld intent ''chainRef'' = Str s \<and> starts_with ''solana:'' s); constraints = fld intent ''constraints'' in
     well_formed_policy policy
     \<and> (fld policy ''allowedChainIds'' \<noteq> Undef \<longrightarrow> (\<exists>x\<in>set (elems (fld policy ''allowedChainIds'')).
          js_string x = js_string (fld intent ''chainId'') \<or> is_str x \<and> x = fld intent ''chainRef''))
     \<and> (fld policy ''allowedActions'' \<noteq> Undef \<longrightarrow> listed (fld policy ''allowedActions'') (fld intent ''action'') False)
     \<and> (fld policy ''allowedAssets'' \<noteq> Undef \<longrightarrow> listed (fld policy ''allowedAssets'') (fld intent ''asset'') cs)
     \<and> (fld policy ''allowedSenders'' \<noteq> Undef \<longrightarrow> listed (fld policy ''allowedSenders'') (fld intent ''sender'') cs)
     \<and> (fld policy ''allowedRecipients'' \<noteq> Undef \<longrightarrow> listed (fld policy ''allowedRecipients'') (fld intent ''recipient'') cs)
     \<and> (\<not> nullish (fld policy ''maxAmount'') \<longrightarrow>
          (\<exists>a m. js_BigInt (fld intent ''amount'') = Inr a \<and> js_BigInt (fld policy ''maxAmount'') = Inr m \<and> a \<le> m))
     \<and> (\<forall>s. fld policy ''maxValiditySeconds'' = Num s \<longrightarrow> at_most (to_num (fld intent ''validUntil'')) (now + s))
     \<and> (\<forall>m. fld policy ''minConfirmations'' = Num m \<longrightarrow> \<not> nullish (fld constraints ''minConfirmations'')
          \<and> at_least (to_num (fld constraints ''minConfirmations'')) m)
     \<and> (fld policy ''finalityRequirement'' = Str ''RPC_FINALIZED'' \<longrightarrow> fld constraints ''finalityRequirement'' = Str ''RPC_FINALIZED'')
     \<and> (\<forall>m. fld policy ''maxToleratedReorgDepth'' = Num m \<longrightarrow> \<not> nullish (fld constraints ''maxToleratedReorgDepth'')
          \<and> at_least (to_num (fld constraints ''maxToleratedReorgDepth'')) m))"

lemma run_checks_Nil: "run_checks checks = [] \<longleftrightarrow> (\<forall>c\<in>set checks. snd c = Inr False)"
  by (induction checks rule: run_checks.induct) auto

lemma safe_integer_range: "is_safe_integer v \<and> l \<le> int_of v \<and> int_of v \<le> h \<longleftrightarrow> (\<exists>n. v = Num n \<and> \<bar>n\<bar> \<le> max_safe \<and> l \<le> n \<and> n \<le> h)"
  by (cases v) (auto simp: is_safe_integer_def)

lemma validRuntimePolicy_iff: "validRuntimePolicy policy \<longleftrightarrow> well_formed_policy policy"
proof -
  have ranges: "(\<not> is_safe_integer v \<or> int_of v < 0) \<longleftrightarrow> \<not> (\<exists>n. v = Num n \<and> 0 \<le> n \<and> n \<le> max_safe)"
    "(\<not> is_safe_integer v \<or> int_of v < 1 \<or> 10000 < int_of v) \<longleftrightarrow> \<not> (\<exists>n. v = Num n \<and> 1 \<le> n \<and> n \<le> 10000)"
    "(\<not> is_safe_integer v \<or> int_of v < 0 \<or> 9999 < int_of v) \<longleftrightarrow> \<not> (\<exists>n. v = Num n \<and> 0 \<le> n \<and> n \<le> 9999)" for v
    by (cases v; auto simp: is_safe_integer_def max_safe_def)+
  have lists: "list_ex (\<lambda>k. fld policy k \<noteq> Undef \<and> \<not> is_arr (fld policy k))
      [''allowedChainIds'', ''allowedActions'', ''allowedAssets'', ''allowedSenders'', ''allowedRecipients'']
    \<longleftrightarrow> \<not> (\<forall>k\<in>{''allowedChainIds'', ''allowedActions'', ''allowedAssets'', ''allowedSenders'', ''allowedRecipients''}.
          fld policy k = Undef \<or> is_arr (fld policy k))" by auto
  have chain: "(if P then False else Q) \<longleftrightarrow> \<not> P \<and> Q" for P Q by simp
  show ?thesis
    unfolding validRuntimePolicy_def well_formed_policy_def ranges lists chain by (simp only: de_Morgan_conj not_not simp_thms)
qed

lemma list_check:
  assumes "fld policy k = Undef \<or> is_arr (fld policy k)"
  shows "\<not> listHas (fld policy k) v cs \<longleftrightarrow> (fld policy k \<noteq> Undef \<longrightarrow> listed (fld policy k) v cs)"
  using assms by (auto simp: listHas_def listed_def intro: image_eqI [OF sym])

lemma below_limit: "num_less x (Fin (of_int m)) \<longleftrightarrow> \<not> at_least x m" "num_less (Fin (of_int m)) x \<longleftrightarrow> \<not> at_most x m"
  by (cases x; simp add: at_least_def at_most_def not_le)+

lemma least_default:
  assumes "d < m"
  shows "at_least (to_num (orElse v (Num d))) m \<longleftrightarrow> \<not> nullish v \<and> at_least (to_num v) m"
  using assms by (auto simp: orElse_def at_least_def)

lemma chain_check:
  assumes "fld policy ''allowedChainIds'' = Undef \<or> is_arr (fld policy ''allowedChainIds'')"
  shows "\<not> (is_arr (fld policy ''allowedChainIds'') \<and> \<not> chain_admitted intent policy) \<longleftrightarrow>
    (fld policy ''allowedChainIds'' \<noteq> Undef \<longrightarrow> (\<exists>x\<in>set (elems (fld policy ''allowedChainIds'')).
       js_string x = js_string (fld intent ''chainId'') \<or> is_str x \<and> x = fld intent ''chainRef''))"
  using assms by (auto simp: chain_admitted_def image_iff) (metis+)?

lemma limits_iff:
  assumes "well_formed_policy policy"
  shows "(\<forall>c\<in>set (limit_checks intent policy now). snd c = Inr False) \<longleftrightarrow>
     (\<not> nullish (fld policy ''maxAmount'') \<longrightarrow>
          (\<exists>a m. js_BigInt (fld intent ''amount'') = Inr a \<and> js_BigInt (fld policy ''maxAmount'') = Inr m \<and> a \<le> m))
     \<and> (\<forall>s. fld policy ''maxValiditySeconds'' = Num s \<longrightarrow> at_most (to_num (fld intent ''validUntil'')) (now + s))
     \<and> (\<forall>m. fld policy ''minConfirmations'' = Num m \<longrightarrow> \<not> nullish (fld (fld intent ''constraints'') ''minConfirmations'')
          \<and> at_least (to_num (fld (fld intent ''constraints'') ''minConfirmations'')) m)
     \<and> (fld policy ''finalityRequirement'' = Str ''RPC_FINALIZED'' \<longrightarrow> fld (fld intent ''constraints'') ''finalityRequirement'' = Str ''RPC_FINALIZED'')
     \<and> (\<forall>m. fld policy ''maxToleratedReorgDepth'' = Num m \<longrightarrow> \<not> nullish (fld (fld intent ''constraints'') ''maxToleratedReorgDepth'')
          \<and> at_least (to_num (fld (fld intent ''constraints'') ''maxToleratedReorgDepth'')) m)"
proof -
  let ?c = "fld intent ''constraints''"
  from assms have w: "nullish (fld policy ''maxValiditySeconds'') \<or> (\<exists>n. fld policy ''maxValiditySeconds'' = Num n)"
    "nullish (fld policy ''minConfirmations'') \<or> (\<exists>n. fld policy ''minConfirmations'' = Num n \<and> 1 \<le> n)"
    "nullish (fld policy ''maxToleratedReorgDepth'') \<or> (\<exists>n. fld policy ''maxToleratedReorgDepth'' = Num n \<and> 0 \<le> n)"
    unfolding well_formed_policy_def by blast+
  have amount: "((if nullish (fld policy ''maxAmount'') then Inr False else
        letE (js_BigInt (fld intent ''amount'')) (\<lambda>a. letE (js_BigInt (fld policy ''maxAmount'')) (\<lambda>m. Inr (m < a)))) = Inr False) \<longleftrightarrow>
      (\<not> nullish (fld policy ''maxAmount'') \<longrightarrow>
          (\<exists>a m. js_BigInt (fld intent ''amount'') = Inr a \<and> js_BigInt (fld policy ''maxAmount'') = Inr m \<and> a \<le> m))"
    by (auto simp: letE_eq_Inr not_less)
  have validity: "(\<not> nullish (fld policy ''maxValiditySeconds'') \<and>
        num_less (num_add (Fin (of_int now)) (to_num (fld policy ''maxValiditySeconds''))) (to_num (fld intent ''validUntil''))) \<longleftrightarrow>
      \<not> (\<forall>s. fld policy ''maxValiditySeconds'' = Num s \<longrightarrow> at_most (to_num (fld intent ''validUntil'')) (now + s))"
    using w(1) below_limit(2) [of "now + s" "to_num (fld intent ''validUntil'')" for s] by (auto simp: nullish_def)
  have least: "(\<not> nullish (fld policy ''minConfirmations'') \<and>
        num_less (to_num (orElse (fld ?c ''minConfirmations'') (Num 0))) (to_num (fld policy ''minConfirmations''))) \<longleftrightarrow>
      \<not> (\<forall>m. fld policy ''minConfirmations'' = Num m \<longrightarrow> \<not> nullish (fld ?c ''minConfirmations'') \<and> at_least (to_num (fld ?c ''minConfirmations'')) m)"
    using w(2) by (elim disjE exE conjE) (auto simp: nullish_def below_limit least_default)
  have depth: "(\<not> nullish (fld policy ''maxToleratedReorgDepth'') \<and>
        num_less (to_num (orElse (fld ?c ''maxToleratedReorgDepth'') (Num (-1)))) (to_num (fld policy ''maxToleratedReorgDepth''))) \<longleftrightarrow>
      \<not> (\<forall>m. fld policy ''maxToleratedReorgDepth'' = Num m \<longrightarrow> \<not> nullish (fld ?c ''maxToleratedReorgDepth'')
          \<and> at_least (to_num (fld ?c ''maxToleratedReorgDepth'')) m)"
    using w(3) by (elim disjE exE conjE) (auto simp: nullish_def below_limit least_default)
  show ?thesis
    unfolding limit_checks_def Let_def list.set ball_simps snd_conv amount validity least depth sum.inject by blast
qed

lemma allowed_iff:
  assumes "evaluateIntentPolicy intent policy now = Inr r" "policy \<noteq> Undef"
  shows "pr_allowed r \<longleftrightarrow> policy_respected intent policy now"
proof -
  let ?R = "\<lambda>cs. reason_if (\<not> validRuntimePolicy policy) ''POLICY_INVALID''
       @ reason_if (is_arr (fld policy ''allowedChainIds'') \<and> \<not> chain_admitted intent policy) ''POLICY_CHAIN_NOT_ALLOWED''
       @ reason_if (listHas (fld policy ''allowedActions'') (fld intent ''action'') False) ''POLICY_ACTION_NOT_ALLOWED''
       @ reason_if (listHas (fld policy ''allowedAssets'') (fld intent ''asset'') cs) ''POLICY_ASSET_NOT_ALLOWED''
       @ reason_if (listHas (fld policy ''allowedSenders'') (fld intent ''sender'') cs) ''POLICY_SENDER_NOT_ALLOWED''
       @ reason_if (listHas (fld policy ''allowedRecipients'') (fld intent ''recipient'') cs) ''POLICY_RECIPIENT_NOT_ALLOWED''
       @ run_checks (limit_checks intent policy now)"
  from assms(1) obtain cs where cs: "solana_ref (fld intent ''chainRef'') = Inr cs" and
    r: "r = \<lparr>pr_allowed = (?R cs = []), pr_reasonCodes = ?R cs, pr_policyId = orElse (fld policy ''policyId'') Null, pr_evaluatedAt = now\<rparr>"
    unfolding evaluateIntentPolicy_def Let_def if_not_P [OF assms(2)] getE_def
    by (elim result_elims) (rule that, erule (1) back_subst [where P = "\<lambda>x. solana_ref x = _"], assumption)
  have allowed: "pr_allowed r \<longleftrightarrow> validRuntimePolicy policy
      \<and> \<not> (is_arr (fld policy ''allowedChainIds'') \<and> \<not> chain_admitted intent policy)
      \<and> \<not> listHas (fld policy ''allowedActions'') (fld intent ''action'') False
      \<and> \<not> listHas (fld policy ''allowedAssets'') (fld intent ''asset'') cs
      \<and> \<not> listHas (fld policy ''allowedSenders'') (fld intent ''sender'') cs
      \<and> \<not> listHas (fld policy ''allowedRecipients'') (fld intent ''recipient'') cs
      \<and> (\<forall>c\<in>set (limit_checks intent policy now). snd c = Inr False)"
    unfolding r policy_result.select_convs append_is_Nil_conv reason_if_Nil run_checks_Nil not_not ..
  have cs': "cs \<longleftrightarrow> (\<exists>s. fld intent ''chainRef'' = Str s \<and> starts_with ''solana:'' s)"
    using cs by (auto simp: solana_ref_def split: jsval.splits)
  show ?thesis
  proof (cases "well_formed_policy policy")
    case True
    then have "\<forall>k\<in>{''allowedChainIds'', ''allowedActions'', ''allowedAssets'', ''allowedSenders'', ''allowedRecipients''}.
        fld policy k = Undef \<or> is_arr (fld policy k)"
      unfolding well_formed_policy_def by (elim conjE)
    then have k: "fld policy ''allowedChainIds'' = Undef \<or> is_arr (fld policy ''allowedChainIds'')" "fld policy ''allowedActions'' = Undef \<or> is_arr (fld policy ''allowedActions'')" "fld policy ''allowedAssets'' = Undef \<or> is_arr (fld policy ''allowedAssets'')"
      "fld policy ''allowedSenders'' = Undef \<or> is_arr (fld policy ''allowedSenders'')" "fld policy ''allowedRecipients'' = Undef \<or> is_arr (fld policy ''allowedRecipients'')" by (simp_all only: ball_simps)
    show ?thesis
      unfolding allowed policy_respected_def Let_def validRuntimePolicy_iff cs' [symmetric] limits_iff [OF True]
        chain_check [OF k(1)] list_check [OF k(2)] list_check [OF k(3)] list_check [OF k(4)] list_check [OF k(5)]
      ..
  qed (simp add: allowed policy_respected_def validRuntimePolicy_iff Let_def)
qed

lemmas allowed_respects = allowed_iff [THEN iffD1]

section \<open>What an allowed authorization respects\<close>

lemma someE_True: "someE p xs = Inr True \<Longrightarrow> \<exists>x\<in>set xs. p x = Inr True"
  by (induction xs) (auto simp: letE_eq_Inr split: if_splits)

text \<open>The principal is one of the policy's, and the signer is not the executor where asked.\<close>

definition principal_admitted :: "jsval \<Rightarrow> jsval \<Rightarrow> bool" where
  "principal_admitted authorization policy = (
     let mine = fld authorization ''principal''; signer = fld authorization ''authorizer'';
         executor = fld (fld authorization ''delegate'') ''executor'' in
     (is_arr (fld policy ''principals'') \<longrightarrow> (\<exists>p\<in>set (elems (fld policy ''principals'')).
        js_eq (fld p ''id'') (fld mine ''id'') \<and> js_eq (fld p ''type'') (fld mine ''type'')
        \<and> js_eq (fld p ''authorizerType'') (fld signer ''type'')
        \<and> (\<exists>s. fld p ''account'' = Str s \<and> fld mine ''account'' \<in> {Str s, Str (lower s)} \<or> js_eq (fld p ''account'') (fld mine ''account''))))
     \<and> (fld policy ''requireDistinctAuthorizerAndExecutor'' = Bool True \<and> is_str executor \<longrightarrow> fld signer ''address'' \<noteq> executor))"

lemma principal_matches_True:
  "principal_matches a p = Inr True \<Longrightarrow>
    js_eq (fld p ''id'') (fld (fld a ''principal'') ''id'') \<and> js_eq (fld p ''type'') (fld (fld a ''principal'') ''type'')
    \<and> js_eq (fld p ''authorizerType'') (fld (fld a ''authorizer'') ''type'')
    \<and> ((\<exists>s. fld p ''account'' = Str s \<and> fld (fld a ''principal'') ''account'' = Str (lower s))
       \<or> js_eq (fld p ''account'') (fld (fld a ''principal'') ''account''))"
  by (auto simp: principal_matches_def Let_def letE_eq_Inr split: if_splits jsval.splits)

lemma allowed_admits:
  assumes "evaluateAuthorizationPolicy authorization policy now = Inr r" "pr_allowed r" "policy \<noteq> Undef"
  shows "policy_respected (fld authorization ''intent'') policy now" "principal_admitted authorization policy"
proof -
  let ?signer = "fld authorization ''authorizer''" and ?executor = "fld (fld authorization ''delegate'') ''executor''"
  from assms obtain ir m where i: "evaluateIntentPolicy (fld authorization ''intent'') policy now = Inr ir"
    "pr_reasonCodes ir = []" and
    m: "(if is_arr (fld policy ''principals'') then someE (principal_matches authorization) (elems (fld policy ''principals''))
        else Inr True) = Inr m" m and
    d: "\<not> (fld policy ''requireDistinctAuthorizerAndExecutor'' = Bool True \<and>
        (if fld ?signer ''type'' = Str ''solana-ed25519'' then js_eq (fld ?signer ''address'') ?executor
         else lower (js_string (orElse (fld ?signer ''address'') (Str []))) = lower (js_string (orElse ?executor (Str [])))))"
    unfolding evaluateAuthorizationPolicy_def Let_def if_not_P [OF assms(3)]
    by (auto simp: letE_eq_Inr)
  have "pr_allowed ir"
    using i by (auto simp: evaluateIntentPolicy_def Let_def letE_eq_Inr split: if_splits)
  with i(1) assms(3) show "policy_respected (fld authorization ''intent'') policy now"
    by (intro allowed_respects)
  have "fld ?signer ''address'' \<noteq> ?executor"
    if "fld policy ''requireDistinctAuthorizerAndExecutor'' = Bool True" "is_str ?executor"
    using d that by (auto elim!: is_strE split: if_splits)
  moreover have "\<exists>p\<in>set (elems (fld policy ''principals'')). principal_matches authorization p = Inr True"
    if "is_arr (fld policy ''principals'')"
    using m that someE_True by simp
  ultimately show "principal_admitted authorization policy"
    unfolding principal_admitted_def Let_def by (blast dest: principal_matches_True)
qed

section \<open>Properties\<close>

text \<open>C29. A policy that can be evaluated allows an intent exactly when it is well formed and the intent respects every limit it
  configures: chains, actions, assets, senders, recipients (with upper and lower case told apart on Solana only), amount,
  validity, confirmations, finality and reorg depth.  An intent that leaves out the confirmations or the
  depth a policy asks for is not allowed.\<close>

theorem allowed_intents_respect_policy:
  assumes "evaluateIntentPolicy intent policy now = Inr r" "policy \<noteq> Undef"
  shows "pr_allowed r \<longleftrightarrow> policy_respected intent policy now"
  by (rule allowed_iff [OF assms])

definition sample_policy :: jsval where
  "sample_policy = Obj [(''allowedChainIds'', Arr [Str ''8453'']), (''allowedActions'', Arr [Str ''transfer'']),
     (''maxAmount'', Num 300), (''maxValiditySeconds'', Num 600), (''minConfirmations'', Num 2),
     (''requireDistinctAuthorizerAndExecutor'', Bool True),
     (''principals'', Arr [Obj [(''id'', Str ''alice''), (''type'', Str ''user''), (''account'', Str ''0xAB''),
        (''authorizerType'', Str ''eip712'')]])]"

definition sample_allowed_intent :: jsval where
  "sample_allowed_intent = Obj [(''chainId'', Num 8453), (''action'', Str ''TRANSFER''), (''amount'', Str ''250''),
     (''validUntil'', Num 1000), (''constraints'', Obj [(''minConfirmations'', Num 3)])]"

definition sample_allowed_authorization :: jsval where
  "sample_allowed_authorization = Obj [(''intent'', sample_allowed_intent),
     (''principal'', Obj [(''type'', Str ''user''), (''id'', Str ''alice''), (''account'', Str ''0xab'')]),
     (''authorizer'', Obj [(''type'', Str ''eip712''), (''address'', Str ''0xab'')]),
     (''delegate'', Obj [(''agentId'', Str ''bot''), (''executor'', Str ''0xcd'')])]"

definition sample_shallow_intent :: jsval where
  "sample_shallow_intent = Obj [(''chainId'', Num 8453), (''action'', Str ''TRANSFER''), (''amount'', Str ''250''),
     (''validUntil'', Num 1000), (''constraints'', Obj [])]"

lemma allowed_intents_respect_policy_witness:
  "policy_respected sample_allowed_intent sample_policy 500 \<and> \<not> policy_respected sample_shallow_intent sample_policy 500"
proof -
  have y: "evaluateIntentPolicy sample_allowed_intent sample_policy 500
    = Inr \<lparr>pr_allowed = True, pr_reasonCodes = [], pr_policyId = Null, pr_evaluatedAt = 500\<rparr>" by code_simp
  have n: "evaluateIntentPolicy sample_shallow_intent sample_policy 500
    = Inr \<lparr>pr_allowed = False, pr_reasonCodes = [''POLICY_MIN_CONFIRMATIONS_REQUIRED''], pr_policyId = Null, pr_evaluatedAt = 500\<rparr>" by code_simp
  have p: "sample_policy \<noteq> Undef" by (simp add: sample_policy_def)
  from allowed_intents_respect_policy [OF y p] allowed_intents_respect_policy [OF n p] show ?thesis by simp
qed

text \<open>An authorization the policy allows has an intent that respects the policy, comes from a
  configured principal with its account and signer type, and is not signed by the executor where the
  policy requires distinct accounts.\<close>

theorem allowed_authorizations_admitted:
  assumes "evaluateAuthorizationPolicy authorization policy now = Inr r" "pr_allowed r" "policy \<noteq> Undef"
  shows "policy_respected (fld authorization ''intent'') policy now \<and> principal_admitted authorization policy"
  using allowed_admits [OF assms] by simp

lemma allowed_authorizations_admitted_witness:
  "policy_respected sample_allowed_intent sample_policy 500 \<and> principal_admitted sample_allowed_authorization sample_policy"
proof -
  have "evaluateAuthorizationPolicy sample_allowed_authorization sample_policy 500
    = Inr \<lparr>pr_allowed = True, pr_reasonCodes = [], pr_policyId = Null, pr_evaluatedAt = 500\<rparr>" by code_simp
  from allowed_authorizations_admitted [OF this] show ?thesis
    by (simp add: sample_policy_def sample_allowed_authorization_def)
qed

end
