(* ===== verification/Temporal.thy ===== *)
theory Temporal
  imports Binding
begin

text \<open>
  src/domain/temporal-evidence.mjs: the check that an observation's confirmations, blocks
  and finality state support its status under the intent's constraints.  Shown: an accepted
  confirmed or reverted observation has the confirmations the intent asks for and, where it asks for a
  finalized block, one at or above the execution's block.
\<close>

section \<open>The check\<close>

definition is_block_hash :: "jsval \<Rightarrow> bool" where
  "is_block_hash value = (case value of Str s \<Rightarrow> hash0x s | _ \<Rightarrow> False)"

definition is_height :: "jsval \<Rightarrow> bool" where
  "is_height value = (is_safe_integer value \<and> 0 \<le> int_of value)"

text \<open>\<^verbatim>\<open>maxDepth + 1\<close>, then read as a number; a string is extended by the digit.\<close>

definition plus_one :: "jsval \<Rightarrow> jnum" where
  "plus_one v = (case prim v of Str s \<Rightarrow> parse_number (s @ ''1'') | u \<Rightarrow> num_add (to_num u) (Fin 1))"

definition finalized_block_ok :: "jsval \<Rightarrow> jsval \<Rightarrow> bool result" where
  "finalized_block_ok item execution = (
     if fld item ''finalizedBlock'' = Null then Inr True else
     letE (assertOnlyFields (fld item ''finalizedBlock'') [''number'', ''hash'']) (\<lambda>finalized.
     let number = int_of (fld finalized ''number''); hash = fld finalized ''hash'';
         headNumber = int_of (fld item ''observedHeadNumber'') in
     if \<not> is_height (fld finalized ''number'') \<or> headNumber < number \<or> \<not> is_block_hash hash then Inr False else
     if fld execution ''status'' \<noteq> Str ''REORGED'' \<and> number = int_of (fld execution ''blockNumber'')
        \<and> \<not> js_eq hash (fld execution ''blockHash'') then Inr False else
     if number = headNumber \<and> \<not> js_eq hash (fld item ''observedHeadHash'') then Inr False else
     Inr True))"

definition evidence_supports :: "jsval \<Rightarrow> jsval \<Rightarrow> jsval \<Rightarrow> bool result" where
  "evidence_supports constraints execution evidence = (
     let criterion = orElse (fld constraints ''finalityRequirement'') (Str ''CONFIRMATIONS'');
         maxDepth = orElse (fld constraints ''maxToleratedReorgDepth'') Null;
         finality = fld execution ''finalityState''; status = fld execution ''status'' in
     letE (assertOnlyFields evidence [''schema'', ''criterion'', ''requiredConfirmations'', ''maxToleratedReorgDepth'',
        ''observedHeadNumber'', ''observedHeadHash'', ''finalizedBlock'']) (\<lambda>item.
     let required = int_of (fld item ''requiredConfirmations''); headNumber = int_of (fld item ''observedHeadNumber'');
         blockNumber = int_of (fld execution ''blockNumber''); confirmations = int_of (fld execution ''confirmations'') in
     if fld item ''schema'' \<noteq> Str ''priorseal.temporal-evidence.v1'' \<or> \<not> js_eq (fld item ''criterion'') criterion
        \<or> \<not> js_eq (fld item ''maxToleratedReorgDepth'') maxDepth then Inr False else
     if \<not> is_height (fld item ''requiredConfirmations'') \<or> 10000 < required \<or> \<not> is_height (fld item ''observedHeadNumber'')
       then Inr False else
     if (if criterion = Str ''RPC_FINALIZED'' then \<not> is_block_hash (fld item ''observedHeadHash'')
         else fld item ''observedHeadHash'' \<noteq> Null) then Inr False else
     if num_less (Fin (of_int required))
          (num_max (to_num (orElse (fld constraints ''minConfirmations'') (Num 0)))
                   (if nullish maxDepth then Fin 0 else plus_one maxDepth)) then Inr False else
     if \<not> is_height (fld execution ''blockNumber'') \<or> \<not> is_block_hash (fld execution ''blockHash'')
        \<or> \<not> is_height (fld execution ''confirmations'') \<or> headNumber < blockNumber then Inr False else
     if confirmations \<noteq> headNumber - blockNumber + 1 then Inr False else
     letE (finalized_block_ok item execution) (\<lambda>finalized_ok.
     if \<not> finalized_ok then Inr False else
     let reachedDepth = (required \<le> confirmations);
         reachedFinalized = (fld item ''finalizedBlock'' \<noteq> Null \<and>
           blockNumber \<le> int_of (fld (fld item ''finalizedBlock'') ''number'')) in
     if is_any (orElse status (Str [])) [''CONFIRMED'', ''REVERTED''] then
       (if \<not> reachedDepth then Inr False else
        if criterion = Str ''RPC_FINALIZED'' then Inr (finality = Str ''FINALIZED'' \<and> reachedFinalized) else
        Inr (finality = Str ''CONFIRMED'')) else
     if finality = Str ''FINALIZED'' \<or> finality = Str ''CONFIRMED'' then Inr False else
     if status = Str ''PENDING'' \<and> finality = Str ''INSUFFICIENT_FINALITY'' \<and> reachedDepth
        \<and> (criterion = Str ''CONFIRMATIONS'' \<or> reachedFinalized) then Inr False else
     Inr True)))"

definition validateTemporalEvidence :: "jsval \<Rightarrow> jsval \<Rightarrow> bool" where
  "validateTemporalEvidence intent execution = (
     if \<not> truthy execution then False else
     let constraints = fld intent ''constraints''; evidence = fld execution ''temporalEvidence'' in
     if nullish evidence then
       fld execution ''finalityState'' \<noteq> Str ''FINALIZED'' \<and>
       (orElse (fld constraints ''finalityRequirement'') (Str ''CONFIRMATIONS'') \<noteq> Str ''RPC_FINALIZED''
        \<or> \<not> is_any (orElse (fld execution ''status'') (Str [])) [''CONFIRMED'', ''REVERTED''])
     else (case evidence_supports constraints execution evidence of Inl e \<Rightarrow> False | Inr b \<Rightarrow> b))"

section \<open>What accepted evidence shows\<close>

text \<open>
  The confirmations are those between the head and the execution's block, and are at least the
  minimum and more than the tolerated reorganisation depth the intent asks for.
\<close>

definition depth_shown :: "jsval \<Rightarrow> jsval \<Rightarrow> bool" where
  "depth_shown constraints execution = (
     let confirmations = int_of (fld execution ''confirmations''); evidence = fld execution ''temporalEvidence'' in
     confirmations = int_of (fld evidence ''observedHeadNumber'') - int_of (fld execution ''blockNumber'') + 1
     \<and> (\<forall>m. fld constraints ''minConfirmations'' = Num m \<and> (\<exists>d. fld constraints ''maxToleratedReorgDepth'' \<in> {Undef, Null, Num d}) \<longrightarrow> m \<le> confirmations)
     \<and> (\<forall>d. fld constraints ''maxToleratedReorgDepth'' = Num d \<and> (\<exists>m. fld constraints ''minConfirmations'' \<in> {Undef, Null, Num m}) \<longrightarrow> d < confirmations))"

definition finality_shown :: "jsval \<Rightarrow> jsval \<Rightarrow> bool" where
  "finality_shown constraints execution = (
     let evidence = fld execution ''temporalEvidence'' in
     if fld constraints ''finalityRequirement'' = Str ''RPC_FINALIZED''
     then fld execution ''finalityState'' = Str ''FINALIZED'' \<and> fld evidence ''finalizedBlock'' \<noteq> Null
       \<and> int_of (fld execution ''blockNumber'') \<le> int_of (fld (fld evidence ''finalizedBlock'') ''number'')
     else fld execution ''finalityState'' = Str ''CONFIRMED'')"

lemma reject_InrE: "(if b then Inr False else m) = (Inr True :: bool result) \<Longrightarrow> (\<not> b \<Longrightarrow> m = Inr True \<Longrightarrow> P) \<Longrightarrow> P"
  by (auto split: if_splits)

lemma js_eq_orElse_Num: "fld v k = Num d \<Longrightarrow> orElse (fld v k) x = Num d"
  by simp

lemma plus_one_Num [simp]: "plus_one (Num d) = Fin (of_int (d + 1))"
  by (simp add: plus_one_def prim_def)

lemma num_max_bound:
  assumes "\<not> num_less (Fin r) (num_max (Fin a) (Fin b))"
  shows "a \<le> r" "b \<le> r"
  using assms by (auto simp: num_max_def split: if_splits)

lemma num_max_bound_int:
  assumes "\<not> num_less (Fin (of_int r)) (num_max (Fin a) (Fin (of_int (d + 1))))"
  shows "d < r"
  using num_max_bound(2) [OF assms] unfolding of_int_le_iff by simp

lemma supported:
  assumes e: "evidence_supports constraints execution evidence = Inr True" and
    status: "is_any (fld execution ''status'') [''CONFIRMED'', ''REVERTED'']" and
    ev: "evidence = fld execution ''temporalEvidence''"
  shows "depth_shown constraints execution \<and> finality_shown constraints execution"
proof -
  let ?criterion = "orElse (fld constraints ''finalityRequirement'') (Str ''CONFIRMATIONS'')"
  let ?max = "orElse (fld constraints ''maxToleratedReorgDepth'') Null"
  let ?required = "int_of (fld evidence ''requiredConfirmations'')"
  let ?confirmations = "int_of (fld execution ''confirmations'')" and ?block = "int_of (fld execution ''blockNumber'')"
  let ?reached = "fld evidence ''finalizedBlock'' \<noteq> Null \<and> ?block \<le> int_of (fld (fld evidence ''finalizedBlock'') ''number'')"
  have or: "orElse (fld execution ''status'') (Str []) = fld execution ''status''"
    using status by auto
  have shows_all: "\<not> num_less (Fin (of_int ?required)) (num_max (to_num (orElse (fld constraints ''minConfirmations'') (Num 0)))
        (if nullish ?max then Fin 0 else plus_one ?max))
    \<and> ?confirmations = int_of (fld evidence ''observedHeadNumber'') - ?block + 1
    \<and> ?required \<le> ?confirmations \<and>
    (if ?criterion = Str ''RPC_FINALIZED'' then fld execution ''finalityState'' = Str ''FINALIZED'' \<and> ?reached
      else fld execution ''finalityState'' = Str ''CONFIRMED'')"
    using e unfolding evidence_supports_def Let_def or
    by (elim check_elims letE_InrE reject_InrE) (use status in \<open>simp split: if_splits\<close>)
  then have need: "\<not> num_less (Fin (of_int ?required)) (num_max (to_num (orElse (fld constraints ''minConfirmations'') (Num 0)))
        (if nullish ?max then Fin 0 else plus_one ?max))" and
    eq: "?confirmations = int_of (fld evidence ''observedHeadNumber'') - ?block + 1" and
    reached: "?required \<le> ?confirmations" and
    fin: "if ?criterion = Str ''RPC_FINALIZED'' then fld execution ''finalityState'' = Str ''FINALIZED'' \<and> ?reached
      else fld execution ''finalityState'' = Str ''CONFIRMED''"
    by satx+
  have "m \<le> ?required" if "fld constraints ''minConfirmations'' = Num m" "fld constraints ''maxToleratedReorgDepth'' \<in> {Undef, Null, Num d}" for m d
  proof -
    from that(2) have "\<exists>x. (if nullish ?max then Fin 0 else plus_one ?max) = Fin x" by auto
    with need that(1) show ?thesis using num_max_bound(1) [of "of_int ?required" "of_int m :: rat"] by auto
  qed
  moreover have "d < ?required" if "fld constraints ''maxToleratedReorgDepth'' = Num d" "fld constraints ''minConfirmations'' \<in> {Undef, Null, Num m}" for m d
  proof -
    from that(2) have "\<exists>x. to_num (orElse (fld constraints ''minConfirmations'') (Num 0)) = Fin x" by auto
    then obtain x where "to_num (orElse (fld constraints ''minConfirmations'') (Num 0)) = Fin x" ..
    with need that(1) have "\<not> num_less (Fin (of_int ?required)) (num_max (Fin x) (Fin (of_int (d + 1))))" by simp
    then show ?thesis by (rule num_max_bound_int)
  qed
  ultimately have "depth_shown constraints execution"
    using reached eq unfolding depth_shown_def Let_def ev by fastforce
  moreover have "finality_shown constraints execution"
    using fin unfolding finality_shown_def Let_def ev by (auto simp: orElse_def split: if_splits)
  ultimately show ?thesis ..
qed

section \<open>Properties\<close>

text \<open>C31. Accepted temporal evidence of a confirmed or reverted execution shows the confirmations
  the intent requires, beyond the reorganisation depth it tolerates, and the finality it asks for; without evidence
  the observation is accepted only if it does not claim or need finality.\<close>

theorem accepted_temporal_evidence:
  assumes "validateTemporalEvidence intent execution" "is_any (fld execution ''status'') [''CONFIRMED'', ''REVERTED'']"
  shows "if nullish (fld execution ''temporalEvidence'')
    then fld execution ''finalityState'' \<noteq> Str ''FINALIZED'' \<and> fld (fld intent ''constraints'') ''finalityRequirement'' \<noteq> Str ''RPC_FINALIZED''
    else depth_shown (fld intent ''constraints'') execution \<and> finality_shown (fld intent ''constraints'') execution"
proof (cases "nullish (fld execution ''temporalEvidence'')")
  case True
  with assms show ?thesis by (auto simp: validateTemporalEvidence_def Let_def split: if_splits)
next
  case False
  with assms(1) have "evidence_supports (fld intent ''constraints'') execution (fld execution ''temporalEvidence'') = Inr True"
    by (auto simp: validateTemporalEvidence_def Let_def split: if_splits sum.splits)
  from supported [OF this assms(2) refl] False show ?thesis by simp
qed

definition sample_temporal_intent :: jsval where
  "sample_temporal_intent = Obj [(''constraints'', Obj [(''minConfirmations'', Num 2), (''maxToleratedReorgDepth'', Num 1)])]"

definition sample_temporal_execution :: jsval where
  "sample_temporal_execution = Obj [(''status'', Str ''CONFIRMED''), (''finalityState'', Str ''CONFIRMED''),
     (''blockNumber'', Num 10), (''blockHash'', Str (''0x'' @ replicate 64 (CHR ''a''))), (''confirmations'', Num 3),
     (''temporalEvidence'', Obj [(''schema'', Str ''priorseal.temporal-evidence.v1''), (''criterion'', Str ''CONFIRMATIONS''),
        (''requiredConfirmations'', Num 2), (''maxToleratedReorgDepth'', Num 1), (''observedHeadNumber'', Num 12),
        (''observedHeadHash'', Null), (''finalizedBlock'', Null)])]"

lemma accepted_temporal_evidence_witness:
  "depth_shown (fld sample_temporal_intent ''constraints'') sample_temporal_execution
    \<and> finality_shown (fld sample_temporal_intent ''constraints'') sample_temporal_execution"
proof -
  have v: "validateTemporalEvidence sample_temporal_intent sample_temporal_execution" by code_simp
  have s: "is_any (fld sample_temporal_execution ''status'') [''CONFIRMED'', ''REVERTED'']"
    "\<not> nullish (fld sample_temporal_execution ''temporalEvidence'')"
    by (simp_all add: sample_temporal_execution_def)
  from accepted_temporal_evidence [OF v s(1)] s(2) show ?thesis by simp
qed

end
