(* ===== verification/Intent.thy ===== *)
theory Intent
  imports Hyperliquid Solana
begin

text \<open>
  src/domain/intent.mjs: the checks of new intents and the construction of a normalised,
  hashed intent from untrusted input, for the plain, exact-call, ERC-4337, Solana and
  Hyperliquid execution profiles.
\<close>

section \<open>Schemas and small parts\<close>

definition INTENT_SCHEMA :: string where
  "INTENT_SCHEMA = ''priorseal.intent.v1''"

definition EXACT_CALL_INTENT_SCHEMA :: string where
  "EXACT_CALL_INTENT_SCHEMA = ''priorseal.intent.v2''"

definition EXACT_CALL_PROFILE :: string where
  "EXACT_CALL_PROFILE = ''priorseal.execution-profile.exact-call.v1''"

definition ERC4337_USER_OPERATION_PROFILE :: string where
  "ERC4337_USER_OPERATION_PROFILE = ''priorseal.execution-profile.erc4337-user-operation.v1''"

definition required_fields :: "string list" where
  "required_fields = [''intentId'', ''chainId'', ''action'', ''asset'', ''amount'', ''sender'', ''recipient'', ''validUntil'']"

definition constraint_fields :: "string list" where
  "constraint_fields = [''minConfirmations'', ''maxGasUsed'', ''maxToleratedReorgDepth'', ''finalityRequirement'']"

definition assertIssuableIntentInput :: "jsval \<Rightarrow> jsval result" where
  "assertIssuableIntentInput candidate = (
     if fld candidate ''chainIds'' \<noteq> Undef then Inl (PriorSealError ''INVALID_INTENT'') else
     if nullish (fld candidate ''nonce'') then Inl (PriorSealError ''INVALID_INTENT'') else
     if \<not> nullish (fld (fld candidate ''constraints'') ''minConfirmations'')
        \<and> \<not> is_number (fld (fld candidate ''constraints'') ''minConfirmations'')
       then Inl (PriorSealError ''INVALID_CONSTRAINT'') else
     if \<not> nullish (fld (fld candidate ''constraints'') ''maxToleratedReorgDepth'')
        \<and> \<not> is_number (fld (fld candidate ''constraints'') ''maxToleratedReorgDepth'')
       then Inl (PriorSealError ''INVALID_CONSTRAINT'') else
     Inr candidate)"

text \<open>\<^verbatim>\<open>v.toLowerCase()\<close> of a value that is a string, if it is one.\<close>

definition lowerE :: "jsval \<Rightarrow> jsval result" where
  "lowerE v = (case v of Str s \<Rightarrow> Inr (Str (lower s)) | _ \<Rightarrow> Inl TypeErr)"

text \<open>\<^verbatim>\<open>typeof v === "string" && /^0x[0-9a-fA-F]{64}$/.test(v)\<close>.\<close>

definition is_bytes32 :: "jsval \<Rightarrow> bool" where
  "is_bytes32 v = (case v of Str s \<Rightarrow> bytes32 s | _ \<Rightarrow> False)"

definition positive_json_integer :: "jsval \<Rightarrow> bool" where
  "positive_json_integer v = (is_safe_integer v \<and> 1 \<le> int_of v)"

definition zero_address :: string where
  "zero_address = ''0x'' @ replicate 40 (CHR ''0'')"

definition commitment_key :: "jsval \<Rightarrow> string" where
  "commitment_key entry = js_string (fld entry ''namespace'') @ '':'' @ js_string (fld entry ''algorithm'')
     @ '':'' @ js_string (fld entry ''digest'')"

definition context_commitment :: "jsval \<Rightarrow> jsval result" where
  "context_commitment entry =
     letE (assertOnlyFields entry [''namespace'', ''algorithm'', ''digest'']) (\<lambda>item.
     letE (protocolId (fld item ''namespace'')) (\<lambda>namespace.
     let algorithm = lower (js_string (orElse (fld item ''algorithm'') (Str []))) in
     if algorithm \<notin> {''keccak256'', ''sha256''} then Inl (PriorSealError ''INVALID_INTENT'') else
     let digest = lower (js_string (orElse (fld item ''digest'') (Str []))) in
     if \<not> hash0x digest then Inl (PriorSealError ''INVALID_INTENT'') else
     Inr (Obj [(''namespace'', namespace), (''algorithm'', Str algorithm), (''digest'', Str digest)])))"

definition normalizeContextCommitments :: "jsval \<Rightarrow> bool \<Rightarrow> jsval result" where
  "normalizeContextCommitments value exactCall = (
     if nullish value then Inr Undef else
     if \<not> exactCall then Inl (PriorSealError ''INVALID_INTENT'') else
     if \<not> is_arr value \<or> length (elems value) < 1 \<or> 16 < length (elems value)
       then Inl (PriorSealError ''INVALID_INTENT'') else
     letE (mapE context_commitment (elems value)) (\<lambda>entries.
     let normalized = sort_key commitment_key entries in
     if \<not> distinct (map commitment_key normalized) then Inl (PriorSealError ''INVALID_INTENT'') else
     Inr (Arr normalized)))"

text \<open>\<^verbatim>\<open>input.constraints == null ? undefined : assertOnlyFields(...)\<close>.\<close>

definition constraints_of :: "jsval \<Rightarrow> jsval result" where
  "constraints_of input = (if nullish (fld input ''constraints'') then Inr Undef
     else assertOnlyFields (fld input ''constraints'') constraint_fields)"

definition copied_constraints :: "jsval \<Rightarrow> jsval" where
  "copied_constraints constraints = Obj (
     spread_if (\<not> nullish (fld constraints ''minConfirmations''))
       [(''minConfirmations'', fld constraints ''minConfirmations'')]
     @ spread_if (\<not> nullish (fld constraints ''maxGasUsed''))
       [(''maxGasUsed'', Str (js_string (fld constraints ''maxGasUsed'')))]
     @ spread_if (\<not> nullish (fld constraints ''maxToleratedReorgDepth''))
       [(''maxToleratedReorgDepth'', fld constraints ''maxToleratedReorgDepth'')]
     @ spread_if (\<not> nullish (fld constraints ''finalityRequirement''))
       [(''finalityRequirement'', fld constraints ''finalityRequirement'')])"

definition with_intent_hash :: "(string \<Rightarrow> string) \<Rightarrow> (string \<times> jsval) list \<Rightarrow> jsval result" where
  "with_intent_hash sha intent = letE (hashJson sha (Obj intent)) (\<lambda>h. Inr (Obj (intent @ [(''intentHash'', Str h)])))"

text \<open>\<^verbatim>\<open>...(c ? { ... } : {})\<close> with several properties.\<close>

definition opt_part :: "bool \<Rightarrow> (string \<times> jsval) list result \<Rightarrow> (string \<times> jsval) list result" where
  "opt_part c e = (if c then e else Inr [])"

section \<open>Hyperliquid intents\<close>

definition buildHyperliquidSpotIocIntent :: "(string \<Rightarrow> string) \<Rightarrow> jsval \<Rightarrow> jsval result" where
  "buildHyperliquidSpotIocIntent sha input = (
     if fld input ''chainId'' \<noteq> Num 0 \<or> fld input ''chainRef'' \<noteq> Str HYPERLIQUID_MAINNET_CHAIN_REF
       then Inl (PriorSealError ''INVALID_CHAIN_ID'') else
     if nullish (fld input ''hyperliquidOrder'') then Inl (PriorSealError ''INVALID_HYPERLIQUID_ORDER'') else
     letE (normalizeHyperliquidSpotIocOrder (fld input ''hyperliquidOrder'')) (\<lambda>order.
     letE (normalizeHyperliquidAccount (fld input ''sender'')) (\<lambda>sender.
     letE (normalizeHyperliquidAccount (fld input ''recipient'')) (\<lambda>recipient.
     if sender \<noteq> recipient then Inl (PriorSealError ''INVALID_HYPERLIQUID_ORDER'') else
     letE (normalizeHyperliquidNonce (fld input ''nonce'')) (\<lambda>nonce.
     let n = int (nat_value (str_of nonce)); expires = int_of (fld order ''expiresAfter'') in
     if expires \<le> n then Inl (PriorSealError ''INVALID_HYPERLIQUID_ORDER'') else
     if HYPERLIQUID_MAX_SPOT_IOC_LIFETIME_MS < expires - n then Inl (PriorSealError ''INVALID_HYPERLIQUID_ORDER'') else
     letE (unixSeconds (fld input ''validUntil'')) (\<lambda>validUntil.
     if expires div 1000 < int_of validUntil then Inl (PriorSealError ''INVALID_HYPERLIQUID_ORDER'') else
     letE (hyperliquidSpotAssetId (js_string (orElse (fld input ''asset'') (Str [])))) (\<lambda>assetId.
     if assetId \<noteq> fld order ''assetId'' then Inl (PriorSealError ''INVALID_ASSET'') else
     if list_ex (\<lambda>k. \<not> nullish (fld input k))
          [''chainIds'', ''callTarget'', ''calldataHash'', ''transactionValue'', ''entryPoint'',
           ''entryPointCodeHash'', ''entryPointVersion'', ''userOperationHash'', ''accountCallProfile'',
           ''accountCallTarget'', ''accountCallValue'', ''accountCallDataHash'', ''eip7702'', ''solanaTransaction'']
       then Inl (PriorSealError ''INVALID_INTENT'') else
     letE (constraints_of input) (\<lambda>constraints.
     if \<not> nullish (fld constraints ''maxGasUsed'') then Inl (PriorSealError ''INVALID_CONSTRAINT'') else
     if fld constraints ''finalityRequirement'' = Str ''RPC_FINALIZED'' then Inl (PriorSealError ''INVALID_CONSTRAINT'') else
     if \<not> nullish (fld constraints ''minConfirmations'') \<and>
        safe_int (to_num (fld constraints ''minConfirmations'')) \<notin> {Some 0, Some 1}
       then Inl (PriorSealError ''INVALID_CONSTRAINT'') else
     if \<not> nullish (fld constraints ''maxToleratedReorgDepth'') \<and> fld constraints ''maxToleratedReorgDepth'' \<noteq> Num 0
       then Inl (PriorSealError ''INVALID_CONSTRAINT'') else
     let normalizedConstraints = Obj (
           spread_if (\<not> nullish (fld constraints ''minConfirmations''))
             [(''minConfirmations'', fld constraints ''minConfirmations'')]
           @ spread_if (\<not> nullish (fld constraints ''maxToleratedReorgDepth'')) [(''maxToleratedReorgDepth'', Num 0)]
           @ spread_if (\<not> nullish (fld constraints ''finalityRequirement''))
             [(''finalityRequirement'', Str ''CONFIRMATIONS'')]) in
     letE (protocolId (fld input ''intentId'')) (\<lambda>intentId.
     letE (uintString (fld input ''amount'')) (\<lambda>amount.
     letE (opt_field (truthy (fld input ''contextCommitments'')) ''contextCommitments''
            (normalizeContextCommitments (fld input ''contextCommitments'') True)) (\<lambda>commitments.
     with_intent_hash sha (
       [(''schema'', Str EXACT_CALL_INTENT_SCHEMA), (''executionProfile'', Str HYPERLIQUID_SPOT_IOC_PROFILE),
        (''intentId'', intentId), (''chainId'', Num 0), (''chainRef'', Str HYPERLIQUID_MAINNET_CHAIN_REF),
        (''action'', Str HYPERLIQUID_SPOT_IOC_ACTION), (''asset'', Str (js_string (fld input ''asset''))),
        (''amount'', amount), (''sender'', sender), (''recipient'', recipient), (''validUntil'', validUntil),
        (''nonce'', nonce), (''hyperliquidOrder'', order)]
       @ commitments @ spread_if (constraints \<noteq> Undef) [(''constraints'', normalizedConstraints)]))))))))))))"

section \<open>Solana intents\<close>

definition solana_asset_re :: "string \<Rightarrow> bool" where
  "solana_asset_re = after (SOLANA_MAINNET_CAIP2 @ ''/'') (\<lambda>r. r = ''slip44:501'' \<or>
     after ''spl:'' (\<lambda>k. 32 \<le> length k \<and> length k \<le> 44 \<and> list_all (\<lambda>c. c \<in> set BASE58) k) r)"

definition buildSolanaIntent :: "(string \<Rightarrow> string) \<Rightarrow> jsval \<Rightarrow> jsval result" where
  "buildSolanaIntent sha input = (
     if fld input ''chainId'' \<noteq> Num 0 \<or> fld input ''chainRef'' \<noteq> Str SOLANA_MAINNET_CAIP2
       then Inl (PriorSealError ''INVALID_CHAIN_ID'') else
     if nullish (fld input ''solanaTransaction'') then Inl (PriorSealError ''INVALID_INTENT'') else
     letE (normalizeSolanaTransactionMessage (fld input ''solanaTransaction'')) (\<lambda>message.
     if fld input ''sender'' \<noteq> fld message ''feePayer'' \<or> fld input ''recipient'' \<noteq> fld message ''feePayer''
       then Inl (PriorSealError ''INVALID_INTENT'') else
     if fld input ''nonce'' \<noteq> fld message ''recentBlockhash'' then Inl (PriorSealError ''INVALID_INTENT'') else
     if list_ex (\<lambda>k. \<not> nullish (fld input k))
          [''callTarget'', ''calldataHash'', ''transactionValue'', ''entryPoint'', ''userOperationHash'', ''eip7702'']
       then Inl (PriorSealError ''INVALID_INTENT'') else
     let asset = js_string (orElse (fld input ''asset'') (Str [])) in
     if \<not> solana_asset_re asset then Inl (PriorSealError ''INVALID_ASSET'') else
     letE (unixSeconds (fld input ''validUntil'')) (\<lambda>validUntil.
     letE (constraints_of input) (\<lambda>constraints.
     if fld constraints ''finalityRequirement'' = Str ''RPC_FINALIZED'' then Inl (PriorSealError ''INVALID_CONSTRAINT'') else
     letE (if \<not> nullish (fld constraints ''maxGasUsed'') then uintString (fld constraints ''maxGasUsed'') else Inr Undef) (\<lambda>_.
     if \<not> nullish (fld constraints ''minConfirmations'') \<and> fld constraints ''minConfirmations'' \<notin> {Num 0, Num 1}
       then Inl (PriorSealError ''INVALID_CONSTRAINT'') else
     if \<not> nullish (fld constraints ''maxToleratedReorgDepth'') \<and> fld constraints ''maxToleratedReorgDepth'' \<noteq> Num 0
       then Inl (PriorSealError ''INVALID_CONSTRAINT'') else
     letE (protocolId (fld input ''intentId'')) (\<lambda>intentId.
     letE (uintString (fld input ''amount'')) (\<lambda>amount.
     letE (opt_field (truthy (fld input ''contextCommitments'')) ''contextCommitments''
            (normalizeContextCommitments (fld input ''contextCommitments'') True)) (\<lambda>commitments.
     with_intent_hash sha (
       [(''schema'', Str EXACT_CALL_INTENT_SCHEMA), (''executionProfile'', Str SOLANA_TRANSACTION_PROFILE),
        (''intentId'', intentId), (''chainId'', Num 0), (''chainRef'', Str (js_string (fld input ''chainRef''))),
        (''action'', Str ''SOLANA_TRANSACTION''), (''asset'', Str asset), (''amount'', amount),
        (''sender'', fld message ''feePayer''), (''recipient'', fld message ''feePayer''), (''validUntil'', validUntil),
        (''nonce'', fld message ''recentBlockhash''), (''solanaTransaction'', message)]
       @ commitments @ spread_if (constraints \<noteq> Undef) [(''constraints'', copied_constraints constraints)])))))))))"

section \<open>Intents\<close>

definition intent_fields :: "string list" where
  "intent_fields = [''schema'', ''executionProfile'', ''intentId'', ''chainId'', ''chainRef'', ''chainIds'',
     ''action'', ''asset'', ''amount'', ''sender'', ''recipient'', ''validUntil'', ''nonce'', ''callTarget'',
     ''calldataHash'', ''transactionValue'', ''entryPoint'', ''entryPointCodeHash'', ''entryPointVersion'',
     ''userOperationHash'', ''accountCallProfile'', ''accountCallTarget'', ''accountCallValue'',
     ''accountCallDataHash'', ''eip7702'', ''solanaTransaction'', ''hyperliquidOrder'', ''contextCommitments'', ''constraints'']"

text \<open>Lines 51 to 59: the EIP-7702 metadata of the input, checked; undefined when absent.\<close>

definition checked_eip7702 :: "jsval \<Rightarrow> bool \<Rightarrow> bool \<Rightarrow> jsval result" where
  "checked_eip7702 input erc4337 safe4337Call = (
     if nullish (fld input ''eip7702'') then Inr Undef else
     letE (assertOnlyFields (fld input ''eip7702'') [''delegateAddress'', ''delegateCodeHash'', ''authorizationTupleHash'']) (\<lambda>eip7702.
     if \<not> erc4337 \<or> js_string (fld input ''entryPointVersion'') \<notin> {''0.7'', ''0.8'', ''0.9''}
       then Inl (PriorSealError ''INVALID_INTENT'') else
     if safe4337Call then Inl (PriorSealError ''INVALID_INTENT'') else
     letE (evmAddress (Str (js_string (fld eip7702 ''delegateAddress'')))) (\<lambda>delegate.
     if delegate = Str zero_address then Inl (PriorSealError ''INVALID_INTENT'') else
     if \<not> is_bytes32 (fld eip7702 ''delegateCodeHash'') then Inl (PriorSealError ''INVALID_INTENT'') else
     if \<not> nullish (fld eip7702 ''authorizationTupleHash'') \<and> \<not> is_bytes32 (fld eip7702 ''authorizationTupleHash'')
       then Inl (PriorSealError ''INVALID_INTENT'') else
     if js_string (fld input ''entryPointVersion'') = ''0.7'' \<and> \<not> nullish (fld eip7702 ''authorizationTupleHash'')
       then Inl (PriorSealError ''INVALID_INTENT'') else
     Inr eip7702)))"

text \<open>Lines 67 to 73: the constraints of the input, checked; undefined when absent.\<close>

definition checked_constraints :: "jsval \<Rightarrow> jsval result" where
  "checked_constraints input =
     letE (constraints_of input) (\<lambda>constraints.
     if constraints = Undef then Inr Undef else
     if \<not> nullish (fld constraints ''minConfirmations'') \<and>
        (case safe_int (to_num (fld constraints ''minConfirmations'')) of
           None \<Rightarrow> True | Some n \<Rightarrow> n < 0 \<or> 10000 < n)
       then Inl (PriorSealError ''INVALID_CONSTRAINT'') else
     if \<not> nullish (fld constraints ''maxToleratedReorgDepth'') \<and>
        (\<not> is_safe_integer (fld constraints ''maxToleratedReorgDepth'')
         \<or> int_of (fld constraints ''maxToleratedReorgDepth'') < 0 \<or> 9999 < int_of (fld constraints ''maxToleratedReorgDepth''))
       then Inl (PriorSealError ''INVALID_CONSTRAINT'') else
     if \<not> nullish (fld constraints ''finalityRequirement'') \<and>
        js_string (fld constraints ''finalityRequirement'') \<notin> {''CONFIRMATIONS'', ''RPC_FINALIZED''}
       then Inl (PriorSealError ''INVALID_CONSTRAINT'') else
     letE (if \<not> nullish (fld constraints ''maxGasUsed'') then uintString (fld constraints ''maxGasUsed'') else Inr Undef) (\<lambda>_.
     Inr constraints))"

text \<open>Line 81: the parts of the intent that only an ERC-4337 intent has.\<close>

definition eip7702_part :: "jsval \<Rightarrow> (string \<times> jsval) list result" where
  "eip7702_part eip7702 = (if eip7702 = Undef then Inr [] else
     letE (evmAddress (Str (js_string (fld eip7702 ''delegateAddress'')))) (\<lambda>delegateAddress.
     letE (lowerE (fld eip7702 ''delegateCodeHash'')) (\<lambda>delegateCodeHash.
     letE (opt_field (\<not> nullish (fld eip7702 ''authorizationTupleHash'')) ''authorizationTupleHash''
            (lowerE (fld eip7702 ''authorizationTupleHash''))) (\<lambda>tuple.
     Inr [(''eip7702'', Obj ([(''delegateAddress'', delegateAddress), (''delegateCodeHash'', delegateCodeHash)] @ tuple))]))))"

definition erc4337_part :: "jsval \<Rightarrow> bool \<Rightarrow> jsval \<Rightarrow> (string \<times> jsval) list result" where
  "erc4337_part input safe4337Call eip7702 =
     letE (evmAddress (Str (js_string (fld input ''entryPoint'')))) (\<lambda>entryPoint.
     letE (if \<not> safe4337Call then Inr [] else
           letE (evmAddress (Str (js_string (fld input ''accountCallTarget'')))) (\<lambda>target.
           letE (uintString (fld input ''accountCallValue'')) (\<lambda>callValue.
           Inr [(''accountCallProfile'', Str ''safe-4337.v1''), (''accountCallTarget'', target),
                (''accountCallValue'', callValue),
                (''accountCallDataHash'', Str (lower (js_string (fld input ''accountCallDataHash''))))]))) (\<lambda>safe_part.
     letE (eip7702_part eip7702) (\<lambda>delegation.
     Inr ([(''entryPoint'', entryPoint),
           (''entryPointCodeHash'', Str (lower (js_string (fld input ''entryPointCodeHash'')))),
           (''entryPointVersion'', Str (js_string (fld input ''entryPointVersion''))),
           (''userOperationHash'', Str (lower (js_string (fld input ''userOperationHash''))))]
          @ safe_part @ delegation))))"

text \<open>Line 82: the asset of an EVM intent, with the digits of its chain id.\<close>

definition evm_asset_re :: "string \<Rightarrow> bool" where
  "evm_asset_re = after ''eip155:'' (\<lambda>r. posint_text (takeWhile is_digit r) \<and>
     (dropWhile is_digit r = ''/native'' \<or> after ''/erc20:'' EVM_ADDRESS_RE (dropWhile is_digit r)))"

definition evm_asset_chain :: "string \<Rightarrow> int" where
  "evm_asset_chain s = int (nat_value (takeWhile is_digit (drop 7 s)))"

definition buildIntent :: "(string \<Rightarrow> string) \<Rightarrow> jsval \<Rightarrow> jsval result" where
  "buildIntent sha inputValue =
     letE (assertSafeJson inputValue) (\<lambda>_.
     letE (assertOnlyFields inputValue intent_fields) (\<lambda>input.
     if list_ex (\<lambda>k. nullish (fld input k)) required_fields then Inl (PriorSealError ''INVALID_INTENT'') else
     let schema = orElse (fld input ''schema'')
           (Str (if truthy (fld input ''executionProfile'') then EXACT_CALL_INTENT_SCHEMA else INTENT_SCHEMA)) in
     if schema \<noteq> Str INTENT_SCHEMA \<and> schema \<noteq> Str EXACT_CALL_INTENT_SCHEMA then Inl (PriorSealError ''INVALID_INTENT'') else
     let exactCall = (schema = Str EXACT_CALL_INTENT_SCHEMA);
         executionProfile = fld input ''executionProfile'';
         exact_profile = (executionProfile = Str EXACT_CALL_PROFILE);
         erc4337 = (executionProfile = Str ERC4337_USER_OPERATION_PROFILE);
         solanaTransaction = (executionProfile = Str SOLANA_TRANSACTION_PROFILE);
         hyperliquidSpotIoc = (executionProfile = Str HYPERLIQUID_SPOT_IOC_PROFILE) in
     if exactCall \<and> js_string executionProfile \<notin> {EXACT_CALL_PROFILE, ERC4337_USER_OPERATION_PROFILE,
                                                 SOLANA_TRANSACTION_PROFILE, HYPERLIQUID_SPOT_IOC_PROFILE}
       then Inl (PriorSealError ''INVALID_INTENT'') else
     if \<not> exactCall \<and> \<not> nullish executionProfile then Inl (PriorSealError ''INVALID_INTENT'') else
     if exact_profile \<and> fld input ''action'' \<noteq> Str ''CONTRACT_CALL'' then Inl (PriorSealError ''INVALID_INTENT'') else
     if erc4337 \<and> fld input ''action'' \<noteq> Str ''ERC4337_USER_OPERATION'' then Inl (PriorSealError ''INVALID_INTENT'') else
     if solanaTransaction \<and> fld input ''action'' \<noteq> Str ''SOLANA_TRANSACTION'' then Inl (PriorSealError ''INVALID_INTENT'') else
     if hyperliquidSpotIoc \<and> fld input ''action'' \<noteq> Str HYPERLIQUID_SPOT_IOC_ACTION then Inl (PriorSealError ''INVALID_INTENT'') else
     if solanaTransaction then buildSolanaIntent sha input else
     if hyperliquidSpotIoc then buildHyperliquidSpotIocIntent sha input else
     if exactCall \<and> \<not> positive_json_integer (fld input ''chainId'') then Inl (PriorSealError ''INVALID_CHAIN_ID'') else
     if erc4337 \<and> \<not> positive_json_integer (fld input ''chainId'') then Inl (PriorSealError ''INVALID_CHAIN_ID'') else
     if exact_profile \<and> nullish (fld input ''nonce'') then Inl (PriorSealError ''INVALID_INTENT'') else
     if exact_profile \<and> list_ex (\<lambda>k. nullish (fld input k)) [''callTarget'', ''calldataHash'', ''transactionValue'']
       then Inl (PriorSealError ''INVALID_INTENT'') else
     if erc4337 \<and> list_ex (\<lambda>k. nullish (fld input k))
          [''nonce'', ''entryPoint'', ''entryPointCodeHash'', ''entryPointVersion'', ''userOperationHash'']
       then Inl (PriorSealError ''INVALID_INTENT'') else
     if erc4337 \<and> js_string (fld input ''entryPointVersion'') \<notin> {''0.6'', ''0.7'', ''0.8'', ''0.9''}
       then Inl (PriorSealError ''INVALID_INTENT'') else
     if erc4337 \<and> \<not> is_bytes32 (fld input ''userOperationHash'') then Inl (PriorSealError ''INVALID_INTENT'') else
     if erc4337 \<and> \<not> is_bytes32 (fld input ''entryPointCodeHash'') then Inl (PriorSealError ''INVALID_INTENT'') else
     let safe4337Call = (fld input ''accountCallProfile'' = Str ''safe-4337.v1'') in
     letE (checked_eip7702 input erc4337 safe4337Call) (\<lambda>eip7702.
     if \<not> nullish (fld input ''accountCallProfile'') \<and> \<not> safe4337Call then Inl (PriorSealError ''INVALID_INTENT'') else
     if \<not> safe4337Call \<and> list_ex (\<lambda>k. \<not> nullish (fld input k)) [''accountCallTarget'', ''accountCallValue'', ''accountCallDataHash'']
       then Inl (PriorSealError ''INVALID_INTENT'') else
     if safe4337Call \<and> (\<not> erc4337 \<or> list_ex (\<lambda>k. nullish (fld input k)) [''accountCallTarget'', ''accountCallValue'', ''accountCallDataHash''])
       then Inl (PriorSealError ''INVALID_INTENT'') else
     if safe4337Call \<and> \<not> is_bytes32 (fld input ''accountCallDataHash'') then Inl (PriorSealError ''INVALID_INTENT'') else
     let chainIds = fld input ''chainIds'' in
     if \<not> nullish chainIds \<and> \<not> is_arr chainIds then Inl (PriorSealError ''INVALID_INTENT'') else
     letE (normalizeContextCommitments (fld input ''contextCommitments'') exactCall) (\<lambda>contextCommitments.
     letE (checked_constraints input) (\<lambda>constraints.
     if \<not> nullish (fld input ''calldataHash'') \<and> \<not> bytes32 (js_string (fld input ''calldataHash''))
       then Inl (PriorSealError ''INVALID_INTENT'') else
     letE (protocolId (fld input ''intentId'')) (\<lambda>intentId.
     letE (chainId (fld input ''chainId'')) (\<lambda>chain.
     letE (opt_field (truthy chainIds) ''chainIds'' (letE (mapE chainId (elems chainIds)) (\<lambda>cs. Inr (Arr cs)))) (\<lambda>chains.
     letE (protocolId (fld input ''action'')) (\<lambda>action.
     let asset = js_string (fld input ''asset'') in
     letE (uintString (fld input ''amount'')) (\<lambda>amount.
     letE (evmAddress (fld input ''sender'')) (\<lambda>sender.
     letE (evmAddress (fld input ''recipient'')) (\<lambda>recipient.
     letE (unixSeconds (fld input ''validUntil'')) (\<lambda>validUntil.
     letE (uintString (orElse (fld input ''nonce'') (Str ''0''))) (\<lambda>nonce.
     letE (opt_field (\<not> nullish (fld input ''callTarget'')) ''callTarget'' (evmAddress (fld input ''callTarget''))) (\<lambda>callTarget.
     letE (opt_field (\<not> nullish (fld input ''calldataHash'')) ''calldataHash'' (lowerE (fld input ''calldataHash''))) (\<lambda>calldataHash.
     letE (opt_field (\<not> nullish (fld input ''transactionValue'')) ''transactionValue'' (uintString (fld input ''transactionValue''))) (\<lambda>transactionValue.
     letE (opt_part erc4337 (erc4337_part input safe4337Call eip7702)) (\<lambda>userOperation.
     if \<not> evm_asset_re asset then Inl (PriorSealError ''INVALID_ASSET'') else
     if evm_asset_chain asset \<noteq> int_of chain then Inl (PriorSealError ''INVALID_ASSET'') else
     with_intent_hash sha (
       [(''schema'', schema)] @ spread_if exactCall [(''executionProfile'', Str (js_string executionProfile))]
       @ [(''intentId'', intentId), (''chainId'', chain)] @ chains
       @ [(''action'', action), (''asset'', Str asset), (''amount'', amount), (''sender'', sender),
          (''recipient'', recipient), (''validUntil'', validUntil), (''nonce'', nonce)]
       @ callTarget @ calldataHash @ transactionValue @ userOperation
       @ spread_if (contextCommitments \<noteq> Undef) [(''contextCommitments'', contextCommitments)]
       @ spread_if (constraints \<noteq> Undef) [(''constraints'', copied_constraints constraints)])))))))))))))))))))"

section \<open>Inverting the construction\<close>

lemma branch_InrE:
  "(if b then m else k) = Inr y \<Longrightarrow> (b \<Longrightarrow> m = Inr y \<Longrightarrow> P) \<Longrightarrow> (\<not> b \<Longrightarrow> k = Inr y \<Longrightarrow> P) \<Longrightarrow> P"
  by (auto split: if_splits)

definition intent_schema :: "jsval \<Rightarrow> jsval" where
  "intent_schema input = orElse (fld input ''schema'')
     (Str (if truthy (fld input ''executionProfile'') then EXACT_CALL_INTENT_SCHEMA else INTENT_SCHEMA))"

lemma buildIntent_Inr:
  assumes "buildIntent sha v = Inr w"
  obtains
    (solana) "fld v ''executionProfile'' = Str SOLANA_TRANSACTION_PROFILE" "buildSolanaIntent sha v = Inr w"
      "fld v ''action'' = Str ''SOLANA_TRANSACTION''"
  | (hyperliquid) "fld v ''executionProfile'' = Str HYPERLIQUID_SPOT_IOC_PROFILE" "buildHyperliquidSpotIocIntent sha v = Inr w"
      "fld v ''action'' = Str HYPERLIQUID_SPOT_IOC_ACTION"
  | (evm) eip7702 commitments constraints intentId chain chains action amount sender
      recipient validUntil nonce callTarget calldataHash transactionValue userOperation where
    "\<not> (intent_schema v \<noteq> Str INTENT_SCHEMA \<and> intent_schema v \<noteq> Str EXACT_CALL_INTENT_SCHEMA)"
    "\<not> (intent_schema v = Str EXACT_CALL_INTENT_SCHEMA \<and> js_string (fld v ''executionProfile'') \<notin>
        {EXACT_CALL_PROFILE, ERC4337_USER_OPERATION_PROFILE, SOLANA_TRANSACTION_PROFILE, HYPERLIQUID_SPOT_IOC_PROFILE})"
    "\<not> (intent_schema v \<noteq> Str EXACT_CALL_INTENT_SCHEMA \<and> \<not> nullish (fld v ''executionProfile''))"
    "\<not> (fld v ''executionProfile'' = Str EXACT_CALL_PROFILE \<and> fld v ''action'' \<noteq> Str ''CONTRACT_CALL'')"
    "\<not> (fld v ''executionProfile'' = Str ERC4337_USER_OPERATION_PROFILE \<and> fld v ''action'' \<noteq> Str ''ERC4337_USER_OPERATION'')"
    "fld v ''executionProfile'' \<noteq> Str SOLANA_TRANSACTION_PROFILE" "fld v ''executionProfile'' \<noteq> Str HYPERLIQUID_SPOT_IOC_PROFILE"
    "\<not> (fld v ''executionProfile'' = Str EXACT_CALL_PROFILE \<and> nullish (fld v ''nonce''))"
    "\<not> (fld v ''executionProfile'' = Str EXACT_CALL_PROFILE \<and>
        list_ex (\<lambda>k. nullish (fld v k)) [''callTarget'', ''calldataHash'', ''transactionValue''])"
    "\<not> (fld v ''executionProfile'' = Str ERC4337_USER_OPERATION_PROFILE \<and> list_ex (\<lambda>k. nullish (fld v k))
          [''nonce'', ''entryPoint'', ''entryPointCodeHash'', ''entryPointVersion'', ''userOperationHash''])"
    "\<not> (fld v ''executionProfile'' = Str ERC4337_USER_OPERATION_PROFILE \<and>
        js_string (fld v ''entryPointVersion'') \<notin> {''0.6'', ''0.7'', ''0.8'', ''0.9''})"
    "\<not> (fld v ''executionProfile'' = Str ERC4337_USER_OPERATION_PROFILE \<and> \<not> is_bytes32 (fld v ''userOperationHash''))"
    "\<not> (fld v ''executionProfile'' = Str ERC4337_USER_OPERATION_PROFILE \<and> \<not> is_bytes32 (fld v ''entryPointCodeHash''))"
    "checked_eip7702 v (fld v ''executionProfile'' = Str ERC4337_USER_OPERATION_PROFILE)
        (fld v ''accountCallProfile'' = Str ''safe-4337.v1'') = Inr eip7702"
    "normalizeContextCommitments (fld v ''contextCommitments'') (intent_schema v = Str EXACT_CALL_INTENT_SCHEMA) = Inr commitments"
    "checked_constraints v = Inr constraints"
    "\<not> (\<not> nullish (fld v ''calldataHash'') \<and> \<not> bytes32 (js_string (fld v ''calldataHash'')))"
    "protocolId (fld v ''intentId'') = Inr intentId" "chainId (fld v ''chainId'') = Inr chain"
    "opt_field (truthy (fld v ''chainIds'')) ''chainIds''
        (letE (mapE chainId (elems (fld v ''chainIds''))) (\<lambda>cs. Inr (Arr cs))) = Inr chains"
    "protocolId (fld v ''action'') = Inr action" "uintString (fld v ''amount'') = Inr amount"
    "evmAddress (fld v ''sender'') = Inr sender" "evmAddress (fld v ''recipient'') = Inr recipient"
    "unixSeconds (fld v ''validUntil'') = Inr validUntil"
    "uintString (orElse (fld v ''nonce'') (Str ''0'')) = Inr nonce"
    "opt_field (\<not> nullish (fld v ''callTarget'')) ''callTarget'' (evmAddress (fld v ''callTarget'')) = Inr callTarget"
    "opt_field (\<not> nullish (fld v ''calldataHash'')) ''calldataHash'' (lowerE (fld v ''calldataHash'')) = Inr calldataHash"
    "opt_field (\<not> nullish (fld v ''transactionValue'')) ''transactionValue'' (uintString (fld v ''transactionValue'')) = Inr transactionValue"
    "opt_part (fld v ''executionProfile'' = Str ERC4337_USER_OPERATION_PROFILE)
        (erc4337_part v (fld v ''accountCallProfile'' = Str ''safe-4337.v1'') eip7702) = Inr userOperation"
    "\<not> \<not> evm_asset_re (js_string (fld v ''asset''))" "\<not> evm_asset_chain (js_string (fld v ''asset'')) \<noteq> int_of chain"
    "with_intent_hash sha (
       [(''schema'', intent_schema v)]
       @ spread_if (intent_schema v = Str EXACT_CALL_INTENT_SCHEMA) [(''executionProfile'', Str (js_string (fld v ''executionProfile'')))]
       @ [(''intentId'', intentId), (''chainId'', chain)] @ chains
       @ [(''action'', action), (''asset'', Str (js_string (fld v ''asset''))), (''amount'', amount), (''sender'', sender),
          (''recipient'', recipient), (''validUntil'', validUntil), (''nonce'', nonce)]
       @ callTarget @ calldataHash @ transactionValue @ userOperation
       @ spread_if (commitments \<noteq> Undef) [(''contextCommitments'', commitments)]
       @ spread_if (constraints \<noteq> Undef) [(''constraints'', copied_constraints constraints)]) = Inr w"
proof -
  note evm = that(3)
  show thesis
    using assms unfolding buildIntent_def Let_def intent_schema_def [symmetric]
  proof (elim check_elims result_elims branch_InrE, goal_cases)
    case (1 kvs)
    then show ?case by (intro that(1)) simp_all
  next
    case (2 kvs)
    then show ?case by (intro that(2)) simp_all
  next
    case 3
    then show ?case by - (rule evm, assumption+)
  qed
qed

section \<open>What a built intent is\<close>

lemma with_intent_hash_Inr:
  "with_intent_hash sha kvs = Inr w \<longleftrightarrow>
    (\<exists>h. hashJson sha (Obj kvs) = Inr h \<and> w = Obj (kvs @ [(''intentHash'', Str h)]))"
  by (auto simp: with_intent_hash_def letE_eq_Inr)

text \<open>The hash of an intent is the hash of its other properties, in their order.\<close>

definition hashed_intent :: "(string \<Rightarrow> string) \<Rightarrow> jsval \<Rightarrow> bool" where
  "hashed_intent sha w = (\<exists>kvs h. w = Obj (kvs @ [(''intentHash'', Str h)]) \<and> ''intentHash'' \<notin> fst ` set kvs \<and> hashJson sha (Obj kvs) = Inr h)"

lemma hashed_intent_with: "with_intent_hash sha kvs = Inr w \<Longrightarrow> ''intentHash'' \<notin> fst ` set kvs \<Longrightarrow> hashed_intent sha w"
  by (auto simp: with_intent_hash_Inr hashed_intent_def)

lemma hashed_intent_hash: "hashed_intent sha w \<Longrightarrow> is_str (fld w ''intentHash'')"
proof -
  assume "hashed_intent sha w"
  then obtain kvs h where w: "w = Obj (kvs @ [(''intentHash'', Str h)])" "''intentHash'' \<notin> fst ` set kvs" by (auto simp: hashed_intent_def)
  then have "map_of kvs ''intentHash'' = None" by (simp add: map_of_eq_None_iff)
  with w(1) show ?thesis by (simp add: fld_def map_add_def)
qed

text \<open>The optional parts of an intent have other names.\<close>

lemma opt_field_keys: "opt_field c k e = Inr kvs \<Longrightarrow> k' \<noteq> k \<Longrightarrow> k' \<notin> fst ` set kvs"
  by (auto elim!: opt_field_InrE)

lemma spread_if_keys: "k \<noteq> k' \<Longrightarrow> k \<notin> fst ` set (spread_if c [(k', v)])"
  by (auto simp: spread_if_def)

lemma user_operation_keys:
  "opt_part c (erc4337_part input safe eip7702) = Inr kvs \<Longrightarrow> ''intentHash'' \<notin> fst ` set kvs"
  by (auto simp: opt_part_def erc4337_part_def eip7702_part_def letE_eq_Inr split: if_splits)

definition solana_intent :: "jsval \<Rightarrow> bool" where
  "solana_intent w = (
     fld w ''executionProfile'' = Str SOLANA_TRANSACTION_PROFILE \<and> fld w ''action'' = Str ''SOLANA_TRANSACTION''
     \<and> fld w ''chainId'' = Num 0 \<and> fld w ''chainRef'' = Str SOLANA_MAINNET_CAIP2
     \<and> message_consistent (fld w ''solanaTransaction'')
     \<and> fld w ''sender'' = fld (fld w ''solanaTransaction'') ''feePayer''
     \<and> fld w ''recipient'' = fld (fld w ''solanaTransaction'') ''feePayer''
     \<and> fld w ''nonce'' = fld (fld w ''solanaTransaction'') ''recentBlockhash'')"

definition hyperliquid_intent :: "jsval \<Rightarrow> bool" where
  "hyperliquid_intent w = (
     let order = fld w ''hyperliquidOrder''; n = int (nat_value (str_of (fld w ''nonce'')));
         expires = int_of (fld order ''expiresAfter'')
     in fld w ''executionProfile'' = Str HYPERLIQUID_SPOT_IOC_PROFILE \<and> fld w ''action'' = Str HYPERLIQUID_SPOT_IOC_ACTION
      \<and> fld w ''chainId'' = Num 0 \<and> fld w ''chainRef'' = Str HYPERLIQUID_MAINNET_CHAIN_REF
      \<and> is_spot_order order \<and> is_address (fld w ''sender'') \<and> fld w ''recipient'' = fld w ''sender''
      \<and> is_uint (fld w ''nonce'') \<and> n < expires \<and> expires \<le> n + HYPERLIQUID_MAX_SPOT_IOC_LIFETIME_MS
      \<and> 1000 * int_of (fld w ''validUntil'') \<le> expires)"

definition evm_intent :: "jsval \<Rightarrow> bool" where
  "evm_intent w = (
     (fld w ''schema'' = Str INTENT_SCHEMA \<and> fld w ''executionProfile'' = Undef
      \<or> fld w ''schema'' = Str EXACT_CALL_INTENT_SCHEMA \<and> is_any (fld w ''executionProfile'')
           [EXACT_CALL_PROFILE, ERC4337_USER_OPERATION_PROFILE, SOLANA_TRANSACTION_PROFILE, HYPERLIQUID_SPOT_IOC_PROFILE])
     \<and> is_chain_id (fld w ''chainId'') \<and> is_id (fld w ''action'')
     \<and> is_address (fld w ''sender'') \<and> is_address (fld w ''recipient'') \<and> is_uint (fld w ''nonce'')
     \<and> is_str (fld w ''asset'') \<and> evm_asset_re (str_of (fld w ''asset''))
     \<and> fld w ''chainId'' = Num (evm_asset_chain (str_of (fld w ''asset''))))"

definition intent_ok :: "(string \<Rightarrow> string) \<Rightarrow> jsval \<Rightarrow> bool" where
  "intent_ok sha w = (hashed_intent sha w \<and> is_id (fld w ''intentId'') \<and> is_uint (fld w ''amount'')
     \<and> is_time (fld w ''validUntil'') \<and> (solana_intent w \<or> hyperliquid_intent w \<or> evm_intent w))"

lemma solana_intent_ok:
  assumes "buildSolanaIntent sha v = Inr w"
  shows "hashed_intent sha w \<and> is_id (fld w ''intentId'') \<and> is_uint (fld w ''amount'')
    \<and> is_time (fld w ''validUntil'') \<and> solana_intent w"
  using assms unfolding buildSolanaIntent_def Let_def
proof (elim result_elims, goal_cases)
  case (1 message validUntil constraints u intentId amount commitments)
  from 1(17) obtain h where w: "w = Obj (([(''schema'', Str EXACT_CALL_INTENT_SCHEMA), (''executionProfile'', Str SOLANA_TRANSACTION_PROFILE),
        (''intentId'', intentId), (''chainId'', Num 0), (''chainRef'', Str (js_string (fld v ''chainRef''))),
        (''action'', Str ''SOLANA_TRANSACTION''), (''asset'', Str (js_string (orElse (fld v ''asset'') (Str [])))), (''amount'', amount),
        (''sender'', fld message ''feePayer''), (''recipient'', fld message ''feePayer''), (''validUntil'', validUntil),
        (''nonce'', fld message ''recentBlockhash''), (''solanaTransaction'', message)]
       @ commitments @ spread_if (constraints \<noteq> Undef) [(''constraints'', copied_constraints constraints)])
       @ [(''intentHash'', Str h)])"
    unfolding with_intent_hash_Inr by blast
  have "message_consistent message" using 1(3) by (rule message_consistent)
  moreover have "fld v ''chainRef'' = Str SOLANA_MAINNET_CAIP2" using 1(1) by blast
  moreover have "hashed_intent sha w"
    by (rule hashed_intent_with [OF 1(17)]) (simp add: image_Un opt_field_keys [OF 1(16)] spread_if_keys)
  ultimately show ?case
    using 1(8,14,15)
    unfolding w solana_intent_def by (auto intro: normal_forms)
qed

lemma hyperliquid_intent_ok:
  assumes "buildHyperliquidSpotIocIntent sha v = Inr w"
  shows "hashed_intent sha w \<and> is_id (fld w ''intentId'') \<and> is_uint (fld w ''amount'')
    \<and> is_time (fld w ''validUntil'') \<and> hyperliquid_intent w"
  using assms unfolding buildHyperliquidSpotIocIntent_def Let_def
proof (elim result_elims, goal_cases)
  case (1 order sender recipient nonce validUntil assetId constraints intentId amount commitments)
  let ?c = "Obj (
           spread_if (\<not> nullish (fld constraints ''minConfirmations''))
             [(''minConfirmations'', fld constraints ''minConfirmations'')]
           @ spread_if (\<not> nullish (fld constraints ''maxToleratedReorgDepth'')) [(''maxToleratedReorgDepth'', Num 0)]
           @ spread_if (\<not> nullish (fld constraints ''finalityRequirement''))
             [(''finalityRequirement'', Str ''CONFIRMATIONS'')])"
  from 1(23) obtain h where w: "w = Obj (([(''schema'', Str EXACT_CALL_INTENT_SCHEMA), (''executionProfile'', Str HYPERLIQUID_SPOT_IOC_PROFILE),
        (''intentId'', intentId), (''chainId'', Num 0), (''chainRef'', Str HYPERLIQUID_MAINNET_CHAIN_REF),
        (''action'', Str HYPERLIQUID_SPOT_IOC_ACTION), (''asset'', Str (js_string (fld v ''asset''))),
        (''amount'', amount), (''sender'', sender), (''recipient'', recipient), (''validUntil'', validUntil),
        (''nonce'', nonce), (''hyperliquidOrder'', order)]
       @ commitments @ spread_if (constraints \<noteq> Undef) [(''constraints'', ?c)])
       @ [(''intentHash'', Str h)])"
    unfolding with_intent_hash_Inr by blast
  have "is_address sender" "is_spot_order order" "is_time validUntil" "is_id intentId" "is_uint amount" "is_uint nonce"
    using 1(3,4,7,10,20,21) by (auto simp: normalizeHyperliquidAccount_def normalizeHyperliquidNonce_def letE_eq_Inr
        intro: normal_forms order_normal split: if_splits)
  moreover have "1000 * int_of validUntil \<le> int_of (fld order ''expiresAfter'')" using 1(11) by linarith
  moreover have "int_of (fld order ''expiresAfter'') \<le> int (nat_value (str_of nonce)) + HYPERLIQUID_MAX_SPOT_IOC_LIFETIME_MS"
    "int (nat_value (str_of nonce)) < int_of (fld order ''expiresAfter'')"
    using 1(8,9) by linarith+
  moreover have "recipient = sender" using 1(6) by simp
  moreover have "hashed_intent sha w"
    by (rule hashed_intent_with [OF 1(23)]) (simp add: image_Un opt_field_keys [OF 1(22)] spread_if_keys)
  ultimately show ?case
    unfolding w hyperliquid_intent_def Let_def by simp
qed

lemma evm_intent_ok:
  assumes "buildIntent sha v = Inr w"
    "fld v ''executionProfile'' \<noteq> Str SOLANA_TRANSACTION_PROFILE" "fld v ''executionProfile'' \<noteq> Str HYPERLIQUID_SPOT_IOC_PROFILE"
  shows "hashed_intent sha w \<and> is_id (fld w ''intentId'') \<and> is_uint (fld w ''amount'')
    \<and> is_time (fld w ''validUntil'') \<and> evm_intent w
    \<and> (fld v ''executionProfile'' = Str EXACT_CALL_PROFILE \<longrightarrow> fld w ''action'' = Str ''CONTRACT_CALL''
        \<and> is_address (fld w ''callTarget'') \<and> is_hash0x (fld w ''calldataHash'') \<and> is_uint (fld w ''transactionValue''))"
  using assms
proof (elim buildIntent_Inr, goal_cases)
  case (3 eip7702 commitments constraints intentId chain chains action amount sender
      recipient validUntil nonce callTarget calldataHash transactionValue userOperation)
  let ?v2 = "intent_schema v = Str EXACT_CALL_INTENT_SCHEMA"
  from 3(35) obtain h where w: "w = Obj (([(''schema'', intent_schema v)]
       @ spread_if ?v2 [(''executionProfile'', Str (js_string (fld v ''executionProfile'')))]
       @ [(''intentId'', intentId), (''chainId'', chain)] @ chains
       @ [(''action'', action), (''asset'', Str (js_string (fld v ''asset''))), (''amount'', amount), (''sender'', sender),
          (''recipient'', recipient), (''validUntil'', validUntil), (''nonce'', nonce)]
       @ callTarget @ calldataHash @ transactionValue @ userOperation
       @ spread_if (commitments \<noteq> Undef) [(''contextCommitments'', commitments)]
       @ spread_if (constraints \<noteq> Undef) [(''constraints'', copied_constraints constraints)]) @ [(''intentHash'', Str h)])"
    unfolding with_intent_hash_Inr by blast
  note skips = opt_field_skip [OF 3(22)] opt_field_skip [OF 3(29)] opt_field_skip [OF 3(30)] opt_field_skip [OF 3(31)]
  have flds: "fld w ''schema'' = intent_schema v" "fld w ''intentId'' = intentId" "fld w ''chainId'' = chain"
    "fld w ''action'' = action" "fld w ''asset'' = Str (js_string (fld v ''asset''))" "fld w ''amount'' = amount"
    "fld w ''sender'' = sender" "fld w ''recipient'' = recipient" "fld w ''validUntil'' = validUntil" "fld w ''nonce'' = nonce"
    "?v2 \<Longrightarrow> fld w ''executionProfile'' = Str (js_string (fld v ''executionProfile''))"
    unfolding w by (simp_all add: skips fld_spread_if)
  have plain: "fld w ''executionProfile'' = Undef" if "\<not> ?v2"
  proof -
    have "fld v ''executionProfile'' \<noteq> Str ERC4337_USER_OPERATION_PROFILE" using 3(5) that by auto
    then have "userOperation = []" using 3(32) by (simp add: opt_part_def)
    with that show ?thesis unfolding w by (simp add: skips fld_spread_if)
  qed
  have ids: "is_id intentId" "is_id action" "is_uint amount" "is_uint nonce" "is_time validUntil" "is_chain_id chain"
    "is_address sender" "is_address recipient"
    using 3(20,21,23-28) by (auto intro: normal_forms)
  have profile: "js_string (fld v ''executionProfile'') \<in> {EXACT_CALL_PROFILE, ERC4337_USER_OPERATION_PROFILE,
      SOLANA_TRANSACTION_PROFILE, HYPERLIQUID_SPOT_IOC_PROFILE}" if ?v2
    using 3(4) that by blast
  have "evm_intent w"
  proof -
    obtain n where "chain = Num n" using ids(6) by (auto simp: is_chain_id_def split: jsval.splits)
    moreover have "evm_asset_re (js_string (fld v ''asset''))" "evm_asset_chain (js_string (fld v ''asset'')) = int_of chain"
      using 3(33,34) by blast+
    moreover have "fld w ''schema'' = Str INTENT_SCHEMA \<and> fld w ''executionProfile'' = Undef
      \<or> fld w ''schema'' = Str EXACT_CALL_INTENT_SCHEMA \<and> is_any (fld w ''executionProfile'')
           [EXACT_CALL_PROFILE, ERC4337_USER_OPERATION_PROFILE, SOLANA_TRANSACTION_PROFILE, HYPERLIQUID_SPOT_IOC_PROFILE]"
    proof (cases ?v2)
      case True
      with profile flds show ?thesis by auto
    next
      case False
      with plain flds(1) 3(3) show ?thesis by auto
    qed
    ultimately show ?thesis using ids unfolding evm_intent_def flds by simp
  qed
  moreover have "fld w ''action'' = Str ''CONTRACT_CALL'' \<and> is_address (fld w ''callTarget'')
      \<and> is_hash0x (fld w ''calldataHash'') \<and> is_uint (fld w ''transactionValue'')"
    if p: "fld v ''executionProfile'' = Str EXACT_CALL_PROFILE"
  proof -
    have nn: "\<not> nullish (fld v ''callTarget'')" "\<not> nullish (fld v ''calldataHash'')" "\<not> nullish (fld v ''transactionValue'')"
      using 3(11) p by simp_all
    have f: "fld w ''callTarget'' = fld (Obj (callTarget @ ys)) ''callTarget''"
      "fld w ''calldataHash'' = fld (Obj (calldataHash @ ys)) ''calldataHash''"
      "fld w ''transactionValue'' = fld (Obj (transactionValue @ ys)) ''transactionValue''" for ys
      using 3(29-31) nn unfolding w by (auto simp: skips fld_spread_if elim!: opt_field_InrE)
    have "evmAddress (fld v ''callTarget'') = Inr (fld w ''callTarget'')"
      "lowerE (fld v ''calldataHash'') = Inr (fld w ''calldataHash'')"
      "uintString (fld v ''transactionValue'') = Inr (fld w ''transactionValue'')"
      unfolding f [of "[]"] by (rule opt_field_found [OF 3(29)] opt_field_found [OF 3(30)] opt_field_found [OF 3(31)], rule nn)+
    moreover have "is_hash0x (fld w ''calldataHash'')"
      using calculation(2) 3(19) nn(2)
      by (auto simp: lowerE_def is_hash0x_def lower_bytes_0x split: jsval.splits)
    moreover have "fld w ''action'' = Str ''CONTRACT_CALL''"
    proof -
      have "fld v ''action'' = Str ''CONTRACT_CALL''" using 3(6) p by blast
      then show ?thesis using 3(23) unfolding flds by (simp add: protocolId_def Let_def split: if_splits)
    qed
    ultimately show ?thesis by (auto intro: normal_forms)
  qed
  moreover have "hashed_intent sha w"
    by (rule hashed_intent_with [OF 3(35)])
      (simp add: image_Un user_operation_keys [OF 3(32)] opt_field_keys [OF 3(22)] opt_field_keys [OF 3(29)] opt_field_keys [OF 3(30)]
        opt_field_keys [OF 3(31)] spread_if_keys)
  ultimately show ?case using ids unfolding flds by simp
qed (use assms in simp_all)

section \<open>Properties\<close>

lemma intent_built:
  assumes "buildIntent sha v = Inr w"
  shows "intent_ok sha w"
  using assms
proof (cases rule: buildIntent_Inr)
  case solana
  with solana_intent_ok show ?thesis by (simp add: intent_ok_def)
next
  case hyperliquid
  with hyperliquid_intent_ok show ?thesis by (simp add: intent_ok_def)
next
  case evm
  from evm_intent_ok [OF assms evm(6,7)] show ?thesis by (simp add: intent_ok_def)
qed


definition sample_address :: jsval where
  "sample_address = Str ''0xaaaaaaaaaaaaaaaaaaaaaaaaaaaaaaaaaaaaaaaa''"

definition sample_intent_with :: "(string \<times> jsval) list \<Rightarrow> jsval" where
  "sample_intent_with kvs = Obj (kvs @ [(''intentId'', Str ''order-1''), (''chainId'', Num 1),
     (''asset'', Str ''eip155:1/native''), (''amount'', Str ''250''), (''sender'', sample_address),
     (''recipient'', sample_address), (''validUntil'', Num 90), (''nonce'', Str ''7'')])"

definition sample_intent :: jsval where
  "sample_intent = sample_intent_with [(''action'', Str ''TRANSFER'')]"

definition sample_exact_call :: jsval where
  "sample_exact_call = sample_intent_with [(''executionProfile'', Str EXACT_CALL_PROFILE), (''action'', Str ''CONTRACT_CALL''),
     (''callTarget'', sample_address), (''calldataHash'', Str (''0x'' @ replicate 64 (CHR ''B''))), (''transactionValue'', Num 0)]"

lemma sample_intent_builds: "\<exists>w. buildIntent (\<lambda>s. s) sample_intent = Inr w"
proof -
  have "case_sum (\<lambda>e. False) (\<lambda>w. True) (buildIntent (\<lambda>s. s) sample_intent)" by code_simp
  then show ?thesis by (auto split: sum.splits)
qed


text \<open>An intent built from an input whose execution profile is the exact-call profile is a
  CONTRACT_CALL with a call target, a calldata hash and a transaction value in normal form.\<close>

theorem exact_call_intents_complete:
  assumes "buildIntent sha v = Inr w" "fld v ''executionProfile'' = Str EXACT_CALL_PROFILE"
  shows "fld w ''action'' = Str ''CONTRACT_CALL'' \<and> is_address (fld w ''callTarget'')
    \<and> is_hash0x (fld w ''calldataHash'') \<and> is_uint (fld w ''transactionValue'')"
proof -
  have "fld v ''executionProfile'' \<noteq> Str SOLANA_TRANSACTION_PROFILE" "fld v ''executionProfile'' \<noteq> Str HYPERLIQUID_SPOT_IOC_PROFILE"
    using assms(2) by (simp_all add: EXACT_CALL_PROFILE_def SOLANA_TRANSACTION_PROFILE_def HYPERLIQUID_SPOT_IOC_PROFILE_def)
  from evm_intent_ok [OF assms(1) this] assms(2) show ?thesis by blast
qed

lemma exact_call_intents_complete_witness:
  "\<exists>w. buildIntent (\<lambda>s. s) sample_exact_call = Inr w \<and> fld w ''action'' = Str ''CONTRACT_CALL''
    \<and> is_address (fld w ''callTarget'')"
proof -
  have "case_sum (\<lambda>e. False) (\<lambda>w. True) (buildIntent (\<lambda>s. s) sample_exact_call)" by code_simp
  then obtain w where w: "buildIntent (\<lambda>s. s) sample_exact_call = Inr w" by (auto split: sum.splits)
  moreover have "fld sample_exact_call ''executionProfile'' = Str EXACT_CALL_PROFILE"
    by (simp add: sample_exact_call_def sample_intent_with_def)
  ultimately show ?thesis using exact_call_intents_complete by blast
qed

end
