(* ===== verification/Authorization.thy ===== *)
theory Authorization
  imports Receipt Witness Transparency Rfc3161 Policy Temporal Intent
begin

text \<open>
  src/domain/authorization.mjs: building authorizations, checking their signatures, the issuer's
  acceptance, and receipts that carry an authorization with its evidence.  The signature schemes of the
  authorizers (EIP-712 through viem, ERC-1271 through a caller's function, raw Ed25519 of node:crypto) are
  the parameter \<^verbatim>\<open>signers\<close>.  Shown: what every built authorization satisfies, and what a
  verified receipt guarantees about its execution, its authorization and its evidence.
\<close>

section \<open>Constants\<close>

definition LEGACY_AUTHORIZATION_SCHEMA :: string where
  "LEGACY_AUTHORIZATION_SCHEMA = ''priorseal.authorization.v1''"

definition AUTHORIZATION_SCHEMA :: string where
  "AUTHORIZATION_SCHEMA = ''priorseal.authorization.v2''"

definition AUTHORIZATION_RECEIPT_SCHEMA :: string where
  "AUTHORIZATION_RECEIPT_SCHEMA = ''priorseal.authorization-receipt.v1''"

definition AUTHORIZATION_DOMAIN :: string where
  "AUTHORIZATION_DOMAIN = ''priorseal/authorization/v2''"

definition LEGACY_AUTHORIZED_RECEIPT_SCHEMA :: string where
  "LEGACY_AUTHORIZED_RECEIPT_SCHEMA = ''priorseal.execution-receipt.v2''"

definition AUTHORIZED_RECEIPT_SCHEMA :: string where
  "AUTHORIZED_RECEIPT_SCHEMA = ''priorseal.execution-receipt.v3''"

definition AUTHORIZED_RECEIPT_FIELDS :: "string list" where
  "AUTHORIZED_RECEIPT_FIELDS = [''schema'', ''domain'', ''receiptId'', ''intentHash'', ''authorizationHash'', ''executionHash'',
     ''authorizationEvidence'', ''execution'', ''executionStatus'', ''compliance'', ''issuer'', ''issuedAt'', ''validUntil'', ''outcome'',
     ''reasonCodes'', ''binding'', ''algorithm'', ''keyId'', ''verifierVersion'', ''signature'']"

definition AUTHORIZATION_EVIDENCE_FIELDS :: "string list" where
  "AUTHORIZATION_EVIDENCE_FIELDS = [''authorization'', ''acceptance'', ''policy'', ''timestamp'', ''witnesses'', ''transparency'']"

text \<open>The EIP-712 members: name and type, in order.\<close>

definition LEGACY_AUTHORIZATION_TYPES :: "(string \<times> string) list" where
  "LEGACY_AUTHORIZATION_TYPES = [(''intentHash'', ''bytes32''), (''principalId'', ''string''), (''principalAccount'', ''address''),
     (''authorizer'', ''address''), (''executor'', ''address''), (''issuedAt'', ''uint256''), (''notBefore'', ''uint256''),
     (''expiresAt'', ''uint256''), (''authorizationNonce'', ''bytes32''), (''maxUses'', ''uint256''), (''audience'', ''string''),
     (''policyHash'', ''bytes32'')]"

definition AUTHORIZATION_TYPES :: "(string \<times> string) list" where
  "AUTHORIZATION_TYPES = [(''intentHash'', ''bytes32''), (''principalType'', ''string''), (''principalId'', ''string''),
     (''principalAccount'', ''address''), (''authorizerType'', ''string''), (''authorizer'', ''address''), (''agentId'', ''string''),
     (''executor'', ''address''), (''issuedAt'', ''uint256''), (''notBefore'', ''uint256''), (''expiresAt'', ''uint256''),
     (''authorizationNonce'', ''bytes32''), (''maxUses'', ''uint256''), (''audience'', ''string''), (''policyHash'', ''bytes32'')]"

definition zero_policy_hash :: string where
  "zero_policy_hash = ''0x'' @ replicate 64 (CHR ''0'')"

definition authorization_fields :: "string list" where
  "authorization_fields = [''schema'', ''domain'', ''authorizationId'', ''intent'', ''intentHash'', ''principal'', ''authorizer'', ''delegate'',
     ''issuedAt'', ''notBefore'', ''expiresAt'', ''authorizationNonce'', ''maxUses'', ''audience'', ''policyHash'', ''signature'']"

section \<open>Building an authorization\<close>

text \<open>\<^verbatim>\<open>{ ...v }\<close> of an array has its indices as names.\<close>

definition stripIntentMetadata :: "jsval \<Rightarrow> jsval" where
  "stripIntentMetadata v = (case v of
       Obj kvs \<Rightarrow> without_field v ''intentHash''
     | Arr xs \<Rightarrow> Obj (map (\<lambda>i. (nat_text i, xs ! i)) [0..<length xs])
     | _ \<Rightarrow> Obj [])"

definition stripIntentHash :: "jsval \<Rightarrow> jsval" where
  "stripIntentHash intent = without_field intent ''intentHash''"

definition requireSolanaPublicKey :: "jsval \<Rightarrow> jsval result" where
  "requireSolanaPublicKey value = (if \<not> isSolanaPublicKey value then Inl (PriorSealError ''INVALID_ADDRESS'') else Inr value)"

text \<open>The account of a party: a Solana key or an EVM address.\<close>

definition account_of :: "bool \<Rightarrow> jsval \<Rightarrow> jsval result" where
  "account_of solana v = (if solana then requireSolanaPublicKey v else evmAddress v)"

abbreviation bad_authorization :: "'a result" where
  "bad_authorization \<equiv> Inl (PriorSealError ''INVALID_AUTHORIZATION'')"

definition lower_text :: "jsval \<Rightarrow> string" where
  "lower_text v = lower (js_string v)"

definition authorization_domain :: "bool \<Rightarrow> jsval \<Rightarrow> string" where
  "authorization_domain solana schema = (if solana then ''priorseal/authorization/solana/v2''
     else if schema = Str LEGACY_AUTHORIZATION_SCHEMA then ''priorseal/authorization/v1'' else AUTHORIZATION_DOMAIN)"

text \<open>The authorization without signature and identifier.\<close>

definition unsigned_authorization ::
  "jsval \<Rightarrow> jsval \<Rightarrow> jsval \<Rightarrow> jsval \<Rightarrow> jsval \<Rightarrow> jsval \<Rightarrow> jsval \<Rightarrow> jsval \<Rightarrow> jsval \<Rightarrow> jsval \<Rightarrow> jsval \<Rightarrow> jsval \<Rightarrow> (string \<times> jsval) list" where
  "unsigned_authorization schema domain intent principalV authorizer delegate issuedAt notBefore expiresAt authorizationNonce audience policyHash =
     [(''schema'', schema), (''domain'', domain), (''intent'', intent), (''intentHash'', fld intent ''intentHash''),
      (''principal'', principalV), (''authorizer'', authorizer), (''delegate'', delegate), (''issuedAt'', issuedAt), (''notBefore'', notBefore),
      (''expiresAt'', expiresAt), (''authorizationNonce'', authorizationNonce), (''maxUses'', Str ''1''), (''audience'', audience),
      (''policyHash'', policyHash)]"

text \<open>Lines 92 to 116: the identified parties and the object with its identifier, from what was checked before.\<close>

definition finish_authorization ::
  "(string \<Rightarrow> string) \<Rightarrow> jsval \<Rightarrow> jsval \<Rightarrow> bool \<Rightarrow> string \<Rightarrow> string \<Rightarrow> jsval \<Rightarrow> jsval \<Rightarrow> jsval \<Rightarrow> jsval \<Rightarrow> string \<Rightarrow> string \<Rightarrow> jsval result" where
  "finish_authorization sha input intent solana authorizerType principalType schema issuedAt notBefore expiresAt authorizationNonce policyHash = (
     let principal = fld input ''principal''; authorizer = fld input ''authorizer''; delegate = fld input ''delegate'' in
     letE (account_of solana (fld principal ''account'')) (\<lambda>principalAccount.
     letE (account_of solana (fld authorizer ''address'')) (\<lambda>authorizerAddress.
     letE (account_of solana (fld delegate ''executor'')) (\<lambda>executor.
     letE (protocolId (fld principal ''id'')) (\<lambda>principalId.
     letE (protocolId (fld delegate ''agentId'')) (\<lambda>agentId.
     letE (protocolId (orElse (fld input ''audience'') (Str ''priorseal''))) (\<lambda>audience.
     let unsigned = unsigned_authorization schema (Str (authorization_domain solana schema)) intent
           (Obj [(''type'', Str principalType), (''id'', principalId), (''account'', principalAccount)])
           (Obj [(''type'', Str authorizerType), (''address'', authorizerAddress)]) (Obj [(''agentId'', agentId), (''executor'', executor)])
           issuedAt notBefore expiresAt (Str authorizationNonce) audience (Str policyHash) in
     if principalAccount \<noteq> authorizerAddress then bad_authorization else
     letE (hashJson sha (Obj unsigned)) (\<lambda>h.
     let authorizationId = ''auth_'' @ take 32 h in
     if truthy (fld input ''authorizationId'') \<and> fld input ''authorizationId'' \<noteq> Str authorizationId then bad_authorization else
     Inr (Obj (unsigned @ spread_if (truthy (fld input ''signature'')) [(''signature'', Str (js_string (fld input ''signature'')))]
               @ [(''authorizationId'', Str authorizationId)]))))))))))"

definition buildAuthorization :: "(string \<Rightarrow> string) \<Rightarrow> jsval \<Rightarrow> jsval result" where
  "buildAuthorization sha inputValue =
     letE (assertSafeJson inputValue) (\<lambda>_.
     letE (assertOnlyFields inputValue authorization_fields) (\<lambda>input.
     letE (assertOnlyFields (fld input ''principal'') [''type'', ''id'', ''account'']) (\<lambda>principal.
     letE (assertOnlyFields (fld input ''authorizer'') [''type'', ''address'']) (\<lambda>authorizer.
     letE (assertOnlyFields (fld input ''delegate'') [''agentId'', ''executor'']) (\<lambda>delegate.
     if \<not> truthy (fld principal ''id'') \<or> \<not> truthy (fld delegate ''agentId'') then bad_authorization else
     letE (buildIntent sha (stripIntentMetadata (fld input ''intent''))) (\<lambda>intent.
     if truthy (fld input ''intentHash'') \<and> \<not> js_eq (fld input ''intentHash'') (fld intent ''intentHash'') then bad_authorization else
     let authorizerType = js_string (orElse (fld authorizer ''type'') (Str [])) in
     if authorizerType \<notin> {''eip712'', ''eip1271'', ''solana-ed25519''} then bad_authorization else
     let solana = (authorizerType = ''solana-ed25519'') in
     if solana \<noteq> (fld intent ''executionProfile'' = Str SOLANA_TRANSACTION_PROFILE) then bad_authorization else
     let principalType = js_string (orElse (fld principal ''type'') (Str [])) in
     if principalType \<notin> {''user'', ''organization''} then bad_authorization else
     letE (unixSeconds (fld input ''issuedAt'')) (\<lambda>issuedAt.
     letE (unixSeconds (orElse (fld input ''notBefore'') (fld input ''issuedAt''))) (\<lambda>notBefore.
     letE (unixSeconds (orElse (fld input ''expiresAt'') (fld intent ''validUntil''))) (\<lambda>expiresAt.
     if int_of notBefore < int_of issuedAt \<or> int_of expiresAt < int_of notBefore
        \<or> js_less (fld intent ''validUntil'') expiresAt then bad_authorization else
     let authorizationNonce = lower_text (orElse (fld input ''authorizationNonce'') (Str [])) in
     if \<not> hash0x authorizationNonce then bad_authorization else
     let policyHash = lower_text (orElse (fld input ''policyHash'') (Str zero_policy_hash)) in
     if \<not> hash0x policyHash then bad_authorization else
     letE (uintString (orElse (fld input ''maxUses'') (Str ''1''))) (\<lambda>maxUses.
     if maxUses \<noteq> Str ''1'' then bad_authorization else
     let schema = orElse (fld input ''schema'') (Str AUTHORIZATION_SCHEMA) in
     if schema \<noteq> Str AUTHORIZATION_SCHEMA \<and> schema \<noteq> Str LEGACY_AUTHORIZATION_SCHEMA then bad_authorization else
     if truthy (fld input ''domain'') \<and> fld input ''domain'' \<noteq> Str (authorization_domain solana schema) then bad_authorization else
     finish_authorization sha input intent solana authorizerType principalType schema issuedAt notBefore expiresAt
       authorizationNonce policyHash))))))))))"

definition assertIssuableAuthorization :: "jsval \<Rightarrow> jsval result" where
  "assertIssuableAuthorization authorization = (
     if \<not> js_eq (fld (fld authorization ''delegate'') ''executor'') (fld (fld authorization ''intent'') ''sender'')
     then bad_authorization else Inr authorization)"

section \<open>The authorizer's signature\<close>

text \<open>The members of the EIP-712 message: texts and big integers.\<close>

datatype typed_member = Text_member jsval | BigInt_member int

record typed_data =
  td_version :: string
  td_chainId :: jsval
  td_types :: "(string \<times> string) list"
  td_message :: "(string \<times> typed_member) list"

record signers =
  sg_hashTypedData :: "typed_data \<Rightarrow> string result"
  sg_verifyTypedData :: "typed_data \<Rightarrow> jsval \<Rightarrow> jsval \<Rightarrow> bool result"
  sg_verifyContractSignature :: "(jsval \<Rightarrow> string \<Rightarrow> jsval \<Rightarrow> bool result) option"
  sg_verifyEd25519 :: "nat list \<Rightarrow> string \<Rightarrow> nat list \<Rightarrow> bool result"

definition authorizationTypedData :: "(string \<Rightarrow> string) \<Rightarrow> jsval \<Rightarrow> typed_data result" where
  "authorizationTypedData sha value =
     letE (if is_any (fld value ''schema'') [AUTHORIZATION_SCHEMA, LEGACY_AUTHORIZATION_SCHEMA] then Inr value
           else buildAuthorization sha value) (\<lambda>authorization.
     let a = fld authorization; authorizer = a ''authorizer''; legacy = (a ''schema'' = Str LEGACY_AUTHORIZATION_SCHEMA) in
     if fld authorizer ''type'' = Str ''solana-ed25519'' then Inl (PriorSealError ''UNSUPPORTED_SIGNATURE_PROFILE'') else
     letE (js_BigInt (a ''issuedAt'')) (\<lambda>issuedAt.
     letE (js_BigInt (a ''notBefore'')) (\<lambda>notBefore.
     letE (js_BigInt (a ''expiresAt'')) (\<lambda>expiresAt.
     letE (js_BigInt (a ''maxUses'')) (\<lambda>maxUses.
     Inr \<lparr>td_version = (if legacy then ''1'' else ''2''), td_chainId = fld (a ''intent'') ''chainId'',
       td_types = (if legacy then LEGACY_AUTHORIZATION_TYPES else AUTHORIZATION_TYPES),
       td_message = [(''intentHash'', Text_member (Str (''0x'' @ js_string (a ''intentHash''))))]
         @ (if legacy then [] else [(''principalType'', Text_member (fld (a ''principal'') ''type''))])
         @ [(''principalId'', Text_member (fld (a ''principal'') ''id'')), (''principalAccount'', Text_member (fld (a ''principal'') ''account''))]
         @ (if legacy then [] else [(''authorizerType'', Text_member (fld authorizer ''type''))])
         @ [(''authorizer'', Text_member (fld authorizer ''address''))]
         @ (if legacy then [] else [(''agentId'', Text_member (fld (a ''delegate'') ''agentId''))])
         @ [(''executor'', Text_member (fld (a ''delegate'') ''executor'')), (''issuedAt'', BigInt_member issuedAt),
            (''notBefore'', BigInt_member notBefore), (''expiresAt'', BigInt_member expiresAt),
            (''authorizationNonce'', Text_member (a ''authorizationNonce'')), (''maxUses'', BigInt_member maxUses),
            (''audience'', Text_member (a ''audience'')), (''policyHash'', Text_member (a ''policyHash''))]\<rparr>)))))"

text \<open>Padded base64: the pattern, and the text of the decoded bytes.\<close>

definition base64_re :: "string \<Rightarrow> bool" where
  "base64_re s = (length s mod 4 = 0 \<and> list_all (\<lambda>c. url_char c \<in> set b64_alphabet \<and> c \<noteq> CHR ''-'' \<and> c \<noteq> CHR ''_'') (unpad s))"

definition base64_text :: "nat list \<Rightarrow> string" where
  "base64_text bytes = (let s = map std_char (b64_encode bytes) in s @ replicate ((4 - length s mod 4) mod 4) (CHR ''=''))"

definition verifySolanaAuthorizationSignature :: "signers \<Rightarrow> jsval \<Rightarrow> bool result" where
  "verifySolanaAuthorizationSignature sg authorization = (
     let signature = fld authorization ''signature'' in
     if \<not> is_str signature \<or> \<not> base64_re (str_of signature) then Inr False else
     let signatureBytes = b64_decode (map url_char (unpad (str_of signature))) in
     if length signatureBytes \<noteq> 64 \<or> base64_text signatureBytes \<noteq> str_of signature then Inr False else
     letE (decodeBase58 (fld (fld authorization ''authorizer'') ''address'')) (\<lambda>rawPublicKey.
     if length rawPublicKey \<noteq> 32 then Inr False else
     letE (solanaAuthorizationMessage authorization) (\<lambda>message.
     sg_verifyEd25519 sg rawPublicKey message signatureBytes)))"

definition authorization_signed :: "(string \<Rightarrow> string) \<Rightarrow> signers \<Rightarrow> jsval \<Rightarrow> bool result" where
  "authorization_signed sha sg authorization = (
     let kind = fld (fld authorization ''authorizer'') ''type''; signature = fld authorization ''signature'' in
     if kind = Str ''solana-ed25519'' then verifySolanaAuthorizationSignature sg authorization else
     if kind = Str ''eip1271'' then (case sg_verifyContractSignature sg of
         None \<Rightarrow> Inr False
       | Some check \<Rightarrow> letE (authorizationTypedData sha authorization) (\<lambda>typed.
           letE (sg_hashTypedData sg typed) (\<lambda>digest. check authorization digest signature)))
     else letE (authorizationTypedData sha authorization) (\<lambda>typed.
       sg_verifyTypedData sg typed (fld (fld authorization ''authorizer'') ''address'') signature))"

text \<open>A verdict: OK with the built authorization, or the code of a refusal.\<close>

datatype verdict = Accepted jsval | Refused string

text \<open>The tests before the signature.\<close>

definition authorization_refusal :: "jsval \<Rightarrow> jsval \<Rightarrow> jsval \<Rightarrow> string option" where
  "authorization_refusal authorization now audience = (let a = fld authorization in
     if \<not> truthy (a ''signature'') then Some ''MISSING_AUTHORIZATION_SIGNATURE'' else
     if \<not> js_eq (a ''audience'') audience then Some ''AUTHORIZATION_AUDIENCE_MISMATCH'' else
     if js_less now (a ''issuedAt'') then Some ''AUTHORIZATION_ISSUED_IN_FUTURE'' else
     if js_less now (a ''notBefore'') then Some ''AUTHORIZATION_NOT_YET_VALID'' else
     if js_less (a ''expiresAt'') now then Some ''AUTHORIZATION_EXPIRED'' else None)"

definition code_or :: "jerr \<Rightarrow> string \<Rightarrow> string" where
  "code_or e fallback = (case errorCode e of None \<Rightarrow> fallback | Some c \<Rightarrow> c)"

definition verifyAuthorization :: "(string \<Rightarrow> string) \<Rightarrow> signers \<Rightarrow> jsval \<Rightarrow> jsval \<Rightarrow> jsval \<Rightarrow> verdict" where
  "verifyAuthorization sha sg value now audience = (case buildAuthorization sha value of
       Inl e \<Rightarrow> Refused (code_or e ''INVALID_AUTHORIZATION'')
     | Inr authorization \<Rightarrow> (case authorization_refusal authorization now audience of
         Some code \<Rightarrow> Refused code
       | None \<Rightarrow> (case authorization_signed sha sg authorization of
           Inr True \<Rightarrow> Accepted authorization
         | Inr False \<Rightarrow> Refused (if fld (fld authorization ''authorizer'') ''type'' = Str ''eip1271'' \<and> sg_verifyContractSignature sg = None
             then ''AUTHORIZATION_VERIFIER_UNAVAILABLE'' else ''INVALID_AUTHORIZATION_SIGNATURE'')
         | Inl e \<Rightarrow> Refused (if errorCode e = Some ''AUTHORIZATION_VERIFIER_UNAVAILABLE''
             then ''AUTHORIZATION_VERIFIER_UNAVAILABLE'' else ''INVALID_AUTHORIZATION_SIGNATURE''))))"

section \<open>The issuer's acceptance\<close>

text \<open>Missing arguments are undefined.\<close>

definition or_default :: "jsval \<Rightarrow> jsval \<Rightarrow> jsval" where
  "or_default v d = (if v = Undef then d else v)"

definition buildAuthorizationReceipt ::
  "(string \<Rightarrow> string) \<Rightarrow> jsval \<Rightarrow> jsval \<Rightarrow> jsval \<Rightarrow> jsval \<Rightarrow> jsval \<Rightarrow> jsval \<Rightarrow> jsval result" where
  "buildAuthorizationReceipt sha authorization issuer keyIdArg acceptedAt sequenceArg previousArg = (
     let keyId = or_default keyIdArg (Str ''default''); sequence = or_default sequenceArg (Num 1); previousEntryHash = or_default previousArg Null in
     letE (hashJson sha authorization) (\<lambda>authorizationHash.
     letE (hashJson sha (Obj [(''sequence'', sequence), (''authorizationHash'', Str authorizationHash), (''acceptedAt'', acceptedAt),
       (''previousEntryHash'', previousEntryHash)])) (\<lambda>entryHash.
     Inr (Obj [(''schema'', Str AUTHORIZATION_RECEIPT_SCHEMA), (''domain'', Str ''priorseal/authorization-receipt/v1''),
       (''authorizationId'', fld authorization ''authorizationId''), (''authorizationHash'', Str authorizationHash),
       (''intentHash'', fld authorization ''intentHash''), (''acceptedAt'', acceptedAt), (''sequence'', sequence),
       (''previousEntryHash'', previousEntryHash), (''entryHash'', Str entryHash), (''status'', Str ''ACCEPTED''), (''issuer'', issuer),
       (''algorithm'', Str ''Ed25519''), (''keyId'', keyId)]))))"

definition signAuthorizationReceipt :: "ed25519 \<Rightarrow> jsval \<Rightarrow> jsval \<Rightarrow> jsval result" where
  "signAuthorizationReceipt ed receipt privateKeyPem = signEd25519Statement ed receipt privateKeyPem"

definition acceptance_fields :: "string list" where
  "acceptance_fields = [''schema'', ''domain'', ''authorizationId'', ''authorizationHash'', ''intentHash'', ''acceptedAt'', ''sequence'',
     ''previousEntryHash'', ''entryHash'', ''status'', ''issuer'', ''algorithm'', ''keyId'', ''signature'']"

definition verifyAuthorizationReceipt :: "(string \<Rightarrow> string) \<Rightarrow> ed25519 \<Rightarrow> jsval \<Rightarrow> jsval \<Rightarrow> bool result" where
  "verifyAuthorizationReceipt sha ed receipt publicKeyPem = (
     if assertSafeJson receipt \<noteq> Inr receipt \<or> \<not> fields_ok receipt acceptance_fields then Inr False else
     if \<not> truthy (fld receipt ''signature'') \<or> fld receipt ''schema'' \<noteq> Str AUTHORIZATION_RECEIPT_SCHEMA
        \<or> fld receipt ''domain'' \<noteq> Str ''priorseal/authorization-receipt/v1'' \<or> fld receipt ''status'' \<noteq> Str ''ACCEPTED''
        \<or> fld receipt ''algorithm'' \<noteq> Str ''Ed25519'' then Inr False else
     letE (entry_hash_of sha receipt) (\<lambda>h.
     if fld receipt ''entryHash'' \<noteq> Str h then Inr False else Inr (verifyEd25519Statement ed receipt publicKeyPem)))"

section \<open>Policy evidence\<close>

definition policy_result_value :: "policy_result \<Rightarrow> jsval" where
  "policy_result_value r = Obj [(''allowed'', Bool (pr_allowed r)), (''reasonCodes'', str_arr (pr_reasonCodes r)),
     (''policyId'', pr_policyId r), (''evaluatedAt'', Num (pr_evaluatedAt r))]"

text \<open>The result without a policy; the time is the one given.\<close>

definition open_policy_result :: "jsval \<Rightarrow> jsval" where
  "open_policy_result evaluatedAt = Obj [(''allowed'', Bool True), (''reasonCodes'', Arr []), (''policyId'', Null), (''evaluatedAt'', evaluatedAt)]"

definition defaultPolicyEvidence :: "jsval \<Rightarrow> jsval \<Rightarrow> jsval result" where
  "defaultPolicyEvidence authorization evaluatedAt = (
     if fld authorization ''policyHash'' \<noteq> Str zero_policy_hash then Inl (PriorSealError ''MISSING_POLICY_EVIDENCE'') else
     Inr (Obj [(''schema'', Str ''priorseal.policy-evidence.v1''), (''policyHash'', fld authorization ''policyHash''), (''document'', Null),
       (''result'', open_policy_result evaluatedAt)]))"

text \<open>
  The issuer writes the time of acceptance as an integer, and policies are evaluated at an integer time
  here: for an embedded policy any other time counts as a refusal.
\<close>

definition evaluate_at :: "jsval \<Rightarrow> jsval \<Rightarrow> jsval \<Rightarrow> (bool \<times> jsval) result" where
  "evaluate_at authorization document evaluatedAt = (
     if truthy document then
       letE (evaluateAuthorizationPolicy authorization document (int_of evaluatedAt)) (\<lambda>r.
       Inr (pr_allowed r \<and> is_safe_integer evaluatedAt, policy_result_value r))
     else Inr (True, open_policy_result evaluatedAt))"

definition validatePolicyEvidence :: "(string \<Rightarrow> string) \<Rightarrow> jsval \<Rightarrow> jsval \<Rightarrow> jsval \<Rightarrow> bool result" where
  "validatePolicyEvidence sha authorization evidence evaluatedAt = (
     let refuse = Inl (PriorSealError ''INVALID_POLICY_EVIDENCE'') in
     if \<not> truthy evidence \<or> fld evidence ''schema'' \<noteq> Str ''priorseal.policy-evidence.v1'' then refuse else
     letE (if truthy (fld evidence ''document'') then letE (hashJson sha (fld evidence ''document'')) (\<lambda>h. Inr (''0x'' @ h))
           else Inr zero_policy_hash) (\<lambda>expectedHash.
     if \<not> js_eq (fld evidence ''policyHash'') (fld authorization ''policyHash'') \<or> fld evidence ''policyHash'' \<noteq> Str expectedHash
       then refuse else
     letE (evaluate_at authorization (fld evidence ''document'') evaluatedAt) (\<lambda>(allowed, expectedResult).
     if \<not> allowed then refuse else
     letE (hashJson sha expectedResult) (\<lambda>h1.
     letE (hashJson sha (fld evidence ''result'')) (\<lambda>h2.
     if h1 \<noteq> h2 then refuse else Inr True)))))"

section \<open>The binding of a receipt\<close>

definition executed_at :: "jsval \<Rightarrow> jsval" where
  "executed_at execution = orElse (fld execution ''executedAt'') (orElse (fld execution ''observedAt'') (Num 0))"

definition executor_mismatch :: "jsval \<Rightarrow> jsval \<Rightarrow> bool result" where
  "executor_mismatch authorization execution = (
     let executor = fld (fld authorization ''delegate'') ''executor''; sender = fld execution ''sender'' in
     if fld (fld authorization ''authorizer'') ''type'' = Str ''solana-ed25519'' then Inr (\<not> js_eq sender executor)
     else letE (lower_opt sender) (\<lambda>s. Inr (\<not> js_eq s executor)))"

definition after_execution :: "jsval \<Rightarrow> jsval \<Rightarrow> bool" where
  "after_execution acceptance execution = js_less (executed_at execution) (fld acceptance ''acceptedAt'')"

definition outside_authorization :: "jsval \<Rightarrow> jsval \<Rightarrow> bool" where
  "outside_authorization authorization execution = (js_less (executed_at execution) (fld authorization ''notBefore'')
     \<or> js_less (fld authorization ''expiresAt'') (executed_at execution))"

text \<open>The intent's binding with the reasons of the authorization added.\<close>

definition full_binding :: "jsval \<Rightarrow> bool \<Rightarrow> bool \<Rightarrow> bool \<Rightarrow> jsval" where
  "full_binding baseBinding executorMismatch afterExecution outsideWindow = Obj [
     (''bound'', Bool (truthy (fld baseBinding ''bound'') \<and> \<not> executorMismatch \<and> \<not> afterExecution \<and> \<not> outsideWindow)),
     (''reasonCodes'', Arr (dedupe (elems (fld baseBinding ''reasonCodes'') @ map Str (reason_if executorMismatch ''EXECUTOR_MISMATCH''
        @ reason_if afterExecution ''AUTHORIZATION_AFTER_EXECUTION'' @ reason_if outsideWindow ''OUTSIDE_AUTHORIZATION_WINDOW''))))]"

text \<open>The binding, and whether the authorization adds a reason to it.\<close>

definition authorized_binding :: "jsval \<Rightarrow> jsval \<Rightarrow> jsval \<Rightarrow> (jsval \<times> bool) result" where
  "authorized_binding authorization acceptance execution =
     letE (bindIntentExecution (fld authorization ''intent'') execution) (\<lambda>baseBinding.
     letE (executor_mismatch authorization execution) (\<lambda>mismatch.
     let late = after_execution acceptance execution; outside = outside_authorization authorization execution
     in Inr (full_binding baseBinding mismatch late outside, mismatch \<or> late \<or> outside)))"

definition receipt_outcome :: "bool \<Rightarrow> bool \<Rightarrow> jsval \<Rightarrow> jsval \<Rightarrow> string result" where
  "receipt_outcome legacy failed intent execution = (
     if legacy then (if failed then Inr ''UNDETERMINED'' else classifyOutcome intent execution)
     else Inr (classifyExecutionOutcome execution))"

definition authorizedReceiptId :: "(string \<Rightarrow> string) \<Rightarrow> jsval \<Rightarrow> string result" where
  "authorizedReceiptId sha receipt = (
     let identity = map (\<lambda>k. (k, fld receipt k)) [''authorizationHash'', ''executionHash'', ''issuer'', ''keyId''] in
     letE (hashJson sha (Obj (if fld receipt ''schema'' = Str AUTHORIZED_RECEIPT_SCHEMA
        then (''schema'', fld receipt ''schema'') # identity else identity))) (\<lambda>h.
     Inr (''psr_'' @ take 32 h)))"

text \<open>Evidence the policy asks for must be valid, and other evidence must be absent.\<close>

definition check_timestamp :: "(string \<Rightarrow> string) \<Rightarrow> jsval \<Rightarrow> jsval \<Rightarrow> jsval \<Rightarrow> jsval \<Rightarrow> jsval \<Rightarrow> string option result" where
  "check_timestamp sha authorization acceptance policyEvidence timestampEvidence executedAt = (
     let timestampPolicy = fld (fld policyEvidence ''document'') ''timestampPolicy'' in
     if truthy timestampPolicy then
       letE (hashJson sha authorization) (\<lambda>h.
       let r = validateTimestampEvidenceClaims timestampEvidence timestampPolicy
             \<lparr>to_authorizationHash = Str h, to_requestedAt = fld acceptance ''acceptedAt'', to_before = executedAt\<rparr>
       in Inr (if tr_valid r then None else Some (tr_code r)))
     else Inr (if truthy timestampEvidence then Some ''TIMESTAMP_POLICY_MISMATCH'' else None))"

definition check_witnesses ::
  "(string \<Rightarrow> string) \<Rightarrow> ed25519 \<Rightarrow> jsval \<Rightarrow> jsval \<Rightarrow> jsval \<Rightarrow> jsval \<Rightarrow> jsval \<Rightarrow> string option result" where
  "check_witnesses sha ed authorization acceptance policyEvidence witnessEvidence executedAt = (
     let witnessPolicy = fld (fld policyEvidence ''document'') ''witnessQuorum'' in
     if truthy witnessPolicy then
       letE (verifyWitnessEvidence sha ed witnessEvidence authorization witnessPolicy (fld acceptance ''acceptedAt'') executedAt) (\<lambda>r.
       Inr (if er_valid r then None else Some (er_code r)))
     else Inr (if truthy witnessEvidence then Some ''WITNESS_POLICY_MISMATCH'' else None))"

section \<open>Receipts with their authorization\<close>

record receipt_input =
  ri_authorization :: jsval
  ri_acceptance :: jsval
  ri_policyEvidence :: jsval
  ri_timestampEvidence :: jsval
  ri_witnessEvidence :: jsval
  ri_transparency :: jsval
  ri_execution :: jsval
  ri_issuer :: jsval
  ri_keyId :: jsval
  ri_issuedAt :: jsval
  ri_verifierVersion :: jsval
  ri_schema :: jsval

definition require_none :: "string option result \<Rightarrow> unit result" where
  "require_none m = letE m (\<lambda>c. case c of None \<Rightarrow> Inr () | Some code \<Rightarrow> Inl (PriorSealError code))"

definition buildAuthorizedReceipt :: "(string \<Rightarrow> string) \<Rightarrow> ed25519 \<Rightarrow> receipt_input \<Rightarrow> jsval result" where
  "buildAuthorizedReceipt sha ed input = (
     let authorization = ri_authorization input; acceptance = ri_acceptance input; execution = ri_execution input;
         transparency = ri_transparency input; schema = or_default (ri_schema input) (Str AUTHORIZED_RECEIPT_SCHEMA);
         keyId = or_default (ri_keyId input) (Str ''default''); issuedAt = ri_issuedAt input;
         legacy = (schema = Str LEGACY_AUTHORIZED_RECEIPT_SCHEMA); intent = fld authorization ''intent'' in
     if \<not> is_any schema [AUTHORIZED_RECEIPT_SCHEMA, LEGACY_AUTHORIZED_RECEIPT_SCHEMA] then Inl (PriorSealError ''UNSUPPORTED_SCHEMA'') else
     if \<not> validateTemporalEvidence intent execution then Inl (PriorSealError ''INVALID_TEMPORAL_EVIDENCE'') else
     if \<not> positive_time issuedAt \<or> issued_before issuedAt (observed_at execution)
       then Inl (PriorSealError ''INVALID_RECEIPT_TIMELINE'') else
     letE (if nullish (ri_policyEvidence input) then defaultPolicyEvidence authorization (fld acceptance ''acceptedAt'')
           else Inr (ri_policyEvidence input)) (\<lambda>evidencePolicy.
     letE (validatePolicyEvidence sha authorization evidencePolicy (fld acceptance ''acceptedAt'')) (\<lambda>_.
     letE (authorized_binding authorization acceptance execution) (\<lambda>(binding, failed).
     let executedAt = executed_at execution;
         anchoredAt = fld (fld (fld transparency ''checkpoint'') ''anchor'') ''anchoredAt'' in
     if anchoredAt \<noteq> Undef \<and> js_less executedAt anchoredAt then Inl (PriorSealError ''TRANSPARENCY_AFTER_EXECUTION'') else
     letE (require_none (check_timestamp sha authorization acceptance evidencePolicy (ri_timestampEvidence input) executedAt)) (\<lambda>_.
     letE (require_none (check_witnesses sha ed authorization acceptance evidencePolicy (ri_witnessEvidence input) executedAt)) (\<lambda>_.
     letE (hashJson sha execution) (\<lambda>executionHash.
     letE (hashJson sha authorization) (\<lambda>authorizationHash.
     letE (receipt_outcome legacy failed intent execution) (\<lambda>outcome.
     let unsigned = Obj ([(''schema'', schema), (''domain'', Str (if legacy then ''priorseal/execution-receipt/v2'' else ''priorseal/execution-receipt/v3'')),
           (''receiptId'', Str []), (''intentHash'', fld intent ''intentHash''), (''authorizationHash'', Str authorizationHash),
           (''executionHash'', Str executionHash),
           (''authorizationEvidence'', Obj ([(''authorization'', authorization), (''acceptance'', acceptance), (''policy'', evidencePolicy)]
              @ spread_if (truthy (ri_timestampEvidence input)) [(''timestamp'', ri_timestampEvidence input)]
              @ spread_if (truthy (ri_witnessEvidence input)) [(''witnesses'', ri_witnessEvidence input)]
              @ spread_if (truthy transparency) [(''transparency'', transparency)])),
           (''execution'', execution)]
           @ spread_if (\<not> legacy) [(''executionStatus'', fld execution ''status''), (''compliance'', assessCompliance authorization execution binding)]
           @ [(''issuer'', ri_issuer input), (''issuedAt'', issuedAt), (''validUntil'', fld intent ''validUntil''), (''outcome'', Str outcome),
              (''reasonCodes'', fld binding ''reasonCodes''), (''binding'', binding), (''algorithm'', Str ''Ed25519''), (''keyId'', keyId),
              (''verifierVersion'', orElse (ri_verifierVersion input) (Str (if legacy then ''2.4.0'' else ''3.0.0'')))]) in
     letE (authorizedReceiptId sha unsigned) (\<lambda>receiptId.
     Inr (with_field unsigned ''receiptId'' (Str receiptId))))))))))))"

section \<open>The claims of a receipt\<close>

text \<open>A test of the claims either lets the next run or ends them with its code.\<close>

definition unless :: "bool \<Rightarrow> string \<Rightarrow> verdict result \<Rightarrow> verdict result" where
  "unless wrong code rest = (if wrong then Inr (Refused code) else rest)"

definition refuse_some :: "string option result \<Rightarrow> verdict result \<Rightarrow> verdict result" where
  "refuse_some m rest = letE m (\<lambda>c. case c of Some code \<Rightarrow> Inr (Refused code) | None \<Rightarrow> rest)"

text \<open>Lines 282 to 298: the recomputed binding, reasons, outcome and compliance.\<close>

definition check_binding_claims :: "(string \<Rightarrow> string) \<Rightarrow> jsval \<Rightarrow> jsval \<Rightarrow> jsval \<Rightarrow> verdict result" where
  "check_binding_claims sha receipt authorization acceptance = (
     let r = fld receipt; execution = r ''execution''; legacy = (r ''schema'' = Str LEGACY_AUTHORIZED_RECEIPT_SCHEMA) in
     letE (authorized_binding authorization acceptance execution) (\<lambda>(binding, failed).
     letE (hashJson sha binding) (\<lambda>h1. letE (hashJson sha (r ''binding'')) (\<lambda>h2.
     unless (h1 \<noteq> h2) ''BINDING_MISMATCH'' (
     letE (hashJson sha (fld binding ''reasonCodes'')) (\<lambda>h3. letE (hashJson sha (r ''reasonCodes'')) (\<lambda>h4.
     unless (h3 \<noteq> h4) ''REASON_CODES_MISMATCH'' (
     letE (receipt_outcome legacy failed (fld authorization ''intent'') execution) (\<lambda>expectedOutcome.
     unless (r ''outcome'' \<noteq> Str expectedOutcome) ''OUTCOME_MISMATCH'' (
     if legacy then Inr (Accepted authorization) else
     unless (\<not> js_eq (r ''executionStatus'') (fld execution ''status'')) ''EXECUTION_STATUS_MISMATCH'' (
     letE (hashJson sha (assessCompliance authorization execution binding)) (\<lambda>h5. letE (hashJson sha (r ''compliance'')) (\<lambda>h6.
     unless (h5 \<noteq> h6) ''COMPLIANCE_MISMATCH'' (Inr (Accepted authorization)))))))))))))))"

text \<open>Lines 275 to 281: the times and the hashes.\<close>

definition check_hash_claims :: "(string \<Rightarrow> string) \<Rightarrow> jsval \<Rightarrow> jsval \<Rightarrow> verdict result \<Rightarrow> verdict result" where
  "check_hash_claims sha receipt authorization rest = (
     let r = fld receipt; intent = fld authorization ''intent'' in
     letE (hashJson sha (stripIntentHash intent)) (\<lambda>intentHash.
     unless (\<not> js_eq (r ''intentHash'') (fld authorization ''intentHash'') \<or> fld authorization ''intentHash'' \<noteq> Str intentHash) ''INTENT_HASH_MISMATCH'' (
     unless (\<not> js_eq (r ''validUntil'') (fld intent ''validUntil'')) ''VALID_UNTIL_MISMATCH'' (
     unless (\<not> positive_time (r ''issuedAt'')) ''INVALID_RECEIPT_TIMELINE'' (
     unless (issued_before (r ''issuedAt'') (observed_at (r ''execution''))) ''INVALID_RECEIPT_TIMELINE'' (
     letE (hashJson sha (r ''execution'')) (\<lambda>executionHash.
     unless (r ''executionHash'' \<noteq> Str executionHash) ''EXECUTION_HASH_MISMATCH'' (
     letE (authorizedReceiptId sha receipt) (\<lambda>receiptId.
     unless (r ''receiptId'' \<noteq> Str receiptId) ''RECEIPT_ID_MISMATCH'' rest)))))))))"

definition authorized_claims :: "(string \<Rightarrow> string) \<Rightarrow> ed25519 \<Rightarrow> jsval \<Rightarrow> verdict result" where
  "authorized_claims sha ed receipt = (
     let r = fld receipt; evidence = r ''authorizationEvidence''; execution = r ''execution'' in
     unless (\<not> truthy receipt \<or> \<not> is_any (r ''schema'') [AUTHORIZED_RECEIPT_SCHEMA, LEGACY_AUTHORIZED_RECEIPT_SCHEMA]) ''UNSUPPORTED_SCHEMA'' (
     letE (assertOnlyFields receipt AUTHORIZED_RECEIPT_FIELDS) (\<lambda>_.
     letE (assertOnlyFields evidence AUTHORIZATION_EVIDENCE_FIELDS) (\<lambda>_.
     let legacy = (r ''schema'' = Str LEGACY_AUTHORIZED_RECEIPT_SCHEMA) in
     unless (legacy \<and> (r ''executionStatus'' \<noteq> Undef \<or> r ''compliance'' \<noteq> Undef)) ''INVALID_RECEIPT'' (
     unless (r ''domain'' \<noteq> Str (if legacy then ''priorseal/execution-receipt/v2'' else ''priorseal/execution-receipt/v3'')) ''INVALID_DOMAIN'' (
     letE (buildAuthorization sha (fld evidence ''authorization'')) (\<lambda>authorization.
     unless (\<not> validateTemporalEvidence (fld authorization ''intent'') execution) ''INVALID_TEMPORAL_EVIDENCE'' (
     let acceptance = fld evidence ''acceptance'' in
     unless (\<not> truthy acceptance \<or> \<not> js_eq (fld acceptance ''authorizationId'') (fld authorization ''authorizationId'')) ''AUTHORIZATION_RECEIPT_MISMATCH'' (
     letE (hashJson sha authorization) (\<lambda>authorizationHash.
     unless (r ''authorizationHash'' \<noteq> Str authorizationHash \<or> fld acceptance ''authorizationHash'' \<noteq> r ''authorizationHash'') ''AUTHORIZATION_HASH_MISMATCH'' (
     letE (validatePolicyEvidence sha authorization (fld evidence ''policy'') (fld acceptance ''acceptedAt'')) (\<lambda>_.
     refuse_some (check_timestamp sha authorization acceptance (fld evidence ''policy'') (fld evidence ''timestamp'') (executed_at execution)) (
     refuse_some (check_witnesses sha ed authorization acceptance (fld evidence ''policy'') (fld evidence ''witnesses'') (executed_at execution)) (
     check_hash_claims sha receipt authorization (check_binding_claims sha receipt authorization acceptance)))))))))))))))"

definition validateAuthorizedReceiptClaims :: "(string \<Rightarrow> string) \<Rightarrow> ed25519 \<Rightarrow> jsval \<Rightarrow> verdict" where
  "validateAuthorizedReceiptClaims sha ed receipt = (case authorized_claims sha ed receipt of
       Inl e \<Rightarrow> Refused (code_or e ''INVALID_RECEIPT'')
     | Inr v \<Rightarrow> v)"

section \<open>Verifying a receipt\<close>

record authorized_options =
  ao_key :: jsval
  ao_now :: jsval
  ao_audience :: jsval

record authorized_reply =
  ar_valid :: bool
  ar_code :: string
  ar_outcome :: jsval
  ar_executionStatus :: jsval
  ar_complianceStatus :: jsval
  ar_receiptId :: jsval
  ar_authorizationId :: jsval

definition authorized_reply_of :: "jsval \<Rightarrow> bool \<Rightarrow> string \<Rightarrow> jsval \<Rightarrow> authorized_reply" where
  "authorized_reply_of receipt valid code authorizationId = \<lparr>ar_valid = valid, ar_code = code, ar_outcome = fld receipt ''outcome'',
     ar_executionStatus = orElse (fld receipt ''executionStatus'') (fld (fld receipt ''execution'') ''status''),
     ar_complianceStatus = fld (fld receipt ''compliance'') ''status'', ar_receiptId = fld receipt ''receiptId'',
     ar_authorizationId = authorizationId\<rparr>"

definition key_rejection :: "jsval \<Rightarrow> jsval \<Rightarrow> string option" where
  "key_rejection receipt key = (
     if \<not> truthy key then None else
     if \<not> js_eq (fld key ''keyId'') (fld receipt ''keyId'') then Some ''UNKNOWN_KEY'' else
     if fld key ''algorithm'' \<noteq> Str ''Ed25519'' \<or> \<not> is_any (orElse (fld key ''status'') (Str [])) [''active'', ''retired'']
        \<or> \<not> js_eq (fld key ''issuer'') (fld receipt ''issuer'') \<or> \<not> validKeyWindow key then Some ''INVALID_KEY'' else None)"

text \<open>Lines 320 to 324: the acceptance and the times, before the signature of the acceptance.\<close>

definition acceptance_rejection :: "jsval \<Rightarrow> jsval \<Rightarrow> jsval \<Rightarrow> jsval \<Rightarrow> jsval \<Rightarrow> string option" where
  "acceptance_rejection receipt authorization acceptance key now = (
     let a = fld acceptance; accepted = a ''acceptedAt''; issued = fld receipt ''issuedAt'' in
     if a ''domain'' \<noteq> Str ''priorseal/authorization-receipt/v1'' \<or> a ''status'' \<noteq> Str ''ACCEPTED'' \<or> a ''algorithm'' \<noteq> Str ''Ed25519''
        \<or> \<not> js_eq (a ''intentHash'') (fld authorization ''intentHash'') then Some ''INVALID_AUTHORIZATION_RECEIPT'' else
     if js_less accepted (fld authorization ''notBefore'') \<or> js_less (fld authorization ''expiresAt'') accepted
        \<or> js_less accepted (fld authorization ''issuedAt'') \<or> js_less issued accepted then Some ''INVALID_AUTHORIZATION_RECEIPT'' else
     if \<not> nullish (fld key ''validFrom'') \<and> (js_less accepted (fld key ''validFrom'') \<or> js_less issued (fld key ''validFrom''))
       then Some ''KEY_NOT_YET_VALID'' else
     if \<not> nullish (fld key ''validUntil'') \<and> (js_less (fld key ''validUntil'') accepted \<or> js_less (fld key ''validUntil'') issued)
       then Some ''KEY_EXPIRED'' else
     if now \<noteq> Undef \<and> js_less now issued then Some ''NOT_YET_VALID'' else None)"

definition receipt_timestamp_ok :: "(string \<Rightarrow> string) \<Rightarrow> pki \<Rightarrow> jsval \<Rightarrow> jsval \<Rightarrow> jsval \<Rightarrow> string option result" where
  "receipt_timestamp_ok sha pk receipt authorization acceptance = (
     let evidence = fld receipt ''authorizationEvidence'';
         timestampPolicy = fld (fld (fld evidence ''policy'') ''document'') ''timestampPolicy'' in
     if \<not> truthy timestampPolicy then Inr None else
     letE (canonicalize authorization) (\<lambda>data.
     let r = verifyTimestampEvidence pk (fld evidence ''timestamp'') data timestampPolicy
           \<lparr>to_authorizationHash = fld receipt ''authorizationHash'', to_requestedAt = fld acceptance ''acceptedAt'',
            to_before = executed_at (fld receipt ''execution'')\<rparr>
     in Inr (if tr_valid r then None else Some (tr_code r))))"

text \<open>Lines 325 to 334: the acceptance's signature, then time stamp, log and authorizer.\<close>

definition acceptance_reply ::
  "(string \<Rightarrow> string) \<Rightarrow> ed25519 \<Rightarrow> pki \<Rightarrow> signers \<Rightarrow> jsval \<Rightarrow> jsval \<Rightarrow> jsval \<Rightarrow> authorized_options \<Rightarrow> authorized_reply result" where
  "acceptance_reply sha ed pk sg receipt authorization publicKeyPem opts = (
     let r = fld receipt; fail = (\<lambda>code. Inr (authorized_reply_of receipt False code Undef));
         evidence = r ''authorizationEvidence''; acceptance = fld evidence ''acceptance''; transparency = fld evidence ''transparency'' in
     letE (if \<not> js_eq (fld acceptance ''issuer'') (r ''issuer'') \<or> \<not> js_eq (fld acceptance ''keyId'') (r ''keyId'') then Inr False
           else verifyAuthorizationReceipt sha ed acceptance publicKeyPem) (\<lambda>accepted.
     if \<not> accepted then fail ''INVALID_AUTHORIZATION_RECEIPT'' else
     letE (receipt_timestamp_ok sha pk receipt authorization acceptance) (\<lambda>timestamp.
     case timestamp of Some code \<Rightarrow> fail code | None \<Rightarrow>
     letE (if truthy transparency
           then verifyTransparencyEvidence sha ed transparency acceptance publicKeyPem (executed_at (r ''execution'')) else Inr True) (\<lambda>logged.
     if \<not> logged then fail ''INVALID_TRANSPARENCY_PROOF'' else
     (case verifyAuthorization sha sg authorization (fld acceptance ''acceptedAt'') (orElse (ao_audience opts) (Str ''priorseal'')) of
        Refused code \<Rightarrow> fail code
      | Accepted a \<Rightarrow> Inr (authorized_reply_of receipt True ''OK'' (fld authorization ''authorizationId'')))))))"

definition verifyAuthorizedReceipt ::
  "(string \<Rightarrow> string) \<Rightarrow> ed25519 \<Rightarrow> pki \<Rightarrow> signers \<Rightarrow> jsval \<Rightarrow> jsval \<Rightarrow> authorized_options \<Rightarrow> authorized_reply result" where
  "verifyAuthorizedReceipt sha ed pk sg receipt publicKeyPem opts = (
     let r = fld receipt; fail = (\<lambda>code. Inr (authorized_reply_of receipt False code Undef)) in
     if assertSafeJson receipt \<noteq> Inr receipt then fail ''INVALID_RECEIPT'' else
     if \<not> truthy (r ''signature'') then fail ''MISSING_SIGNATURE'' else
     if r ''algorithm'' \<noteq> Str ''Ed25519'' then fail ''UNSUPPORTED_ALGORITHM'' else
     case key_rejection receipt (ao_key opts) of Some code \<Rightarrow> fail code | None \<Rightarrow>
     if \<not> verifyEd25519Statement ed receipt publicKeyPem then fail ''INVALID_SIGNATURE'' else
     (case validateAuthorizedReceiptClaims sha ed receipt of Refused code \<Rightarrow> fail code | Accepted authorization \<Rightarrow>
     let acceptance = fld (r ''authorizationEvidence'') ''acceptance'' in
     (case acceptance_rejection receipt authorization acceptance (ao_key opts) (ao_now opts) of Some code \<Rightarrow> fail code | None \<Rightarrow>
     acceptance_reply sha ed pk sg receipt authorization publicKeyPem opts)))"

section \<open>What a built authorization is\<close>

definition party_ok :: "bool \<Rightarrow> jsval \<Rightarrow> bool" where
  "party_ok solana v = (if solana then isSolanaPublicKey v else is_address v)"

definition window_ok :: "jsval \<Rightarrow> bool" where
  "window_ok w = (\<exists>i n e v. fld w ''issuedAt'' = Num i \<and> fld w ''notBefore'' = Num n \<and> fld w ''expiresAt'' = Num e
     \<and> fld (fld w ''intent'') ''validUntil'' = Num v \<and> 0 < i \<and> i \<le> n \<and> n \<le> e \<and> e \<le> v)"

definition parties_ok :: "jsval \<Rightarrow> bool" where
  "parties_ok w = (
     let solana = (fld (fld w ''authorizer'') ''type'' = Str ''solana-ed25519'') in
     solana = (fld (fld w ''intent'') ''executionProfile'' = Str SOLANA_TRANSACTION_PROFILE)
     \<and> is_any (fld (fld w ''authorizer'') ''type'') [''eip712'', ''eip1271'', ''solana-ed25519'']
     \<and> is_any (fld (fld w ''principal'') ''type'') [''user'', ''organization'']
     \<and> party_ok solana (fld (fld w ''principal'') ''account'') \<and> party_ok solana (fld (fld w ''delegate'') ''executor'')
     \<and> fld (fld w ''authorizer'') ''address'' = fld (fld w ''principal'') ''account''
     \<and> is_id (fld (fld w ''principal'') ''id'') \<and> is_id (fld (fld w ''delegate'') ''agentId'') \<and> is_id (fld w ''audience''))"

text \<open>The identifier is taken from the hash of all else but the signature.\<close>

definition identified :: "(string \<Rightarrow> string) \<Rightarrow> jsval \<Rightarrow> bool" where
  "identified sha w = (\<exists>h. hashJson sha (without_field (without_field w ''signature'') ''authorizationId'') = Inr h
     \<and> fld w ''authorizationId'' = Str (''auth_'' @ take 32 h))"

definition authorization_ok :: "(string \<Rightarrow> string) \<Rightarrow> jsval \<Rightarrow> bool" where
  "authorization_ok sha w = (intent_ok sha (fld w ''intent'') \<and> fld w ''intentHash'' = fld (fld w ''intent'') ''intentHash''
     \<and> fld w ''maxUses'' = Str ''1'' \<and> is_hash0x (fld w ''authorizationNonce'') \<and> is_hash0x (fld w ''policyHash'')
     \<and> window_ok w \<and> parties_ok w \<and> identified sha w)"

lemma fld_without: "k' \<noteq> k \<Longrightarrow> fld (without_field v k) k' = fld v k'"
  by (cases v) (simp_all add: fld_without_field, simp_all add: without_field_def fld_def)

lemma account_ok: "account_of solana v = Inr w \<Longrightarrow> party_ok solana w"
  by (auto simp: account_of_def requireSolanaPublicKey_def party_ok_def evmAddress_normal split: if_splits)

lemma finished_authorization:
  assumes "finish_authorization sha input intent solana authorizerType principalType schema issuedAt notBefore expiresAt authorizationNonce policyHash = Inr w"
  shows "identified sha w" "fld w ''intent'' = intent" "fld w ''intentHash'' = fld intent ''intentHash''" "fld w ''maxUses'' = Str ''1''"
    "fld w ''authorizationNonce'' = Str authorizationNonce" "fld w ''policyHash'' = Str policyHash" "fld w ''schema'' = schema"
    "fld w ''issuedAt'' = issuedAt" "fld w ''notBefore'' = notBefore" "fld w ''expiresAt'' = expiresAt"
    "fld (fld w ''authorizer'') ''type'' = Str authorizerType" "fld (fld w ''principal'') ''type'' = Str principalType"
    "party_ok solana (fld (fld w ''principal'') ''account'')" "party_ok solana (fld (fld w ''delegate'') ''executor'')"
    "fld (fld w ''authorizer'') ''address'' = fld (fld w ''principal'') ''account''"
    "is_id (fld (fld w ''principal'') ''id'')" "is_id (fld (fld w ''delegate'') ''agentId'')" "is_id (fld w ''audience'')"
proof -
  from assms obtain account executor principalId agentId audience h sig where
    parties: "account_of solana (fld (fld input ''principal'') ''account'') = Inr account" "account_of solana (fld (fld input ''delegate'') ''executor'') = Inr executor"
      "protocolId (fld (fld input ''principal'') ''id'') = Inr principalId" "protocolId (fld (fld input ''delegate'') ''agentId'') = Inr agentId"
      "protocolId (orElse (fld input ''audience'') (Str ''priorseal'')) = Inr audience"
    and w: "w = Obj (unsigned_authorization schema (Str (authorization_domain solana schema)) intent
           (Obj [(''type'', Str principalType), (''id'', principalId), (''account'', account)])
           (Obj [(''type'', Str authorizerType), (''address'', account)]) (Obj [(''agentId'', agentId), (''executor'', executor)])
           issuedAt notBefore expiresAt (Str authorizationNonce) audience (Str policyHash) @ sig @ [(''authorizationId'', Str (''auth_'' @ take 32 h))])"
    and h: "hashJson sha (Obj (unsigned_authorization schema (Str (authorization_domain solana schema)) intent
           (Obj [(''type'', Str principalType), (''id'', principalId), (''account'', account)])
           (Obj [(''type'', Str authorizerType), (''address'', account)]) (Obj [(''agentId'', agentId), (''executor'', executor)])
           issuedAt notBefore expiresAt (Str authorizationNonce) audience (Str policyHash))) = Inr h"
    and sig: "sig = spread_if (truthy (fld input ''signature'')) [(''signature'', Str (js_string (fld input ''signature'')))]"
    unfolding finish_authorization_def Let_def by (elim letE_InrE guard_InrE Inr_InrE) auto
  have drop: "without_field (without_field w ''signature'') ''authorizationId'' = Obj (unsigned_authorization schema (Str (authorization_domain solana schema)) intent
           (Obj [(''type'', Str principalType), (''id'', principalId), (''account'', account)])
           (Obj [(''type'', Str authorizerType), (''address'', account)]) (Obj [(''agentId'', agentId), (''executor'', executor)])
           issuedAt notBefore expiresAt (Str authorizationNonce) audience (Str policyHash))"
    by (simp add: w sig unsigned_authorization_def without_field_def spread_if_def)
  have f: "fld w k = fld (Obj (unsigned_authorization schema (Str (authorization_domain solana schema)) intent
           (Obj [(''type'', Str principalType), (''id'', principalId), (''account'', account)])
           (Obj [(''type'', Str authorizerType), (''address'', account)]) (Obj [(''agentId'', agentId), (''executor'', executor)])
           issuedAt notBefore expiresAt (Str authorizationNonce) audience (Str policyHash))) k"
    if "k \<noteq> ''signature''" "k \<noteq> ''authorizationId''" for k
    unfolding drop [symmetric] using that by (simp add: fld_without del: fld_without_field)
  show "identified sha w"
    unfolding identified_def drop using h by (simp add: w sig unsigned_authorization_def spread_if_def)
  show "fld w ''intent'' = intent" "fld w ''intentHash'' = fld intent ''intentHash''" "fld w ''maxUses'' = Str ''1''"
    "fld w ''authorizationNonce'' = Str authorizationNonce" "fld w ''policyHash'' = Str policyHash" "fld w ''schema'' = schema"
    "fld w ''issuedAt'' = issuedAt" "fld w ''notBefore'' = notBefore" "fld w ''expiresAt'' = expiresAt"
    "fld (fld w ''authorizer'') ''type'' = Str authorizerType" "fld (fld w ''principal'') ''type'' = Str principalType"
    "fld (fld w ''authorizer'') ''address'' = fld (fld w ''principal'') ''account''"
    by (simp_all add: f unsigned_authorization_def)
  show "party_ok solana (fld (fld w ''principal'') ''account'')" "party_ok solana (fld (fld w ''delegate'') ''executor'')"
    using parties(1,2) by (simp_all add: f unsigned_authorization_def account_ok)
  show "is_id (fld (fld w ''principal'') ''id'')" "is_id (fld (fld w ''delegate'') ''agentId'')" "is_id (fld w ''audience'')"
    using parties(3-5) by (simp_all add: f unsigned_authorization_def protocolId_normal)
qed

lemma hash0x_lower: "hash0x s \<Longrightarrow> is_hash0x (Str s)"
  by (simp add: is_hash0x_def)

lemma authorization_built:
  assumes "buildAuthorization sha v = Inr w"
  shows "authorization_ok sha w"
proof -
  from assms obtain intent authorizerType principalType issuedAt notBefore expiresAt authorizationNonce policyHash schema where
    intent: "buildIntent sha (stripIntentMetadata (fld v ''intent'')) = Inr intent"
    and types: "authorizerType \<in> {''eip712'', ''eip1271'', ''solana-ed25519''}" "principalType \<in> {''user'', ''organization''}"
      "(authorizerType = ''solana-ed25519'') = (fld intent ''executionProfile'' = Str SOLANA_TRANSACTION_PROFILE)"
    and times: "unixSeconds (fld v ''issuedAt'') = Inr issuedAt" "unixSeconds (orElse (fld v ''notBefore'') (fld v ''issuedAt'')) = Inr notBefore"
      "unixSeconds (orElse (fld v ''expiresAt'') (fld intent ''validUntil'')) = Inr expiresAt"
    and order: "\<not> (int_of notBefore < int_of issuedAt \<or> int_of expiresAt < int_of notBefore \<or> js_less (fld intent ''validUntil'') expiresAt)"
    and hashes: "hash0x authorizationNonce" "hash0x policyHash"
    and fin: "finish_authorization sha v intent (authorizerType = ''solana-ed25519'') authorizerType principalType schema issuedAt notBefore expiresAt
       authorizationNonce policyHash = Inr w"
    unfolding buildAuthorization_def Let_def by (elim check_elims letE_InrE guard_InrE) blast
  note f = finished_authorization [OF fin]
  have ok: "intent_ok sha intent" using intent by (rule intent_built)
  from times [THEN unixSeconds_normal] obtain i n e where num: "issuedAt = Num i" "notBefore = Num n" "expiresAt = Num e" "0 < i"
    by (auto simp: is_time_def split: jsval.splits)
  from ok obtain u where u: "fld intent ''validUntil'' = Num u" by (auto simp: intent_ok_def is_time_def split: jsval.splits)
  have "window_ok w" using order num u f by (simp add: window_ok_def)
  moreover have "parties_ok w" using types f by (auto simp: parties_ok_def Let_def)
  ultimately show ?thesis using ok f hashes by (simp add: authorization_ok_def hash0x_lower)
qed

text \<open>C32. Every authorization that can be built carries a normalised, hashed intent, is single-use, names
  an authorizer equal to the principal's account and parties of the right kind for its signature scheme, has
  an ordered validity window inside the intent's, 32-byte nonce and policy hash, and an identifier taken from
  the hash of everything but its signature.\<close>

theorem built_authorizations_ok:
  assumes "buildAuthorization sha v = Inr w"
  shows "authorization_ok sha w"
  using authorization_built [OF assms] .

section \<open>What accepted claims show\<close>

lemma unless_Accepted [simp]: "unless b code m = Inr (Accepted a) \<longleftrightarrow> \<not> b \<and> m = Inr (Accepted a)"
  by (simp add: unless_def)

lemma unless_AcceptedE: "unless b code m = Inr (Accepted a) \<Longrightarrow> (\<not> b \<Longrightarrow> m = Inr (Accepted a) \<Longrightarrow> P) \<Longrightarrow> P"
  by simp

lemma refuse_some_AcceptedE:
  "refuse_some m rest = Inr (Accepted a) \<Longrightarrow> (m = Inr None \<Longrightarrow> rest = Inr (Accepted a) \<Longrightarrow> P) \<Longrightarrow> P"
  by (auto simp: refuse_some_def letE_eq_Inr split: option.splits)

lemma binding_claims_accepted:
  assumes "check_binding_claims sha receipt authorization acceptance = Inr (Accepted a)"
  obtains binding failed h where "a = authorization" "authorized_binding authorization acceptance (fld receipt ''execution'') = Inr (binding, failed)"
    "hashJson sha binding = Inr h" "hashJson sha (fld receipt ''binding'') = Inr h"
    "fld receipt ''schema'' = Str LEGACY_AUTHORIZED_RECEIPT_SCHEMA
      \<or> (\<exists>c. hashJson sha (assessCompliance authorization (fld receipt ''execution'') binding) = Inr c \<and> hashJson sha (fld receipt ''compliance'') = Inr c)"
proof -
  from assms obtain binding failed where b: "authorized_binding authorization acceptance (fld receipt ''execution'') = Inr (binding, failed)"
    unfolding check_binding_claims_def Let_def by (elim letE_InrE) auto
  note c = assms [unfolded check_binding_claims_def Let_def, simplified b letE_simps prod.case]
  have "a = authorization \<and> (\<exists>h. hashJson sha binding = Inr h \<and> hashJson sha (fld receipt ''binding'') = Inr h)
    \<and> (fld receipt ''schema'' = Str LEGACY_AUTHORIZED_RECEIPT_SCHEMA
      \<or> (\<exists>c. hashJson sha (assessCompliance authorization (fld receipt ''execution'') binding) = Inr c \<and> hashJson sha (fld receipt ''compliance'') = Inr c))"
    using c by (auto simp: letE_eq_Inr split: if_splits)
  then show ?thesis using that [OF _ b] by blast
qed

text \<open>What the accepted claims fix: the authorization embedded in the receipt and the hashes of its parts.\<close>

definition claims_facts :: "(string \<Rightarrow> string) \<Rightarrow> ed25519 \<Rightarrow> jsval \<Rightarrow> jsval \<Rightarrow> bool" where
  "claims_facts sha ed receipt authorization = (
     let r = fld receipt; evidence = r ''authorizationEvidence''; acceptance = fld evidence ''acceptance''; execution = r ''execution'';
         executedAt = executed_at execution in
     buildAuthorization sha (fld evidence ''authorization'') = Inr authorization
     \<and> (r ''schema'' = Str LEGACY_AUTHORIZED_RECEIPT_SCHEMA \<longrightarrow> r ''compliance'' = Undef)
     \<and> validateTemporalEvidence (fld authorization ''intent'') execution
     \<and> (\<exists>h. hashJson sha authorization = Inr h \<and> r ''authorizationHash'' = Str h \<and> fld acceptance ''authorizationHash'' = Str h)
     \<and> (\<exists>h. hashJson sha execution = Inr h \<and> r ''executionHash'' = Str h)
     \<and> (\<exists>b. validatePolicyEvidence sha authorization (fld evidence ''policy'') (fld acceptance ''acceptedAt'') = Inr b)
     \<and> check_timestamp sha authorization acceptance (fld evidence ''policy'') (fld evidence ''timestamp'') executedAt = Inr None
     \<and> check_witnesses sha ed authorization acceptance (fld evidence ''policy'') (fld evidence ''witnesses'') executedAt = Inr None)"

lemma hash_claims_accepted:
  assumes "check_hash_claims sha receipt authorization rest = Inr (Accepted a)"
  shows "rest = Inr (Accepted a)" "\<exists>h. hashJson sha (fld receipt ''execution'') = Inr h \<and> fld receipt ''executionHash'' = Str h"
proof -
  from assms obtain h where h: "hashJson sha (fld receipt ''execution'') = Inr h" "\<not> fld receipt ''executionHash'' \<noteq> Str h"
    and rest: "rest = Inr (Accepted a)"
    unfolding check_hash_claims_def Let_def by (elim letE_InrE unless_AcceptedE) blast
  show "rest = Inr (Accepted a)" by (rule rest)
  show "\<exists>h. hashJson sha (fld receipt ''execution'') = Inr h \<and> fld receipt ''executionHash'' = Str h" using h by blast
qed

lemma claims_accepted:
  assumes "validateAuthorizedReceiptClaims sha ed receipt = Accepted a"
  shows "claims_facts sha ed receipt a"
    "check_binding_claims sha receipt a (fld (fld receipt ''authorizationEvidence'') ''acceptance'') = Inr (Accepted a)"
proof -
  let ?r = "fld receipt" let ?evidence = "?r ''authorizationEvidence''" let ?acceptance = "fld ?evidence ''acceptance''" let ?execution = "?r ''execution''"
  from assms have "authorized_claims sha ed receipt = Inr (Accepted a)"
    by (simp add: validateAuthorizedReceiptClaims_def split: sum.splits)
  then obtain authorization h b where
    legacy: "\<not> (?r ''schema'' = Str LEGACY_AUTHORIZED_RECEIPT_SCHEMA \<and> (?r ''executionStatus'' \<noteq> Undef \<or> ?r ''compliance'' \<noteq> Undef))"
    and built: "buildAuthorization sha (fld ?evidence ''authorization'') = Inr authorization"
    and temporal: "\<not> \<not> validateTemporalEvidence (fld authorization ''intent'') ?execution"
    and h: "hashJson sha authorization = Inr h" "\<not> (?r ''authorizationHash'' \<noteq> Str h \<or> fld ?acceptance ''authorizationHash'' \<noteq> ?r ''authorizationHash'')"
    and policy: "validatePolicyEvidence sha authorization (fld ?evidence ''policy'') (fld ?acceptance ''acceptedAt'') = Inr b"
    and stamp: "check_timestamp sha authorization ?acceptance (fld ?evidence ''policy'') (fld ?evidence ''timestamp'') (executed_at ?execution) = Inr None"
    and quorum: "check_witnesses sha ed authorization ?acceptance (fld ?evidence ''policy'') (fld ?evidence ''witnesses'') (executed_at ?execution) = Inr None"
    and rest: "check_hash_claims sha receipt authorization (check_binding_claims sha receipt authorization ?acceptance) = Inr (Accepted a)"
    unfolding authorized_claims_def Let_def by (elim letE_InrE unless_AcceptedE refuse_some_AcceptedE) blast
  note rest' = hash_claims_accepted [OF rest]
  from rest'(1) have a: "a = authorization" by (elim binding_claims_accepted)
  show "check_binding_claims sha receipt a ?acceptance = Inr (Accepted a)" using rest'(1) a by simp
  show "claims_facts sha ed receipt a"
    unfolding claims_facts_def Let_def a using legacy built temporal h policy stamp quorum rest'(2) by auto
qed

section \<open>What a verified receipt shows\<close>

text \<open>The issuer's signatures on the receipt and on the acceptance, and the authorizer's on the authorization.\<close>

definition receipt_vouched :: "(string \<Rightarrow> string) \<Rightarrow> ed25519 \<Rightarrow> pki \<Rightarrow> signers \<Rightarrow> jsval \<Rightarrow> jsval \<Rightarrow> jsval \<Rightarrow> bool" where
  "receipt_vouched sha ed pk sg receipt publicKeyPem authorization = (
     let evidence = fld receipt ''authorizationEvidence''; acceptance = fld evidence ''acceptance'';
         timestampPolicy = fld (fld (fld evidence ''policy'') ''document'') ''timestampPolicy'' in
     verifyEd25519Statement ed receipt publicKeyPem \<and> verifyEd25519Statement ed acceptance publicKeyPem
     \<and> (\<exists>h. entry_hash_of sha acceptance = Inr h \<and> fld acceptance ''entryHash'' = Str h)
     \<and> (\<exists>a audience. buildAuthorization sha authorization = Inr a \<and> authorization_signed sha sg a = Inr True
          \<and> authorization_refusal a (fld acceptance ''acceptedAt'') audience = None)
     \<and> (truthy timestampPolicy \<longrightarrow> (\<exists>data opts. canonicalize authorization = Inr data
          \<and> tr_valid (verifyTimestampEvidence pk (fld evidence ''timestamp'') data timestampPolicy opts)))
     \<and> (truthy (fld evidence ''transparency'') \<longrightarrow>
          verifyTransparencyEvidence sha ed (fld evidence ''transparency'') acceptance publicKeyPem (executed_at (fld receipt ''execution'')) = Inr True))"

lemma ar_valid_reply [simp]: "ar_valid (authorized_reply_of receipt valid code i) = valid"
  by (simp add: authorized_reply_of_def)

lemma failed_InrE:
  assumes "(if b then Inr (authorized_reply_of receipt False code i) else m) = Inr reply" "ar_valid reply" "\<not> b \<Longrightarrow> m = Inr reply \<Longrightarrow> P"
  shows P
  using assms by (auto split: if_splits)

lemma failed_optionE:
  assumes "(case c of Some code \<Rightarrow> Inr (authorized_reply_of receipt False code i) | None \<Rightarrow> m) = Inr reply" "ar_valid reply"
    "c = None \<Longrightarrow> m = Inr reply \<Longrightarrow> P"
  shows P
  using assms by (auto split: option.splits)

lemma failed_verdictE:
  assumes "(case c of Refused code \<Rightarrow> Inr (authorized_reply_of receipt False code i) | Accepted a \<Rightarrow> m a) = Inr reply" "ar_valid reply"
    "\<And>a. c = Accepted a \<Longrightarrow> m a = Inr reply \<Longrightarrow> P"
  shows P
  using assms by (auto split: verdict.splits)

lemmas failed_elims = failed_InrE failed_optionE failed_verdictE

lemma authorization_accepted:
  assumes "verifyAuthorization sha sg v now audience = Accepted a"
  shows "buildAuthorization sha v = Inr a" "authorization_refusal a now audience = None" "authorization_signed sha sg a = Inr True"
  using assms by (auto simp: verifyAuthorization_def split: sum.splits option.splits bool.splits)

lemma acceptance_verified:
  assumes "verifyAuthorizationReceipt sha ed acceptance publicKeyPem = Inr True"
  shows "verifyEd25519Statement ed acceptance publicKeyPem" "\<exists>h. entry_hash_of sha acceptance = Inr h \<and> fld acceptance ''entryHash'' = Str h"
  using assms by (auto simp: verifyAuthorizationReceipt_def letE_eq_Inr split: if_splits)

lemma verify_accepted:
  assumes "verifyAuthorizedReceipt sha ed pk sg receipt publicKeyPem opts = Inr reply" "ar_valid reply"
  obtains authorization where "validateAuthorizedReceiptClaims sha ed receipt = Accepted authorization"
    "receipt_vouched sha ed pk sg receipt publicKeyPem authorization"
    "reply = authorized_reply_of receipt True ''OK'' (fld authorization ''authorizationId'')"
proof -
  let ?r = "fld receipt" let ?evidence = "?r ''authorizationEvidence''" let ?acceptance = "fld ?evidence ''acceptance''"
  let ?transparency = "fld ?evidence ''transparency''"
  from assms obtain authorization where sig: "\<not> \<not> verifyEd25519Statement ed receipt publicKeyPem"
    and claims: "validateAuthorizedReceiptClaims sha ed receipt = Accepted authorization"
    and rest: "acceptance_reply sha ed pk sg receipt authorization publicKeyPem opts = Inr reply"
    unfolding verifyAuthorizedReceipt_def Let_def by (elim failed_elims [OF _ assms(2)]) (rule that, assumption+)
  from rest obtain accepted timestamp logged a where
    accepted: "(if \<not> js_eq (fld ?acceptance ''issuer'') (?r ''issuer'') \<or> \<not> js_eq (fld ?acceptance ''keyId'') (?r ''keyId'') then Inr False
           else verifyAuthorizationReceipt sha ed ?acceptance publicKeyPem) = Inr accepted" "\<not> \<not> accepted"
    and timestamp: "receipt_timestamp_ok sha pk receipt authorization ?acceptance = Inr timestamp" "timestamp = None"
    and logged: "(if truthy ?transparency
           then verifyTransparencyEvidence sha ed ?transparency ?acceptance publicKeyPem (executed_at (?r ''execution'')) else Inr True) = Inr logged" "\<not> \<not> logged"
    and authorized: "verifyAuthorization sha sg authorization (fld ?acceptance ''acceptedAt'') (orElse (ao_audience opts) (Str ''priorseal'')) = Accepted a"
    and reply: "Inr (authorized_reply_of receipt True ''OK'' (fld authorization ''authorizationId'')) = (Inr reply :: authorized_reply result)"
    unfolding acceptance_reply_def Let_def by (elim letE_InrE failed_elims [OF _ assms(2)]) blast
  have "verifyAuthorizationReceipt sha ed ?acceptance publicKeyPem = Inr True" using accepted by (auto split: if_splits)
  note acceptance = acceptance_verified [OF this]
  have "truthy (fld (fld (fld ?evidence ''policy'') ''document'') ''timestampPolicy'') \<longrightarrow> (\<exists>data opts. canonicalize authorization = Inr data
      \<and> tr_valid (verifyTimestampEvidence pk (fld ?evidence ''timestamp'') data (fld (fld (fld ?evidence ''policy'') ''document'') ''timestampPolicy'') opts))"
    using timestamp by (auto simp: receipt_timestamp_ok_def Let_def letE_eq_Inr split: if_splits)
  moreover have "truthy ?transparency \<longrightarrow>
      verifyTransparencyEvidence sha ed ?transparency ?acceptance publicKeyPem (executed_at (?r ''execution'')) = Inr True"
    using logged by auto
  ultimately have "receipt_vouched sha ed pk sg receipt publicKeyPem authorization"
    unfolding receipt_vouched_def Let_def using sig acceptance authorization_accepted [OF authorized] by blast
  with claims reply show ?thesis by (intro that) auto
qed

text \<open>C3. A receipt that verifies carries the issuer's signature over itself and over the acceptance it embeds,
  whose log entry hash is recomputed; the embedded authorization is built again and its authorizer's
  signature is valid at the time of acceptance; a time stamp the policy asks for, and a log proof that is
  there, verify; and its claims are bound to the hashes of the authorization and the execution it embeds.\<close>

theorem verified_receipts_vouched:
  assumes "verifyAuthorizedReceipt sha ed pk sg receipt publicKeyPem opts = Inr reply" "ar_valid reply"
  shows "\<exists>authorization. claims_facts sha ed receipt authorization \<and> receipt_vouched sha ed pk sg receipt publicKeyPem authorization"
  using verify_accepted [OF assms] claims_accepted(1) by metis

text \<open>Two values whose canonical texts are a collision of the hash function.\<close>

definition collide :: "(string \<Rightarrow> string) \<Rightarrow> jsval \<Rightarrow> jsval \<Rightarrow> bool" where
  "collide sha v w = (\<exists>s t. canonicalize v = Inr s \<and> canonicalize w = Inr t \<and> s \<noteq> t \<and> sha s = sha t)"

lemma same_hash:
  assumes "hashJson sha v = Inr h" "hashJson sha w = Inr h" "wf_js v" "wf_js w" "\<not> collide sha v w"
  shows "js_norm v = js_norm w"
proof -
  from assms(1,2) obtain s t where "canonicalize v = Inr s" "canonicalize w = Inr t" "sha s = sha t" by (auto simp: hashJson_def letE_eq_Inr)
  with assms(3-5) show ?thesis by (metis canonicalize_inj collide_def)
qed

lemma fld_js_norm: "distinct (map fst kvs) \<Longrightarrow> fld (js_norm (Obj kvs)) k = js_norm (fld (Obj kvs) k)"
proof -
  assume d: "distinct (map fst kvs)"
  have "mset (map fst (sort_key fst kvs)) = mset (map fst kvs)" by simp
  then have "distinct (map fst (sort_key fst kvs))" using d mset_eq_imp_distinct_iff by metis
  then have m: "map_of (sort_key fst kvs) = map_of kvs" using d by (simp add: map_of_inject_set)
  have "map_of (map (\<lambda>kv. (fst kv, js_norm (snd kv))) xs) k = map_option js_norm (map_of xs k)" for xs
    by (induction xs) auto
  then show ?thesis by (simp add: fld_def m split: option.splits)
qed

lemma fld_norm: "wf_js v \<Longrightarrow> fld (js_norm v) k = js_norm (fld v k)"
  by (cases v) (simp_all add: fld_js_norm del: js_norm.simps(2), simp_all add: fld_def)

lemma wf_fld: "wf_js v \<Longrightarrow> wf_js (fld v k)"
  by (cases v) (auto simp: fld_def split: option.splits dest!: map_of_SomeD)

lemma full_binding_bound:
  assumes "authorized_binding authorization acceptance execution = Inr (binding, failed)" "truthy (fld binding ''bound'')"
  shows "matches_intent (fld authorization ''intent'') execution" "\<not> after_execution acceptance execution" "\<not> outside_authorization authorization execution"
proof -
  from assms(1) obtain base mismatch where b: "bindIntentExecution (fld authorization ''intent'') execution = Inr base"
    "binding = full_binding base mismatch (after_execution acceptance execution) (outside_authorization authorization execution)"
    by (auto simp: authorized_binding_def letE_eq_Inr Let_def)
  then show "matches_intent (fld authorization ''intent'') execution" "\<not> after_execution acceptance execution" "\<not> outside_authorization authorization execution"
    using assms(2) bound_matches [OF b(1)] by (simp_all add: full_binding_def)
qed

lemma wf_assessment:
  assumes "authorized_binding authorization acceptance execution = Inr (binding, failed)"
  shows "wf_js (assessCompliance authorization execution binding)"
proof -
  from assms obtain base mismatch late outside where "bindIntentExecution (fld authorization ''intent'') execution = Inr base"
    "binding = full_binding base mismatch late outside"
    by (auto simp: authorized_binding_def letE_eq_Inr Let_def)
  then have "\<forall>x\<in>set (elems (fld binding ''reasonCodes'')). wf_js x"
    by (auto simp: full_binding_def bindIntentExecution_def letE_eq_Inr Let_def str_arr_def split: if_splits)
  then show ?thesis by (auto simp: assessCompliance_def assessment_def Let_def split: option.splits)
qed

text \<open>C4. A verified receipt that reports COMPLIANT is about an execution that is final, was sent by the executor of
  the embedded authorization on its chain with its nonce, matches the authorized intent, happened after the
  acceptance and inside the authorization's window, unless the compliance it shows collides under the hash
  function with the recomputed one.\<close>

theorem verified_compliant_receipts:
  assumes "verifyAuthorizedReceipt sha ed pk sg receipt publicKeyPem opts = Inr reply" "ar_valid reply"
    and "ar_complianceStatus reply = Str ''COMPLIANT''" "wf_js receipt"
  shows "\<exists>authorization. buildAuthorization sha (fld (fld receipt ''authorizationEvidence'') ''authorization'') = Inr authorization
    \<and> (let acceptance = fld (fld receipt ''authorizationEvidence'') ''acceptance''; execution = fld receipt ''execution'' in
       final_status execution \<and> executor_correlates authorization execution \<and> matches_intent (fld authorization ''intent'') execution
       \<and> \<not> after_execution acceptance execution \<and> \<not> outside_authorization authorization execution
       \<or> (\<exists>binding failed. authorized_binding authorization acceptance execution = Inr (binding, failed)
            \<and> collide sha (assessCompliance authorization execution binding) (fld receipt ''compliance'')))"
proof -
  let ?r = "fld receipt" let ?acceptance = "fld (?r ''authorizationEvidence'') ''acceptance''" let ?execution = "?r ''execution''"
  from verify_accepted [OF assms(1,2)] obtain a where claims: "validateAuthorizedReceiptClaims sha ed receipt = Accepted a"
    and reply: "reply = authorized_reply_of receipt True ''OK'' (fld a ''authorizationId'')" by metis
  from reply assms(3) have status: "fld (?r ''compliance'') ''status'' = Str ''COMPLIANT''" by (simp add: authorized_reply_of_def)
  note facts = claims_accepted(1) [OF claims, unfolded claims_facts_def Let_def]
  have v3: "?r ''schema'' \<noteq> Str LEGACY_AUTHORIZED_RECEIPT_SCHEMA" using facts status by auto
  from claims_accepted(2) [OF claims] obtain binding failed c where b: "authorized_binding a ?acceptance ?execution = Inr (binding, failed)"
    and c: "hashJson sha (assessCompliance a ?execution binding) = Inr c" "hashJson sha (?r ''compliance'') = Inr c"
    using v3 by (elim binding_claims_accepted) blast
  show ?thesis
  proof (cases "collide sha (assessCompliance a ?execution binding) (?r ''compliance'')")
    case True
    with b facts show ?thesis unfolding Let_def by blast
  next
    case False
    have wf: "wf_js (?r ''compliance'')" using assms(4) by (rule wf_fld)
    have norm: "js_norm (assessCompliance a ?execution binding) = js_norm (?r ''compliance'')"
      by (rule same_hash [OF c wf_assessment [OF b] wf False])
    have "js_norm (fld (assessCompliance a ?execution binding) ''status'') = js_norm (fld (?r ''compliance'') ''status'')"
      using fld_norm [OF wf_assessment [OF b]] fld_norm [OF wf] norm by metis
    then have "fld (assessCompliance a ?execution binding) ''status'' = Str ''COMPLIANT''"
      using status by (cases "fld (assessCompliance a ?execution binding) ''status''") simp_all
    note compliant = compliant_facts [OF this]
    show ?thesis
      using facts compliant full_binding_bound [OF b compliant(3)] unfolding Let_def by blast
  qed
qed

section \<open>A concrete receipt\<close>

definition sample_signers :: signers where
  "sample_signers = \<lparr>sg_hashTypedData = (\<lambda>t. Inr []), sg_verifyTypedData = (\<lambda>t a s. Inr True), sg_verifyContractSignature = None,
     sg_verifyEd25519 = (\<lambda>k m s. Inr True)\<rparr>"

definition sample_authorization_input :: jsval where
  "sample_authorization_input = Obj [(''intent'', sample_intent), (''principal'', Obj [(''type'', Str ''user''), (''id'', Str ''u''), (''account'', sample_address)]),
     (''authorizer'', Obj [(''type'', Str ''eip712''), (''address'', sample_address)]), (''delegate'', Obj [(''agentId'', Str ''b''), (''executor'', sample_address)]),
     (''issuedAt'', Num 5), (''authorizationNonce'', Str zero_policy_hash), (''signature'', Str ''s'')]"

definition sample_id :: jsval where
  "sample_id = Str (''auth_00000000000000000000000000000000'')"

definition sample_signature :: jsval where
  "sample_signature = Str (''AAAAAAAAAAAAAAAAAAAAAAAAAAAAAAAAAAAAAAAAAAAAAAAAAAAAAAAAAAAAAAAAAAAAAAAAAAAAAAAAAAAAAA'')"

definition sample_authorization :: jsval where
  "sample_authorization = Obj [(''schema'', Str ''priorseal.authorization.v2''), (''domain'', Str ''priorseal/authorization/v2''), (''intent'', Obj
     [(''schema'', Str ''priorseal.intent.v1''), (''intentId'', Str ''order-1''), (''chainId'', Num 1), (''action'', Str
     ''TRANSFER''), (''asset'', Str ''eip155:1/native''), (''amount'', Str ''250''), (''sender'', sample_address), (''recipient'',
     sample_address), (''validUntil'', Num 90), (''nonce'', Str ''7''), (''intentHash'', Str (zero_hash []))]),
     (''intentHash'', Str (zero_hash [])), (''principal'', Obj [(''type'', Str ''user''), (''id'', Str ''u''), (''account'',
     sample_address)]), (''authorizer'', Obj [(''type'', Str ''eip712''), (''address'', sample_address)]), (''delegate'', Obj
     [(''agentId'', Str ''b''), (''executor'', sample_address)]), (''issuedAt'', Num 5), (''notBefore'', Num 5), (''expiresAt'', Num 90), (''authorizationNonce'', Str zero_policy_hash), (''maxUses'', Str ''1''), (''audience'', Str ''priorseal''),
     (''policyHash'', Str zero_policy_hash), (''signature'', Str ''s''), (''authorizationId'', sample_id)]"

definition sample_acceptance :: jsval where
  "sample_acceptance = Obj [(''schema'', Str ''priorseal.authorization-receipt.v1''), (''domain'', Str ''priorseal/authorization-receipt/v1''),
     (''authorizationId'', sample_id), (''authorizationHash'', Str (zero_hash [])), (''intentHash'', Str (zero_hash [])),
     (''acceptedAt'', Num 6), (''sequence'', Num 1), (''previousEntryHash'', Null), (''entryHash'', Str (zero_hash [])), (''status'',
     Str ''ACCEPTED''), (''issuer'', Str ''i''), (''algorithm'', Str ''Ed25519''), (''keyId'', Str ''k''), (''signature'',
     sample_signature)]"

definition sample_execution :: jsval where
  "sample_execution = Obj [(''chainId'', Num 1), (''action'', Str ''TRANSFER''), (''sender'', sample_address),
     (''recipient'', sample_address), (''asset'', Str ''eip155:1/native''), (''amount'', Str ''250''), (''nonce'', Str ''7''),
     (''status'', Str ''CONFIRMED''), (''executedAt'', Num 7)]"

definition sample_authorized :: jsval where
  "sample_authorized = Obj [(''schema'', Str AUTHORIZED_RECEIPT_SCHEMA), (''domain'', Str ''priorseal/execution-receipt/v3''),
     (''receiptId'', Str (''psr_00000000000000000000000000000000'')), (''intentHash'', Str (zero_hash [])), (''authorizationHash'', Str (zero_hash [])),
     (''executionHash'', Str (zero_hash [])),
     (''authorizationEvidence'', Obj [(''authorization'', sample_authorization), (''acceptance'', sample_acceptance),
        (''policy'', Obj [(''schema'', Str ''priorseal.policy-evidence.v1''), (''policyHash'', Str zero_policy_hash), (''document'', Null),
           (''result'', Obj [(''allowed'', Bool True), (''reasonCodes'', Arr []), (''policyId'', Null), (''evaluatedAt'', Num 6)])])]),
     (''execution'', sample_execution), (''executionStatus'', Str ''CONFIRMED''),
     (''compliance'', Obj [(''schema'', Str ''priorseal.compliance-assessment.v1''), (''status'', Str ''COMPLIANT''), (''reasonCodes'', Arr [])]),
     (''issuer'', Str ''i''), (''issuedAt'', Num 8), (''validUntil'', Num 90), (''outcome'', Str ''COMPLETED''), (''reasonCodes'', Arr []),
     (''binding'', Obj [(''bound'', Bool True), (''reasonCodes'', Arr [])]), (''algorithm'', Str ''Ed25519''), (''keyId'', Str ''k''),
     (''verifierVersion'', Str ''3.0.0''), (''signature'', sample_signature)]"

definition sample_options :: authorized_options where
  "sample_options = \<lparr>ao_key = Undef, ao_now = Undef, ao_audience = Undef\<rparr>"

lemma sample_authorization_builds: "buildAuthorization zero_hash sample_authorization_input = Inr sample_authorization"
  by code_simp

lemma built_authorizations_ok_witness: "authorization_ok zero_hash sample_authorization"
  using built_authorizations_ok [OF sample_authorization_builds] .

lemma sample_authorized_signed: "verifyEd25519Statement toy_scheme sample_authorized (Str ''p'')"
  by code_simp

lemma sample_authorized_claims: "validateAuthorizedReceiptClaims zero_hash toy_scheme sample_authorized = Accepted sample_authorization"
  by code_simp

lemma sample_acceptance_verifies:
  "acceptance_reply zero_hash toy_scheme sample_pki sample_signers sample_authorized sample_authorization (Str ''p'') sample_options
     = Inr (authorized_reply_of sample_authorized True ''OK'' sample_id)"
  by code_simp

lemma sample_authorized_checks:
  "assertSafeJson sample_authorized = Inr sample_authorized" "truthy (fld sample_authorized ''signature'')"
  "fld sample_authorized ''algorithm'' = Str ''Ed25519''" "key_rejection sample_authorized (ao_key sample_options) = None"
  "acceptance_rejection sample_authorized sample_authorization (fld (fld sample_authorized ''authorizationEvidence'') ''acceptance'')
     (ao_key sample_options) (ao_now sample_options) = None"
  by code_simp+

lemma sample_authorized_verifies:
  "verifyAuthorizedReceipt zero_hash toy_scheme sample_pki sample_signers sample_authorized (Str ''p'') sample_options
     = Inr (authorized_reply_of sample_authorized True ''OK'' sample_id)"
  by (simp add: verifyAuthorizedReceipt_def sample_authorized_checks sample_authorized_signed sample_authorized_claims sample_acceptance_verifies)

lemma verified_receipts_vouched_witness:
  "\<exists>authorization. claims_facts zero_hash toy_scheme sample_authorized authorization
     \<and> receipt_vouched zero_hash toy_scheme sample_pki sample_signers sample_authorized (Str ''p'') authorization"
  using verified_receipts_vouched [OF sample_authorized_verifies] by simp

lemma sample_authorized_compliant: "ar_complianceStatus (authorized_reply_of sample_authorized True ''OK'' sample_id) = Str ''COMPLIANT''"
  by (simp add: authorized_reply_of_def sample_authorized_def)

lemma sample_authorized_wf: "wf_js sample_authorized"
  by (simp add: sample_authorized_def sample_authorization_def sample_acceptance_def sample_execution_def sample_id_def sample_signature_def
    sample_address_def max_safe_def)

lemma verified_compliant_receipts_witness:
  "\<exists>authorization. buildAuthorization zero_hash (fld (fld sample_authorized ''authorizationEvidence'') ''authorization'') = Inr authorization
    \<and> (let acceptance = fld (fld sample_authorized ''authorizationEvidence'') ''acceptance''; execution = fld sample_authorized ''execution'' in
       final_status execution \<and> executor_correlates authorization execution \<and> matches_intent (fld authorization ''intent'') execution
       \<and> \<not> after_execution acceptance execution \<and> \<not> outside_authorization authorization execution
       \<or> (\<exists>binding failed. authorized_binding authorization acceptance execution = Inr (binding, failed)
            \<and> collide zero_hash (assessCompliance authorization execution binding) (fld sample_authorized ''compliance'')))"
  by (rule verified_compliant_receipts [OF sample_authorized_verifies _ sample_authorized_compliant sample_authorized_wf]) simp

end
