(* ===== verification/Js_Effects.thy ===== *)
theory Js_Effects
  imports Js_Prelude
begin

text \<open>
  Code that changes a store and may throw: a computation takes the state to the state it leaves and to its
  result or the error it threw.  What was written before the error stays written.
\<close>

type_synonym ('s, 'a) action = "'s \<Rightarrow> 's \<times> 'a result"

definition bindA :: "('s, 'a) action \<Rightarrow> ('a \<Rightarrow> ('s, 'b) action) \<Rightarrow> ('s, 'b) action" where
  "bindA m k s = (case m s of (t, Inl e) \<Rightarrow> (t, Inl e) | (t, Inr x) \<Rightarrow> k x t)"

text \<open>Code that only computes, an operation that writes nothing when it throws, and a read.\<close>

definition computeA :: "'a result \<Rightarrow> ('s, 'a) action" where
  "computeA r s = (s, r)"

definition storeA :: "('s \<Rightarrow> ('s \<times> 'a) result) \<Rightarrow> ('s, 'a) action" where
  "storeA f s = (case f s of Inl e \<Rightarrow> (s, Inl e) | Inr (t, x) \<Rightarrow> (t, Inr x))"

definition readA :: "('s \<Rightarrow> 'a) \<Rightarrow> ('s, 'a) action" where
  "readA f s = (s, Inr (f s))"

abbreviation returnA :: "'a \<Rightarrow> ('s, 'a) action" where
  "returnA x \<equiv> computeA (Inr x)"

abbreviation throwA :: "jerr \<Rightarrow> ('s, 'a) action" where
  "throwA e \<equiv> computeA (Inl e)"

definition requireA :: "bool \<Rightarrow> jerr \<Rightarrow> ('s, unit) action" where
  "requireA ok e = computeA (if ok then Inr () else Inl e)"

lemma bindA_case [code_unfold]: "bindA m k s = (case m s of (t, r) \<Rightarrow> (case r of Inl e \<Rightarrow> (t, Inl e) | Inr x \<Rightarrow> k x t))"
  by (auto simp: bindA_def split: prod.splits sum.splits)

lemma bindA_eq_Inr: "bindA m k s = (t, Inr y) \<longleftrightarrow> (\<exists>u x. m s = (u, Inr x) \<and> k x u = (t, Inr y))"
  by (auto simp: bindA_def split: prod.splits sum.splits)

lemma bindA_assoc: "bindA (bindA m f) g = bindA m (\<lambda>x. bindA (f x) g)"
  by (rule ext) (simp add: bindA_def split: prod.splits sum.splits)

lemma bindA_computeA [simp]:
  "bindA (computeA (Inr x)) k s = k x s"
  "bindA (computeA (Inl e)) k s = (s, Inl e)"
  by (simp_all add: bindA_def computeA_def)

lemma computeA_eq_Inr [simp]: "computeA r s = (t, Inr y) \<longleftrightarrow> t = s \<and> r = Inr y"
  by (auto simp: computeA_def)

lemma computeA_eq_Inl [simp]: "computeA r s = (t, Inl e) \<longleftrightarrow> t = s \<and> r = Inl e"
  by (auto simp: computeA_def)

lemma readA_eq [simp]: "readA f s = (t, Inr y) \<longleftrightarrow> t = s \<and> y = f s" "readA f s \<noteq> (t, Inl e)"
  by (auto simp: readA_def)

lemma storeA_eq_Inr [simp]: "storeA f s = (t, Inr y) \<longleftrightarrow> f s = Inr (t, y)"
  by (auto simp: storeA_def split: sum.splits prod.splits)

lemma storeA_eq_Inl [simp]: "storeA f s = (t, Inl e) \<longleftrightarrow> f s = Inl e \<and> t = s"
  by (auto simp: storeA_def split: sum.splits prod.splits)

lemma requireA_eq_Inr [simp]: "requireA ok e s = (t, Inr u) \<longleftrightarrow> t = s \<and> ok"
  by (simp add: requireA_def)

lemma bindA_InrE:
  assumes "bindA m k s = (t, Inr y)"
  obtains u x where "m s = (u, Inr x)" "k x u = (t, Inr y)"
  using assms by (auto simp: bindA_eq_Inr)

lemma bind_computeE:
  assumes "bindA (computeA r) k s = (t, Inr y)"
  obtains x where "r = Inr x" "k x s = (t, Inr y)"
  using assms by (auto simp: bindA_eq_Inr)

lemma bind_readE:
  assumes "bindA (readA f) k s = (t, Inr y)"
  obtains "k (f s) s = (t, Inr y)"
  using assms by (auto simp: bindA_eq_Inr)

lemma bind_storeE:
  assumes "bindA (storeA f) k s = (t, Inr y)"
  obtains u x where "f s = Inr (u, x)" "k x u = (t, Inr y)"
  using assms by (auto simp: bindA_eq_Inr)

lemma bind_requireE:
  assumes "bindA (requireA ok e) k s = (t, Inr y)"
  obtains "ok" "k () s = (t, Inr y)"
  using assms by (auto simp: bindA_eq_Inr)

lemmas action_elims = bind_requireE bind_computeE bind_readE bind_storeE

end
