(* ===== verification/Issuing.thy ===== *)
theory Issuing
  imports Authorization Js_Effects
begin

text \<open>
  src/application/intents/create-intent.mjs and src/application/authorizations/authorize-intent.mjs: the
  two services that admit new intents and authorizations, over the store of \<^verbatim>\<open>Auth_Store\<close>.  The
  providers of time stamps and of witness quorums are arguments of the code and of the model; the clock is
  read once per request.  Shown: what is accepted was signed, admitted by the policy and written to the log;
  the services write only through the operations of the store; and a refused intent is answered as a success
  when the request is repeated.
\<close>

section \<open>New intents\<close>

text \<open>The verdict of a policy, with the value the reply shows; without a policy everything is allowed.\<close>

definition intent_policy_verdict :: "jsval \<Rightarrow> jsval \<Rightarrow> int \<Rightarrow> (bool \<times> jsval) result" where
  "intent_policy_verdict intent policy now = (
     if truthy policy then letE (evaluateIntentPolicy intent policy (now div 1000)) (\<lambda>r. Inr (pr_allowed r, policy_result_value r))
     else Inr (True, Obj [(''allowed'', Bool True), (''reasonCodes'', Arr []), (''policyId'', Null)]))"

definition policy_compatible :: "jsval \<Rightarrow> jsval \<Rightarrow> bool" where
  "policy_compatible intent policy = fst (evaluateNewIntentPolicyCompatibility intent (orElse policy (Obj [])))"

definition createIntent :: "(string \<Rightarrow> string) \<Rightarrow> jsval \<Rightarrow> jsval \<Rightarrow> jsval \<Rightarrow> int \<Rightarrow> (auth_store, bool \<times> jsval) action" where
  "createIntent sha input key policyArg now = (
     let policy = or_default policyArg Null in
     bindA (readA (\<lambda>s. findIdempotentReplay sha (getIdempotency s) ''create-intent'' key input now)) (\<lambda>found.
     bindA (computeA found) (\<lambda>(requestHash, replay).
     case replay of Some response \<Rightarrow> returnA (True, response) | None \<Rightarrow>
     bindA (computeA (letE (assertIssuableIntentInput input) (buildIntent sha))) (\<lambda>intent.
     bindA (computeA (intent_policy_verdict intent policy now)) (\<lambda>(allowed, policyResult).
     bindA (requireA (policy_compatible intent policy) (PriorSealError ''POLICY_REJECTED'')) (\<lambda>_.
     bindA (requireA allowed (PriorSealError ''POLICY_REJECTED'')) (\<lambda>_.
     let response = Obj [(''intent'', intent), (''intentHash'', fld intent ''intentHash''), (''policy'', policyResult)] in
     bindA (storeA (reserveIdempotentResponse sha reserveIdempotency ''create-intent'' key input requestHash response now)) (\<lambda>(replay, answer).
     if replay then returnA (replay, answer) else bindA (storeA (saveIntent intent)) (\<lambda>_. returnA (replay, answer))))))))))"

section \<open>New authorizations\<close>

record issuer_env =
  ie_privateKeyPem :: jsval
  ie_issuer :: jsval
  ie_keyId :: jsval
  ie_policy :: jsval
  ie_audience :: jsval
  ie_timestampProvider :: "(jsval \<Rightarrow> int \<Rightarrow> jsval \<Rightarrow> jsval result) option"
  ie_requireTimestamp :: bool
  ie_witnessProvider :: "(jsval \<Rightarrow> int \<Rightarrow> jsval result) option"
  ie_requireWitnessQuorum :: bool
  ie_atomic :: bool

definition active_policy :: "issuer_env \<Rightarrow> jsval" where
  "active_policy env = or_default (ie_policy env) Null"

definition expected_policy_hash :: "(string \<Rightarrow> string) \<Rightarrow> jsval \<Rightarrow> string result" where
  "expected_policy_hash sha policy = (if truthy policy then letE (hashJson sha policy) (\<lambda>h. Inr (''0x'' @ h)) else Inr zero_policy_hash)"

definition policy_verdict :: "jsval \<Rightarrow> jsval \<Rightarrow> int \<Rightarrow> (bool \<times> jsval) result" where
  "policy_verdict authorization policy acceptedAt = (
     if truthy policy then letE (evaluateAuthorizationPolicy authorization policy acceptedAt) (\<lambda>r. Inr (pr_allowed r, policy_result_value r))
     else Inr (True, open_policy_result (Num acceptedAt)))"

text \<open>The tests of a request before the store is asked: the authorization, its policy hash and the verdict.\<close>

definition admit_authorization ::
  "(string \<Rightarrow> string) \<Rightarrow> signers \<Rightarrow> issuer_env \<Rightarrow> int \<Rightarrow> jsval \<Rightarrow> (jsval \<times> string \<times> jsval) result" where
  "admit_authorization sha sg env acceptedAt input = (
     let policy = active_policy env in
     letE (assertIssuableIntentInput (fld input ''intent'')) (\<lambda>_.
     letE (letE (buildAuthorization sha input) assertIssuableAuthorization) (\<lambda>authorization.
     if fld authorization ''schema'' \<noteq> Str AUTHORIZATION_SCHEMA then bad_authorization else
     case verifyAuthorization sha sg authorization (Num acceptedAt) (or_default (ie_audience env) (Str ''priorseal'')) of
       Refused code \<Rightarrow> Inl (PriorSealError code)
     | Accepted _ \<Rightarrow>
         letE (expected_policy_hash sha policy) (\<lambda>expectedPolicyHash.
         if fld authorization ''policyHash'' \<noteq> Str expectedPolicyHash then Inl (PriorSealError ''AUTHORIZATION_POLICY_MISMATCH'') else
         letE (policy_verdict authorization policy acceptedAt) (\<lambda>(allowed, policyResult).
         if \<not> policy_compatible (fld authorization ''intent'') policy then Inl (PriorSealError ''POLICY_REJECTED'') else
         if \<not> allowed then Inl (PriorSealError ''POLICY_REJECTED'') else
         Inr (authorization, expectedPolicyHash, policyResult))))))"

definition verifiedWitnessEvidence :: "(string \<Rightarrow> string) \<Rightarrow> ed25519 \<Rightarrow> jsval \<Rightarrow> jsval \<Rightarrow> jsval \<Rightarrow> jsval \<Rightarrow> jsval result" where
  "verifiedWitnessEvidence sha ed value authorization policy acceptedAt = (
     if \<not> truthy value then Inr Undef else
     letE (verifyWitnessEvidence sha ed value authorization policy acceptedAt Undef) (\<lambda>verification.
     if \<not> er_valid verification then Inl (PriorSealError (er_code verification)) else Inr value))"

definition collect_timestamp :: "(string \<Rightarrow> string) \<Rightarrow> pki \<Rightarrow> issuer_env \<Rightarrow> jsval \<Rightarrow> int \<Rightarrow> jsval result" where
  "collect_timestamp sha pk env authorization acceptedAt = (
     let timestampPolicy = fld (active_policy env) ''timestampPolicy'' in
     if ie_requireTimestamp env \<and> \<not> truthy timestampPolicy then Inl (PriorSealError ''INVALID_TIMESTAMP_POLICY'') else
     if \<not> truthy timestampPolicy then Inr Null else
     case ie_timestampProvider env of None \<Rightarrow> Inl (PriorSealError ''TIMESTAMP_NOT_CONFIGURED'') | Some ask \<Rightarrow>
     letE (ask authorization acceptedAt timestampPolicy) (\<lambda>timestampEvidence.
     if \<not> truthy timestampEvidence then Inr timestampEvidence else
     letE (canonicalize authorization) (\<lambda>data. letE (hashJson sha authorization) (\<lambda>authorizationHash.
     let v = verifyTimestampEvidence pk timestampEvidence data timestampPolicy
           \<lparr>to_authorizationHash = Str authorizationHash, to_requestedAt = Num acceptedAt, to_before = Undef\<rparr> in
     if \<not> tr_valid v then Inl (PriorSealError (tr_code v)) else Inr timestampEvidence))))"

definition collect_witnesses :: "(string \<Rightarrow> string) \<Rightarrow> ed25519 \<Rightarrow> issuer_env \<Rightarrow> jsval \<Rightarrow> int \<Rightarrow> jsval result" where
  "collect_witnesses sha ed env authorization acceptedAt = (
     let witnessPolicy = fld (active_policy env) ''witnessQuorum'' in
     if ie_requireWitnessQuorum env \<and> \<not> truthy witnessPolicy then Inl (PriorSealError ''INVALID_WITNESS_POLICY'') else
     if \<not> truthy witnessPolicy then Inr Null else
     case ie_witnessProvider env of None \<Rightarrow> Inl (PriorSealError ''WITNESS_NOT_CONFIGURED'') | Some ask \<Rightarrow>
     letE (ask authorization acceptedAt) (\<lambda>witnessEvidence.
     if \<not> truthy witnessEvidence then Inr witnessEvidence else
     letE (verifyWitnessEvidence sha ed witnessEvidence authorization witnessPolicy (Num acceptedAt) Undef) (\<lambda>v.
     if \<not> er_valid v then Inl (PriorSealError (er_code v)) else Inr witnessEvidence)))"

text \<open>The record an accepted authorization is kept in, from its log entry.\<close>

definition record_fields ::
  "(string \<Rightarrow> string) \<Rightarrow> ed25519 \<Rightarrow> issuer_env \<Rightarrow> jsval \<Rightarrow> string \<Rightarrow> jsval \<Rightarrow> jsval \<Rightarrow> jsval \<Rightarrow> log_entry \<Rightarrow> (string \<times> jsval) list result" where
  "record_fields sha ed env authorization policyHash policyResult timestampEvidence witnessEvidence entry =
     letE (buildAuthorizationReceipt sha authorization (ie_issuer env) (ie_keyId env) (Num (le_acceptedAt entry))
             (Num (int (le_sequence entry))) (hash_or_null (le_previousEntryHash entry))) (\<lambda>unsigned.
     letE (signAuthorizationReceipt ed unsigned (ie_privateKeyPem env)) (\<lambda>acceptance.
     Inr ([(''acceptance'', acceptance), (''policy'', policyResult),
         (''policyEvidence'', Obj [(''schema'', Str ''priorseal.policy-evidence.v1''), (''policyHash'', Str policyHash),
            (''document'', active_policy env), (''result'', policyResult)])]
       @ spread_if (truthy timestampEvidence) [(''timestampEvidence'', timestampEvidence)]
       @ spread_if (truthy witnessEvidence) [(''witnessEvidence'', witnessEvidence)]
       @ [(''status'', Str ''ACCEPTED''), (''boundTxHash'', Null), (''uses'', Num 0)])))"

definition authorization_response :: "jsval \<Rightarrow> jsval \<Rightarrow> jsval" where
  "authorization_response saved witnessEvidence = Obj (
     [(''authorization'', fld saved ''authorization''), (''acceptance'', fld saved ''acceptance''),
      (''policy'', orElse (fld (fld saved ''policyEvidence'') ''result'') (fld saved ''policy'')), (''policyEvidence'', fld saved ''policyEvidence'')]
     @ spread_if (truthy (fld saved ''timestampEvidence'')) [(''timestampEvidence'', fld saved ''timestampEvidence'')]
     @ spread_if (truthy witnessEvidence) [(''witnessEvidence'', witnessEvidence)])"

text \<open>
  The witness evidence of a record, verified as of the time it was accepted; a record without an acceptance throws
  at \<^verbatim>\<open>existing.acceptance.acceptedAt\<close>.
\<close>

definition record_witnesses :: "(string \<Rightarrow> string) \<Rightarrow> ed25519 \<Rightarrow> jsval \<Rightarrow> jsval \<Rightarrow> jsval result" where
  "record_witnesses sha ed rec witnessPolicy =
     letE (getE (fld rec ''acceptance'') ''acceptedAt'') (\<lambda>acceptedAt.
     verifiedWitnessEvidence sha ed (fld rec ''witnessEvidence'') (fld rec ''authorization'') witnessPolicy acceptedAt)"

text \<open>A store without the combined operation is written in three steps.\<close>

definition save_accepted ::
  "(string \<Rightarrow> string) \<Rightarrow> bool \<Rightarrow> jsval \<Rightarrow> int \<Rightarrow> (log_entry \<Rightarrow> (string \<times> jsval) list result) \<Rightarrow> (auth_store, jsval) action" where
  "save_accepted sha atomic authorization acceptedAt extra = (
     if atomic then storeA (saveAcceptedAuthorization sha authorization acceptedAt (create_record authorization extra)) else
     bindA (computeA (hashJson sha authorization)) (\<lambda>authorizationHash.
     bindA (storeA (appendAuthorizationLog sha authorizationHash acceptedAt)) (\<lambda>entry.
     bindA (storeA (saveIntent (fld authorization ''intent''))) (\<lambda>_.
     bindA (computeA (create_record authorization extra entry)) (\<lambda>rec. storeA (saveAuthorization rec))))))"

definition stored_authorization :: "jsval \<Rightarrow> auth_store \<Rightarrow> jsval" where
  "stored_authorization i s = (case getAuthorization i s of None \<Rightarrow> Null | Some rec \<Rightarrow> rec)"

text \<open>The order id of a Hyperliquid intent must not be reserved by another authorization.\<close>

definition cloid_free :: "jsval \<Rightarrow> auth_store \<Rightarrow> bool" where
  "cloid_free authorization s = (
     let cloid = hyperliquidCloidReservation (fld authorization ''intent'') in
     truthy cloid \<longrightarrow> (let holder = findHyperliquidCloidAuthorization cloid s in
       \<not> truthy holder \<or> js_eq holder (fld authorization ''authorizationId'')))"

definition issue_authorization ::
  "(string \<Rightarrow> string) \<Rightarrow> ed25519 \<Rightarrow> pki \<Rightarrow> issuer_env \<Rightarrow> jsval \<Rightarrow> jsval \<Rightarrow> int \<Rightarrow> string option \<Rightarrow> jsval \<Rightarrow> string \<Rightarrow> jsval
    \<Rightarrow> (auth_store, bool \<times> jsval) action" where
  "issue_authorization sha ed pk env input key now requestHash authorization policyHash policyResult = (
     let acceptedAt = now div 1000; witnessPolicy = fld (active_policy env) ''witnessQuorum'' in
     bindA (readA (cloid_free authorization)) (\<lambda>free.
     bindA (requireA free (PriorSealError ''HYPERLIQUID_CLOID_ALREADY_AUTHORIZED'')) (\<lambda>_.
     bindA (computeA (collect_timestamp sha pk env authorization acceptedAt)) (\<lambda>timestampEvidence.
     bindA (computeA (collect_witnesses sha ed env authorization acceptedAt)) (\<lambda>witnessEvidence.
     bindA (save_accepted sha (ie_atomic env) authorization acceptedAt
              (record_fields sha ed env authorization policyHash policyResult timestampEvidence witnessEvidence)) (\<lambda>saved.
     bindA (requireA (truthy saved) (PlainErr ''Authorization store did not return a record'')) (\<lambda>_.
     bindA (computeA (record_witnesses sha ed saved witnessPolicy)) (\<lambda>savedWitnessEvidence.
     storeA (reserveIdempotentResponse sha reserveIdempotency ''authorize-intent'' key input requestHash
               (authorization_response saved savedWitnessEvidence) now)))))))))"

definition authorizeIntent ::
  "(string \<Rightarrow> string) \<Rightarrow> ed25519 \<Rightarrow> pki \<Rightarrow> signers \<Rightarrow> issuer_env \<Rightarrow> jsval \<Rightarrow> jsval \<Rightarrow> int \<Rightarrow> (auth_store, bool \<times> jsval) action" where
  "authorizeIntent sha ed pk sg env input key now = (
     let witnessPolicy = fld (active_policy env) ''witnessQuorum'' in
     bindA (readA (\<lambda>s. findIdempotentReplay sha (getIdempotency s) ''authorize-intent'' key input now)) (\<lambda>found.
     bindA (computeA found) (\<lambda>(requestHash, replay).
     case replay of Some response \<Rightarrow> returnA (True, response) | None \<Rightarrow>
     bindA (requireA (truthy (ie_privateKeyPem env)) (PriorSealError ''ISSUER_NOT_CONFIGURED'')) (\<lambda>_.
     bindA (computeA (admit_authorization sha sg env (now div 1000) input)) (\<lambda>(authorization, policyHash, policyResult).
     bindA (readA (stored_authorization (fld authorization ''authorizationId''))) (\<lambda>existing.
     if truthy existing then
       bindA (computeA (record_witnesses sha ed existing witnessPolicy)) (\<lambda>existingWitnessEvidence.
       returnA (True, authorization_response existing existingWitnessEvidence))
     else issue_authorization sha ed pk env input key now requestHash authorization policyHash policyResult))))))"

section \<open>The services write through the operations of the store\<close>

definition runs_store :: "(string \<Rightarrow> string) \<Rightarrow> (auth_store, 'a) action \<Rightarrow> bool" where
  "runs_store sha m = (\<forall>s. \<exists>ops. fst (m s) = run_ops (store_exec sha) ops s)"

named_theorems runs "computations that change the store only through its operations"

lemma runs_computeA [runs]: "runs_store sha (computeA r)"
  unfolding runs_store_def computeA_def by (intro allI exI [of _ "[]"]) simp

lemma runs_readA [runs]: "runs_store sha (readA f)"
  unfolding runs_store_def readA_def by (intro allI exI [of _ "[]"]) simp

lemma runs_requireA [runs]: "runs_store sha (requireA ok e)"
  unfolding requireA_def by (rule runs_computeA)

lemma runs_bindA [runs]:
  assumes "runs_store sha m" "\<And>x. runs_store sha (k x)"
  shows "runs_store sha (bindA m k)"
  unfolding runs_store_def
proof
  fix s
  from assms(1) obtain xs where xs: "fst (m s) = run_ops (store_exec sha) xs s" by (auto simp: runs_store_def)
  show "\<exists>ops. fst (bindA m k s) = run_ops (store_exec sha) ops s"
  proof (cases "snd (m s)")
    case (Inl e)
    then show ?thesis using xs by (intro exI [of _ xs]) (cases "m s", simp add: bindA_def)
  next
    case (Inr x)
    from assms(2) obtain ys where "fst (k x (fst (m s))) = run_ops (store_exec sha) ys (fst (m s))"
      by (auto simp: runs_store_def)
    then show ?thesis using xs Inr by (intro exI [of _ "xs @ ys"]) (cases "m s", simp add: bindA_def run_ops_append)
  qed
qed

lemma runs_op:
  assumes "\<And>s. state_only (f s) = store_exec sha c s"
  shows "runs_store sha (storeA f)"
  unfolding runs_store_def
proof
  fix s
  show "\<exists>ops. fst (storeA f s) = run_ops (store_exec sha) ops s"
    using assms [of s, symmetric] by (intro exI [of _ "[c]"]) (auto simp: storeA_def state_only_def letE_def split: sum.splits prod.splits)
qed

lemma runs_store_ops [runs]:
  "runs_store sha (storeA (saveAcceptedAuthorization sha a t (create_record a extra)))"
  "runs_store sha (storeA (appendAuthorizationLog sha h t))"
  "runs_store sha (storeA (saveIntent intent))" "runs_store sha (storeA (saveAuthorization rec))"
  "runs_store sha (storeA (saveObservationReceipt sha i claims ob r))" "runs_store sha (storeA (saveObservation ob))"
  "runs_store sha (storeA (saveReceipt sha r))" "runs_store sha (storeA (bindAuthorization i tx))"
  by (rule runs_op, rule store_exec.simps [symmetric])+

lemma runs_reserve [runs]: "runs_store sha (storeA (reserveIdempotentResponse sha reserveIdempotency scope key request h response now))"
proof (cases "truthy key")
  case False
  then have "storeA (reserveIdempotentResponse sha reserveIdempotency scope key request h response now) = returnA (False, response)"
    by (intro ext) (simp add: reserveIdempotentResponse_def storeA_def computeA_def)
  then show ?thesis by (simp add: runs)
next
  case True
  let ?m = "case h of Some h \<Rightarrow> Inr h | None \<Rightarrow> hashJson sha request"
  show ?thesis
  proof (cases ?m)
    case (Inl e)
    then have "storeA (reserveIdempotentResponse sha reserveIdempotency scope key request h response now) = throwA e"
      using True by (intro ext) (simp add: reserveIdempotentResponse_def storeA_def computeA_def)
    then show ?thesis by (simp add: runs)
  next
    case (Inr g)
    then have "reserveIdempotentResponse sha reserveIdempotency scope key request h response now
        = reserveIdempotency now scope (str_of key) \<lparr>ir_requestHash = g, ir_response = response, ir_expiresAt = now + day_ms\<rparr>"
      using True by (intro ext) (simp add: reserveIdempotentResponse_def)
    then show ?thesis by (metis runs_op store_exec.simps(10))
  qed
qed

lemma runs_if [runs]: "runs_store sha m \<Longrightarrow> runs_store sha n \<Longrightarrow> runs_store sha (if b then m else n)"
  by simp

lemma runs_prod [runs]: "(\<And>x y. runs_store sha (f x y)) \<Longrightarrow> runs_store sha (case p of (x, y) \<Rightarrow> f x y)"
  by (cases p) simp

lemma runs_option [runs]: "runs_store sha m \<Longrightarrow> (\<And>x. runs_store sha (f x)) \<Longrightarrow> runs_store sha (case c of None \<Rightarrow> m | Some x \<Rightarrow> f x)"
  by (cases c) simp_all

lemma createIntent_runs: "runs_store sha (createIntent sha input key policy now)"
  unfolding createIntent_def Let_def by (intro runs)

lemma authorizeIntent_runs: "runs_store sha (authorizeIntent sha ed pk sg env input key now)"
  unfolding authorizeIntent_def issue_authorization_def save_accepted_def Let_def by (intro runs)

section \<open>A refused intent is answered as a success later\<close>

lemma find_none:
  "is_str key \<Longrightarrow> truthy key \<Longrightarrow> IDEMPOTENCY_KEY (str_of key) \<Longrightarrow> hashJson sha request = Inr h \<Longrightarrow>
    getIdempotency s scope (str_of key) = None \<Longrightarrow>
    findIdempotentReplay sha (getIdempotency s) scope key request now = Inr (Some h, None)"
  by (simp add: findIdempotentReplay_def)

lemma find_recorded:
  "is_str key \<Longrightarrow> truthy key \<Longrightarrow> IDEMPOTENCY_KEY (str_of key) \<Longrightarrow> hashJson sha request = Inr h \<Longrightarrow>
    getIdempotency s scope (str_of key) = Some \<lparr>ir_requestHash = h, ir_response = response, ir_expiresAt = e\<rparr> \<Longrightarrow> now < e \<Longrightarrow>
    findIdempotentReplay sha (getIdempotency s) scope key request now = Inr (Some h, Some response)"
  by (simp add: findIdempotentReplay_def)

text \<open>C33. The reply of a new intent is recorded under its idempotency key before the intent is saved.  When saving
  is refused because another intent has the identifier, the caller gets that error, and within a day the same
  request is answered with the recorded reply, as if the intent had been created, although the store still has the other one.\<close>

theorem refused_intent_answered_later:
  assumes key: "is_str key" "truthy key" "IDEMPOTENCY_KEY (str_of key)" "getIdempotency s ''create-intent'' (str_of key) = None"
    and input: "hashJson sha input = Inr h" "letE (assertIssuableIntentInput input) (buildIntent sha) = Inr intent"
    and policy: "intent_policy_verdict intent (or_default policy Null) now = Inr (True, r)" "policy_compatible intent (or_default policy Null)"
    and old: "getIntent (fld intent ''intentId'') s = Some old" "truthy old" "\<not> js_eq (fld old ''intentHash'') (fld intent ''intentHash'')"
    and time: "now' < now + day_ms"
  shows "\<exists>s1. createIntent sha input key policy now s = (s1, Inl (PlainErr ''DUPLICATE_INTENT''))
    \<and> createIntent sha input key policy now' s1
        = (s1, Inr (True, Obj [(''intent'', intent), (''intentHash'', fld intent ''intentHash''), (''policy'', r)]))
    \<and> getIntent (fld intent ''intentId'') s1 = Some old"
proof -
  let ?response = "Obj [(''intent'', intent), (''intentHash'', fld intent ''intentHash''), (''policy'', r)]"
  let ?new = "\<lparr>ir_requestHash = h, ir_response = ?response, ir_expiresAt = now + day_ms\<rparr>"
  let ?s1 = "s\<lparr>st_idempotency := map_set (''create-intent'' @ '':'' @ str_of key) ?new (st_idempotency s)\<rparr>"
  have save: "reserveIdempotentResponse sha reserveIdempotency ''create-intent'' key input (Some h) ?response now s = Inr (?s1, False, ?response)"
    using key by (simp add: reserveIdempotentResponse_def reserveIdempotency_def getIdempotency_def)
  have dup: "saveIntent intent ?s1 = Inl (PlainErr ''DUPLICATE_INTENT'')"
    using old by (simp add: saveIntent_def getIntent_def)
  have first: "createIntent sha input key policy now s = (?s1, Inl (PlainErr ''DUPLICATE_INTENT''))"
    using find_none [OF key(1-3) input(1) key(4)] input(2) policy save dup
    by (simp add: createIntent_def Let_def bindA_def readA_def computeA_def requireA_def storeA_def)
  have "getIdempotency ?s1 ''create-intent'' (str_of key) = Some ?new" by (simp add: getIdempotency_def)
  from find_recorded [OF key(1-3) input(1) this time]
  have second: "createIntent sha input key policy now' ?s1 = (?s1, Inr (True, ?response))"
    by (simp add: createIntent_def Let_def bindA_def readA_def computeA_def)
  show ?thesis using first second old(1) by (intro exI [of _ ?s1]) (simp add: getIntent_def)
qed

definition sample_new_intent :: jsval where
  "sample_new_intent = fld sample_authorization ''intent''"

definition occupied_store :: auth_store where
  "occupied_store = empty_store\<lparr>st_intents := [(Str ''order-1'', Obj [(''intentHash'', Str ''other'')])]\<rparr>"

lemma sample_intent_admitted:
  "letE (assertIssuableIntentInput sample_intent) (buildIntent zero_hash) = Inr sample_new_intent"
  "hashJson zero_hash sample_intent = Inr (zero_hash [])" "fld sample_new_intent ''intentId'' = Str ''order-1''"
  "policy_compatible sample_new_intent Null" "fld sample_new_intent ''intentHash'' = Str (zero_hash [])"
  by code_simp+

lemma refused_intent_answered_later_witness:
  "\<exists>s1 response. createIntent zero_hash sample_intent (Str ''k1'') Null 0 occupied_store = (s1, Inl (PlainErr ''DUPLICATE_INTENT''))
    \<and> createIntent zero_hash sample_intent (Str ''k1'') Null 10 s1 = (s1, Inr (True, response))
    \<and> getIntent (Str ''order-1'') s1 = Some (Obj [(''intentHash'', Str ''other'')])"
proof -
  have "\<not> js_eq (fld (Obj [(''intentHash'', Str ''other'')]) ''intentHash'') (fld sample_new_intent ''intentHash'')"
    by (simp add: sample_intent_admitted(5) zero_hash_def)
  from refused_intent_answered_later [OF _ _ _ _ sample_intent_admitted(2,1) _ _ _ _ this, where s = occupied_store and key = "Str ''k1''" and policy = Null and now = 0 and now' = 10]
  show ?thesis
    by (auto simp: IDEMPOTENCY_KEY_def id_char_def is_alnum_def is_digit_def in_range_def day_ms_def getIdempotency_def occupied_store_def empty_store_def getIntent_def
      intent_policy_verdict_def or_default_def sample_intent_admitted)
qed

section \<open>What is accepted was admitted\<close>

definition admitted :: "(string \<Rightarrow> string) \<Rightarrow> signers \<Rightarrow> issuer_env \<Rightarrow> int \<Rightarrow> jsval \<Rightarrow> jsval \<Rightarrow> bool" where
  "admitted sha sg env acceptedAt input a = (
     let policy = active_policy env in
     buildAuthorization sha input = Inr a \<and> fld a ''schema'' = Str AUTHORIZATION_SCHEMA
     \<and> js_eq (fld (fld a ''delegate'') ''executor'') (fld (fld a ''intent'') ''sender'')
     \<and> (\<exists>b. verifyAuthorization sha sg a (Num acceptedAt) (or_default (ie_audience env) (Str ''priorseal'')) = Accepted b)
     \<and> (\<exists>h. expected_policy_hash sha policy = Inr h \<and> fld a ''policyHash'' = Str h)
     \<and> policy_compatible (fld a ''intent'') policy
     \<and> (truthy policy \<longrightarrow> (\<exists>r. evaluateAuthorizationPolicy a policy acceptedAt = Inr r \<and> pr_allowed r)))"

lemma admit_admitted:
  assumes "admit_authorization sha sg env acceptedAt input = Inr (a, h, r)"
  shows "admitted sha sg env acceptedAt input a"
proof -
  from assms obtain b v allowed where b: "letE (buildAuthorization sha input) assertIssuableAuthorization = Inr a"
    and schema: "fld a ''schema'' = Str AUTHORIZATION_SCHEMA"
    and v: "verifyAuthorization sha sg a (Num acceptedAt) (or_default (ie_audience env) (Str ''priorseal'')) = Accepted v"
    and h: "expected_policy_hash sha (active_policy env) = Inr h" "fld a ''policyHash'' = Str h"
    and verdict: "policy_verdict a (active_policy env) acceptedAt = Inr (allowed, r)" "allowed"
    and compat: "policy_compatible (fld a ''intent'') (active_policy env)"
    unfolding admit_authorization_def Let_def by (auto simp: letE_eq_Inr split: if_splits verdict.splits)
  from b have "buildAuthorization sha input = Inr a" "js_eq (fld (fld a ''delegate'') ''executor'') (fld (fld a ''intent'') ''sender'')"
    by (auto simp: letE_eq_Inr assertIssuableAuthorization_def split: if_splits)
  then show ?thesis
    using schema v h verdict compat by (auto simp: admitted_def policy_verdict_def letE_eq_Inr split: if_splits)
qed

lemma issue_returns:
  assumes "issue_authorization sha ed pk env input key now h a ph r s = (s', Inr (False, response))"
  obtains t w u saved sw where "collect_timestamp sha pk env a (now div 1000) = Inr t" "collect_witnesses sha ed env a (now div 1000) = Inr w"
    "save_accepted sha (ie_atomic env) a (now div 1000) (record_fields sha ed env a ph r t w) s = (u, Inr saved)" "truthy saved"
    "response = authorization_response saved sw"
    "reserveIdempotentResponse sha reserveIdempotency ''authorize-intent'' key input h response now u = Inr (s', False, response)"
proof -
  from assms obtain t w u saved sw where *: "collect_timestamp sha pk env a (now div 1000) = Inr t" "collect_witnesses sha ed env a (now div 1000) = Inr w"
    "save_accepted sha (ie_atomic env) a (now div 1000) (record_fields sha ed env a ph r t w) s = (u, Inr saved)" "truthy saved"
    and r: "storeA (reserveIdempotentResponse sha reserveIdempotency ''authorize-intent'' key input h (authorization_response saved sw) now) u = (s', Inr (False, response))"
    unfolding issue_authorization_def Let_def by (elim action_elims bindA_InrE) (rule that, assumption+)
  from r have "response = authorization_response saved sw"
    by (auto simp: reserveIdempotentResponse_def reserveIdempotency_def Let_def letE_eq_Inr split: option.splits if_splits)
  with * r that show ?thesis by simp
qed

lemma authorize_fresh:
  assumes "authorizeIntent sha ed pk sg env input key now s = (s', Inr (False, response))"
  obtains a ph r h where "admit_authorization sha sg env (now div 1000) input = Inr (a, ph, r)"
    "\<not> truthy (stored_authorization (fld a ''authorizationId'') s)"
    "issue_authorization sha ed pk env input key now h a ph r s = (s', Inr (False, response))"
proof -
  from assms obtain h replay where "(case replay of Some response \<Rightarrow> returnA (True, response) | None \<Rightarrow>
     bindA (requireA (truthy (ie_privateKeyPem env)) (PriorSealError ''ISSUER_NOT_CONFIGURED'')) (\<lambda>_.
     bindA (computeA (admit_authorization sha sg env (now div 1000) input)) (\<lambda>(authorization, policyHash, policyResult).
     bindA (readA (stored_authorization (fld authorization ''authorizationId''))) (\<lambda>existing.
     if truthy existing then
       bindA (computeA (record_witnesses sha ed existing (fld (active_policy env) ''witnessQuorum''))) (\<lambda>existingWitnessEvidence.
       returnA (True, authorization_response existing existingWitnessEvidence))
     else issue_authorization sha ed pk env input key now h authorization policyHash policyResult)))) s = (s', Inr (False, response))"
    unfolding authorizeIntent_def Let_def by (elim bind_readE bind_computeE) (auto split: prod.splits)
  then obtain a ph r where "admit_authorization sha sg env (now div 1000) input = Inr (a, ph, r)"
    and "(if truthy (stored_authorization (fld a ''authorizationId'') s) then
       bindA (computeA (record_witnesses sha ed (stored_authorization (fld a ''authorizationId'') s)
                (fld (active_policy env) ''witnessQuorum''))) (\<lambda>existingWitnessEvidence.
       returnA (True, authorization_response (stored_authorization (fld a ''authorizationId'') s) existingWitnessEvidence))
     else issue_authorization sha ed pk env input key now h a ph r) s = (s', Inr (False, response))"
    by (cases replay) (auto elim!: bind_requireE bind_computeE bind_readE split: prod.splits)
  then show ?thesis by (intro that [of a ph r h]) (auto simp: bindA_eq_Inr split: if_splits)
qed

text \<open>The record and the log entry an accepted authorization ends in.\<close>

definition logged_record :: "(string \<Rightarrow> string) \<Rightarrow> jsval \<Rightarrow> (log_entry \<Rightarrow> (string \<times> jsval) list result) \<Rightarrow> auth_store \<Rightarrow> jsval \<Rightarrow> log_entry \<Rightarrow> bool" where
  "logged_record sha a extra s rec e = (create_record a extra e = Inr rec \<and> e \<in> set (authorizationLog s)
     \<and> hashJson sha a = Inr (le_authorizationHash e) \<and> chained sha (authorizationLog s)
     \<and> map_get (st_authorizations s) (fld a ''authorizationId'') = Some rec)"

lemma appended_entry: "appendLogEntry sha e s = Inr s' \<Longrightarrow> authorizationLog s' = authorizationLog s @ [e]"
  by (auto simp: appendLogEntry_def letE_eq_Inr)

lemma next_entry_hash: "next_entry sha h t s = Inr e \<Longrightarrow> le_authorizationHash e = h"
  by (auto simp: next_entry_def Let_def letE_eq_Inr)

lemma save_atomic_logged:
  assumes "saveAcceptedAuthorization sha a t (create_record a extra) s = Inr (s', rec)" "truthy rec"
    and "\<not> truthy (stored_authorization (fld a ''authorizationId'') s)" "log_ok sha s" "hex_hash sha"
  shows "\<exists>e. logged_record sha a extra s' rec e"
proof -
  have new: "map_get (st_authorizations s) (fld a ''authorizationId'') = None"
  proof (cases "map_get (st_authorizations s) (fld a ''authorizationId'')")
    case (Some old)
    with assms(1) have "old = rec" by (simp add: saveAcceptedAuthorization_def)
    with Some assms(2,3) show ?thesis by (simp add: stored_authorization_def getAuthorization_def)
  qed
  have r: "refused a s = None" using assms(1) new by (cases "refused a s") (simp_all add: saveAcceptedAuthorization_def)
  from assms(1) obtain h e s1 where h: "hashJson sha a = Inr h"
    and e: "(case map_get (logByAuthorizationHash s) h of Some entry \<Rightarrow> Inr entry | None \<Rightarrow> next_entry sha h t s) = Inr e"
    and rec: "create_record a extra e = Inr rec"
    and s1: "(if map_get (logByAuthorizationHash s) h = None then appendLogEntry sha e s else Inr s) = Inr s1"
    and s': "s' = keep_authorization a rec (s1\<lparr>st_intents := map_set (fld (fld a ''intent'') ''intentId'') (fld a ''intent'') (st_intents s1)\<rparr>)"
    unfolding saveAcceptedAuthorization_def Let_def new r option.case prod.inject by (elim letE_InrE guard_InrE) (use that in \<open>auto\<close>)
  have "log_ok sha s'" using log_ok_accepted [OF assms(5,4,1)] .
  moreover have "e \<in> set (authorizationLog s1) \<and> le_authorizationHash e = h"
    using e s1 assms(4) next_entry_hash appended_entry
    by (cases "map_get (logByAuthorizationHash s) h") (auto simp: log_ok_index)
  ultimately show ?thesis using h rec by (intro exI [of _ e]) (simp add: logged_record_def s' keep_authorization_def log_ok_def)
qed

lemma save_accepted_logged:
  assumes "save_accepted sha atomic a t extra s = (s', Inr rec)" "truthy rec"
    and "\<not> truthy (stored_authorization (fld a ''authorizationId'') s)" "log_ok sha s" "hex_hash sha"
  shows "\<exists>e. logged_record sha a extra s' rec e"
proof (cases atomic)
  case True
  with assms save_atomic_logged show ?thesis by (simp add: save_accepted_def)
next
  case False
  with assms(1) obtain h s1 e i s2 made where h: "hashJson sha a = Inr h" and a: "appendAuthorizationLog sha h t s = Inr (s1, e)"
    and i: "saveIntent (fld a ''intent'') s1 = Inr (s2, i)" and made: "create_record a extra e = Inr made"
    and w: "saveAuthorization made s2 = Inr (s', rec)"
    unfolding save_accepted_def by (auto elim!: action_elims)
  have same: "same_log s1 s'" using same_log_ops(5) [OF i] same_log_ops(1) [OF w] by (rule same_log_trans)
  have ok: "log_ok sha s'" using same_log_ok [OF same log_ok_append [OF assms(5,4) a]] .
  have e: "e \<in> set (authorizationLog s1) \<and> le_authorizationHash e = h"
    using a assms(4) next_entry_hash appended_entry
    by (cases "map_get (logByAuthorizationHash s) h") (auto simp: appendAuthorizationLog_def log_ok_index letE_eq_Inr)
  have "st_authorizations s2 = st_authorizations s"
    using a i by (auto simp: appendAuthorizationLog_def appendLogEntry_def saveIntent_def Let_def letE_eq_Inr split: option.splits if_splits)
  moreover have auth: "fld made ''authorization'' = a" using made by (auto simp: create_record_def letE_eq_Inr fld_def)
  ultimately have "map_get (st_authorizations s') (fld a ''authorizationId'') = Some rec \<and> rec = made"
    using w assms(2,3) by (auto simp: saveAuthorization_def Let_def stored_authorization_def getAuthorization_def keep_authorization_def split: option.splits)
  then show ?thesis using ok e h made same by (intro exI [of _ e]) (simp add: logged_record_def log_ok_def same_log_def)
qed

lemma record_acceptance:
  assumes rec: "logged_record sha a (record_fields sha ed env a ph r t w) s rec e"
    and pair: "key_pair ed (ie_privateKeyPem env) publicKeyPem"
    and texts: "is_str (ie_issuer env)" "is_str (ie_keyId env)" "is_str (fld a ''authorizationId'')" "is_str (fld a ''intentHash'')"
  shows "fld rec ''authorization'' = a" "fld rec ''boundTxHash'' = Null" "accepts_entry (fld rec ''acceptance'') e"
    "verifyAuthorizationReceipt sha ed (fld rec ''acceptance'') publicKeyPem = Inr True"
proof -
  from rec obtain unsigned acceptance where u: "buildAuthorizationReceipt sha a (ie_issuer env) (ie_keyId env) (Num (le_acceptedAt e))
      (Num (int (le_sequence e))) (hash_or_null (le_previousEntryHash e)) = Inr unsigned"
    and acc: "signEd25519Statement ed unsigned (ie_privateKeyPem env) = Inr acceptance"
    and made: "rec = Obj ([(''authorization'', a), (''acceptance'', acceptance), (''policy'', r),
         (''policyEvidence'', Obj [(''schema'', Str ''priorseal.policy-evidence.v1''), (''policyHash'', Str ph), (''document'', active_policy env), (''result'', r)])]
       @ spread_if (truthy t) [(''timestampEvidence'', t)] @ spread_if (truthy w) [(''witnessEvidence'', w)]
       @ [(''status'', Str ''ACCEPTED''), (''boundTxHash'', Null), (''uses'', Num 0)])"
    unfolding logged_record_def create_record_def record_fields_def signAuthorizationReceipt_def letE_simps
    by (elim conjE letE_InrE) (rule that, assumption+, auto)
  have fields: "fld rec ''authorization'' = a" "fld rec ''acceptance'' = acceptance" "fld rec ''boundTxHash'' = Null"
    by (simp_all add: made fld_spread_if)
  show "fld rec ''authorization'' = a" "fld rec ''boundTxHash'' = Null" using fields by simp_all
  from rec obtain i where i: "i < length (authorizationLog s)" "authorizationLog s ! i = e"
    by (auto simp: logged_record_def in_set_conv_nth)
  with rec have entry: "hashJson sha (entry_value (le_sequence e) (le_authorizationHash e) (le_acceptedAt e) (le_previousEntryHash e)) = Inr (le_entryHash e)"
    by (auto simp: logged_record_def chained_def Let_def)
  have nz: "hash_or_null (le_previousEntryHash e) \<noteq> Undef" by (simp add: hash_or_null_def split: option.splits)
  define kvs where "kvs = [(''schema'', Str AUTHORIZATION_RECEIPT_SCHEMA), (''domain'', Str ''priorseal/authorization-receipt/v1''),
       (''authorizationId'', fld a ''authorizationId''), (''authorizationHash'', Str (le_authorizationHash e)),
       (''intentHash'', fld a ''intentHash''), (''acceptedAt'', Num (le_acceptedAt e)), (''sequence'', Num (int (le_sequence e))),
       (''previousEntryHash'', hash_or_null (le_previousEntryHash e)), (''entryHash'', Str (le_entryHash e)), (''status'', Str ''ACCEPTED''),
       (''issuer'', ie_issuer env), (''algorithm'', Str ''Ed25519''), (''keyId'', ie_keyId env)]"
  have unsigned: "unsigned = Obj kvs"
    using u rec entry nz texts(2) by (auto simp: buildAuthorizationReceipt_def logged_record_def letE_eq_Inr Let_def or_default_def entry_value_def kvs_def)
  have f: "fld acceptance k = fld (Obj kvs) k" if "k \<noteq> ''signature''" for k
    using signed_statement(4) [OF acc that] fld_unsigned [OF that, of unsigned] by (simp add: unsigned)
  show accepts: "accepts_entry (fld rec ''acceptance'') e" by (simp add: fields accepts_entry_def f kvs_def)
  have "clean_json (hash_or_null (le_previousEntryHash e))" "js_depth (hash_or_null (le_previousEntryHash e)) = 0"
    by (simp_all add: hash_or_null_def split: option.splits)
  then have "assertSafeJson unsigned = Inr unsigned"
    using texts by (auto simp: assertSafeJson_Inr safe_visit_iff unsigned kvs_def FORBIDDEN_KEYS_def elim!: is_strE)
  from signed_safe [OF acc _ this] have safe: "assertSafeJson acceptance = Inr acceptance" by (simp add: unsigned)
  have "fields_ok acceptance acceptance_fields"
  proof -
    from signed_fields [OF acc unsigned] obtain sig kvs' where "acceptance = Obj kvs'" "set kvs' \<subseteq> insert (''signature'', Str sig) (set kvs)" .
    then show ?thesis by (auto simp: fields_ok_def assertOnlyFields_Inr acceptance_fields_def kvs_def dest!: subsetD)
  qed
  moreover have "entry_hash_of sha acceptance = Inr (le_entryHash e)"
    using entry by (simp add: entry_hash_of_def f kvs_def entry_value_def)
  ultimately show "verifyAuthorizationReceipt sha ed (fld rec ''acceptance'') publicKeyPem = Inr True"
    using safe signed_verifies [OF pair acc] by (simp add: fields verifyAuthorizationReceipt_def f kvs_def)
qed

lemma reserveIdempotency_keeps:
  "reserveIdempotency now sc k new s = Inr (s', x) \<Longrightarrow> st_authorizations s' = st_authorizations s"
  by (auto simp: reserveIdempotency_def Let_def split: option.splits if_splits)

lemma reserve_keeps:
  assumes "reserveIdempotentResponse sha reserveIdempotency scope key request h response now s = Inr (s', x)"
  shows "same_log s s'" "st_authorizations s' = st_authorizations s"
proof -
  have "s' = s \<or> (\<exists>new. reserveIdempotency now scope (str_of key) new s = Inr (s', x))"
    using assms by (cases "truthy key") (simp_all add: reserveIdempotentResponse_def letE_eq_Inr, blast)
  then show "same_log s s'" "st_authorizations s' = st_authorizations s"
    using same_log_ops(7) reserveIdempotency_keeps by (cases x, auto)+
qed

text \<open>C5. A request that is accepted anew, in any history of the store, names an authorization that was signed for
  the issuer's audience at the time of acceptance, whose delegate is the sender of its intent, which carries the
  hash of the active policy and is allowed by it.  It is then in the store, unbound, its hash is in the log, and the
  acceptance in the reply is the one of that log entry and verifies with the issuer's public key.\<close>

theorem accepted_authorizations_admitted:
  assumes call: "authorizeIntent sha ed pk sg env input key now (history sha ops) = (s', Inr (False, response))"
    and hex: "hex_hash sha" and pair: "key_pair ed (ie_privateKeyPem env) publicKeyPem"
    and texts: "is_str (ie_issuer env)" "is_str (ie_keyId env)"
  shows "\<exists>a rec e. admitted sha sg env (now div 1000) input a
    \<and> getAuthorization (fld a ''authorizationId'') s' = Some rec \<and> fld rec ''authorization'' = a \<and> fld rec ''boundTxHash'' = Null
    \<and> e \<in> set (authorizationLog s') \<and> hashJson sha a = Inr (le_authorizationHash e) \<and> accepts_entry (fld rec ''acceptance'') e
    \<and> verifyAuthorizationReceipt sha ed (fld rec ''acceptance'') publicKeyPem = Inr True
    \<and> fld response ''authorization'' = a \<and> fld response ''acceptance'' = fld rec ''acceptance''"
proof -
  from call obtain a ph r h where adm: "admit_authorization sha sg env (now div 1000) input = Inr (a, ph, r)"
    and new: "\<not> truthy (stored_authorization (fld a ''authorizationId'') (history sha ops))"
    and issue: "issue_authorization sha ed pk env input key now h a ph r (history sha ops) = (s', Inr (False, response))"
    by (rule authorize_fresh)
  from issue obtain t w u saved sw where
    save: "save_accepted sha (ie_atomic env) a (now div 1000) (record_fields sha ed env a ph r t w) (history sha ops) = (u, Inr saved)"
      "truthy saved" and response: "response = authorization_response saved sw"
    and reserve: "reserveIdempotentResponse sha reserveIdempotency ''authorize-intent'' key input h response now u = Inr (s', False, response)"
    by (rule issue_returns)
  from save_accepted_logged [OF save new history_log [OF hex] hex]
  obtain e where e: "logged_record sha a (record_fields sha ed env a ph r t w) u saved e" by blast
  note ok = admit_admitted [OF adm]
  then have "buildAuthorization sha input = Inr a" by (simp add: admitted_def Let_def)
  then have "authorization_ok sha a" by (rule authorization_built)
  then have strs: "is_str (fld a ''authorizationId'')" "is_str (fld a ''intentHash'')"
    by (auto simp: authorization_ok_def identified_def intent_ok_def hashed_intent_hash)
  note rec = record_acceptance [OF e pair texts strs]
  show ?thesis
    using ok rec e reserve_keeps [OF reserve]
    by (intro exI [of _ a] exI [of _ saved] exI [of _ e])
      (simp add: response authorization_response_def logged_record_def getAuthorization_def same_log_def fld_def)
qed

definition sample_issuer :: issuer_env where
  "sample_issuer = \<lparr>ie_privateKeyPem = Str ''p'', ie_issuer = Str ''i'', ie_keyId = Str ''k'', ie_policy = Undef, ie_audience = Undef,
     ie_timestampProvider = None, ie_requireTimestamp = False, ie_witnessProvider = None, ie_requireWitnessQuorum = False, ie_atomic = True\<rparr>"

lemma sample_request_accepted:
  "case snd (authorizeIntent zero_hash toy_scheme sample_pki sample_signers sample_issuer sample_authorization_input Undef 6000 (history zero_hash [])) of
     Inl e \<Rightarrow> False | Inr (replay, response) \<Rightarrow> \<not> replay"
  by code_simp

lemma accepted_authorizations_admitted_witness:
  "\<exists>s' a rec. admitted zero_hash sample_signers sample_issuer 6 sample_authorization_input a
     \<and> getAuthorization (fld a ''authorizationId'') s' = Some rec \<and> length (authorizationLog s') \<noteq> 0
     \<and> verifyAuthorizationReceipt zero_hash toy_scheme (fld rec ''acceptance'') (Str ''p'') = Inr True"
proof -
  obtain s' response where "authorizeIntent zero_hash toy_scheme sample_pki sample_signers sample_issuer sample_authorization_input Undef 6000
      (history zero_hash []) = (s', Inr (False, response))"
    using sample_request_accepted by (cases "authorizeIntent zero_hash toy_scheme sample_pki sample_signers sample_issuer sample_authorization_input Undef 6000
      (history zero_hash [])") (auto split: sum.splits)
  from accepted_authorizations_admitted [OF this hex_zero_hash] show ?thesis
    using toy_key_pair by (fastforce simp: sample_issuer_def)
qed

end
