(* ===== verification/Observing.thy ===== *)
theory Observing
  imports Issuing
begin

text \<open>
  src/application/observations/observe-execution.mjs: the service that observes an execution, issues a
  receipt about it and binds the authorization it used.  The observer of the chain, the provider of
  transparency evidence and the signature schemes are arguments of the code and of the model; the clock is
  read once.  Shown: an authorization is bound only to a transaction observed as final, sent by its executor
  with the nonce of its intent, and deep enough for the constraints of the intent; every receipt handed out
  verifies; and the three services together only ever run operations of the store.
\<close>

section \<open>Does the observation belong to the authorization?\<close>

definition ERC4337_PROFILE :: jsval where
  "ERC4337_PROFILE = Str ''priorseal.execution-profile.erc4337-user-operation.v1''"

definition validTransactionSignature :: "jsval \<Rightarrow> bool \<Rightarrow> bool \<Rightarrow> bool" where
  "validTransactionSignature value solana hyperliquid = (
     if hyperliquid then isHyperliquidCloid value else
     if \<not> solana then TX_HASH_RE (text_of value) else
     is_str value \<and> (case decodeBase58 value of Inl e \<Rightarrow> False | Inr bytes \<Rightarrow> length bytes = 64))"

definition normalizeSolanaSignature :: "jsval \<Rightarrow> jsval result" where
  "normalizeSolanaSignature value = (
     if \<not> is_str value \<or> \<not> validTransactionSignature value True False then Inl (PriorSealError ''INVALID_TX_HASH'') else Inr value)"

definition normalizeHyperliquidCloid :: "jsval \<Rightarrow> jsval result" where
  "normalizeHyperliquidCloid value = (
     if \<not> isHyperliquidCloid value then Inl (PriorSealError ''INVALID_HYPERLIQUID_CLOID'') else Inr (Str (lower (str_of value))))"

text \<open>A delegation the intent does not ask for always matches.\<close>

definition delegation_matches :: "jsval \<Rightarrow> jsval \<Rightarrow> bool" where
  "delegation_matches expected evidence = (nullish expected \<or> matchesEip7702 expected evidence)"

definition user_operation_matches :: "jsval \<Rightarrow> jsval \<Rightarrow> bool" where
  "user_operation_matches intent observation = (let i = fld intent; ob = fld observation in
     same (ob ''userOperationHash'') (i ''userOperationHash'') \<and> same (ob ''entryPoint'') (i ''entryPoint'')
     \<and> same (ob ''entryPointVersion'') (i ''entryPointVersion'') \<and> same (ob ''entryPointCodeHash'') (i ''entryPointCodeHash'')
     \<and> (nullish (i ''accountCallProfile'')
        \<or> same (ob ''accountCallProfile'') (i ''accountCallProfile'') \<and> same (ob ''accountCallTarget'') (i ''accountCallTarget'')
          \<and> same (ob ''accountCallValue'') (i ''accountCallValue'') \<and> same (ob ''accountCallDataHash'') (i ''accountCallDataHash''))
     \<and> delegation_matches (i ''eip7702'') (ob ''eip7702Delegation''))"

text \<open>What both classifications ask first: identifier, intent, chain, sender.\<close>

definition same_transaction :: "jsval \<Rightarrow> jsval \<Rightarrow> bool" where
  "same_transaction authorization observation = (
     let intent = fld authorization ''intent''; profile = fld intent ''executionProfile'';
         solana = (profile = Str SOLANA_TRANSACTION_PROFILE); hyperliquid = (profile = Str HYPERLIQUID_SPOT_IOC_PROFILE) in
     validTransactionSignature (fld observation ''txHash'') solana hyperliquid
     \<and> js_eq (fld observation ''intentHash'') (fld authorization ''intentHash'')
     \<and> js_string (fld observation ''chainId'') = js_string (fld intent ''chainId'')
     \<and> (solana \<longrightarrow> fld observation ''chainRef'' = Str SOLANA_MAINNET_CAIP2)
     \<and> (hyperliquid \<longrightarrow> fld observation ''chainRef'' = Str HYPERLIQUID_MAINNET_CHAIN_REF)
     \<and> sameAddress (fld observation ''sender'') (fld (fld authorization ''delegate'') ''executor'') solana)"

definition classifyAuthorizationAssociation :: "jsval \<Rightarrow> jsval \<Rightarrow> string" where
  "classifyAuthorizationAssociation authorization observation = (
     let intent = fld authorization ''intent'' in
     if \<not> truthy authorization \<or> \<not> truthy observation \<or> fld observation ''executionDataAvailable'' = Bool False then ''UNRELATED'' else
     if \<not> validateTemporalEvidence intent observation then ''UNRELATED'' else
     if \<not> (same_transaction authorization observation \<and> text_of (fld observation ''nonce'') = js_string (fld intent ''nonce'')
           \<and> (fld intent ''executionProfile'' = ERC4337_PROFILE \<longrightarrow> user_operation_matches intent observation)) then ''UNRELATED'' else
     if is_any (fld observation ''status'') [''CONFIRMED'', ''REVERTED''] \<and> is_any (fld observation ''finalityState'') [''CONFIRMED'', ''FINALIZED'']
       then ''FINAL'' else
     if is_any (fld observation ''status'') [''CONFIRMED'', ''REVERTED''] then ''CANDIDATE'' else
     if fld observation ''status'' = Str ''PENDING'' then ''CANDIDATE'' else ''UNRELATED'')"

definition canClaimAuthorization :: "jsval \<Rightarrow> jsval \<Rightarrow> bool" where
  "canClaimAuthorization authorization observation = (classifyAuthorizationAssociation authorization observation = ''FINAL'')"

definition observed_order :: "jsval \<Rightarrow> jsval" where
  "observed_order order = Obj (map (\<lambda>k. (k, fld order k))
     [''assetId'', ''isBuy'', ''limitPrice'', ''size'', ''timeInForce'', ''clientOrderId'', ''expiresAfter''])"

definition same_canonical :: "jsval \<Rightarrow> jsval \<Rightarrow> bool result" where
  "same_canonical a b = letE (canonicalize a) (\<lambda>s. letE (canonicalize b) (\<lambda>t. Inr (s = t)))"

text \<open>The part of the correlation that depends on the execution profile.\<close>

definition execution_matches :: "jsval \<Rightarrow> jsval \<Rightarrow> bool result" where
  "execution_matches intent observation = (let i = fld intent; ob = fld observation; profile = i ''executionProfile'' in
     if profile = Str SOLANA_TRANSACTION_PROFILE then
       (if truthy (ob ''solanaTransaction'') \<and> truthy (i ''solanaTransaction'')
        then same_canonical (ob ''solanaTransaction'') (i ''solanaTransaction'') else Inr False)
     else if profile = Str HYPERLIQUID_SPOT_IOC_PROFILE then
       (if truthy (ob ''hyperliquidOrder'') \<and> truthy (i ''hyperliquidOrder'')
        then same_canonical (observed_order (ob ''hyperliquidOrder'')) (i ''hyperliquidOrder'') else Inr False)
     else if profile = Str ''priorseal.execution-profile.exact-call.v1'' then
       Inr (same (ob ''target'') (i ''callTarget'') \<and> same (ob ''calldataHash'') (i ''calldataHash'')
            \<and> text_of (ob ''nativeValue'') = js_string (i ''transactionValue''))
     else Inr (same (ob ''recipient'') (i ''recipient'') \<and> same (ob ''asset'') (i ''asset'') \<and> text_of (ob ''amount'') = js_string (i ''amount'')))"

definition classifyExecutionCorrelation :: "jsval \<Rightarrow> jsval \<Rightarrow> string result" where
  "classifyExecutionCorrelation authorization observation = (
     let intent = fld authorization ''intent'' in
     if \<not> truthy authorization \<or> \<not> truthy observation \<or> fld observation ''executionDataAvailable'' = Bool False then Inr ''INDETERMINATE'' else
     if \<not> (same_transaction authorization observation \<and> same (fld observation ''action'') (fld intent ''action'')
           \<and> text_of (fld observation ''nonce'') = js_string (fld intent ''nonce'')) then Inr ''MISMATCH'' else
     letE (execution_matches intent observation) (\<lambda>matches.
     Inr (if matches \<and> (fld intent ''executionProfile'' = ERC4337_PROFILE \<longrightarrow> user_operation_matches intent observation)
          then ''MATCH'' else ''MISMATCH'')))"

section \<open>What the observer is asked\<close>

text \<open>
  Lines 35 to 40: the depth asked for; none when a constraint of the intent is no number.  In the intents that buildIntent
  makes the constraints are integers; a fraction, or a tolerated depth that is a text, counts as no number here.
\<close>

definition required_confirmations :: "jsval \<Rightarrow> bool \<Rightarrow> int \<Rightarrow> int option" where
  "required_confirmations constraints off_evm requested = (
     case safe_int (to_num (orElse (fld constraints ''minConfirmations'') (Num 0))) of None \<Rightarrow> None | Some least \<Rightarrow>
     let depth = fld constraints ''maxToleratedReorgDepth'' in
     if off_evm \<or> nullish depth then Some (max requested (if off_evm then least else max least 0)) else
     if is_safe_integer depth then Some (max requested (max least (int_of depth + 1))) else None)"

definition confirmations_value :: "int option \<Rightarrow> jsval" where
  "confirmations_value c = (case c of None \<Rightarrow> Real NotANumber ''NaN'' | Some n \<Rightarrow> Num n)"

definition erc4337_request :: "jsval \<Rightarrow> (string \<times> jsval) list" where
  "erc4337_request intent = (let i = fld intent; s = (\<lambda>k. (k, Str (js_string (i k)))) in
     [s ''entryPoint'', s ''entryPointCodeHash'', (''entryPointVersion'', i ''entryPointVersion''), s ''userOperationHash'']
     @ spread_if (truthy (i ''accountCallProfile'')) [(''accountCallProfile'', i ''accountCallProfile''), s ''accountCallTarget'',
         s ''accountCallValue'', s ''accountCallDataHash'']
     @ spread_if (truthy (i ''eip7702'')) [(''eip7702'', i ''eip7702'')])"

definition observation_request :: "jsval \<Rightarrow> jsval \<Rightarrow> jsval \<Rightarrow> jsval" where
  "observation_request intent tx confirmations = (
     let i = fld intent; profile = i ''executionProfile''; constraints = i ''constraints'';
         common = [(''chainId'', i ''chainId''), (''txHash'', tx), (''confirmations'', confirmations),
           (''finalityRequirement'', orElse (fld constraints ''finalityRequirement'') (Str ''CONFIRMATIONS'')),
           (''maxToleratedReorgDepth'', orElse (fld constraints ''maxToleratedReorgDepth'') Null)];
         kind = (\<lambda>name reference. [(''kind'', Str name), (''reference'', Obj ((''kind'', Str name) # reference))]) in
     Obj (if profile = Str SOLANA_TRANSACTION_PROFILE then
            kind ''solana-signature'' [(''chainRef'', Str SOLANA_MAINNET_CAIP2), (''signature'', tx)] @ common
            @ [(''solanaTransaction'', i ''solanaTransaction'')]
          else if profile = Str HYPERLIQUID_SPOT_IOC_PROFILE then
            kind ''venue-order'' [(''venue'', Str ''hyperliquid''), (''account'', i ''sender''), (''clientOrderId'', tx)] @ common
            @ [(''hyperliquidOrder'', i ''hyperliquidOrder''), (''hyperliquidNonce'', i ''nonce''), (''hyperliquidUser'', i ''sender'')]
          else kind ''evm-transaction'' [(''chainId'', i ''chainId''), (''txHash'', tx)] @ common
            @ spread_if (profile = ERC4337_PROFILE) [(''erc4337'', Obj (erc4337_request intent))]))"

definition transaction_id :: "jsval \<Rightarrow> jsval \<Rightarrow> jsval result" where
  "transaction_id intent value = (
     if fld intent ''executionProfile'' = Str SOLANA_TRANSACTION_PROFILE then normalizeSolanaSignature value else
     if fld intent ''executionProfile'' = Str HYPERLIQUID_SPOT_IOC_PROFILE then normalizeHyperliquidCloid value else txHash value)"

definition off_chain_profile :: "jsval \<Rightarrow> bool" where
  "off_chain_profile intent = is_any (fld intent ''executionProfile'') [SOLANA_TRANSACTION_PROFILE, HYPERLIQUID_SPOT_IOC_PROFILE]"

text \<open>Lines 31 to 40: the request fits the intent.\<close>

definition check_request :: "jsval \<Rightarrow> jsval \<Rightarrow> (jsval \<times> int option) result" where
  "check_request input intent =
     letE (transaction_id intent (fld input ''txHash'')) (\<lambda>tx.
     if truthy (fld input ''intentId'') \<and> \<not> js_eq (fld input ''intentId'') (fld intent ''intentId'') then Inl (PriorSealError ''INVALID_REQUEST'') else
     if fld input ''chainId'' \<noteq> Undef \<and> js_string (fld input ''chainId'') \<noteq> js_string (fld intent ''chainId'')
       then Inl (PriorSealError ''INVALID_REQUEST'') else
     let requested = orElse (fld input ''confirmations'') (Num 0) in
     if \<not> is_safe_integer requested \<or> int_of requested < 0 \<or> 10000 < int_of requested then Inl (PriorSealError ''INVALID_REQUEST'') else
     Inr (tx, required_confirmations (fld intent ''constraints'') (off_chain_profile intent) (int_of requested)))"

section \<open>What is made of the answer\<close>

text \<open>Lines 45 to 49.\<close>

definition checked_observation :: "jsval \<Rightarrow> jsval \<Rightarrow> jsval \<Rightarrow> jsval result" where
  "checked_observation intent tx observed =
     letE (transaction_id intent (fld observed ''txHash'')) (\<lambda>observedTx.
     if observedTx \<noteq> tx then Inl (PriorSealError ''OBSERVATION_TX_HASH_MISMATCH'') else
     if js_string (fld observed ''chainId'') \<noteq> js_string (fld intent ''chainId'')
        \<or> fld intent ''executionProfile'' = Str SOLANA_TRANSACTION_PROFILE \<and> fld observed ''chainRef'' \<noteq> Str SOLANA_MAINNET_CAIP2
        \<or> fld intent ''executionProfile'' = Str HYPERLIQUID_SPOT_IOC_PROFILE \<and> fld observed ''chainRef'' \<noteq> Str HYPERLIQUID_MAINNET_CHAIN_REF
       then Inl (PriorSealError ''OBSERVATION_CHAIN_MISMATCH'') else
     if \<not> is_str (fld observed ''status'') then Inl (PriorSealError ''RPC_INVALID_RESPONSE'') else
     Inr (with_field (with_field observed ''txHash'' observedTx) ''intentHash'' (fld intent ''intentHash'')))"

definition deep_enough :: "jsval \<Rightarrow> int option \<Rightarrow> jsval \<Rightarrow> bool" where
  "deep_enough constraints confirmations observation = (
     (if fld constraints ''finalityRequirement'' = Str ''RPC_FINALIZED'' then fld observation ''finalityState'' = Str ''FINALIZED''
      else is_any (fld observation ''finalityState'') [''CONFIRMED'', ''FINALIZED''])
     \<and> (case (safe_int (to_num (orElse (fld observation ''confirmations'') (Num 0))), confirmations) of
          (Some seen, Some needed) \<Rightarrow> needed \<le> seen | _ \<Rightarrow> False))"

definition with_finality :: "jsval \<Rightarrow> string \<Rightarrow> string \<Rightarrow> jsval" where
  "with_finality observation status state = with_field (with_field observation ''status'' (Str status)) ''finalityState'' (Str state)"

text \<open>Lines 50 to 55: a final status without the depth asked for is pending, a changed block is a reorganisation.\<close>

definition settle_observation :: "jsval \<Rightarrow> int option \<Rightarrow> jsval \<Rightarrow> jsval \<Rightarrow> jsval" where
  "settle_observation constraints confirmations previous observation = (
     let deep = (if is_any (fld observation ''status'') [''CONFIRMED'', ''REVERTED''] \<and> \<not> deep_enough constraints confirmations observation
           then with_finality observation ''PENDING'' ''INSUFFICIENT_FINALITY'' else observation)
     in if detectReorg previous deep
        then with_field (with_finality deep ''REORGED'' ''REORGED'') ''previousBlockHash'' (fld previous ''blockHash'') else deep)"

section \<open>The service\<close>

record observer_env =
  oe_observer :: "jsval \<Rightarrow> jsval result"
  oe_privateKeyPem :: jsval
  oe_publicKeyPem :: jsval
  oe_issuer :: jsval
  oe_keyId :: jsval
  oe_transparency :: "(jsval \<Rightarrow> jsval \<Rightarrow> jsval result) option"
  oe_audience :: jsval
  oe_atomic :: bool

definition observation_fields :: "string list" where
  "observation_fields = [''intentId'', ''authorizationId'', ''intent'', ''chainId'', ''txHash'', ''confirmations'']"

definition text_or_nothing :: "jsval \<Rightarrow> bool" where
  "text_or_nothing v = (nullish v \<or> is_str v)"

definition stored_intent :: "jsval \<Rightarrow> auth_store \<Rightarrow> jsval" where
  "stored_intent i s = (case getIntent i s of None \<Rightarrow> Undef | Some v \<Rightarrow> v)"

definition last_observation :: "jsval \<Rightarrow> jsval \<Rightarrow> auth_store \<Rightarrow> jsval" where
  "last_observation chain tx s = (case getObservation chain tx s of None \<Rightarrow> Null | Some v \<Rightarrow> v)"

text \<open>Line 26: the intent of the record, of the request, or of the store.\<close>

definition intent_of_request :: "(string \<Rightarrow> string) \<Rightarrow> jsval \<Rightarrow> jsval \<Rightarrow> jsval \<Rightarrow> jsval result" where
  "intent_of_request sha input rec stored =
     letE (if truthy rec then getE (fld rec ''authorization'') ''intent'' else Inr Undef) (\<lambda>authorized.
     if \<not> nullish authorized then Inr authorized else
     if truthy (fld input ''intent'') then buildIntent sha (fld input ''intent'') else
     if truthy (fld input ''intentId'') then Inr stored else Inr Null)"

text \<open>Lines 57 to 68: the evidence of the record, against the time of the execution.\<close>

definition execution_instant :: "jsval \<Rightarrow> jsval" where
  "execution_instant observation = orElse (fld observation ''executedAt'') (orElse (fld observation ''observedAt'') Undef)"

definition check_evidence_before :: "(string \<Rightarrow> string) \<Rightarrow> ed25519 \<Rightarrow> pki \<Rightarrow> jsval \<Rightarrow> jsval \<Rightarrow> unit result" where
  "check_evidence_before sha ed pk rec before = (
     let authorization = fld rec ''authorization''; acceptedAt = fld (fld rec ''acceptance'') ''acceptedAt'';
         document = fld (fld rec ''policyEvidence'') ''document''; timestampPolicy = fld document ''timestampPolicy'';
         witnessPolicy = fld document ''witnessQuorum'' in
     letE (if \<not> truthy timestampPolicy then Inr () else
           letE (canonicalize authorization) (\<lambda>data. letE (hashJson sha authorization) (\<lambda>h.
           let v = verifyTimestampEvidence pk (fld rec ''timestampEvidence'') data timestampPolicy
                 \<lparr>to_authorizationHash = Str h, to_requestedAt = acceptedAt, to_before = before\<rparr>
           in if \<not> tr_valid v then Inl (PriorSealError (tr_code v)) else Inr ()))) (\<lambda>_.
     if \<not> truthy witnessPolicy then Inr () else
     letE (verifyWitnessEvidence sha ed (fld rec ''witnessEvidence'') authorization witnessPolicy acceptedAt before) (\<lambda>v.
     if \<not> er_valid v then Inl (PriorSealError (er_code v)) else Inr ())))"

text \<open>Line 72, for times that are integers; any other time is not accepted by the receipts below.\<close>

definition receipt_time :: "int \<Rightarrow> jsval \<Rightarrow> jsval" where
  "receipt_time now observation = (
     case safe_int (to_num (orElse (fld observation ''observedAt'') (orElse (fld observation ''executedAt'') (Num 0)))) of
       None \<Rightarrow> Real NotANumber ''NaN'' | Some t \<Rightarrow> Num (max (now div 1000) t))"

definition make_receipt ::
  "(string \<Rightarrow> string) \<Rightarrow> ed25519 \<Rightarrow> observer_env \<Rightarrow> jsval \<Rightarrow> jsval \<Rightarrow> jsval \<Rightarrow> jsval \<Rightarrow> jsval \<Rightarrow> jsval result" where
  "make_receipt sha ed env rec intent observation transparency issuedAt = (
     if \<not> truthy (oe_privateKeyPem env) then Inr Null else
     if \<not> truthy (oe_issuer env) \<or> \<not> truthy (oe_keyId env) then Inl TypeErr else
     letE (if truthy rec then buildAuthorizedReceipt sha ed \<lparr>ri_authorization = fld rec ''authorization'', ri_acceptance = fld rec ''acceptance'',
             ri_policyEvidence = fld rec ''policyEvidence'', ri_timestampEvidence = fld rec ''timestampEvidence'',
             ri_witnessEvidence = fld rec ''witnessEvidence'', ri_transparency = transparency, ri_execution = observation,
             ri_issuer = oe_issuer env, ri_keyId = oe_keyId env, ri_issuedAt = issuedAt, ri_verifierVersion = Undef, ri_schema = Undef\<rparr>
           else buildReceipt sha intent observation (oe_issuer env) (oe_keyId env) issuedAt (Str ''1.0.0'') []) (\<lambda>unsigned.
     signReceipt ed unsigned (oe_privateKeyPem env)))"

text \<open>The verdict of the verifier over the new receipt: whether it is valid, its code, and the value shown.\<close>

definition self_verification ::
  "(string \<Rightarrow> string) \<Rightarrow> ed25519 \<Rightarrow> pki \<Rightarrow> signers \<Rightarrow> observer_env \<Rightarrow> jsval \<Rightarrow> jsval \<Rightarrow> (bool \<times> string \<times> jsval) result" where
  "self_verification sha ed pk sg env rec receipt = (
     if truthy rec then
       letE (verifyAuthorizedReceipt sha ed pk sg receipt (oe_publicKeyPem env) \<lparr>ao_key = Undef, ao_now = Undef, ao_audience = oe_audience env\<rparr>) (\<lambda>v.
       Inr (ar_valid v, ar_code v, Obj [(''valid'', Bool (ar_valid v)), (''code'', Str (ar_code v)), (''outcome'', ar_outcome v),
         (''executionStatus'', ar_executionStatus v), (''complianceStatus'', ar_complianceStatus v), (''receiptId'', ar_receiptId v),
         (''authorizationId'', ar_authorizationId v)]))
     else letE (verifyReceipt sha ed receipt (oe_publicKeyPem env) \<lparr>vo_keyId = oe_keyId env, vo_key = Undef, vo_now = Undef\<rparr>) (\<lambda>v.
       Inr (vr_valid v, vr_code v, Obj [(''valid'', Bool (vr_valid v)), (''code'', Str (vr_code v)), (''outcome'', vr_outcome v),
         (''receiptId'', vr_receiptId v)])))"

text \<open>Lines 73 to 83: the receipt, when there is a key, and its verdict; one that does not verify is not handed out.\<close>

definition verified_receipt ::
  "(string \<Rightarrow> string) \<Rightarrow> ed25519 \<Rightarrow> pki \<Rightarrow> signers \<Rightarrow> observer_env \<Rightarrow> jsval \<Rightarrow> jsval \<Rightarrow> jsval \<Rightarrow> jsval \<Rightarrow> jsval \<Rightarrow> (jsval \<times> jsval) result" where
  "verified_receipt sha ed pk sg env rec intent observation transparency issuedAt =
     letE (make_receipt sha ed env rec intent observation transparency issuedAt) (\<lambda>receipt.
     if \<not> truthy receipt then Inr (receipt, Null) else
     if \<not> truthy (oe_publicKeyPem env) then Inl TypeErr else
     letE (self_verification sha ed pk sg env rec receipt) (\<lambda>(valid, code, verification).
     if \<not> valid then Inl (PriorSealError code) else Inr (receipt, verification)))"

definition bind_result :: "bind_reply \<Rightarrow> unit result" where
  "bind_result r = (case r of Bound _ \<Rightarrow> Inr () | BindRefused code \<Rightarrow> Inl (PriorSealError code))"

text \<open>Lines 91 to 101.\<close>

definition save_observed ::
  "(string \<Rightarrow> string) \<Rightarrow> bool \<Rightarrow> jsval \<Rightarrow> bool \<Rightarrow> jsval \<Rightarrow> jsval \<Rightarrow> (auth_store, unit) action" where
  "save_observed sha atomic rec claims observation receipt = (
     let authorizationId = fld (fld rec ''authorization'') ''authorizationId'' in
     if atomic then
       bindA (storeA (saveObservationReceipt sha authorizationId claims observation receipt)) (\<lambda>committed. computeA (bind_result committed))
     else
       bindA (if claims \<and> truthy rec
              then bindA (storeA (bindAuthorization authorizationId (fld observation ''txHash''))) (\<lambda>binding. computeA (bind_result binding))
              else returnA ()) (\<lambda>_.
       bindA (storeA (saveObservation observation)) (\<lambda>_.
       if truthy receipt then bindA (storeA (saveReceipt sha receipt)) (\<lambda>_. returnA ()) else returnA ())))"

text \<open>Lines 57 to 102, for the settled observation.\<close>

definition record_observation ::
  "(string \<Rightarrow> string) \<Rightarrow> ed25519 \<Rightarrow> pki \<Rightarrow> signers \<Rightarrow> observer_env \<Rightarrow> jsval \<Rightarrow> jsval \<Rightarrow> int \<Rightarrow> string option \<Rightarrow> jsval \<Rightarrow> jsval \<Rightarrow> jsval
    \<Rightarrow> (auth_store, bool \<times> jsval) action" where
  "record_observation sha ed pk sg env input key now requestHash rec intent observation = (
     let authorization = fld rec ''authorization''; before = execution_instant observation in
     bindA (computeA (case oe_transparency env of Some ask \<Rightarrow> if truthy rec then ask (fld rec ''acceptance'') before else Inr Null
                      | None \<Rightarrow> Inr Null)) (\<lambda>transparency.
     bindA (computeA (check_evidence_before sha ed pk rec before)) (\<lambda>_.
     let association = (if truthy rec then classifyAuthorizationAssociation authorization observation else []);
         claims = (association = ''FINAL'') in
     bindA (computeA (if truthy rec then letE (classifyExecutionCorrelation authorization observation) (\<lambda>c. Inr [(''executionCorrelation'', Str c)])
                      else Inr [])) (\<lambda>correlation.
     bindA (computeA (verified_receipt sha ed pk sg env rec intent observation transparency (receipt_time now observation))) (\<lambda>(receipt, verification).
     let response = Obj ([(''observation'', observation), (''receipt'', receipt)]
           @ spread_if (truthy rec) [(''authorizationAssociation'', Str association)] @ correlation
           @ spread_if (truthy verification) [(''verification'', verification)]) in
     bindA (save_observed sha (oe_atomic env) rec claims observation receipt) (\<lambda>_.
     storeA (reserveIdempotentResponse sha reserveIdempotency ''observe-execution'' key input requestHash response now)))))))"

definition observe_intent ::
  "(string \<Rightarrow> string) \<Rightarrow> ed25519 \<Rightarrow> pki \<Rightarrow> signers \<Rightarrow> observer_env \<Rightarrow> jsval \<Rightarrow> jsval \<Rightarrow> int \<Rightarrow> string option \<Rightarrow> jsval \<Rightarrow> jsval
    \<Rightarrow> (auth_store, bool \<times> jsval) action" where
  "observe_intent sha ed pk sg env input key now requestHash rec intent =
     bindA (computeA (check_request input intent)) (\<lambda>(tx, confirmations).
     bindA (readA (last_observation (fld intent ''chainId'') tx)) (\<lambda>previous.
     bindA (computeA (letE (oe_observer env (observation_request intent tx (confirmations_value confirmations))) (checked_observation intent tx))) (\<lambda>observed.
     let observation = settle_observation (fld intent ''constraints'') confirmations previous observed in
     bindA (requireA (validateTemporalEvidence intent observation) (PriorSealError ''INVALID_TEMPORAL_EVIDENCE'')) (\<lambda>_.
     record_observation sha ed pk sg env input key now requestHash rec intent observation))))"

definition observeExecution ::
  "(string \<Rightarrow> string) \<Rightarrow> ed25519 \<Rightarrow> pki \<Rightarrow> signers \<Rightarrow> observer_env \<Rightarrow> jsval \<Rightarrow> jsval \<Rightarrow> int \<Rightarrow> (auth_store, bool \<times> jsval) action" where
  "observeExecution sha ed pk sg env input key now =
     bindA (requireA (truthy (oe_privateKeyPem env) \<longrightarrow> truthy (oe_publicKeyPem env)) TypeErr) (\<lambda>_.
     bindA (computeA (assertOnlyFields input observation_fields)) (\<lambda>_.
     bindA (requireA (text_or_nothing (fld input ''authorizationId'')) (PriorSealError ''INVALID_REQUEST'')) (\<lambda>_.
     bindA (requireA (text_or_nothing (fld input ''intentId'')) (PriorSealError ''INVALID_REQUEST'')) (\<lambda>_.
     bindA (readA (\<lambda>s. findIdempotentReplay sha (getIdempotency s) ''observe-execution'' key input now)) (\<lambda>found.
     bindA (computeA found) (\<lambda>(requestHash, replay).
     case replay of Some response \<Rightarrow> returnA (True, response) | None \<Rightarrow>
     bindA (readA (\<lambda>s. if truthy (fld input ''authorizationId'') then stored_authorization (fld input ''authorizationId'') s else Null)) (\<lambda>rec.
     bindA (requireA (truthy (fld input ''authorizationId'') \<longrightarrow> truthy rec) (PriorSealError ''AUTHORIZATION_NOT_FOUND'')) (\<lambda>_.
     bindA (readA (stored_intent (fld input ''intentId''))) (\<lambda>stored.
     bindA (computeA (intent_of_request sha input rec stored)) (\<lambda>intent.
     bindA (requireA (truthy intent) (PriorSealError ''INTENT_NOT_FOUND'')) (\<lambda>_.
     observe_intent sha ed pk sg env input key now requestHash rec intent)))))))))))"

lemma observeExecution_runs: "runs_store sha (observeExecution sha ed pk sg env input key now)"
  unfolding observeExecution_def observe_intent_def record_observation_def save_observed_def Let_def by (intro runs)

section \<open>What binds an authorization\<close>

lemma getAuthorization_set: "getAuthorization j (set_record i r s) = (if j = i then Some r else getAuthorization j s)"
  by (simp add: getAuthorization_def set_record_def)

lemma getAuthorization_push [simp]: "getAuthorization j (push_observation ob s) = getAuthorization j s"
  by (simp add: getAuthorization_def push_observation_def Let_def)

lemma getAuthorization_receipts [simp]: "getAuthorization j (s\<lparr>st_receipts := m\<rparr>) = getAuthorization j s"
  by (simp add: getAuthorization_def)

lemma saveObservationReceipt_changes:
  assumes "saveObservationReceipt sha i claims ob receipt s = Inr (s', Bound b)" "getAuthorization j s' \<noteq> getAuthorization j s"
  shows "claims \<and> j = i \<and> (\<exists>r. getAuthorization j s = Some r \<and> \<not> truthy (fld r ''boundTxHash'')
    \<and> getAuthorization j s' = Some (bound_record r (fld ob ''txHash'')))"
proof -
  let ?rec = "if truthy i then map_get (st_authorizations s) i else None"
  let ?bound = "case ?rec of None \<Rightarrow> Undef | Some r \<Rightarrow> fld r ''boundTxHash''"
  let ?binds = "claims \<and> \<not> truthy ?bound"
  let ?rec' = "case ?rec of None \<Rightarrow> Null | Some r \<Rightarrow> if ?binds then bound_record r (fld ob ''txHash'') else r"
  let ?s1 = "if ?binds then set_record i ?rec' s else s"
  have rec: "\<not> (claims \<and> ?rec = None)" and s': "getAuthorization j s' = getAuthorization j ?s1"
    using assms(1) unfolding saveObservationReceipt_def Let_def by (auto simp: letE_eq_Inr split: if_splits)
  have binds: ?binds and j: "j = i" using assms(2) s' by (auto simp: getAuthorization_set split: if_splits)
  obtain r where r: "?rec = Some r" using rec binds by (cases ?rec) auto
  then have "getAuthorization i s = Some r" by (simp add: getAuthorization_def split: if_splits)
  then show ?thesis using binds j r s' by (auto simp: getAuthorization_set)
qed

lemma bindAuthorization_changes:
  assumes "bindAuthorization i tx s = Inr (s', Bound b)" "getAuthorization j s' \<noteq> getAuthorization j s"
  shows "j = i \<and> (\<exists>r. getAuthorization j s = Some r \<and> \<not> truthy (fld r ''boundTxHash'') \<and> getAuthorization j s' = Some (bound_record r tx))"
  using assms by (auto simp: bindAuthorization_def Let_def getAuthorization_set getAuthorization_def set_record_def split: option.splits if_splits)

lemma saveReceipt_keeps: "saveReceipt sha r s = Inr (s', x) \<Longrightarrow> getAuthorization j s' = getAuthorization j s"
  by (auto simp: saveReceipt_def Let_def letE_eq_Inr split: option.splits if_splits)

lemma save_observed_changes:
  assumes "save_observed sha atomic rec claims ob receipt s = (s', Inr u)" "getAuthorization j s' \<noteq> getAuthorization j s"
  shows "claims \<and> j = fld (fld rec ''authorization'') ''authorizationId'' \<and> (\<exists>r. getAuthorization j s = Some r
    \<and> \<not> truthy (fld r ''boundTxHash'') \<and> getAuthorization j s' = Some (bound_record r (fld ob ''txHash'')))"
proof (cases atomic)
  case True
  with assms(1) obtain committed where c: "saveObservationReceipt sha (fld (fld rec ''authorization'') ''authorizationId'') claims ob receipt s = Inr (s', committed)"
    "bind_result committed = Inr u" by (auto simp: save_observed_def elim!: bind_storeE)
  then obtain b where "committed = Bound b" by (cases committed) (simp_all add: bind_result_def)
  with saveObservationReceipt_changes [OF _ assms(2)] c(1) show ?thesis by blast
next
  case False
  with assms(1) obtain s1 s2 where b: "(if claims \<and> truthy rec
        then bindA (storeA (bindAuthorization (fld (fld rec ''authorization'') ''authorizationId'') (fld ob ''txHash''))) (\<lambda>binding. computeA (bind_result binding))
        else returnA ()) s = (s1, Inr ())"
    and o: "saveObservation ob s1 = Inr (s2, ob)"
    and r: "(if truthy receipt then bindA (storeA (saveReceipt sha receipt)) (\<lambda>_. returnA ()) else returnA ()) s2 = (s', Inr u)"
    unfolding save_observed_def Let_def by (auto elim!: bindA_InrE simp: saveObservation_def)
  have "getAuthorization k s' = getAuthorization k s1" for k
    using o r saveReceipt_keeps by (auto simp: saveObservation_def elim!: bind_storeE split: if_splits)
  with assms(2) have changed: "getAuthorization j s1 \<noteq> getAuthorization j s" and same: "getAuthorization j s' = getAuthorization j s1" by simp_all
  from changed b have claims: claims by (auto split: if_splits)
  from changed b obtain binding where c: "bindAuthorization (fld (fld rec ''authorization'') ''authorizationId'') (fld ob ''txHash'') s = Inr (s1, binding)"
    "bind_result binding = Inr ()" by (auto elim!: bind_storeE split: if_splits)
  then obtain b where "binding = Bound b" by (cases binding) (simp_all add: bind_result_def)
  with bindAuthorization_changes [OF _ changed] c(1) claims same show ?thesis by auto
qed

text \<open>What an observation must show before it is taken as final for a request.\<close>

definition settled_for :: "jsval \<Rightarrow> jsval \<Rightarrow> jsval \<Rightarrow> bool" where
  "settled_for input intent ob = (let constraints = fld intent ''constraints''; depth = fld constraints ''maxToleratedReorgDepth'' in
     is_any (fld ob ''status'') [''CONFIRMED'', ''REVERTED''] \<and> is_any (fld ob ''finalityState'') [''CONFIRMED'', ''FINALIZED'']
     \<and> (fld constraints ''finalityRequirement'' = Str ''RPC_FINALIZED'' \<longrightarrow> fld ob ''finalityState'' = Str ''FINALIZED'')
     \<and> (\<exists>seen least. safe_int (to_num (orElse (fld ob ''confirmations'') (Num 0))) = Some seen
          \<and> safe_int (to_num (orElse (fld constraints ''minConfirmations'') (Num 0))) = Some least
          \<and> int_of (orElse (fld input ''confirmations'') (Num 0)) \<le> seen \<and> least \<le> seen
          \<and> (\<not> off_chain_profile intent \<and> is_safe_integer depth \<longrightarrow> int_of depth < seen)))"

lemma required_enough:
  assumes "required_confirmations constraints off requested = Some n"
  shows "requested \<le> n" "\<exists>least. safe_int (to_num (orElse (fld constraints ''minConfirmations'') (Num 0))) = Some least \<and> least \<le> n"
    "\<not> off \<Longrightarrow> is_safe_integer (fld constraints ''maxToleratedReorgDepth'') \<Longrightarrow> int_of (fld constraints ''maxToleratedReorgDepth'') < n"
proof -
  have "\<not> nullish v" if "is_safe_integer v" for v using that by (auto simp: nullish_def is_safe_integer_def)
  with assms show "requested \<le> n" "\<exists>least. safe_int (to_num (orElse (fld constraints ''minConfirmations'') (Num 0))) = Some least \<and> least \<le> n"
    "\<not> off \<Longrightarrow> is_safe_integer (fld constraints ''maxToleratedReorgDepth'') \<Longrightarrow> int_of (fld constraints ''maxToleratedReorgDepth'') < n"
    by (auto simp: required_confirmations_def Let_def split: option.splits if_splits)
qed

lemma with_finality_simps:
  "is_obj ob \<Longrightarrow> fld (with_finality ob st fs) ''status'' = Str st" "is_obj ob \<Longrightarrow> is_obj (with_finality ob st fs)"
  by (cases ob; simp add: with_finality_def with_field_def fld_set_field)+

text \<open>An observation keeps a final status only when it was deep enough, and then it is the one observed.\<close>

lemma settle_final:
  assumes "is_obj ob" "is_any (fld (settle_observation c n previous ob) ''status'') [''CONFIRMED'', ''REVERTED'']"
  shows "settle_observation c n previous ob = ob \<and> deep_enough c n ob"
  using assms by (auto simp: settle_observation_def Let_def with_finality_simps fld_with_field_other split: if_splits)

lemma deep_settled:
  assumes "deep_enough (fld intent ''constraints'') n ob" "is_any (fld ob ''status'') [''CONFIRMED'', ''REVERTED'']"
    and "check_request input intent = Inr (tx, n)"
  shows "settled_for input intent ob"
proof -
  from assms(3) have n: "n = required_confirmations (fld intent ''constraints'') (off_chain_profile intent) (int_of (orElse (fld input ''confirmations'') (Num 0)))"
    by (auto simp: check_request_def Let_def letE_eq_Inr split: if_splits)
  from assms(1) obtain seen needed where deep: "safe_int (to_num (orElse (fld ob ''confirmations'') (Num 0))) = Some seen" "n = Some needed" "needed \<le> seen"
    by (auto simp: deep_enough_def split: option.splits)
  note required = required_enough [OF n [symmetric, unfolded deep(2)]]
  show ?thesis
    using assms(1,2) deep required
    by (auto simp: settled_for_def Let_def deep_enough_def split: if_splits)
qed

lemma reserve_answer:
  "reserveIdempotentResponse sha reserveIdempotency scope key request h response now s = Inr (s', False, answer) \<Longrightarrow> answer = response"
  by (auto simp: reserveIdempotentResponse_def reserveIdempotency_def Let_def letE_eq_Inr split: option.splits if_splits)

lemma association_final:
  assumes "classifyAuthorizationAssociation a ob = ''FINAL''"
  shows "same_transaction a ob" "text_of (fld ob ''nonce'') = js_string (fld (fld a ''intent'') ''nonce'')"
    "is_any (fld ob ''status'') [''CONFIRMED'', ''REVERTED'']"
  using assms by (auto simp: classifyAuthorizationAssociation_def Let_def split: if_splits)

text \<open>One observation that was recorded, and what it may have changed.\<close>

lemma record_observation_changes:
  assumes "record_observation sha ed pk sg env input key now h rec intent ob s = (s', Inr (False, response))"
    and changed: "getAuthorization j s' \<noteq> getAuthorization j s"
  shows "fld response ''observation'' = ob \<and> truthy rec \<and> classifyAuthorizationAssociation (fld rec ''authorization'') ob = ''FINAL''
    \<and> j = fld (fld rec ''authorization'') ''authorizationId'' \<and> (\<exists>r. getAuthorization j s = Some r
    \<and> \<not> truthy (fld r ''boundTxHash'') \<and> getAuthorization j s' = Some (bound_record r (fld ob ''txHash'')))"
proof -
  let ?association = "if truthy rec then classifyAuthorizationAssociation (fld rec ''authorization'') ob else []"
  from assms(1) obtain fs u answer where saved: "save_observed sha (oe_atomic env) rec (?association = ''FINAL'') ob answer s = (u, Inr ())"
    and reserve: "reserveIdempotentResponse sha reserveIdempotency ''observe-execution'' key input h (Obj ((''observation'', ob) # fs)) now u = Inr (s', False, response)"
    unfolding record_observation_def Let_def
    by (elim bindA_InrE bind_computeE) (auto split: prod.splits elim!: bindA_InrE)
  have kept: "getAuthorization i s' = getAuthorization i u" for i using reserve_keeps(2) [OF reserve] by (simp add: getAuthorization_def)
  from changed kept have "getAuthorization j u \<noteq> getAuthorization j s" by simp
  from save_observed_changes [OF saved this] kept reserve_answer [OF reserve] show ?thesis
    by (auto simp: fld_def split: if_splits)
qed

lemma checked_is_obj:
  assumes "checked_observation intent tx observed = Inr ob"
  shows "is_obj ob"
proof -
  from assms obtain v where "transaction_id intent (fld observed ''txHash'') = Inr v"
    and ob: "ob = with_field (with_field observed ''txHash'' v) ''intentHash'' (fld intent ''intentHash'')"
    by (auto simp: checked_observation_def letE_eq_Inr split: if_splits)
  then have "is_obj observed"
    by (cases observed) (auto simp: transaction_id_def normalizeSolanaSignature_def normalizeHyperliquidCloid_def isHyperliquidCloid_def
      txHash_def fld_def is_str_def is_obj_def split: if_splits)
  then show ?thesis by (cases observed) (simp_all add: ob with_field_def is_obj_def)
qed

lemma observe_intent_records:
  assumes "observe_intent sha ed pk sg env input key now h rec intent s = (s', Inr (False, response))"
  obtains tx n previous observed ob where "check_request input intent = Inr (tx, n)" "checked_observation intent tx observed = Inr ob"
    "record_observation sha ed pk sg env input key now h rec intent (settle_observation (fld intent ''constraints'') n previous ob) s = (s', Inr (False, response))"
proof -
  from assms obtain tx n where tx: "check_request input intent = Inr (tx, n)" and
    next_: "bindA (readA (last_observation (fld intent ''chainId'') tx)) (\<lambda>previous.
       bindA (computeA (letE (oe_observer env (observation_request intent tx (confirmations_value n))) (checked_observation intent tx))) (\<lambda>observed.
       let observation = settle_observation (fld intent ''constraints'') n previous observed in
       bindA (requireA (validateTemporalEvidence intent observation) (PriorSealError ''INVALID_TEMPORAL_EVIDENCE'')) (\<lambda>_.
       record_observation sha ed pk sg env input key now h rec intent observation))) s = (s', Inr (False, response))"
    unfolding observe_intent_def by (elim bind_computeE) (auto split: prod.splits)
  from next_ show ?thesis
    unfolding Let_def by (elim action_elims) (auto simp: letE_eq_Inr intro: that [OF tx])
qed

lemma observeExecution_fresh:
  assumes "observeExecution sha ed pk sg env input key now s = (s', Inr (False, response))"
  obtains h rec intent stored where "rec = (if truthy (fld input ''authorizationId'') then stored_authorization (fld input ''authorizationId'') s else Null)"
    "intent_of_request sha input rec stored = Inr intent" "truthy intent"
    "observe_intent sha ed pk sg env input key now h rec intent s = (s', Inr (False, response))"
proof -
  define rec where "rec = (if truthy (fld input ''authorizationId'') then stored_authorization (fld input ''authorizationId'') s else Null)"
  define rest where "rest h = bindA (requireA (truthy (fld input ''authorizationId'') \<longrightarrow> truthy rec) (PriorSealError ''AUTHORIZATION_NOT_FOUND'')) (\<lambda>_.
     bindA (readA (stored_intent (fld input ''intentId''))) (\<lambda>stored.
     bindA (computeA (intent_of_request sha input rec stored)) (\<lambda>intent.
     bindA (requireA (truthy intent) (PriorSealError ''INTENT_NOT_FOUND'')) (\<lambda>_.
     observe_intent sha ed pk sg env input key now h rec intent))))" for h
  have read: "bindA (readA (\<lambda>s. if truthy (fld input ''authorizationId'') then stored_authorization (fld input ''authorizationId'') s else Null)) k s = k rec s" for k
    by (simp add: rec_def bindA_def readA_def)
  from assms obtain h where "rest h s = (s', Inr (False, response))"
    unfolding observeExecution_def
    by (elim bind_requireE bind_computeE bind_readE) (auto simp: read rest_def [symmetric] split: prod.splits option.splits)
  then show ?thesis
    unfolding rest_def by (elim action_elims) (rule that [OF rec_def], assumption+)
qed

lemma intent_of_record: "truthy rec \<Longrightarrow> intent_of_request sha input rec stored = Inr intent \<Longrightarrow>
    \<not> nullish (fld (fld rec ''authorization'') ''intent'') \<Longrightarrow> intent = fld (fld rec ''authorization'') ''intent''"
  by (auto simp: intent_of_request_def getE_def letE_eq_Inr split: if_splits)

text \<open>C2. When a request to observe an execution changes a stored authorization, that is the authorization the
  request loaded; it was not bound before and is now bound to the transaction of the observation in the reply.  That
  observation belongs to the authorization: same intent, chain and executor, same nonce.  And its status is final:
  confirmed or reverted, finalized where the intent asks for it, and as deep as the request, the least number of
  confirmations and the tolerated reorganisation of the intent ask for.\<close>

theorem authorizations_bound_by_final_observations:
  assumes call: "observeExecution sha ed pk sg env input key now s = (s', Inr (False, response))"
    and changed: "getAuthorization j s' \<noteq> getAuthorization j s"
    and intents: "\<forall>i r. getAuthorization i s = Some r \<longrightarrow> \<not> nullish (fld (fld r ''authorization'') ''intent'')"
  shows "\<exists>a r. a = fld (stored_authorization (fld input ''authorizationId'') s) ''authorization'' \<and> j = fld a ''authorizationId''
    \<and> getAuthorization j s = Some r \<and> \<not> truthy (fld r ''boundTxHash'')
    \<and> getAuthorization j s' = Some (bound_record r (fld (fld response ''observation'') ''txHash''))
    \<and> same_transaction a (fld response ''observation'')
    \<and> text_of (fld (fld response ''observation'') ''nonce'') = js_string (fld (fld a ''intent'') ''nonce'')
    \<and> settled_for input (fld a ''intent'') (fld response ''observation'')"
proof -
  from call obtain h rec intent stored where rec: "rec = (if truthy (fld input ''authorizationId'') then stored_authorization (fld input ''authorizationId'') s else Null)"
    and intent: "intent_of_request sha input rec stored = Inr intent" and observe: "observe_intent sha ed pk sg env input key now h rec intent s = (s', Inr (False, response))"
    by (rule observeExecution_fresh)
  from observe obtain tx n previous observed ob where request: "check_request input intent = Inr (tx, n)"
    and checked: "checked_observation intent tx observed = Inr ob"
    and record_: "record_observation sha ed pk sg env input key now h rec intent (settle_observation (fld intent ''constraints'') n previous ob) s = (s', Inr (False, response))"
    by (rule observe_intent_records)
  let ?a = "fld rec ''authorization''" and ?ob = "settle_observation (fld intent ''constraints'') n previous ob"
  from record_observation_changes [OF record_ changed] obtain r where shown: "fld response ''observation'' = ?ob" and rec': "truthy rec"
    and final: "classifyAuthorizationAssociation ?a ?ob = ''FINAL''" and j: "j = fld ?a ''authorizationId''"
    and r: "getAuthorization j s = Some r" "\<not> truthy (fld r ''boundTxHash'')" "getAuthorization j s' = Some (bound_record r (fld ?ob ''txHash''))"
    by (elim conjE exE)
  have loaded: "rec = stored_authorization (fld input ''authorizationId'') s" using rec rec' by (simp split: if_splits)
  then obtain i where "getAuthorization i s = Some rec" using rec' by (auto simp: stored_authorization_def split: option.splits)
  then have same_intent: "intent = fld ?a ''intent''" using intents intent_of_record [OF rec' intent] by simp
  note association = association_final [OF final]
  from settle_final [OF checked_is_obj [OF checked] association(3)] have "deep_enough (fld intent ''constraints'') n ?ob" by simp
  then have settled: "settled_for input intent ?ob" using association(3) request by (rule deep_settled)
  show ?thesis
    by (rule exI [of _ ?a], rule exI [of _ r]) (use loaded j r association settled in \<open>simp add: shown same_intent\<close>)
qed

definition sample_watched :: jsval where
  "sample_watched = Obj [(''authorization'', Obj [(''authorizationId'', Str ''a''), (''intentHash'', Str ''h''),
       (''delegate'', Obj [(''executor'', Str ''0xAb'')]), (''intent'', Obj [(''chainId'', Num 1), (''nonce'', Str ''7''), (''intentHash'', Str ''h''),
          (''constraints'', Obj [(''minConfirmations'', Num 2)])])]), (''boundTxHash'', Null)]"

definition sample_observer :: observer_env where
  "sample_observer = \<lparr>oe_observer = (\<lambda>_. Inr (Obj [(''txHash'', Str zero_policy_hash), (''chainId'', Num 1), (''status'', Str ''REVERTED''),
       (''finalityState'', Str ''CONFIRMED''), (''confirmations'', Num 3), (''sender'', Str ''0xaB''), (''nonce'', Num 7), (''executedAt'', Num 5)])),
     oe_privateKeyPem = Undef, oe_publicKeyPem = Undef, oe_issuer = Undef, oe_keyId = Undef, oe_transparency = None, oe_audience = Undef, oe_atomic = True\<rparr>"

definition watched_store :: auth_store where
  "watched_store = empty_store\<lparr>st_authorizations := [(Str ''a'', sample_watched)]\<rparr>"

definition sample_observation_input :: jsval where
  "sample_observation_input = Obj [(''authorizationId'', Str ''a''), (''txHash'', Str zero_policy_hash), (''confirmations'', Num 1)]"

lemma sample_observation_binds:
  "case observeExecution zero_hash toy_scheme sample_pki sample_signers sample_observer sample_observation_input Undef 6000 watched_store of
     (s', Inl e) \<Rightarrow> False | (s', Inr (replay, response)) \<Rightarrow> \<not> replay \<and> getAuthorization (Str ''a'') s' \<noteq> getAuthorization (Str ''a'') watched_store"
  by code_simp

lemma authorizations_bound_by_final_observations_witness:
  "\<exists>s' response. getAuthorization (Str ''a'') s' = Some (bound_record sample_watched (fld (fld response ''observation'') ''txHash''))
     \<and> same_transaction (fld sample_watched ''authorization'') (fld response ''observation'')"
proof -
  obtain s' response where run: "observeExecution zero_hash toy_scheme sample_pki sample_signers sample_observer sample_observation_input Undef 6000 watched_store
      = (s', Inr (False, response))" and changed: "getAuthorization (Str ''a'') s' \<noteq> getAuthorization (Str ''a'') watched_store"
    using sample_observation_binds by (auto split: prod.splits sum.splits)
  have loaded: "stored_authorization (fld sample_observation_input ''authorizationId'') watched_store = sample_watched"
    by (simp add: sample_observation_input_def stored_authorization_def getAuthorization_def watched_store_def fld_def)
  have only: "getAuthorization i watched_store = Some r \<Longrightarrow> r = sample_watched" for i r
    by (simp add: getAuthorization_def watched_store_def split: if_splits)
  have "\<not> nullish (fld (fld sample_watched ''authorization'') ''intent'')" by (simp add: sample_watched_def fld_def nullish_def)
  then have "\<forall>i r. getAuthorization i watched_store = Some r \<longrightarrow> \<not> nullish (fld (fld r ''authorization'') ''intent'')"
    by (auto dest!: only)
  from authorizations_bound_by_final_observations [OF run changed this, unfolded loaded]
  obtain a r where a: "a = fld sample_watched ''authorization''" and r: "getAuthorization (Str ''a'') watched_store = Some r"
    and bound: "getAuthorization (Str ''a'') s' = Some (bound_record r (fld (fld response ''observation'') ''txHash''))"
    and same: "same_transaction a (fld response ''observation'')"
    by (elim exE conjE)
  show ?thesis by (intro exI conjI) (rule bound [unfolded only [OF r]], rule same [unfolded a])
qed

end
