(* ===== verification/Payment_Ledger.thy ===== *)
theory Payment_Ledger
  imports Agent_Meter Signing Merkle
begin

text \<open>
  src/domain/x402-payment-ledger.mjs, src/domain/x402-payment-evidence.mjs and the ledger operations of
  src/infrastructure/persistence/memory-store.mjs: the events that record what became of a payment, the store that
  keeps them, and the signed statement about a settled payment.  The hash is the parameter \<^verbatim>\<open>sha\<close>; \<^verbatim>\<open>https_url\<close>
  stands for the runtime's URL parser with the test of the protocol, the credentials and the fragment.
  Shown: what is built can be kept; the list of a ledger holds exactly the events that were accepted for it, each
  once, in the order of their times; a signed payment statement verifies, and one that verifies is about a
  successful settlement on the network that was asked for.
\<close>

section \<open>The parts of an event\<close>

definition X402_PAYMENT_LEDGER_SCHEMA :: string where
  "X402_PAYMENT_LEDGER_SCHEMA = ''priorseal.x402-payment-ledger.v1''"

definition hex_id :: "string \<Rightarrow> string \<Rightarrow> bool" where
  "hex_id prefix s = after prefix (lower_hex_n 32) s"

definition is_integer :: "jsval \<Rightarrow> bool" where
  "is_integer v = (case v of Num n \<Rightarrow> True | _ \<Rightarrow> False)"

definition integer_in :: "int \<Rightarrow> int \<Rightarrow> jsval \<Rightarrow> bool" where
  "integer_in lo hi v = (is_integer v \<and> lo \<le> int_of v \<and> int_of v \<le> hi)"

definition eip155_network :: "string \<Rightarrow> bool" where
  "eip155_network = after ''eip155:'' posint_text"

definition assertSettlementTransaction :: "jsval \<Rightarrow> jsval \<Rightarrow> unit result" where
  "assertSettlementTransaction network transaction = (
     if eip155_network (js_string network) \<and> bytes32 (js_string transaction) then Inr () else
     if network = Str SOLANA_MAINNET_CAIP2 \<and> (case decodeBase58 transaction of Inr bytes \<Rightarrow> length bytes = 64 | Inl e \<Rightarrow> False) then Inr ()
     else Inl TypeErr)"

definition assertResourceUrl :: "(string \<Rightarrow> bool) \<Rightarrow> jsval \<Rightarrow> unit result" where
  "assertResourceUrl https_url value = (if str_test value https_url then Inr () else Inl TypeErr)"

definition assertOccurredAt :: "jsval \<Rightarrow> unit result" where
  "assertOccurredAt value = (if \<not> is_safe_integer value \<or> int_of value \<le> 0 then Inl TypeErr else Inr ())"

definition requirement_ok :: "jsval \<Rightarrow> bool" where
  "requirement_ok value = (is_obj value \<and> fld value ''scheme'' = Str ''exact'' \<and> is_str (fld value ''network'')
     \<and> str_test (fld value ''amount'') digits_text \<and> is_str (fld value ''asset'') \<and> is_str (fld value ''payTo'')
     \<and> is_safe_integer (fld value ''maxTimeoutSeconds'') \<and> 1 \<le> int_of (fld value ''maxTimeoutSeconds'')
     \<and> is_obj (fld value ''extra'') \<and> list_all (\<lambda>(k, entry). is_str entry) (props (fld value ''extra'')))"

definition assertRequirement :: "jsval \<Rightarrow> unit result" where
  "assertRequirement value = (if requirement_ok value then Inr () else Inl TypeErr)"

definition assertSettlement :: "jsval \<Rightarrow> jsval \<Rightarrow> unit result" where
  "assertSettlement value network = (
     if \<not> is_obj value \<or> \<not> is_bool (fld value ''success'') \<or> \<not> js_eq (fld value ''network'') network \<or> \<not> is_str (fld value ''transaction'')
        \<or> fld value ''errorReason'' \<noteq> Undef \<and> \<not> is_str (fld value ''errorReason'') \<or> fld value ''payer'' \<noteq> Undef \<and> \<not> is_str (fld value ''payer'')
        \<or> fld value ''amount'' \<noteq> Undef \<and> \<not> digits_text (js_string (fld value ''amount'')) then Inl TypeErr else
     if truthy (fld value ''transaction'') then assertSettlementTransaction network (fld value ''transaction'') else Inr ())"

text \<open>What an event of a type must and must not carry; statuses are undefined or integers here.\<close>

definition success_status :: "jsval \<Rightarrow> bool" where
  "success_status v = (v \<noteq> Undef \<and> 200 \<le> int_of v \<and> int_of v < 300)"

definition assertEventConsistency :: "jsval \<Rightarrow> jsval \<Rightarrow> jsval \<Rightarrow> jsval \<Rightarrow> jsval \<Rightarrow> jsval \<Rightarrow> unit result" where
  "assertEventConsistency kind responseStatus responseBody settlement settlementAttempts paymentEvidenceId = (
     if kind = Str ''PAYMENT_AUTHORIZED'' \<and> (responseStatus \<noteq> Undef \<or> responseBody \<noteq> Undef \<or> settlement \<noteq> Undef \<or> settlementAttempts \<noteq> Undef
          \<or> paymentEvidenceId \<noteq> Undef) then Inl TypeErr else
     if kind = Str ''RESOURCE_WITHHELD'' \<and> (responseStatus = Undef \<or> success_status responseStatus \<or> settlement \<noteq> Undef \<or> settlementAttempts \<noteq> Undef
          \<or> paymentEvidenceId \<noteq> Undef) then Inl TypeErr else
     if kind = Str ''SETTLEMENT_FAILED'' \<and> (\<not> truthy settlement \<or> truthy (fld settlement ''success'') \<or> \<not> success_status responseStatus
          \<or> settlementAttempts = Undef \<or> paymentEvidenceId \<noteq> Undef) then Inl TypeErr else
     if kind = Str ''SETTLEMENT_UNKNOWN'' \<and> (settlement \<noteq> Undef \<or> \<not> success_status responseStatus \<or> settlementAttempts \<noteq> Undef
          \<or> paymentEvidenceId \<noteq> Undef) then Inl TypeErr else
     if kind = Str ''DELIVERED'' \<and> (\<not> truthy (fld settlement ''success'') \<or> \<not> success_status responseStatus \<or> responseBody = Undef
          \<or> settlementAttempts = Undef) then Inl TypeErr else Inr ())"

section \<open>Building events\<close>

record ledger_input =
  li_type :: jsval
  li_payload :: jsval
  li_requirement :: jsval
  li_resourceUrl :: jsval
  li_occurredAt :: jsval
  li_responseStatus :: jsval
  li_responseBody :: jsval
  li_settlement :: jsval
  li_settlementAttempts :: jsval
  li_paymentEvidenceId :: jsval

definition ledger_id :: "(string \<Rightarrow> string) \<Rightarrow> string \<Rightarrow> jsval \<Rightarrow> jsval \<Rightarrow> jsval result" where
  "ledger_id sha paymentPayloadHash requirement resourceUrl =
     letE (hashJson sha (Obj [(''paymentPayloadHash'', Str paymentPayloadHash), (''requirement'', requirement), (''resourceUrl'', resourceUrl)]))
       (\<lambda>h. Inr (Str (''xpl_'' @ take 32 h)))"

definition x402PaymentLedgerId :: "(string \<Rightarrow> string) \<Rightarrow> (string \<Rightarrow> bool) \<Rightarrow> jsval \<Rightarrow> jsval \<Rightarrow> jsval \<Rightarrow> jsval result" where
  "x402PaymentLedgerId sha https_url payload requirement resourceUrl =
     letE (assertResourceUrl https_url resourceUrl) (\<lambda>_.
     letE (hashJson sha payload) (\<lambda>h. ledger_id sha h requirement resourceUrl))"

definition with_event_id :: "(string \<Rightarrow> string) \<Rightarrow> (string \<times> jsval) list \<Rightarrow> jsval result" where
  "with_event_id sha unsigned = letE (hashJson sha (Obj unsigned)) (\<lambda>h. Inr (Obj (unsigned @ [(''eventId'', Str (''xle_'' @ take 32 h))])))"

text \<open>Lines 12 to 21: the tests of the input.\<close>

definition check_ledger_input :: "(string \<Rightarrow> bool) \<Rightarrow> ledger_input \<Rightarrow> unit result" where
  "check_ledger_input https_url i = (
     if \<not> is_any (li_type i) [''PAYMENT_AUTHORIZED'', ''RESOURCE_WITHHELD'', ''SETTLEMENT_FAILED'', ''SETTLEMENT_UNKNOWN'', ''DELIVERED'']
       then Inl TypeErr else
     letE (assertSafeJson (li_payload i)) (\<lambda>_.
     letE (assertRequirement (li_requirement i)) (\<lambda>_.
     letE (assertResourceUrl https_url (li_resourceUrl i)) (\<lambda>_.
     letE (assertOccurredAt (li_occurredAt i)) (\<lambda>_.
     if li_responseStatus i \<noteq> Undef \<and> \<not> integer_in 100 599 (li_responseStatus i) then Inl TypeErr else
     letE (if li_settlement i \<noteq> Undef then assertSettlement (li_settlement i) (fld (li_requirement i) ''network'') else Inr ()) (\<lambda>_.
     if li_settlementAttempts i \<noteq> Undef \<and> \<not> integer_in 1 2 (li_settlementAttempts i) then Inl TypeErr else
     if li_paymentEvidenceId i \<noteq> Undef \<and> \<not> hex_id ''psp_'' (js_string (li_paymentEvidenceId i)) then Inl TypeErr else
     assertEventConsistency (li_type i) (li_responseStatus i) (li_responseBody i) (li_settlement i) (li_settlementAttempts i)
       (li_paymentEvidenceId i)))))))"

definition buildX402PaymentLedgerEvent :: "(string \<Rightarrow> string) \<Rightarrow> (string \<Rightarrow> bool) \<Rightarrow> ledger_input \<Rightarrow> jsval result" where
  "buildX402PaymentLedgerEvent sha https_url i =
     letE (check_ledger_input https_url i) (\<lambda>_.
     letE (hashJson sha (li_payload i)) (\<lambda>paymentPayloadHash.
     letE (opt_field (li_responseBody i \<noteq> Undef) ''responseHash'' (letE (hashJson sha (li_responseBody i)) (\<lambda>h. Inr (Str h)))) (\<lambda>responseHash.
     letE (ledger_id sha paymentPayloadHash (li_requirement i) (li_resourceUrl i)) (\<lambda>ledgerId.
     with_event_id sha ([(''schema'', Str X402_PAYMENT_LEDGER_SCHEMA), (''ledgerId'', ledgerId), (''type'', li_type i),
       (''occurredAt'', li_occurredAt i), (''paymentPayloadHash'', Str paymentPayloadHash), (''requirement'', li_requirement i),
       (''resource'', Obj ((''url'', li_resourceUrl i) # spread_if (li_responseStatus i \<noteq> Undef) [(''responseStatus'', li_responseStatus i)] @ responseHash))]
      @ spread_if (li_settlement i \<noteq> Undef) [(''settlement'', li_settlement i)]
      @ spread_if (li_settlementAttempts i \<noteq> Undef) [(''settlementAttempts'', li_settlementAttempts i)]
      @ spread_if (li_paymentEvidenceId i \<noteq> Undef) [(''paymentEvidenceId'', li_paymentEvidenceId i)])))))"

definition reason_code :: "string \<Rightarrow> bool" where
  "reason_code s = (s \<noteq> [] \<and> length s \<le> 128 \<and> list_all (\<lambda>c. is_alnum c \<or> c \<in> {CHR ''_'', CHR ''.'', CHR ''-''}) s)"

definition positive_amount :: "jsval \<Rightarrow> bool result" where
  "positive_amount amount = (if \<not> digits_text (js_string amount) then Inr False else letE (js_BigInt amount) (\<lambda>n. Inr (1 \<le> n)))"

definition buildX402PaymentRefundLedgerEvent :: "(string \<Rightarrow> string) \<Rightarrow> jsval \<Rightarrow> jsval \<Rightarrow> jsval \<Rightarrow> jsval \<Rightarrow> jsval \<Rightarrow> jsval \<Rightarrow> jsval result" where
  "buildX402PaymentRefundLedgerEvent sha ledgerId network transaction amount reasonCode occurredAt = (
     if \<not> hex_id ''xpl_'' (js_string ledgerId) then Inl TypeErr else
     letE (positive_amount amount) (\<lambda>positive.
     if \<not> positive \<or> \<not> reason_code (js_string reasonCode) then Inl TypeErr else
     letE (assertSettlementTransaction network transaction) (\<lambda>_.
     letE (assertOccurredAt occurredAt) (\<lambda>_.
     with_event_id sha [(''schema'', Str X402_PAYMENT_LEDGER_SCHEMA), (''ledgerId'', ledgerId), (''type'', Str ''REFUND_RECORDED''),
       (''occurredAt'', occurredAt),
       (''refund'', Obj [(''network'', network), (''transaction'', transaction), (''amount'', amount), (''reasonCode'', reasonCode)])]))))"

section \<open>Events read back\<close>

definition event_head_ok :: "jsval \<Rightarrow> bool" where
  "event_head_ok value = (is_obj value \<and> fld value ''schema'' = Str X402_PAYMENT_LEDGER_SCHEMA
     \<and> str_test (fld value ''eventId'') (hex_id ''xle_'') \<and> str_test (fld value ''ledgerId'') (hex_id ''xpl_'')
     \<and> is_any (fld value ''type'') [''PAYMENT_AUTHORIZED'', ''RESOURCE_WITHHELD'', ''SETTLEMENT_FAILED'', ''SETTLEMENT_UNKNOWN'', ''DELIVERED'', ''REFUND_RECORDED''])"

definition check_refund :: "jsval \<Rightarrow> unit result" where
  "check_refund refund = (
     if \<not> is_obj refund \<or> \<not> is_str (fld refund ''network'') \<or> \<not> is_str (fld refund ''transaction'') \<or> \<not> is_str (fld refund ''amount'')
        \<or> \<not> is_str (fld refund ''reasonCode'') then Inl TypeErr else
     letE (positive_amount (fld refund ''amount'')) (\<lambda>positive.
     if \<not> positive \<or> \<not> str_test (fld refund ''reasonCode'') reason_code then Inl TypeErr else
     assertSettlementTransaction (fld refund ''network'') (fld refund ''transaction'')))"

definition check_payment_event :: "(string \<Rightarrow> bool) \<Rightarrow> jsval \<Rightarrow> unit result" where
  "check_payment_event https_url value = (
     let resource = fld value ''resource''; responseStatus = fld resource ''responseStatus''; responseHash = fld resource ''responseHash'';
         settlement = fld value ''settlement''; attempts = fld value ''settlementAttempts''; evidence = fld value ''paymentEvidenceId'' in
     if \<not> str_test (fld value ''paymentPayloadHash'') hash64 \<or> \<not> is_obj (fld value ''requirement'') \<or> \<not> is_obj resource then Inl TypeErr else
     letE (assertRequirement (fld value ''requirement'')) (\<lambda>_.
     letE (assertResourceUrl https_url (fld resource ''url'')) (\<lambda>_.
     if responseStatus \<noteq> Undef \<and> \<not> integer_in 100 599 responseStatus then Inl TypeErr else
     if responseHash \<noteq> Undef \<and> \<not> str_test responseHash hash64 then Inl TypeErr else
     letE (if settlement \<noteq> Undef then assertSettlement settlement (fld (fld value ''requirement'') ''network'') else Inr ()) (\<lambda>_.
     if attempts \<noteq> Undef \<and> \<not> integer_in 1 2 attempts then Inl TypeErr else
     if evidence \<noteq> Undef \<and> \<not> str_test evidence (hex_id ''psp_'') then Inl TypeErr else
     assertEventConsistency (fld value ''type'') responseStatus (if responseHash = Undef then Undef else Obj []) settlement attempts evidence))))"

definition assertX402PaymentLedgerEvent :: "(string \<Rightarrow> bool) \<Rightarrow> jsval \<Rightarrow> jsval result" where
  "assertX402PaymentLedgerEvent https_url value =
     letE (assertSafeJson value) (\<lambda>_.
     if \<not> event_head_ok value then Inl TypeErr else
     letE (assertOccurredAt (fld value ''occurredAt'')) (\<lambda>_.
     letE (if fld value ''type'' = Str ''REFUND_RECORDED'' then check_refund (fld value ''refund'') else check_payment_event https_url value) (\<lambda>_.
     Inr value)))"

section \<open>What is built can be kept\<close>

lemma hex_id_hash: "hex_hash sha \<Longrightarrow> hashJson sha v = Inr h \<Longrightarrow> hex_id p (p @ take 32 h)"
  using hash64_hashJson [of sha v h] by (auto simp: hex_id_def lower_hex_n_def list_all_iff dest: in_set_takeD)

lemma fld_given: "fld (Obj (spread_if (v \<noteq> Undef) [(k, v)] @ ys)) k' = (if k' = k \<and> v \<noteq> Undef then v else fld (Obj ys) k')"
  by (auto simp: spread_if_def)

lemma fld_given_last: "fld (Obj (spread_if (v \<noteq> Undef) [(k, v)])) k' = (if k' = k then v else Undef)"
  using fld_given [of v k "[]"] by simp

lemma with_event_id_Inr: "with_event_id sha fs = Inr v \<Longrightarrow> hex_hash sha \<Longrightarrow> \<exists>e. hex_id ''xle_'' e \<and> v = Obj (fs @ [(''eventId'', Str e)])"
  using hex_id_hash [where p = "''xle_''"] by (fastforce simp: with_event_id_def letE_eq_Inr simp del: append_Cons)

lemma ledger_id_Inr: "ledger_id sha h req url = Inr v \<Longrightarrow> hex_hash sha \<Longrightarrow> \<exists>l. hex_id ''xpl_'' l \<and> v = Str l"
  using hex_id_hash [where p = "''xpl_''"] by (fastforce simp: ledger_id_def letE_eq_Inr simp del: append_Cons)

lemma built_event:
  assumes "buildX402PaymentLedgerEvent sha https_url i = Inr event" "hex_hash sha"
  obtains h hash l e where "check_ledger_input https_url i = Inr ()" "hash64 h" "hash = Undef \<longleftrightarrow> li_responseBody i = Undef"
    "hash = Undef \<or> str_test hash hash64" "hex_id ''xpl_'' l" "hex_id ''xle_'' e"
    "event = Obj ([(''schema'', Str X402_PAYMENT_LEDGER_SCHEMA), (''ledgerId'', Str l), (''type'', li_type i),
       (''occurredAt'', li_occurredAt i), (''paymentPayloadHash'', Str h), (''requirement'', li_requirement i),
       (''resource'', Obj ((''url'', li_resourceUrl i) # spread_if (li_responseStatus i \<noteq> Undef) [(''responseStatus'', li_responseStatus i)]
          @ spread_if (hash \<noteq> Undef) [(''responseHash'', hash)]))]
      @ spread_if (li_settlement i \<noteq> Undef) [(''settlement'', li_settlement i)]
      @ spread_if (li_settlementAttempts i \<noteq> Undef) [(''settlementAttempts'', li_settlementAttempts i)]
      @ spread_if (li_paymentEvidenceId i \<noteq> Undef) [(''paymentEvidenceId'', li_paymentEvidenceId i)] @ [(''eventId'', Str e)])"
proof -
  from assms(1) obtain h hs l where c: "check_ledger_input https_url i = Inr ()" and h: "hashJson sha (li_payload i) = Inr h"
    and hs: "opt_field (li_responseBody i \<noteq> Undef) ''responseHash'' (letE (hashJson sha (li_responseBody i)) (\<lambda>h. Inr (Str h))) = Inr hs"
    and l: "ledger_id sha h (li_requirement i) (li_resourceUrl i) = Inr l"
    and e: "with_event_id sha ([(''schema'', Str X402_PAYMENT_LEDGER_SCHEMA), (''ledgerId'', l), (''type'', li_type i),
       (''occurredAt'', li_occurredAt i), (''paymentPayloadHash'', Str h), (''requirement'', li_requirement i),
       (''resource'', Obj ((''url'', li_resourceUrl i) # spread_if (li_responseStatus i \<noteq> Undef) [(''responseStatus'', li_responseStatus i)] @ hs))]
      @ spread_if (li_settlement i \<noteq> Undef) [(''settlement'', li_settlement i)]
      @ spread_if (li_settlementAttempts i \<noteq> Undef) [(''settlementAttempts'', li_settlementAttempts i)]
      @ spread_if (li_paymentEvidenceId i \<noteq> Undef) [(''paymentEvidenceId'', li_paymentEvidenceId i)]) = Inr event"
    unfolding buildX402PaymentLedgerEvent_def by (elim letE_InrE) (rule that, simp_all)
  from hs obtain hash where hash: "hs = spread_if (hash \<noteq> Undef) [(''responseHash'', hash)]" "hash = Undef \<longleftrightarrow> li_responseBody i = Undef"
    "hash = Undef \<or> str_test hash hash64"
    by (elim opt_field_InrE) (auto simp: letE_eq_Inr spread_if_def str_test_def dest: hash64_hashJson [OF _ assms(2)])
  from ledger_id_Inr [OF l assms(2)] obtain g where g: "hex_id ''xpl_'' g" "l = Str g" by blast
  from with_event_id_Inr [OF e assms(2)] obtain u where u: "hex_id ''xle_'' u" and event: "event = Obj (([(''schema'', Str X402_PAYMENT_LEDGER_SCHEMA), (''ledgerId'', l), (''type'', li_type i),
       (''occurredAt'', li_occurredAt i), (''paymentPayloadHash'', Str h), (''requirement'', li_requirement i),
       (''resource'', Obj ((''url'', li_resourceUrl i) # spread_if (li_responseStatus i \<noteq> Undef) [(''responseStatus'', li_responseStatus i)] @ hs))]
      @ spread_if (li_settlement i \<noteq> Undef) [(''settlement'', li_settlement i)]
      @ spread_if (li_settlementAttempts i \<noteq> Undef) [(''settlementAttempts'', li_settlementAttempts i)]
      @ spread_if (li_paymentEvidenceId i \<noteq> Undef) [(''paymentEvidenceId'', li_paymentEvidenceId i)]) @ [(''eventId'', Str u)])" by blast
  show ?thesis
    by (rule that [OF c hash64_hashJson [OF h assms(2)] hash(2,3) g(1) u]) (simp add: event hash(1) g(2))
qed

lemma guard_Inr: "\<not> b \<Longrightarrow> m = Inr y \<Longrightarrow> (if b then Inl e else m) = Inr y"
  by simp

lemma letE_Inr: "m = Inr x \<Longrightarrow> k x = Inr y \<Longrightarrow> letE m k = Inr y"
  by simp

lemma checked_input:
  assumes "check_ledger_input https_url i = Inr ()"
  shows "is_any (li_type i) [''PAYMENT_AUTHORIZED'', ''RESOURCE_WITHHELD'', ''SETTLEMENT_FAILED'', ''SETTLEMENT_UNKNOWN'', ''DELIVERED'']"
    "assertRequirement (li_requirement i) = Inr ()" "assertResourceUrl https_url (li_resourceUrl i) = Inr ()" "assertOccurredAt (li_occurredAt i) = Inr ()"
    "\<not> (li_responseStatus i \<noteq> Undef \<and> \<not> integer_in 100 599 (li_responseStatus i))"
    "\<not> (li_settlementAttempts i \<noteq> Undef \<and> \<not> integer_in 1 2 (li_settlementAttempts i))"
    "\<not> (li_paymentEvidenceId i \<noteq> Undef \<and> \<not> hex_id ''psp_'' (js_string (li_paymentEvidenceId i)))"
    "(if li_settlement i \<noteq> Undef then assertSettlement (li_settlement i) (fld (li_requirement i) ''network'') else Inr ()) = Inr ()"
    "assertEventConsistency (li_type i) (li_responseStatus i) (li_responseBody i) (li_settlement i) (li_settlementAttempts i) (li_paymentEvidenceId i) = Inr ()"
  using assms unfolding check_ledger_input_def by (elim guard_InrE letE_InrE; simp)+

text \<open>An event that was built from well-typed parts, and is safe JSON, passes the checks of the store.\<close>

theorem built_events_accepted:
  assumes build: "buildX402PaymentLedgerEvent sha https_url i = Inr event" and hex: "hex_hash sha"
    and safe: "assertSafeJson event = Inr event" and types: "li_paymentEvidenceId i = Undef \<or> is_str (li_paymentEvidenceId i)"
  shows "assertX402PaymentLedgerEvent https_url event = Inr event"
proof -
  from build hex obtain h hash l e where c: "check_ledger_input https_url i = Inr ()" and ids: "hash64 h" "hash = Undef \<longleftrightarrow> li_responseBody i = Undef"
    "hash = Undef \<or> str_test hash hash64" "hex_id ''xpl_'' l" "hex_id ''xle_'' e"
    and ev: "event = Obj ([(''schema'', Str X402_PAYMENT_LEDGER_SCHEMA), (''ledgerId'', Str l), (''type'', li_type i),
       (''occurredAt'', li_occurredAt i), (''paymentPayloadHash'', Str h), (''requirement'', li_requirement i),
       (''resource'', Obj ((''url'', li_resourceUrl i) # spread_if (li_responseStatus i \<noteq> Undef) [(''responseStatus'', li_responseStatus i)]
          @ spread_if (hash \<noteq> Undef) [(''responseHash'', hash)]))]
      @ spread_if (li_settlement i \<noteq> Undef) [(''settlement'', li_settlement i)]
      @ spread_if (li_settlementAttempts i \<noteq> Undef) [(''settlementAttempts'', li_settlementAttempts i)]
      @ spread_if (li_paymentEvidenceId i \<noteq> Undef) [(''paymentEvidenceId'', li_paymentEvidenceId i)] @ [(''eventId'', Str e)])"
    by (rule built_event)
  have f: "fld event ''schema'' = Str X402_PAYMENT_LEDGER_SCHEMA" "fld event ''ledgerId'' = Str l" "fld event ''eventId'' = Str e"
    "fld event ''type'' = li_type i" "fld event ''occurredAt'' = li_occurredAt i" "fld event ''paymentPayloadHash'' = Str h"
    "fld event ''requirement'' = li_requirement i" "fld event ''settlement'' = li_settlement i"
    "fld event ''settlementAttempts'' = li_settlementAttempts i" "fld event ''paymentEvidenceId'' = li_paymentEvidenceId i"
    "fld (fld event ''resource'') ''url'' = li_resourceUrl i" "fld (fld event ''resource'') ''responseStatus'' = li_responseStatus i"
    "fld (fld event ''resource'') ''responseHash'' = hash" "is_obj (fld event ''resource'')" "is_obj event"
    by (simp_all add: ev fld_given fld_given_last)
  note checked = checked_input [OF c]
  have consistent: "assertEventConsistency (li_type i) (li_responseStatus i) (if hash = Undef then Undef else Obj []) (li_settlement i) (li_settlementAttempts i) (li_paymentEvidenceId i) = Inr ()"
    using checked(9) ids(2) unfolding assertEventConsistency_def by (auto split: if_splits)
  have req: "\<not> (\<not> str_test (Str h) hash64 \<or> \<not> is_obj (li_requirement i) \<or> \<not> is_obj (fld event ''resource''))"
    using checked(2) ids(1) f by (auto simp: assertRequirement_def requirement_ok_def str_test_def split: if_splits)
  have evidence: "\<not> (li_paymentEvidenceId i \<noteq> Undef \<and> \<not> str_test (li_paymentEvidenceId i) (hex_id ''psp_''))"
    using checked(7) types by (auto simp: str_test_def elim!: is_strE)
  have hash: "\<not> (hash \<noteq> Undef \<and> \<not> str_test hash hash64)" using ids by auto
  have "check_payment_event https_url event = Inr ()"
    unfolding check_payment_event_def Let_def f
    by (rule guard_Inr letE_Inr | rule req evidence hash consistent checked(2-6,8))+
  moreover have "event_head_ok event" using checked(1) ids f by (auto simp: event_head_ok_def str_test_def)
  moreover have "li_type i \<noteq> Str ''REFUND_RECORDED''" using checked(1) by auto
  ultimately show ?thesis
    using checked(4) safe by (simp add: assertX402PaymentLedgerEvent_def f)
qed

section \<open>The ledger of the store\<close>

type_synonym payment_ledger = "(string, (string, jsval) js_map) js_map"

definition ledger_events :: "payment_ledger \<Rightarrow> string \<Rightarrow> (string, jsval) js_map" where
  "ledger_events s ledgerId = (case map_get s ledgerId of None \<Rightarrow> [] | Some entries \<Rightarrow> entries)"

definition appendX402PaymentLedgerEvent :: "(string \<Rightarrow> bool) \<Rightarrow> jsval \<Rightarrow> payment_ledger \<Rightarrow> (payment_ledger \<times> jsval) result" where
  "appendX402PaymentLedgerEvent https_url value s =
     letE (assertX402PaymentLedgerEvent https_url value) (\<lambda>event.
     let ledgerId = str_of (fld event ''ledgerId''); eventId = str_of (fld event ''eventId''); entries = ledger_events s ledgerId;
         s1 = map_set ledgerId entries s in
     case map_get entries eventId of Some existing \<Rightarrow> Inr (s1, existing)
     | None \<Rightarrow> Inr (map_set ledgerId (map_set eventId event entries) s1, event))"

definition paymentLedgerEventOrder :: "jsval \<Rightarrow> nat" where
  "paymentLedgerEventOrder kind = (if kind = Str ''PAYMENT_AUTHORIZED'' then 0 else if kind = Str ''REFUND_RECORDED'' then 2 else 1)"

text \<open>
  The comparison of times, then types, then identifiers, as stable sorts by the least significant key first.  The
  identifiers are lower-case hexadecimal, which localeCompare orders by code units.
\<close>

definition listX402PaymentLedgerEvents :: "jsval \<Rightarrow> payment_ledger \<Rightarrow> jsval list result" where
  "listX402PaymentLedgerEvents ledgerId s = (
     if \<not> hex_id ''xpl_'' (js_string ledgerId) then Inl TypeErr else
     Inr (sort_key (\<lambda>e. int_of (fld e ''occurredAt'')) (sort_key (\<lambda>e. paymentLedgerEventOrder (fld e ''type''))
            (sort_key (\<lambda>e. str_of (fld e ''eventId'')) (map_values (ledger_events s (js_string ledgerId)))))))"

text \<open>The first value with an identifier that was accepted for a ledger is the one the ledger has.\<close>

definition accepted_event :: "(string \<Rightarrow> bool) \<Rightarrow> string \<Rightarrow> string \<Rightarrow> jsval \<Rightarrow> bool" where
  "accepted_event https_url ledgerId eventId v = (assertX402PaymentLedgerEvent https_url v = Inr v
     \<and> fld v ''ledgerId'' = Str ledgerId \<and> fld v ''eventId'' = Str eventId)"

definition event_at :: "payment_ledger \<Rightarrow> string \<times> string \<Rightarrow> jsval option" where
  "event_at s place = map_get (ledger_events s (fst place)) (snd place)"

definition inner_maps :: "payment_ledger \<Rightarrow> bool" where
  "inner_maps s = (\<forall>l. distinct_keys (ledger_events s l))"

lemma assert_event_same: "assertX402PaymentLedgerEvent https_url v = Inr e \<Longrightarrow> e = v"
  by (auto simp: assertX402PaymentLedgerEvent_def letE_eq_Inr split: if_splits)

lemma assert_event_ids:
  assumes "assertX402PaymentLedgerEvent https_url v = Inr e"
  obtains l i where "fld v ''ledgerId'' = Str l" "fld v ''eventId'' = Str i" "hex_id ''xpl_'' l" "hex_id ''xle_'' i"
proof -
  have "event_head_ok v" using assms by (auto simp: assertX402PaymentLedgerEvent_def letE_eq_Inr split: if_splits)
  then show ?thesis using that by (auto simp: event_head_ok_def str_test_def split: jsval.splits)
qed

lemma ledger_events_set: "ledger_events (map_set l m s) l' = (if l' = l then m else ledger_events s l')"
  by (simp add: ledger_events_def)

lemma append_event:
  assumes "appendX402PaymentLedgerEvent https_url v s = Inr (s', r)"
  shows "\<exists>l i. accepted_event https_url l i v \<and> event_at s' = (\<lambda>place. if place = (l, i) \<and> event_at s place = None then Some v else event_at s place)
    \<and> (inner_maps s \<longrightarrow> inner_maps s')"
proof -
  from assms have ok: "assertX402PaymentLedgerEvent https_url v = Inr v"
    using assert_event_same by (auto simp: appendX402PaymentLedgerEvent_def letE_eq_Inr)
  from ok obtain l i where ids: "fld v ''ledgerId'' = Str l" "fld v ''eventId'' = Str i" by (rule assert_event_ids)
  have s': "s' = (case event_at s (l, i) of Some e \<Rightarrow> map_set l (ledger_events s l) s
      | None \<Rightarrow> map_set l (map_set i v (ledger_events s l)) (map_set l (ledger_events s l) s))"
    using assms by (auto simp: appendX402PaymentLedgerEvent_def ok ids Let_def event_at_def split: option.splits)
  have "event_at s' = (\<lambda>place. if place = (l, i) \<and> event_at s place = None then Some v else event_at s place)"
    by (cases "event_at s (l, i)") (auto simp: s' event_at_def ledger_events_set fun_eq_iff)
  moreover have "inner_maps s \<longrightarrow> inner_maps s'"
    by (cases "event_at s (l, i)") (simp_all add: s' inner_maps_def ledger_events_set)
  ultimately show ?thesis using ok ids unfolding accepted_event_def by blast
qed

lemma refused_event: "appendX402PaymentLedgerEvent https_url v s = Inl e \<Longrightarrow> \<not> accepted_event https_url l i v"
  by (auto simp: appendX402PaymentLedgerEvent_def accepted_event_def Let_def split: option.splits)

text \<open>The contract of a store with facts that stay, for the ledger: an event once kept is never replaced.\<close>

interpretation payment_events: growing_store "appendX402PaymentLedgerEvent https_url" "[]" inner_maps "\<lambda>s x. event_at s (fst x) = Some (snd x)"
proof
  show "inner_maps []" by (simp add: inner_maps_def ledger_events_def)
next
  fix s c s' r assume "inner_maps s" "appendX402PaymentLedgerEvent https_url c s = Inr (s', r)"
  with append_event show "inner_maps s'" by blast
next
  fix s c s' r and x :: "(string \<times> string) \<times> jsval"
  assume "appendX402PaymentLedgerEvent https_url c s = Inr (s', r)" "event_at s (fst x) = Some (snd x)"
  with append_event [of https_url c s s' r] show "event_at s' (fst x) = Some (snd x)" by auto
qed

lemma find_snoc: "find P (xs @ [x]) = (case find P xs of None \<Rightarrow> if P x then Some x else None | Some y \<Rightarrow> Some y)"
  by (induction xs) auto

lemma ledger_is_first_accepted:
  "event_at (run_ops (appendX402PaymentLedgerEvent https_url) vs []) (l, i) = find (accepted_event https_url l i) vs"
proof (induction vs rule: rev_induct)
  case Nil
  show ?case by (simp add: event_at_def ledger_events_def)
next
  case (snoc v vs)
  let ?s = "run_ops (appendX402PaymentLedgerEvent https_url) vs []"
  show ?case
  proof (cases "appendX402PaymentLedgerEvent https_url v ?s")
    case (Inl e)
    with snoc refused_event show ?thesis by (auto simp: run_ops_append find_snoc split: option.splits)
  next
    case (Inr p)
    obtain s' r where p: "p = (s', r)" by (cases p)
    from append_event [OF Inr [unfolded p]] obtain l' i' where v: "accepted_event https_url l' i' v"
      and at': "event_at s' = (\<lambda>place. if place = (l', i') \<and> event_at ?s place = None then Some v else event_at ?s place)" by blast
    have "accepted_event https_url l i v \<longleftrightarrow> (l, i) = (l', i')" using v by (auto simp: accepted_event_def)
    then show ?thesis
      using snoc by (auto simp: run_ops_append Inr p at' find_snoc split: option.splits)
  qed
qed

text \<open>C14. Whatever is sent to the ledger, in whatever order: the list of a payment's ledger can be read, it is ordered by
  the times of the events, no event is in it twice, every entry was sent and passed the checks for this ledger, and
  for every value sent that passes them there is an entry with its event identifier, the first value that had it.\<close>

theorem ledger_lists_accepted_events:
  assumes "hex_id ''xpl_'' l"
  shows "\<exists>es. listX402PaymentLedgerEvents (Str l) (run_ops (appendX402PaymentLedgerEvent https_url) vs []) = Inr es
    \<and> sorted (map (\<lambda>e. int_of (fld e ''occurredAt'')) es) \<and> distinct (map (\<lambda>e. fld e ''eventId'') es)
    \<and> set es = {v. \<exists>i. find (accepted_event https_url l i) vs = Some v}"
proof -
  let ?s = "run_ops (appendX402PaymentLedgerEvent https_url) vs []"
  let ?m = "ledger_events ?s l"
  have keys: "distinct_keys ?m" using payment_events.inv_history [of https_url vs] by (simp add: inner_maps_def)
  have mem: "(i, v) \<in> set ?m \<longleftrightarrow> find (accepted_event https_url l i) vs = Some v" for i v
    unfolding map_get_mem [OF keys, symmetric] using ledger_is_first_accepted [of https_url vs l i] by (simp add: event_at_def)
  have id: "fld v ''eventId'' = Str i" if "(i, v) \<in> set ?m" for i v
    using that by (auto simp: mem find_Some_iff accepted_event_def)
  have ids: "map (\<lambda>e. fld e ''eventId'') (map_values ?m) = map (Str \<circ> fst) ?m"
    unfolding map_values_def by (rule list.map_cong [of ?m, THEN trans [OF list.map_comp]]) (use id in force)+
  have "distinct (map (Str \<circ> fst) ?m)" using keys by (simp add: distinct_keys_def distinct_map comp_inj_on inj_on_def)
  then have "distinct (map (\<lambda>e. fld e ''eventId'') (map_values ?m))" by (simp add: ids)
  moreover have "set (map_values ?m) = {v. \<exists>i. find (accepted_event https_url l i) vs = Some v}"
    using mem by (force simp: map_values_def)
  ultimately show ?thesis
    using assms by (simp add: listX402PaymentLedgerEvents_def distinct_map sorted_sort_key)
qed

section \<open>Signed statements about a settled payment\<close>

definition X402_PAYMENT_EVIDENCE_SCHEMA :: string where
  "X402_PAYMENT_EVIDENCE_SCHEMA = ''priorseal.x402-payment-evidence.v1''"

definition X402_PAYMENT_EVIDENCE_DOMAIN :: string where
  "X402_PAYMENT_EVIDENCE_DOMAIN = ''priorseal/x402-payment-evidence/v1''"

definition payment_evidence_id :: "(string \<Rightarrow> string) \<Rightarrow> jsval \<Rightarrow> jsval \<Rightarrow> jsval \<Rightarrow> jsval \<Rightarrow> string result" where
  "payment_evidence_id sha payment service issuer keyId =
     letE (hashJson sha (Obj [(''payment'', payment), (''service'', service), (''issuer'', issuer), (''keyId'', keyId)])) (\<lambda>h.
     Inr (''psp_'' @ take 32 h))"

definition buildX402PaymentEvidence ::
  "(string \<Rightarrow> string) \<Rightarrow> jsval \<Rightarrow> jsval \<Rightarrow> jsval \<Rightarrow> jsval \<Rightarrow> jsval \<Rightarrow> jsval \<Rightarrow> jsval \<Rightarrow> jsval result" where
  "buildX402PaymentEvidence sha paymentPayload requirement settlement service issuer keyId issuedAt = (
     if \<not> is_safe_integer issuedAt \<or> int_of issuedAt \<le> 0 then Inl TypeErr else
     if \<not> truthy issuer \<or> \<not> truthy keyId then Inl TypeErr else
     if \<not> truthy (fld settlement ''success'') \<or> nullish requirement \<or> \<not> js_eq (fld settlement ''network'') (fld requirement ''network'')
        \<or> \<not> truthy (fld settlement ''transaction'') then Inl TypeErr else
     if \<not> integer_in 200 299 (fld service ''responseStatus'') then Inl TypeErr else
     if \<not> starts_with ''https://'' (js_string (fld service ''resourceUrl'')) \<or> \<not> hash64 (js_string (fld service ''responseHash'')) then Inl TypeErr else
     letE (hashJson sha paymentPayload) (\<lambda>paymentPayloadHash.
     let payment = Obj [(''paymentPayloadHash'', Str paymentPayloadHash), (''requirement'', requirement), (''settlement'', settlement)] in
     letE (payment_evidence_id sha payment service issuer keyId) (\<lambda>evidenceId.
     Inr (Obj [(''schema'', Str X402_PAYMENT_EVIDENCE_SCHEMA), (''domain'', Str X402_PAYMENT_EVIDENCE_DOMAIN), (''paymentEvidenceId'', Str evidenceId),
       (''payment'', payment), (''service'', service), (''issuer'', issuer), (''keyId'', keyId), (''issuedAt'', issuedAt), (''algorithm'', Str ''Ed25519'')]))))"

definition signX402PaymentEvidence :: "ed25519 \<Rightarrow> jsval \<Rightarrow> jsval \<Rightarrow> jsval result" where
  "signX402PaymentEvidence ed evidence privateKeyPem = signEd25519Statement ed evidence privateKeyPem"

definition EVIDENCE_FIELDS :: "string list" where
  "EVIDENCE_FIELDS = [''schema'', ''domain'', ''paymentEvidenceId'', ''payment'', ''service'', ''issuer'', ''keyId'', ''issuedAt'', ''algorithm'', ''signature'']"

definition nonempty_text :: "jsval \<Rightarrow> bool" where
  "nonempty_text v = (is_str v \<and> truthy v)"

text \<open>Lines 50 to 55.\<close>

definition payment_binding_ok :: "jsval \<Rightarrow> jsval \<Rightarrow> bool" where
  "payment_binding_ok payment service = (let requirement = fld payment ''requirement''; settlement = fld payment ''settlement'' in
     is_obj payment \<and> is_obj service \<and> str_test (fld payment ''paymentPayloadHash'') hash64 \<and> is_obj requirement \<and> is_obj settlement
     \<and> fld settlement ''success'' = Bool True \<and> js_eq (fld settlement ''network'') (fld requirement ''network'')
     \<and> nonempty_text (fld settlement ''transaction'')
     \<and> str_test (fld service ''resourceUrl'') (starts_with ''https://'') \<and> integer_in 200 299 (fld service ''responseStatus'')
     \<and> str_test (fld service ''responseHash'') hash64)"

text \<open>The code of the reply; the reply is valid when it is OK, and names the identifier of the evidence.\<close>

definition verifyX402PaymentEvidence :: "(string \<Rightarrow> string) \<Rightarrow> ed25519 \<Rightarrow> jsval \<Rightarrow> jsval \<Rightarrow> jsval \<Rightarrow> string result" where
  "verifyX402PaymentEvidence sha ed evidence publicKeyPem now = (
     if assertSafeJson evidence \<noteq> Inr evidence then Inr ''INVALID_PAYMENT_EVIDENCE'' else
     if \<not> truthy (fld evidence ''signature'') then Inr ''MISSING_SIGNATURE'' else
     if fld evidence ''schema'' \<noteq> Str X402_PAYMENT_EVIDENCE_SCHEMA \<or> fld evidence ''domain'' \<noteq> Str X402_PAYMENT_EVIDENCE_DOMAIN
        \<or> fld evidence ''algorithm'' \<noteq> Str ''Ed25519'' then Inr ''UNSUPPORTED_SCHEMA'' else
     if assertOnlyFields evidence EVIDENCE_FIELDS \<noteq> Inr evidence then Inr ''INVALID_PAYMENT_EVIDENCE'' else
     if \<not> nonempty_text (fld evidence ''issuer'') \<or> \<not> nonempty_text (fld evidence ''keyId'') \<or> \<not> is_safe_integer (fld evidence ''issuedAt'')
        \<or> int_of (fld evidence ''issuedAt'') \<le> 0 then Inr ''INVALID_PAYMENT_EVIDENCE'' else
     if now \<noteq> Undef \<and> js_less now (fld evidence ''issuedAt'') then Inr ''NOT_YET_VALID'' else
     if \<not> payment_binding_ok (fld evidence ''payment'') (fld evidence ''service'') then Inr ''INVALID_PAYMENT_EVIDENCE'' else
     letE (payment_evidence_id sha (fld evidence ''payment'') (fld evidence ''service'') (fld evidence ''issuer'') (fld evidence ''keyId'')) (\<lambda>expectedId.
     if fld evidence ''paymentEvidenceId'' \<noteq> Str expectedId then Inr ''PAYMENT_EVIDENCE_ID_MISMATCH'' else
     Inr (if verifyEd25519Statement ed evidence publicKeyPem then ''OK'' else ''INVALID_SIGNATURE'')))"

text \<open>A payment statement that was built from texts of the types the interface declares and signed is accepted by
  the verifier with the matching public key, at any time not before it was issued.\<close>

theorem signed_payment_evidence_verifies:
  assumes build: "buildX402PaymentEvidence sha payload requirement settlement service issuer keyId issuedAt = Inr evidence"
    and sign: "signX402PaymentEvidence ed evidence privateKeyPem = Inr signed" and pair: "key_pair ed privateKeyPem publicKeyPem"
    and hex: "hex_hash sha" and safe: "assertSafeJson evidence = Inr evidence"
    and types: "is_str issuer" "is_str keyId" "is_obj requirement" "fld settlement ''success'' = Bool True" "is_str (fld settlement ''transaction'')"
      "is_str (fld service ''resourceUrl'')" "is_str (fld service ''responseHash'')"
    and now: "now = Undef \<or> (\<exists>t. now = Num t \<and> int_of issuedAt \<le> t)"
  shows "verifyX402PaymentEvidence sha ed signed publicKeyPem now = Inr ''OK''"
proof -
  from build obtain h i where h: "hashJson sha payload = Inr h"
    and i: "payment_evidence_id sha (Obj [(''paymentPayloadHash'', Str h), (''requirement'', requirement), (''settlement'', settlement)]) service issuer keyId = Inr i"
    and issued: "is_safe_integer issuedAt" "0 < int_of issuedAt" and named: "truthy issuer" "truthy keyId"
    and net: "js_eq (fld settlement ''network'') (fld requirement ''network'')" "truthy (fld settlement ''transaction'')"
    and served: "integer_in 200 299 (fld service ''responseStatus'')" "starts_with ''https://'' (js_string (fld service ''resourceUrl''))"
      "hash64 (js_string (fld service ''responseHash''))"
    and ev: "evidence = Obj [(''schema'', Str X402_PAYMENT_EVIDENCE_SCHEMA), (''domain'', Str X402_PAYMENT_EVIDENCE_DOMAIN), (''paymentEvidenceId'', Str i),
       (''payment'', Obj [(''paymentPayloadHash'', Str h), (''requirement'', requirement), (''settlement'', settlement)]), (''service'', service),
       (''issuer'', issuer), (''keyId'', keyId), (''issuedAt'', issuedAt), (''algorithm'', Str ''Ed25519'')]"
    by (auto simp: buildX402PaymentEvidence_def Let_def letE_eq_Inr split: if_splits)
  note signature = sign [unfolded signX402PaymentEvidence_def]
  have f: "fld signed k = fld evidence k" if "k \<noteq> ''signature''" for k
    using signed_statement(4) [OF signature that] fld_unsigned [OF that, of evidence] by (simp add: ev)
  from signed_fields [OF signature ev] obtain sig kvs where "signed = Obj kvs" "set kvs \<subseteq> insert (''signature'', Str sig) (set
      [(''schema'', Str X402_PAYMENT_EVIDENCE_SCHEMA), (''domain'', Str X402_PAYMENT_EVIDENCE_DOMAIN), (''paymentEvidenceId'', Str i),
       (''payment'', Obj [(''paymentPayloadHash'', Str h), (''requirement'', requirement), (''settlement'', settlement)]), (''service'', service),
       (''issuer'', issuer), (''keyId'', keyId), (''issuedAt'', issuedAt), (''algorithm'', Str ''Ed25519'')])" .
  then have only: "assertOnlyFields signed EVIDENCE_FIELDS = Inr signed"
    by (auto simp: assertOnlyFields_Inr EVIDENCE_FIELDS_def dest!: subsetD)
  have "is_obj settlement" "is_obj service" using types(4,6) by (auto simp: fld_def is_obj_def split: jsval.splits)
  then have "payment_binding_ok (fld evidence ''payment'') (fld evidence ''service'')"
    using types net served hash64_hashJson [OF h hex] by (auto simp: payment_binding_ok_def Let_def ev str_test_def nonempty_text_def elim!: is_strE)
  moreover have "\<not> (now \<noteq> Undef \<and> js_less now issuedAt)"
    using now issued(1) by (auto elim!: is_safe_integerE)
  moreover have "assertSafeJson signed = Inr signed" using signed_safe [OF signature _ safe] by (simp add: ev)
  ultimately show ?thesis
    using only signed_verifies [OF pair signature] issued named types(1,2) i
    by (simp add: verifyX402PaymentEvidence_def f nonempty_text_def ev)
qed

section \<open>Examples\<close>

lemma zero_hash_hex: "hex_hash zero_hash"
  by (simp add: hex_hash_def hash64_zero_hash)

definition sample_ledger_id :: string where
  "sample_ledger_id = ''xpl_00000000000000000000000000000000''"

definition sample_refund :: jsval where
  "sample_refund = Obj [(''schema'', Str X402_PAYMENT_LEDGER_SCHEMA), (''ledgerId'', Str sample_ledger_id), (''type'', Str ''REFUND_RECORDED''),
     (''occurredAt'', Num 5), (''refund'', Obj [(''network'', Str ''eip155:1''),
        (''transaction'', Str ''0x0000000000000000000000000000000000000000000000000000000000000000''), (''amount'', Str ''7''), (''reasonCode'', Str ''r'')]),
     (''eventId'', Str ''xle_00000000000000000000000000000000'')]"

lemma sample_refund_accepted:
  "hex_id ''xpl_'' sample_ledger_id" "accepted_event (\<lambda>_. True) sample_ledger_id ''xle_00000000000000000000000000000000'' sample_refund"
  by code_simp+

lemma ledger_lists_accepted_events_witness:
  "\<exists>es. listX402PaymentLedgerEvents (Str sample_ledger_id) (run_ops (appendX402PaymentLedgerEvent (\<lambda>_. True)) [Undef, sample_refund, sample_refund] []) = Inr es
     \<and> sample_refund \<in> set es \<and> distinct (map (\<lambda>e. fld e ''eventId'') es)"
proof -
  have "\<not> accepted_event (\<lambda>_. True) sample_ledger_id ''xle_00000000000000000000000000000000'' Undef"
    by (simp add: accepted_event_def)
  then have "find (accepted_event (\<lambda>_. True) sample_ledger_id ''xle_00000000000000000000000000000000'') [Undef, sample_refund, sample_refund] = Some sample_refund"
    using sample_refund_accepted(2) by simp
  with ledger_lists_accepted_events [OF sample_refund_accepted(1), of "\<lambda>_. True" "[Undef, sample_refund, sample_refund]"] show ?thesis by blast
qed

definition sample_payment_requirement :: jsval where
  "sample_payment_requirement = Obj [(''scheme'', Str ''exact''), (''network'', Str ''n''), (''amount'', Str ''1''), (''asset'', Str ''a''),
     (''payTo'', Str ''p''), (''maxTimeoutSeconds'', Num 9), (''extra'', Obj [])]"

definition sample_payment_settlement :: jsval where
  "sample_payment_settlement = Obj [(''success'', Bool True), (''network'', Str ''n''), (''transaction'', Str ''t'')]"

definition sample_payment_service :: jsval where
  "sample_payment_service = Obj [(''resourceUrl'', Str ''https://a''), (''responseStatus'', Num 200), (''responseHash'', Str (zero_hash []))]"

lemma sample_payment_evidence_built:
  "case buildX402PaymentEvidence zero_hash Null sample_payment_requirement sample_payment_settlement sample_payment_service (Str ''i'') (Str ''k'') (Num 9) of
     Inl e \<Rightarrow> False | Inr evidence \<Rightarrow> assertSafeJson evidence = Inr evidence
       \<and> (case signX402PaymentEvidence toy_scheme evidence Null of Inl e \<Rightarrow> False | Inr signed \<Rightarrow> True)"
  by code_simp

lemma signed_payment_evidence_verifies_witness:
  "\<exists>signed. verifyX402PaymentEvidence zero_hash toy_scheme signed Null (Num 9) = Inr ''OK''"
proof -
  obtain evidence signed where e: "buildX402PaymentEvidence zero_hash Null sample_payment_requirement sample_payment_settlement sample_payment_service
      (Str ''i'') (Str ''k'') (Num 9) = Inr evidence"
    and safe: "assertSafeJson evidence = Inr evidence" and s: "signX402PaymentEvidence toy_scheme evidence Null = Inr signed"
    using sample_payment_evidence_built by (auto split: sum.splits)
  show ?thesis
    by (rule exI, rule signed_payment_evidence_verifies [OF e s toy_key_pair zero_hash_hex safe])
      (simp_all add: sample_payment_requirement_def sample_payment_settlement_def sample_payment_service_def)
qed

definition sample_authorized_payment :: ledger_input where
  "sample_authorized_payment = \<lparr>li_type = Str ''PAYMENT_AUTHORIZED'', li_payload = Null, li_requirement = sample_payment_requirement,
     li_resourceUrl = Str ''https://a'', li_occurredAt = Num 5, li_responseStatus = Undef, li_responseBody = Undef, li_settlement = Undef,
     li_settlementAttempts = Undef, li_paymentEvidenceId = Undef\<rparr>"

lemma sample_payment_event_built:
  "case buildX402PaymentLedgerEvent zero_hash (\<lambda>_. True) sample_authorized_payment of Inl e \<Rightarrow> False | Inr event \<Rightarrow> assertSafeJson event = Inr event"
  by code_simp

lemma built_events_accepted_witness:
  "\<exists>event. buildX402PaymentLedgerEvent zero_hash (\<lambda>_. True) sample_authorized_payment = Inr event
     \<and> assertX402PaymentLedgerEvent (\<lambda>_. True) event = Inr event"
proof -
  obtain event where b: "buildX402PaymentLedgerEvent zero_hash (\<lambda>_. True) sample_authorized_payment = Inr event"
    and safe: "assertSafeJson event = Inr event"
    using sample_payment_event_built by (auto split: sum.splits)
  from built_events_accepted [OF b zero_hash_hex safe] b show ?thesis by (simp add: sample_authorized_payment_def)
qed

end
