(* ===== verification/Archive.thy ===== *)
theory Archive
  imports Values Atomic_Store Signing
begin

text \<open>
  src/application/archive/evidence-archive.mjs and the archive of
  src/infrastructure/persistence/memory-store.mjs: credentials of the archive, entries made of uploaded artifacts,
  queries, and pages of entries read with a cursor.  The hash is the parameter \<^verbatim>\<open>sha\<close>; \<^verbatim>\<open>parse_json\<close> is the
  runtime's JSON.parse over the base64url text of a cursor.  Shown: following the cursors from a first page shows every
  entry of the project that matches, exactly once and newest first, as it was when the first page was read, whatever
  is uploaded meanwhile.
\<close>

section \<open>Credentials\<close>

definition archive_identifier :: "string \<Rightarrow> bool" where
  "archive_identifier = ID_RE"

record archive_credential =
  ac_digest :: string
  ac_projectId :: string
  ac_environment :: string
  ac_role :: jsval

definition text_that :: "(string \<Rightarrow> bool) \<Rightarrow> jsval \<Rightarrow> bool" where
  "text_that p v = (case v of Str s \<Rightarrow> p s | _ \<Rightarrow> False)"

fun archive_credentials :: "jsval list \<Rightarrow> string list \<Rightarrow> archive_credential list result" where
  "archive_credentials [] hashes = Inr []"
| "archive_credentials (entry # entries) hashes = (
     if \<not> is_obj entry \<or> \<not> text_that (\<lambda>h. hash64 h \<and> h \<notin> set hashes) (fld entry ''tokenHash'') \<or> \<not> text_that archive_identifier (fld entry ''projectId'')
        \<or> \<not> text_that archive_identifier (fld entry ''environment'') \<or> js_string (fld entry ''role'') \<notin> {''writer'', ''reviewer''} then Inl TypeErr else
     letE (archive_credentials entries (str_of (fld entry ''tokenHash'') # hashes)) (\<lambda>credentials.
     Inr (\<lparr>ac_digest = str_of (fld entry ''tokenHash''), ac_projectId = str_of (fld entry ''projectId''),
           ac_environment = str_of (fld entry ''environment''), ac_role = fld entry ''role''\<rparr> # credentials)))"

definition createArchiveAccess :: "jsval \<Rightarrow> archive_credential list option result" where
  "createArchiveAccess entries = (
     if nullish entries then Inr None else
     if \<not> is_arr entries \<or> elems entries = [] \<or> 1000 < length (elems entries) then Inl TypeErr else
     letE (archive_credentials (elems entries) []) (\<lambda>credentials. Inr (Some credentials)))"

definition bearer_token :: "string \<Rightarrow> bool" where
  "bearer_token t = (32 \<le> length t \<and> length t \<le> 256 \<and> list_all (\<lambda>c. is_alnum c \<or> c \<in> {CHR ''.'', CHR ''_'', CHR ''~'', CHR ''-''}) t)"

definition authenticate :: "(string \<Rightarrow> string) \<Rightarrow> archive_credential list \<Rightarrow> jsval \<Rightarrow> archive_credential result" where
  "authenticate sha credentials header = (
     let token = (if text_that (after ''Bearer '' bearer_token) header then drop 7 (str_of header) else []);
         digest = sha token;
         access = fold (\<lambda>entry found. if digest = ac_digest entry then Some entry else found) credentials None in
     if token = [] then Inl (PriorSealError ''ARCHIVE_UNAUTHORIZED'') else
     (case access of None \<Rightarrow> Inl (PriorSealError ''ARCHIVE_UNAUTHORIZED'') | Some entry \<Rightarrow> Inr entry))"

section \<open>Entries\<close>

record archive_entry =
  ae_id :: string
  ae_projectId :: string
  ae_environment :: string
  ae_kind :: string
  ae_createdAt :: int
  ae_artifactHash :: string
  ae_supersedesId :: jsval
  ae_txHash :: jsval
  ae_authorizationId :: jsval
  ae_status :: string
  ae_artifact :: jsval

definition invalid_request :: "'a result" where
  "invalid_request = Inl (PriorSealError ''INVALID_REQUEST'')"

definition asRecord :: "jsval \<Rightarrow> jsval" where
  "asRecord value = (if is_obj value then value else Undef)"

text \<open>Lines 36 to 45: the kind of an artifact, its receipt and its authorization.\<close>

definition artifact_parts :: "jsval \<Rightarrow> (string \<times> jsval \<times> jsval) option" where
  "artifact_parts artifact = (
     if fld artifact ''schema'' = Str ''priorseal.verification-bundle.v1''
       then Some (''verification-bundle'', asRecord (fld artifact ''receipt''), Undef) else
     if fld artifact ''schema'' = Str ''priorseal.review-manifest.v1''
       then Some (''review-manifest'', asRecord (fld (asRecord (fld artifact ''bundle'')) ''receipt''), Undef) else
     if fld (asRecord (fld artifact ''authorization'')) ''schema'' = Str ''priorseal.authorization.v2'' \<and> truthy (fld artifact ''acceptance'')
       then Some (''authorization'', Undef, asRecord (fld artifact ''authorization'')) else None)"

definition archiveEntry :: "(string \<Rightarrow> string) \<Rightarrow> jsval \<Rightarrow> archive_credential \<Rightarrow> jsval \<Rightarrow> int \<Rightarrow> archive_entry result" where
  "archiveEntry sha artifact access supersedesId now = (
     if \<not> is_obj artifact then invalid_request else
     (case artifact_parts artifact of None \<Rightarrow> invalid_request | Some (kind, receipt, authorized) \<Rightarrow>
     let authorization = (if nullish authorized then asRecord (fld (asRecord (fld receipt ''authorizationEvidence'')) ''authorization'') else authorized) in
     if kind \<noteq> ''authorization'' \<and> (\<not> truthy (fld receipt ''receiptId'') \<or> \<not> truthy (fld receipt ''execution'')) then invalid_request else
     if truthy receipt \<and> \<not> text_that (\<lambda>s. trim s \<noteq> [] \<and> length s \<le> 256) (fld receipt ''receiptId'') then invalid_request else
     let execution = asRecord (fld receipt ''execution'');
         txHash = orElse (fld execution ''txHash'') (orElse (fld artifact ''boundTxHash'') Null);
         authorizationId = orElse (fld authorization ''authorizationId'') Null;
         status = orElse (fld receipt ''executionStatus'') (orElse (fld execution ''status'') (orElse (fld artifact ''status'') (Str ''ACCEPTED''))) in
     if txHash \<noteq> Null \<and> \<not> text_that bytes32 txHash then invalid_request else
     if authorizationId \<noteq> Null \<and> \<not> text_that archive_identifier authorizationId then invalid_request else
     if \<not> text_that archive_identifier status then invalid_request else
     if supersedesId \<noteq> Null \<and> \<not> hash64 (js_string supersedesId) then invalid_request else
     letE (hashJson sha artifact) (\<lambda>artifactHash.
     letE (hashJson sha (Obj [(''projectId'', Str (ac_projectId access)), (''environment'', Str (ac_environment access)), (''artifactHash'', Str artifactHash)])) (\<lambda>id.
     Inr \<lparr>ae_id = id, ae_projectId = ac_projectId access, ae_environment = ac_environment access, ae_kind = kind, ae_createdAt = now div 1000,
       ae_artifactHash = artifactHash, ae_supersedesId = supersedesId, ae_txHash = (if txHash = Null then Null else Str (lower (str_of txHash))),
       ae_authorizationId = authorizationId, ae_status = str_of status, ae_artifact = artifact\<rparr>))))"

section \<open>Queries\<close>

record archive_filters =
  af_txHash :: jsval
  af_authorizationId :: jsval
  af_status :: jsval
  af_from :: "int option"
  af_to :: "int option"

record archive_cursor =
  cu_filterHash :: string
  cu_after :: int
  cu_snapshot :: int

record archive_query =
  aq_access :: archive_credential
  aq_filters :: archive_filters
  aq_filterHash :: string
  aq_cursor :: "archive_cursor option"
  aq_limit :: int
  aq_includeArtifacts :: bool

type_synonym search_params = "(string \<times> string) list"

text \<open>\<^verbatim>\<open>searchParams.get(k)\<close>, and \<^verbatim>\<open>get(k) || null\<close>.\<close>

definition param :: "search_params \<Rightarrow> string \<Rightarrow> jsval" where
  "param ps k = (case map_of ps k of None \<Rightarrow> Null | Some v \<Rightarrow> Str v)"

definition param_or_null :: "search_params \<Rightarrow> string \<Rightarrow> jsval" where
  "param_or_null ps k = (if truthy (param ps k) then param ps k else Null)"

definition archive_params :: "string list" where
  "archive_params = [''limit'', ''cursor'', ''txHash'', ''authorizationId'', ''status'', ''from'', ''to'']"

definition time_param :: "search_params \<Rightarrow> string \<Rightarrow> int option result" where
  "time_param ps k = (if param ps k = Null then Inr None else
     (case safe_int (to_num (param ps k)) of None \<Rightarrow> invalid_request | Some t \<Rightarrow> if t < 0 then invalid_request else Inr (Some t)))"

definition int_or_null :: "int option \<Rightarrow> jsval" where
  "int_or_null t = (case t of None \<Rightarrow> Null | Some n \<Rightarrow> Num n)"

definition archive_filter_hash :: "(string \<Rightarrow> string) \<Rightarrow> archive_credential \<Rightarrow> archive_filters \<Rightarrow> string result" where
  "archive_filter_hash sha access filters = hashJson sha (Obj [(''projectId'', Str (ac_projectId access)), (''environment'', Str (ac_environment access)),
     (''txHash'', af_txHash filters), (''authorizationId'', af_authorizationId filters), (''status'', af_status filters),
     (''from'', int_or_null (af_from filters)), (''to'', int_or_null (af_to filters))])"

text \<open>Lines 88 to 99.\<close>

definition read_cursor :: "(string \<Rightarrow> jsval result) \<Rightarrow> string \<Rightarrow> jsval \<Rightarrow> archive_cursor option result" where
  "read_cursor parse_json filterHash encoded = (
     if \<not> truthy encoded then Inr None else
     if 512 < length (str_of encoded) then invalid_request else
     (case parse_json (str_of encoded) of Inl e \<Rightarrow> invalid_request | Inr parsed \<Rightarrow>
        if \<not> is_obj parsed \<or> fld parsed ''filterHash'' \<noteq> Str filterHash \<or> \<not> is_safe_integer (fld parsed ''after'') \<or> int_of (fld parsed ''after'') < 1
           \<or> \<not> is_safe_integer (fld parsed ''snapshot'') \<or> int_of (fld parsed ''snapshot'') < int_of (fld parsed ''after'') then invalid_request else
        Inr (Some \<lparr>cu_filterHash = filterHash, cu_after = int_of (fld parsed ''after''), cu_snapshot = int_of (fld parsed ''snapshot'')\<rparr>)))"

definition archiveQuery :: "(string \<Rightarrow> string) \<Rightarrow> (string \<Rightarrow> jsval result) \<Rightarrow> search_params \<Rightarrow> archive_credential \<Rightarrow> archive_query result" where
  "archiveQuery sha parse_json ps access = (
     if \<not> list_all (\<lambda>(k, v). k \<in> set archive_params \<and> length (filter (\<lambda>kv. fst kv = k) ps) \<le> 1) ps then invalid_request else
     (case safe_int (to_num (orElse (param ps ''limit'') (Num 25))) of None \<Rightarrow> invalid_request | Some limit \<Rightarrow>
     if limit < 1 \<or> 100 < limit then invalid_request else
     let txHash = (if truthy (param ps ''txHash'') then Str (lower (str_of (param ps ''txHash''))) else Null);
         authorizationId = param_or_null ps ''authorizationId''; status = param_or_null ps ''status'' in
     if txHash \<noteq> Null \<and> \<not> text_that hash0x txHash then invalid_request else
     if authorizationId \<noteq> Null \<and> \<not> text_that archive_identifier authorizationId then invalid_request else
     if status \<noteq> Null \<and> \<not> text_that archive_identifier status then invalid_request else
     letE (time_param ps ''from'') (\<lambda>since. letE (time_param ps ''to'') (\<lambda>till.
     if (case (since, till) of (Some f, Some t) \<Rightarrow> t < f | _ \<Rightarrow> False) then invalid_request else
     let filters = \<lparr>af_txHash = txHash, af_authorizationId = authorizationId, af_status = status, af_from = since, af_to = till\<rparr> in
     letE (archive_filter_hash sha access filters) (\<lambda>filterHash.
     letE (read_cursor parse_json filterHash (param ps ''cursor'')) (\<lambda>cursor.
     Inr \<lparr>aq_access = access, aq_filters = filters, aq_filterHash = filterHash, aq_cursor = cursor, aq_limit = limit, aq_includeArtifacts = False\<rparr>))))))"

section \<open>The archive of the store\<close>

type_synonym archive_key = "string \<times> string \<times> string"

record archive_store =
  ar_entries :: "(archive_key, archive_entry \<times> nat) js_map"
  archiveEntries :: "(archive_entry \<times> nat) list"

definition empty_archive :: archive_store where
  "empty_archive = \<lparr>ar_entries = [], archiveEntries = []\<rparr>"

definition archive_key :: "archive_entry \<Rightarrow> archive_key" where
  "archive_key entry = (ae_projectId entry, ae_environment entry, ae_id entry)"

text \<open>The sequence number of a saved entry is its place in the list, counted from one.\<close>

definition saveArchiveEntry :: "archive_entry \<Rightarrow> archive_store \<Rightarrow> (archive_store \<times> (archive_entry \<times> nat)) result" where
  "saveArchiveEntry entry s = (case map_get (ar_entries s) (archive_key entry) of
       Some existing \<Rightarrow> if \<not> js_eq (ae_supersedesId (fst existing)) (ae_supersedesId entry) then Inl (CodedError ''ARCHIVE_CONFLICT'') else Inr (s, existing)
     | None \<Rightarrow>
         if truthy (ae_supersedesId entry)
            \<and> map_get (ar_entries s) (ae_projectId entry, ae_environment entry, js_string (ae_supersedesId entry)) = None then Inl (CodedError ''NOT_FOUND'') else
         let saved = (entry, length (archiveEntries s) + 1) in
         Inr (\<lparr>ar_entries = map_set (archive_key entry) saved (ar_entries s), archiveEntries = archiveEntries s @ [saved]\<rparr>, saved))"

definition getArchiveEntry :: "archive_credential \<Rightarrow> string \<Rightarrow> archive_store \<Rightarrow> (archive_entry \<times> nat) option" where
  "getArchiveEntry access entryId s = map_get (ar_entries s) (ac_projectId access, ac_environment access, entryId)"

text \<open>The entries a query is about.\<close>

definition visible :: "archive_query \<Rightarrow> archive_entry \<Rightarrow> bool" where
  "visible query entry = (let filters = aq_filters query in
     ae_projectId entry = ac_projectId (aq_access query) \<and> ae_environment entry = ac_environment (aq_access query)
     \<and> (truthy (af_txHash filters) \<longrightarrow> js_eq (ae_txHash entry) (af_txHash filters))
     \<and> (truthy (af_authorizationId filters) \<longrightarrow> js_eq (ae_authorizationId entry) (af_authorizationId filters))
     \<and> (truthy (af_status filters) \<longrightarrow> Str (ae_status entry) = af_status filters)
     \<and> (case af_from filters of None \<Rightarrow> True | Some f \<Rightarrow> f \<le> ae_createdAt entry)
     \<and> (case af_to filters of None \<Rightarrow> True | Some t \<Rightarrow> ae_createdAt entry \<le> t))"

text \<open>The loop over the entries, from the newest allowed one down, until one row more than the limit is found.\<close>

fun collect_rows :: "('a \<Rightarrow> bool) \<Rightarrow> nat \<Rightarrow> 'a list \<Rightarrow> 'a list \<Rightarrow> 'a list" where
  "collect_rows p limit rows [] = rows"
| "collect_rows p limit rows (entry # older) = (
     if limit < length rows then rows else
     if \<not> p entry then collect_rows p limit rows older else collect_rows p limit (rows @ [entry]) older)"

definition page_item :: "archive_query \<Rightarrow> archive_entry \<times> nat \<Rightarrow> archive_entry" where
  "page_item query row = (if aq_includeArtifacts query then fst row else (fst row)\<lparr>ae_artifact := Undef\<rparr>)"

record archive_page =
  ap_schema :: string
  ap_access :: archive_credential
  ap_items :: "archive_entry list"
  ap_nextCursor :: "archive_cursor option"
  ap_snapshot :: int
  ap_filters :: archive_filters
  ap_scope :: string
  ap_retention :: string
  ap_completeness :: string

definition ARCHIVE_SCOPE :: string where
  "ARCHIVE_SCOPE = ''uploaded_evidence''"

definition ARCHIVE_RETENTION :: string where
  "ARCHIVE_RETENTION = ''until_operator_deletion''"

definition archivePage :: "(archive_entry \<times> nat) list \<Rightarrow> archive_query \<Rightarrow> int \<Rightarrow> archive_page" where
  "archivePage rows query snapshot = (
     let more = aq_limit query < int (length rows); items = take (nat (aq_limit query)) rows in
     \<lparr>ap_schema = ''priorseal.archive-page.v1'', ap_access = aq_access query, ap_items = map (page_item query) items,
      ap_nextCursor = (if more then Some \<lparr>cu_filterHash = aq_filterHash query, cu_after = int (snd (last items)), cu_snapshot = snapshot\<rparr> else None),
      ap_snapshot = snapshot, ap_filters = aq_filters query, ap_scope = ARCHIVE_SCOPE, ap_retention = ARCHIVE_RETENTION,
      ap_completeness = ''All uploaded entries matching these filters up to the snapshot; not a claim about all executions.''\<rparr>)"

text \<open>The text of a cursor in the reply.\<close>

definition cursor_text :: "archive_cursor \<Rightarrow> string" where
  "cursor_text c = b64_encode (map of_char
     (''{'' @ json_string ''after'' @ '':'' @ int_text (cu_after c) @ '','' @ json_string ''snapshot'' @ '':'' @ int_text (cu_snapshot c)
      @ '','' @ json_string ''filterHash'' @ '':'' @ json_string (cu_filterHash c) @ ''}''))"

definition listArchiveEntries :: "archive_query \<Rightarrow> archive_store \<Rightarrow> archive_page" where
  "listArchiveEntries query s = (
     let entries = archiveEntries s;
         snapshot = (case aq_cursor query of None \<Rightarrow> int (length entries) | Some c \<Rightarrow> cu_snapshot c);
         highest = min (int (length entries)) (min snapshot (case aq_cursor query of None \<Rightarrow> snapshot | Some c \<Rightarrow> cu_after c - 1));
         rows = collect_rows (\<lambda>row. visible query (fst row)) (nat (aq_limit query)) [] (rev (take (nat highest) entries)) in
     archivePage rows query snapshot)"

section \<open>Pages of a growing archive\<close>

lemma collect_rows_take: "length rows \<le> Suc limit \<Longrightarrow>
    collect_rows p limit rows xs = rows @ take (Suc limit - length rows) (filter p xs)"
proof (induction p limit rows xs rule: collect_rows.induct)
  case (2 p limit rows entry older)
  then show ?case by (cases "limit < length rows") (auto simp: Suc_diff_le)
qed simp

text \<open>Every entry carries its place; saving only appends.\<close>

definition numbered :: "archive_store \<Rightarrow> bool" where
  "numbered s = (map snd (archiveEntries s) = [1..<Suc (length (archiveEntries s))])"

interpretation archive: growing_store saveArchiveEntry empty_archive numbered "\<lambda>s rows. take (length rows) (archiveEntries s) = rows"
proof
  show "numbered empty_archive" by (simp add: numbered_def empty_archive_def)
next
  fix s c s' r assume "numbered s" "saveArchiveEntry c s = Inr (s', r)"
  then show "numbered s'" by (auto simp: saveArchiveEntry_def numbered_def Let_def split: option.splits if_splits)
next
  fix s c s' r rows assume "saveArchiveEntry c s = Inr (s', r)" "take (length rows) (archiveEntries s) = rows"
  moreover from this(2) have "length rows \<le> length (archiveEntries s)" by (metis length_take min.cobounded1 min.absorb_iff1 nat_le_linear take_all_iff)
  ultimately show "take (length rows) (archiveEntries s') = rows"
    by (auto simp: saveArchiveEntry_def Let_def split: option.splits if_splits)
qed

text \<open>What follows the first page: the entries older than the last one shown.\<close>

lemma rest_after:
  assumes "n \<le> length xs" "Suc m \<le> length (filter p (rev (take n xs)))"
  shows "\<exists>j<n. filter p (rev (take n xs)) ! m = xs ! j \<and> drop (Suc m) (filter p (rev (take n xs))) = filter p (rev (take j xs))"
  using assms
proof (induction n arbitrary: m)
  case (Suc n)
  then have step: "rev (take (Suc n) xs) = xs ! n # rev (take n xs)" by (simp add: take_Suc_conv_app_nth)
  show ?case
  proof (cases "p (xs ! n)")
    case False
    with Suc step obtain j where "j < n" "filter p (rev (take n xs)) ! m = xs ! j" "drop (Suc m) (filter p (rev (take n xs))) = filter p (rev (take j xs))"
      by (metis Suc_leD filter.simps(2))
    with False step show ?thesis by (intro exI [of _ j]) simp
  next
    case True
    show ?thesis
    proof (cases m)
      case 0
      with True step show ?thesis by (intro exI [of _ n]) simp
    next
      case (Suc k)
      with True step Suc.prems Suc.IH [of k] obtain j where "j < n" "filter p (rev (take n xs)) ! k = xs ! j"
        "drop (Suc k) (filter p (rev (take n xs))) = filter p (rev (take j xs))" by auto
      with True step Suc show ?thesis by (intro exI [of _ j]) simp
    qed
  qed
qed simp

text \<open>A reader: each page is asked for with the cursor of the one before, from the archive as it is by then.\<close>

fun follow :: "archive_query \<Rightarrow> archive_store list \<Rightarrow> archive_entry list \<times> bool" where
  "follow query [] = ([], False)"
| "follow query (s # later) = (let page = listArchiveEntries query s in
     (case ap_nextCursor page of None \<Rightarrow> (ap_items page, True)
      | Some c \<Rightarrow> (let (rest, complete) = follow (query\<lparr>aq_cursor := Some c\<rparr>) later in (ap_items page @ rest, complete))))"

primrec archive_states :: "archive_store \<Rightarrow> archive_entry list list \<Rightarrow> archive_store list" where
  "archive_states s [] = [s]"
| "archive_states s (batch # batches) = s # archive_states (run_ops saveArchiveEntry batch s) batches"

definition shown :: "archive_query \<Rightarrow> nat \<Rightarrow> (archive_entry \<times> nat) list \<Rightarrow> (archive_entry \<times> nat) list" where
  "shown query n rows = filter (\<lambda>row. visible query (fst row)) (rev (take n rows))"

text \<open>The page a query asks for starts at the n-th entry.\<close>

definition page_starts :: "archive_query \<Rightarrow> archive_store \<Rightarrow> nat \<Rightarrow> bool" where
  "page_starts query s n = (n \<le> length (archiveEntries s) \<and> (case aq_cursor query of None \<Rightarrow> n = length (archiveEntries s)
     | Some c \<Rightarrow> cu_after c = int n + 1 \<and> int n \<le> cu_snapshot c))"

lemma shown_cursor [simp]: "shown (query\<lparr>aq_cursor := c\<rparr>) n rows = shown query n rows"
  by (simp add: shown_def visible_def)

lemma page_item_cursor [simp]: "page_item (query\<lparr>aq_cursor := c\<rparr>) = page_item query"
  by (simp add: page_item_def fun_eq_iff)

lemma list_rows:
  assumes "page_starts query s n" "1 \<le> aq_limit query"
  obtains snapshot where "int n \<le> snapshot"
    "listArchiveEntries query s = archivePage (take (Suc (nat (aq_limit query))) (shown query n (archiveEntries s))) query snapshot"
proof -
  let ?snapshot = "case aq_cursor query of None \<Rightarrow> int (length (archiveEntries s)) | Some c \<Rightarrow> cu_snapshot c"
  have "min (int (length (archiveEntries s))) (min ?snapshot (case aq_cursor query of None \<Rightarrow> ?snapshot | Some c \<Rightarrow> cu_after c - 1)) = int n"
    "int n \<le> ?snapshot" using assms(1) by (auto simp: page_starts_def split: option.splits)
  then show ?thesis
    by (intro that [of ?snapshot]) (simp_all add: listArchiveEntries_def Let_def collect_rows_take shown_def)
qed

lemma page_last:
  assumes "page_starts query s n" "1 \<le> aq_limit query" "length (shown query n (archiveEntries s)) \<le> nat (aq_limit query)"
  shows "ap_items (listArchiveEntries query s) = map (page_item query) (shown query n (archiveEntries s))" "ap_nextCursor (listArchiveEntries query s) = None"
proof -
  obtain snapshot where "listArchiveEntries query s = archivePage (take (Suc (nat (aq_limit query))) (shown query n (archiveEntries s))) query snapshot"
    using list_rows [OF assms(1,2)] .
  then show "ap_items (listArchiveEntries query s) = map (page_item query) (shown query n (archiveEntries s))" "ap_nextCursor (listArchiveEntries query s) = None"
    using assms(2,3) by (simp_all add: archivePage_def Let_def)
qed

lemma page_more:
  assumes start: "page_starts query s n" and limit: "1 \<le> aq_limit query" and more: "nat (aq_limit query) < length (shown query n (archiveEntries s))"
    and numbered: "numbered s"
  obtains c j where "ap_items (listArchiveEntries query s) = map (page_item query) (take (nat (aq_limit query)) (shown query n (archiveEntries s)))"
    "ap_nextCursor (listArchiveEntries query s) = Some c" "j < n" "cu_after c = int j + 1" "int j \<le> cu_snapshot c"
    "drop (nat (aq_limit query)) (shown query n (archiveEntries s)) = shown query j (archiveEntries s)"
proof -
  let ?F = "shown query n (archiveEntries s)" and ?l = "nat (aq_limit query)"
  obtain snapshot where snapshot: "int n \<le> snapshot" and page: "listArchiveEntries query s = archivePage (take (Suc ?l) ?F) query snapshot"
    using list_rows [OF start limit] .
  from limit obtain m where m: "?l = Suc m" by (cases ?l) auto
  then have lim: "aq_limit query = int m + 1" using limit by arith
  have many: "aq_limit query < int (length (take (Suc ?l) ?F))" using more lim m by simp
  from rest_after [of n "archiveEntries s" m "\<lambda>row. visible query (fst row)"] start more m
  obtain j where j: "j < n" "?F ! m = archiveEntries s ! j" "drop (Suc m) ?F = shown query j (archiveEntries s)"
    by (auto simp: shown_def page_starts_def)
  have "last (take ?l ?F) = ?F ! m" using more m by (simp add: take_Suc_conv_app_nth)
  moreover have "snd (archiveEntries s ! j) = j + 1"
  proof -
    have "j < length (archiveEntries s)" using j(1) start by (simp add: page_starts_def)
    then have "snd (archiveEntries s ! j) = map snd (archiveEntries s) ! j" by simp
    also have "\<dots> = j + 1" using numbered \<open>j < length _\<close> by (simp add: numbered_def del: upt_Suc)
    finally show ?thesis .
  qed
  ultimately have "snd (last (take ?l ?F)) = j + 1" using j(2) by simp
  then show ?thesis
    using more limit j snapshot m many
    by (intro that [of "\<lparr>cu_filterHash = aq_filterHash query, cu_after = int j + 1, cu_snapshot = snapshot\<rparr>" j])
      (simp_all add: page archivePage_def Let_def del: length_take)
qed

lemma shown_prefix: "take (length rows) xs = rows \<Longrightarrow> n \<le> length rows \<Longrightarrow> shown query n xs = shown query n rows"
  by (metis min.absorb_iff2 min.commute shown_def take_take)

lemma follow_shows:
  assumes "page_starts query s n" "numbered s" "1 \<le> aq_limit query" "length (shown query n (archiveEntries s)) \<le> Suc (length batches)"
  shows "follow query (archive_states s batches) = (map (page_item query) (shown query n (archiveEntries s)), True)"
  using assms
proof (induction batches arbitrary: query s n)
  case Nil
  with page_last [OF Nil.prems(1,3)] show ?case by simp
next
  case (Cons batch batches)
  let ?F = "shown query n (archiveEntries s)" and ?l = "nat (aq_limit query)" and ?t = "run_ops saveArchiveEntry batch s"
  show ?case
  proof (cases "length ?F \<le> ?l")
    case True
    with page_last [OF Cons.prems(1,3)] show ?thesis by simp
  next
    case False
    then have more: "?l < length ?F" by simp
    from page_more [OF Cons.prems(1,3) more Cons.prems(2)] obtain c j
      where page: "ap_items (listArchiveEntries query s) = map (page_item query) (take ?l ?F)" "ap_nextCursor (listArchiveEntries query s) = Some c"
      and c: "j < n" "cu_after c = int j + 1" "int j \<le> cu_snapshot c" and rest: "drop ?l ?F = shown query j (archiveEntries s)" by blast
    have kept: "take (length (archiveEntries s)) (archiveEntries ?t) = archiveEntries s"
      by (rule archive.keeps_run [OF Cons.prems(2)]) simp
    then have longer: "length (archiveEntries s) \<le> length (archiveEntries ?t)" by (metis length_take min.cobounded1 min.absorb_iff1 nat_le_linear take_all_iff)
    have same: "shown query j (archiveEntries ?t) = shown query j (archiveEntries s)"
      using shown_prefix [OF kept, of j query] c(1) Cons.prems(1) by (simp add: page_starts_def)
    have "length (drop ?l ?F) \<le> Suc (length batches)" using Cons.prems(3,4) by simp
    then have "follow (query\<lparr>aq_cursor := Some c\<rparr>) (archive_states ?t batches) = (map (page_item query) (drop ?l ?F), True)"
      using Cons.IH [of "query\<lparr>aq_cursor := Some c\<rparr>" ?t j] c Cons.prems longer archive.inv_run [OF Cons.prems(2)] same rest
      by (simp add: page_starts_def)
    then show ?thesis using page by (simp add: map_append [symmetric] del: map_append)
  qed
qed

text \<open>C15. In every history of the archive: a reader that asks for a first page and then follows the cursors, while other
  entries are uploaded between the pages, is given every entry that was visible to the query when the reading
  began, each once and the newest first, nothing else, and comes to a last page after at most one page per entry.\<close>

theorem archive_pages_complete:
  assumes "aq_cursor query = None" "1 \<le> aq_limit query"
    and "length (archiveEntries (run_ops saveArchiveEntry history empty_archive)) \<le> Suc (length batches)"
  shows "follow query (archive_states (run_ops saveArchiveEntry history empty_archive) batches)
    = (map (page_item query) (filter (\<lambda>row. visible query (fst row)) (rev (archiveEntries (run_ops saveArchiveEntry history empty_archive)))), True)"
proof -
  let ?s = "run_ops saveArchiveEntry history empty_archive"
  have "page_starts query ?s (length (archiveEntries ?s))" using assms(1) by (simp add: page_starts_def)
  moreover have "length (shown query (length (archiveEntries ?s)) (archiveEntries ?s)) \<le> Suc (length batches)"
    using length_filter_le [of "\<lambda>row. visible query (fst row)" "rev (archiveEntries ?s)"] assms(3) by (simp add: shown_def)
  ultimately show ?thesis
    using follow_shows [OF _ archive.inv_history assms(2)] by (simp add: shown_def)
qed

definition sample_archived :: "string \<Rightarrow> archive_entry" where
  "sample_archived i = \<lparr>ae_id = i, ae_projectId = ''p'', ae_environment = ''e'', ae_kind = ''authorization'', ae_createdAt = 5, ae_artifactHash = ''h'',
     ae_supersedesId = Null, ae_txHash = Null, ae_authorizationId = Null, ae_status = ''ACCEPTED'', ae_artifact = Obj []\<rparr>"

definition sample_archive_query :: archive_query where
  "sample_archive_query = \<lparr>aq_access = \<lparr>ac_digest = [], ac_projectId = ''p'', ac_environment = ''e'', ac_role = Str ''reviewer''\<rparr>,
     aq_filters = \<lparr>af_txHash = Null, af_authorizationId = Null, af_status = Null, af_from = None, af_to = None\<rparr>, aq_filterHash = ''f'',
     aq_cursor = None, aq_limit = 1, aq_includeArtifacts = True\<rparr>"

lemma sample_archive_filled:
  "archiveEntries (run_ops saveArchiveEntry [sample_archived ''a'', sample_archived ''b''] empty_archive) = [(sample_archived ''a'', 1), (sample_archived ''b'', 2)]"
  by code_simp

lemma archive_pages_complete_witness:
  "follow sample_archive_query (archive_states (run_ops saveArchiveEntry [sample_archived ''a'', sample_archived ''b''] empty_archive) [[sample_archived ''c'']])
     = ([sample_archived ''b'', sample_archived ''a''], True)"
proof -
  have "aq_cursor sample_archive_query = None" "1 \<le> aq_limit sample_archive_query" by (simp_all add: sample_archive_query_def)
  from archive_pages_complete [OF this, of "[sample_archived ''a'', sample_archived ''b'']" "[[sample_archived ''c'']]"]
  show ?thesis unfolding sample_archive_filled
    by (simp add: page_item_def visible_def sample_archive_query_def sample_archived_def)
qed

end
