(* ===== verification/Selfserve.thy ===== *)
theory Selfserve
  imports Agent_Meter
begin

text \<open>
  src/application/commerce/selfserve-claim.mjs: a caller who paid the deployment in USDC signs the transaction and
  is given credits on an account of the store of \<^verbatim>\<open>Meter\<close>.  Parameters: the hash \<^verbatim>\<open>sha\<close>, the keyed hash \<^verbatim>\<open>hmac\<close>
  (base64url text), the recovery of a signer's address (viem) and the chain's RPC endpoint, all of them outside
  the sources.  Shown: credits are granted only for a transfer that the signer sent to the deployment and that
  succeeded, exactly what was paid for, and once for each transaction; and who gets whose account.
\<close>

section \<open>Texts\<close>

definition TX_HASH :: "string \<Rightarrow> bool" where
  "TX_HASH = bytes32"

definition SIGNATURE :: "string \<Rightarrow> bool" where
  "SIGNATURE = after ''0x'' (hex_n 130)"

definition ADDRESS :: "string \<Rightarrow> bool" where
  "ADDRESS = after ''0x'' (hex_n 40)"

definition TRANSFER_SELECTOR :: string where "TRANSFER_SELECTOR = ''a9059cbb''"

definition CREDENTIAL_DOMAIN :: string where "CREDENTIAL_DOMAIN = ''priorseal-selfserve-credential-v1''"

definition CLAIM_DOMAIN :: string where "CLAIM_DOMAIN = ''priorseal-selfserve-claim-v1''"

definition USDC_RAW_DECIMALS :: nat where "USDC_RAW_DECIMALS = 6"

definition selfserveClaimMessage :: "string \<Rightarrow> string \<Rightarrow> string" where
  "selfserveClaimMessage payTo tx = CLAIM_DOMAIN @ '':'' @ lower payTo @ '':'' @ lower tx"

definition creditUnitUsdLabel :: "nat \<Rightarrow> string" where
  "creditUnitUsdLabel rawUnitsPerCredit = (let digits = int USDC_RAW_DECIMALS - int (length (nat_text rawUnitsPerCredit) - 1) in
     if 0 < digits then ''0.'' @ replicate (nat digits - 1) (CHR ''0'') @ ''1'' else ''1'')"

definition formatUsd :: "nat \<Rightarrow> string" where
  "formatUsd rawUnits = (let scale = 10 ^ USDC_RAW_DECIMALS; whole = rawUnits div scale;
     fraction = trim_zeros (pad_zeros 6 (nat_text (rawUnits mod scale)));
     fraction2 = fraction @ replicate (2 - length fraction) (CHR ''0'')
   in nat_text whole @ ''.'' @ fraction2)"

definition creditOperationId :: "(string \<Rightarrow> string) \<Rightarrow> string \<Rightarrow> string \<Rightarrow> string" where
  "creditOperationId sha accountId tx = ''aco_'' @ take 32 (sha (''{'' @ json_string ''accountId'' @ '':'' @ json_string accountId @ '',''
     @ json_string ''requestKey'' @ '':'' @ json_string (''usdcpay-'' @ tx) @ ''}''))"

section \<open>The chain\<close>

record claim_env =
  ce_payTo :: string
  ce_usdcAddress :: string
  ce_minRawUnits :: nat
  ce_rawUnitsPerCredit :: nat
  ce_hmac :: "string \<Rightarrow> string"
  ce_recover :: "string \<Rightarrow> string \<Rightarrow> string result"
  ce_rpcUrls :: "string list"
  ce_call :: "string \<Rightarrow> string \<Rightarrow> string \<Rightarrow> jsval result"

text \<open>The first endpoint that answers; else the last error.\<close>

fun rpc_first :: "(string \<Rightarrow> jsval result) \<Rightarrow> jerr \<Rightarrow> string list \<Rightarrow> jsval result" where
  "rpc_first call lastError [] = Inl lastError"
| "rpc_first call lastError (url # urls) = (case call url of Inr v \<Rightarrow> Inr v | Inl e \<Rightarrow> rpc_first call e urls)"

definition rpcAgainstChain :: "claim_env \<Rightarrow> string \<Rightarrow> string \<Rightarrow> jsval result" where
  "rpcAgainstChain env meth tx = rpc_first (\<lambda>url. ce_call env url meth tx) (PriorSealError ''CLAIM_CHAIN_UNAVAILABLE'') (ce_rpcUrls env)"

definition readClaimedTransaction :: "claim_env \<Rightarrow> string \<Rightarrow> (string \<times> string \<times> jsval) result" where
  "readClaimedTransaction env tx =
     letE (rpcAgainstChain env ''eth_getTransactionByHash'' tx) (\<lambda>found.
     if \<not> truthy found \<or> \<not> truthy (fld found ''to'') \<or> \<not> truthy (fld found ''from'') \<or> \<not> ADDRESS (js_string (fld found ''to''))
        \<or> \<not> ADDRESS (js_string (fld found ''from'')) then Inl (PriorSealError ''CLAIM_TX_NOT_FOUND'') else
     if \<not> is_str (fld found ''to'') \<or> \<not> is_str (fld found ''from'') then Inl TypeErr else
     Inr (lower (str_of (fld found ''to'')), lower (str_of (fld found ''from'')), fld found ''input''))"

definition transferCalldataOrThrow :: "jsval \<Rightarrow> string result" where
  "transferCalldataOrThrow input = (
     if \<not> truthy input then Inl (PriorSealError ''CLAIM_TX_NOT_ACCEPTED'') else if \<not> is_str input then Inl TypeErr else
     if \<not> starts_with (''0x'' @ TRANSFER_SELECTOR) (str_of input) \<or> length (str_of input) \<noteq> 10 + 128
       then Inl (PriorSealError ''CLAIM_TX_NOT_ACCEPTED'') else Inr (str_of input))"

definition decodeTransferRecipient :: "string \<Rightarrow> string result" where
  "decodeTransferRecipient input = (let recipient = ''0x'' @ drop 24 (take 64 (drop 10 input)) in
     if \<not> ADDRESS recipient \<or> list_all (\<lambda>c. c = CHR ''0'') (drop 2 recipient) then Inl (PriorSealError ''CLAIM_TX_NOT_ACCEPTED'')
     else Inr (lower recipient))"

definition decodeTransferAmount :: "string \<Rightarrow> int" where
  "decodeTransferAmount input = (case js_BigInt (Str (''0x'' @ take 64 (drop 74 input))) of Inr n \<Rightarrow> n | Inl e \<Rightarrow> 0)"

definition assertTransferSucceeded :: "claim_env \<Rightarrow> string \<Rightarrow> unit result" where
  "assertTransferSucceeded env tx =
     letE (rpcAgainstChain env ''eth_getTransactionReceipt'' tx) (\<lambda>receipt.
     if \<not> truthy receipt \<or> fld receipt ''status'' \<noteq> Str ''0x1'' then Inl (PriorSealError ''CLAIM_TX_FAILED'') else Inr ())"

section \<open>A claim\<close>

text \<open>Lines 24 to 44: the tests before the store is asked; the payer and the credits.\<close>

definition check_claim :: "claim_env \<Rightarrow> jsval \<Rightarrow> jsval \<Rightarrow> (string \<times> string \<times> int) result" where
  "check_claim env txValue signature = (
     if \<not> str_test txValue TX_HASH then Inl (PriorSealError ''CLAIM_INVALID_REQUEST'') else
     if \<not> str_test signature SIGNATURE then Inl (PriorSealError ''CLAIM_INVALID_REQUEST'') else
     let normalizedTx = lower (str_of txValue) in
     (case ce_recover env (selfserveClaimMessage (ce_payTo env) normalizedTx) (str_of signature) of
        Inl e \<Rightarrow> Inl (PriorSealError ''CLAIM_SIGNATURE_INVALID'') | Inr recovered \<Rightarrow>
      let payer = lower recovered in
      letE (readClaimedTransaction env normalizedTx) (\<lambda>(target, sender, input).
      if target \<noteq> ce_usdcAddress env then Inl (PriorSealError ''CLAIM_TX_NOT_ACCEPTED'') else
      letE (transferCalldataOrThrow input) (\<lambda>calldata.
      letE (decodeTransferRecipient calldata) (\<lambda>recipient.
      if recipient \<noteq> ce_payTo env then Inl (PriorSealError ''CLAIM_TX_NOT_ACCEPTED'') else
      if sender \<noteq> payer then Inl (PriorSealError ''CLAIM_TX_SENDER_MISMATCH'') else
      letE (assertTransferSucceeded env normalizedTx) (\<lambda>_.
      let amountRaw = decodeTransferAmount calldata in
      if amountRaw < int (ce_minRawUnits env) then Inl (PriorSealError ''CLAIM_BELOW_MINIMUM'') else
      if ce_rawUnitsPerCredit env = 0 then Inl RangeErr else
      let credits = amountRaw div int (ce_rawUnitsPerCredit env) in
      if credits < 1 then Inl (PriorSealError ''CLAIM_BELOW_MINIMUM'') else Inr (normalizedTx, payer, credits)))))))"

definition selfserve_account :: "string \<Rightarrow> string" where
  "selfserve_account payer = ''selfserve-'' @ take 8 (drop 2 payer)"

definition credentialFor :: "claim_env \<Rightarrow> string \<Rightarrow> string" where
  "credentialFor env accountId = ''psa_'' @ ce_hmac env (CREDENTIAL_DOMAIN @ '':'' @ accountId)"

record claim_reply =
  cl_created :: bool
  cl_replay :: bool
  cl_accountId :: string
  cl_account :: account_view
  cl_credential :: string
  cl_credits :: string
  cl_txHash :: string

definition refuseA :: "string \<Rightarrow> 'a meter_action" where
  "refuseA code s = (Inl (PriorSealError code), s)"

definition unlessA :: "bool \<Rightarrow> string \<Rightarrow> 'a meter_action \<Rightarrow> 'a meter_action" where
  "unlessA c code m = (if c then refuseA code else m)"

definition pureA :: "'a result \<Rightarrow> 'a meter_action" where
  "pureA r s = (r, s)"

text \<open>Lines 48 to 56.\<close>

definition ensure_account :: "string \<Rightarrow> string \<Rightarrow> bool meter_action" where
  "ensure_account accountId credentialDigest =
     bindA (readA (\<lambda>s. getAgentMeterAccount accountId s = None)) (\<lambda>createAccount.
     if createAccount then
       bindA (callA (createAgentMeterAccount \<lparr>ai_accountId = accountId, ai_credentialHash = credentialDigest,
          ai_provisionedCredits = ''0'', ai_status = ''active''\<rparr>)) (\<lambda>created.
       bindA (readA (\<lambda>s. findAgentMeterAccountByCredentialHash credentialDigest s = None)) (\<lambda>missing.
       unlessA (\<not> created \<and> missing) ''CLAIM_ACCOUNT_PREEXISTING'' (returnA createAccount)))
     else
       bindA (readA (\<lambda>s. findAgentMeterAccountByCredentialHash credentialDigest s = None)) (\<lambda>missing.
       unlessA missing ''CLAIM_ACCOUNT_PREEXISTING'' (returnA createAccount)))"

definition requireClaimAccount :: "string \<Rightarrow> account_view meter_action" where
  "requireClaimAccount accountId =
     bindA (readA (getAgentMeterAccount accountId)) (\<lambda>state.
     case state of None \<Rightarrow> refuseA ''CLAIM_ACCOUNT_PREEXISTING'' | Some view \<Rightarrow> returnA view)"

definition claim_operation :: "(string \<Rightarrow> string) \<Rightarrow> string \<Rightarrow> string \<Rightarrow> int \<Rightarrow> int \<Rightarrow> credit_operation" where
  "claim_operation sha accountId tx credits now = \<lparr>co_operationId = creditOperationId sha accountId tx, co_accountId = accountId,
     co_requestKey = ''usdcpay-'' @ tx, co_credits = int_text credits, co_reference = Some (''selfserve-claim-'' @ take 16 (drop 2 tx)), co_creditedAt = now\<rparr>"

definition claim :: "(string \<Rightarrow> string) \<Rightarrow> claim_env \<Rightarrow> jsval \<Rightarrow> jsval \<Rightarrow> int \<Rightarrow> claim_reply meter_action" where
  "claim sha env txValue signature now =
     bindA (pureA (check_claim env txValue signature)) (\<lambda>(tx, payer, credits).
     let accountId = selfserve_account payer; credential = credentialFor env accountId in
     bindA (ensure_account accountId (sha credential)) (\<lambda>createAccount.
     bindA (requireClaimAccount accountId) (\<lambda>state.
     unlessA (av_status state \<noteq> ''active'') ''CLAIM_ACCOUNT_REVOKED''
     (bindA (callA (creditAgentMeterAccount (claim_operation sha accountId tx credits now))) (\<lambda>credited.
      case credited of None \<Rightarrow> refuseA ''CLAIM_ACCOUNT_REVOKED''
      | Some reply \<Rightarrow> returnA \<lparr>cl_created = (createAccount \<and> \<not> cr_replay reply), cl_replay = cr_replay reply, cl_accountId = accountId,
          cl_account = cr_account reply, cl_credential = credential, cl_credits = int_text credits, cl_txHash = tx\<rparr>)))))"

section \<open>What a claim changes\<close>

definition remaining :: "meter_store \<Rightarrow> string \<Rightarrow> int" where
  "remaining s a = (case map_get (agentMeterAccounts s) a of None \<Rightarrow> 0 | Some account \<Rightarrow> ma_remainingCredits account)"

definition claimed :: "meter_store \<Rightarrow> string \<Rightarrow> string \<Rightarrow> bool" where
  "claimed s accountId tx = (map_get (agentMeterCreditOperations s) (compound_key accountId (''usdcpay-'' @ tx)) \<noteq> None)"

text \<open>A transfer of USDC from the payer to the deployment that is on the chain and succeeded.\<close>

definition paid_transfer :: "claim_env \<Rightarrow> string \<Rightarrow> string \<Rightarrow> int \<Rightarrow> bool" where
  "paid_transfer env tx payer amount = (\<exists>found calldata receipt.
     rpcAgainstChain env ''eth_getTransactionByHash'' tx = Inr found \<and> lower (str_of (fld found ''to'')) = ce_usdcAddress env
     \<and> lower (str_of (fld found ''from'')) = payer \<and> fld found ''input'' = Str calldata \<and> starts_with (''0x'' @ TRANSFER_SELECTOR) calldata
     \<and> decodeTransferRecipient calldata = Inr (ce_payTo env) \<and> decodeTransferAmount calldata = amount \<and> int (ce_minRawUnits env) \<le> amount
     \<and> rpcAgainstChain env ''eth_getTransactionReceipt'' tx = Inr receipt \<and> fld receipt ''status'' = Str ''0x1'')"

lemma bindA_meter_InrE:
  assumes "bindA m k s = (Inr y, t)"
  obtains x u where "m s = (Inr x, u)" "k x u = (Inr y, t)"
  using assms by (auto simp: bindA_def split: prod.splits sum.splits)

lemma unlessA_InrE: "unlessA c code m s = (Inr y, t) \<Longrightarrow> (\<not> c \<Longrightarrow> m s = (Inr y, t) \<Longrightarrow> P) \<Longrightarrow> P"
  by (auto simp: unlessA_def refuseA_def split: if_splits)

lemma checked_claim:
  assumes "check_claim env txValue signature = Inr (tx, payer, credits)"
  shows "\<exists>signer amount. tx = lower (str_of txValue) \<and> ce_recover env (selfserveClaimMessage (ce_payTo env) tx) (str_of signature) = Inr signer
    \<and> payer = lower signer \<and> paid_transfer env tx payer amount \<and> credits = amount div int (ce_rawUnitsPerCredit env) \<and> 1 \<le> credits"
proof -
  from assms obtain signer target sender input calldata where tx: "tx = lower (str_of txValue)"
    and signer: "ce_recover env (selfserveClaimMessage (ce_payTo env) tx) (str_of signature) = Inr signer" "payer = lower signer"
    and read: "readClaimedTransaction env tx = Inr (target, sender, input)" "target = ce_usdcAddress env" "sender = payer"
    and data: "transferCalldataOrThrow input = Inr calldata" "decodeTransferRecipient calldata = Inr (ce_payTo env)"
    and ok: "assertTransferSucceeded env tx = Inr ()" "int (ce_minRawUnits env) \<le> decodeTransferAmount calldata"
    and credits: "credits = decodeTransferAmount calldata div int (ce_rawUnitsPerCredit env)" "1 \<le> credits"
    by (auto simp: check_claim_def Let_def letE_eq_Inr split: if_splits sum.splits)
  from read obtain found where "rpcAgainstChain env ''eth_getTransactionByHash'' tx = Inr found" "target = lower (str_of (fld found ''to''))"
    "sender = lower (str_of (fld found ''from''))" "input = fld found ''input''"
    by (auto simp: readClaimedTransaction_def letE_eq_Inr split: if_splits)
  moreover from data(1) have "input = Str calldata" "starts_with (''0x'' @ TRANSFER_SELECTOR) calldata"
    by (auto simp: transferCalldataOrThrow_def split: if_splits elim!: is_strE)
  moreover from ok(1) obtain receipt where "rpcAgainstChain env ''eth_getTransactionReceipt'' tx = Inr receipt" "fld receipt ''status'' = Str ''0x1''"
    by (auto simp: assertTransferSucceeded_def letE_eq_Inr split: if_splits)
  ultimately have "paid_transfer env tx payer (decodeTransferAmount calldata)"
    using read(2,3) data(2) ok(2) unfolding paid_transfer_def by metis
  with tx signer credits show ?thesis by blast
qed

lemma BigInt_zero: "BigInt_text ''0'' = Inr 0"
  by code_simp

lemma ensured_account:
  assumes "ensure_account accountId digest s = (Inr created, t)"
  shows "remaining t a = remaining s a" "agentMeterCreditOperations t = agentMeterCreditOperations s"
proof -
  have "t = s \<or> getAgentMeterAccount accountId s = None \<and> t = set_account accountId
      (new_account \<lparr>ai_accountId = accountId, ai_credentialHash = digest, ai_provisionedCredits = ''0'', ai_status = ''active''\<rparr> 0) s"
    using assms unfolding ensure_account_def
    by (elim bindA_meter_InrE) (auto simp: readA_def callA_def unlessA_def refuseA_def returnA_def createAgentMeterAccount_def BigInt_zero
        split: if_splits elim!: bindA_meter_InrE)
  then show "remaining t a = remaining s a" "agentMeterCreditOperations t = agentMeterCreditOperations s"
    by (auto simp: remaining_def set_account_def new_account_def getAgentMeterAccount_def split: option.splits if_splits)
qed

lemma BigInt_int_text: "0 \<le> n \<Longrightarrow> BigInt_text (int_text n) = Inr n"
  using BigInt_digits [OF nat_text_all_digits nat_text_nonempty] by (simp add: int_text_def)

lemma credited_claim:
  assumes "creditAgentMeterAccount (claim_operation sha accountId tx credits now) s = Inr (t, Some reply)" "0 \<le> credits"
  shows "remaining t a = remaining s a + (if a = accountId \<and> \<not> claimed s accountId tx then credits else 0)"
    "claimed t accountId tx" "cr_replay reply \<longleftrightarrow> claimed s accountId tx"
  using assms BigInt_int_text [OF assms(2)]
  by (auto simp: creditAgentMeterAccount_def claim_operation_def Let_def claimed_def remaining_def set_account_def add_credits_def
    split: option.splits if_splits)

lemma claim_answer:
  assumes "claim sha env txValue signature now s = (Inr reply, t)"
  obtains tx signer amount u created credited where "tx = lower (str_of txValue)"
    "ce_recover env (selfserveClaimMessage (ce_payTo env) tx) (str_of signature) = Inr signer"
    "paid_transfer env tx (lower signer) amount" "1 \<le> amount div int (ce_rawUnitsPerCredit env)"
    "ensure_account (selfserve_account (lower signer)) (sha (credentialFor env (selfserve_account (lower signer)))) s = (Inr created, u)"
    "creditAgentMeterAccount (claim_operation sha (selfserve_account (lower signer)) tx (amount div int (ce_rawUnitsPerCredit env)) now) u = Inr (t, Some credited)"
    "cl_accountId reply = selfserve_account (lower signer)" "cl_credential reply = credentialFor env (selfserve_account (lower signer))"
    "cl_replay reply = cr_replay credited"
proof -
  from assms obtain tx payer credits where check: "check_claim env txValue signature = Inr (tx, payer, credits)"
    and rest: "bindA (ensure_account (selfserve_account payer) (sha (credentialFor env (selfserve_account payer)))) (\<lambda>createAccount.
      bindA (requireClaimAccount (selfserve_account payer)) (\<lambda>state.
      unlessA (av_status state \<noteq> ''active'') ''CLAIM_ACCOUNT_REVOKED''
      (bindA (callA (creditAgentMeterAccount (claim_operation sha (selfserve_account payer) tx credits now))) (\<lambda>credited.
       case credited of None \<Rightarrow> refuseA ''CLAIM_ACCOUNT_REVOKED''
       | Some reply \<Rightarrow> returnA \<lparr>cl_created = (createAccount \<and> \<not> cr_replay reply), cl_replay = cr_replay reply, cl_accountId = selfserve_account payer,
          cl_account = cr_account reply, cl_credential = credentialFor env (selfserve_account payer), cl_credits = int_text credits, cl_txHash = tx\<rparr>)))) s = (Inr reply, t)"
    unfolding claim_def by (elim bindA_meter_InrE) (auto simp: pureA_def Let_def split: prod.splits)
  from rest obtain created u credited where ensure: "ensure_account (selfserve_account payer) (sha (credentialFor env (selfserve_account payer))) s = (Inr created, u)"
    and credit: "creditAgentMeterAccount (claim_operation sha (selfserve_account payer) tx credits now) u = Inr (t, Some credited)"
    and reply: "cl_accountId reply = selfserve_account payer" "cl_credential reply = credentialFor env (selfserve_account payer)" "cl_replay reply = cr_replay credited"
    by (elim bindA_meter_InrE unlessA_InrE)
      (auto simp: requireClaimAccount_def readA_def callA_def returnA_def refuseA_def split: option.splits sum.splits elim!: bindA_meter_InrE)
  from checked_claim [OF check] obtain signer amount where ok: "tx = lower (str_of txValue)"
    "ce_recover env (selfserveClaimMessage (ce_payTo env) tx) (str_of signature) = Inr signer" "payer = lower signer"
    "paid_transfer env tx payer amount" "credits = amount div int (ce_rawUnitsPerCredit env)" "1 \<le> credits" by blast
  show ?thesis using that [of tx signer amount created u credited] ok ensure credit reply by simp
qed

text \<open>C11. A claim that is answered was signed by the sender of a USDC transfer to the deployment which is on the
  chain, succeeded and is not below the minimum.  The account of that sender receives the whole credits it paid for when
  the transaction had not been claimed before, and nothing otherwise; no other account changes; and the transaction
  counts as claimed from then on.\<close>

theorem claims_credit_paid_transfers:
  assumes "claim sha env txValue signature now s = (Inr reply, t)"
  shows "\<exists>tx signer amount. tx = lower (str_of txValue) \<and> ce_recover env (selfserveClaimMessage (ce_payTo env) tx) (str_of signature) = Inr signer
    \<and> paid_transfer env tx (lower signer) amount \<and> 1 \<le> amount div int (ce_rawUnitsPerCredit env)
    \<and> cl_accountId reply = selfserve_account (lower signer) \<and> cl_credential reply = credentialFor env (cl_accountId reply)
    \<and> (\<forall>a. remaining t a = remaining s a
         + (if a = cl_accountId reply \<and> \<not> claimed s a tx then amount div int (ce_rawUnitsPerCredit env) else 0))
    \<and> claimed t (cl_accountId reply) tx \<and> (cl_replay reply \<longleftrightarrow> claimed s (cl_accountId reply) tx)"
proof -
  from claim_answer [OF assms] obtain tx signer amount u created credited where ok: "tx = lower (str_of txValue)"
    "ce_recover env (selfserveClaimMessage (ce_payTo env) tx) (str_of signature) = Inr signer"
    "paid_transfer env tx (lower signer) amount" "1 \<le> amount div int (ce_rawUnitsPerCredit env)"
    and ensure: "ensure_account (selfserve_account (lower signer)) (sha (credentialFor env (selfserve_account (lower signer)))) s = (Inr created, u)"
    and credit: "creditAgentMeterAccount (claim_operation sha (selfserve_account (lower signer)) tx (amount div int (ce_rawUnitsPerCredit env)) now) u = Inr (t, Some credited)"
    and reply: "cl_accountId reply = selfserve_account (lower signer)" "cl_credential reply = credentialFor env (selfserve_account (lower signer))"
      "cl_replay reply = cr_replay credited" .
  note before = ensured_account [OF ensure]
  have same: "claimed u a x = claimed s a x" for a x by (simp add: claimed_def before(2))
  have "0 \<le> amount div int (ce_rawUnitsPerCredit env)" using ok(4) by simp
  note after = credited_claim [OF credit this]
  show ?thesis
    by (rule exI [of _ tx], rule exI [of _ signer], rule exI [of _ amount]) (use ok reply after before(1) same in auto)
qed

text \<open>The account a claim was credited to stays: it is active, and an account with its credential is on record.\<close>

definition credential_known :: "string \<Rightarrow> meter_store \<Rightarrow> bool" where
  "credential_known digest s = (digest \<in> set (map (ma_credentialHash \<circ> snd) (agentMeterAccounts s)))"

definition claimable :: "(string \<Rightarrow> string) \<Rightarrow> claim_env \<Rightarrow> string \<Rightarrow> meter_store \<Rightarrow> bool" where
  "claimable sha env accountId s = ((\<exists>account. map_get (agentMeterAccounts s) accountId = Some account \<and> ma_status account = ''active'')
     \<and> credential_known (sha (credentialFor env accountId)) s)"

lemma credential_unknown: "findAgentMeterAccountByCredentialHash digest s = None \<longleftrightarrow> \<not> credential_known digest s"
  by (force simp: findAgentMeterAccountByCredentialHash_def find_None_iff credential_known_def)

lemma map_values_update:
  "map_get m k = Some old \<Longrightarrow> h v = h old \<Longrightarrow> map (h \<circ> snd) (map_set k v m) = map (h \<circ> snd) m"
  by (induction m) (auto split: if_splits)

lemma ensured_on_record:
  assumes "ensure_account accountId digest s = (Inr created, t)"
  shows "credential_known digest t"
  using assms unfolding ensure_account_def
  by (elim bindA_meter_InrE) (auto simp: readA_def callA_def unlessA_def refuseA_def returnA_def createAgentMeterAccount_def BigInt_zero
      credential_unknown credential_known_def set_account_def new_account_def getAgentMeterAccount_def map_set_new split: if_splits elim!: bindA_meter_InrE)

lemma known_after_update:
  assumes "map_get (agentMeterAccounts s) accountId = Some account" "ma_credentialHash account' = ma_credentialHash account"
  shows "credential_known digest (set_account accountId account' s) \<longleftrightarrow> credential_known digest s"
  unfolding credential_known_def set_account_def using map_values_update [OF assms(1), of ma_credentialHash account'] assms(2)
  by (simp del: map_map list.map_comp set_map)

lemma known_accounts: "credential_known digest (s\<lparr>agentMeterCreditOperations := ops\<rparr>) \<longleftrightarrow> credential_known digest s"
  by (simp add: credential_known_def)

lemma credited_account:
  assumes "creditAgentMeterAccount (claim_operation sha accountId tx credits now) s = Inr (t, Some reply)"
    and account: "map_get (agentMeterAccounts s) accountId = Some account"
  shows "\<exists>account'. map_get (agentMeterAccounts t) accountId = Some account' \<and> ma_status account' = ma_status account"
    "credential_known digest t \<longleftrightarrow> credential_known digest s"
proof -
  from assms have "t = s \<or> (\<exists>amount ops. t = set_account accountId (add_credits amount account) s\<lparr>agentMeterCreditOperations := ops\<rparr>)"
    by (auto simp: creditAgentMeterAccount_def claim_operation_def Let_def letE_eq_Inr split: option.splits if_splits)
  then show "\<exists>account'. map_get (agentMeterAccounts t) accountId = Some account' \<and> ma_status account' = ma_status account"
    using account by (auto simp: set_account_def add_credits_def)
  have "ma_credentialHash (add_credits amount account) = ma_credentialHash account" for amount by (simp add: add_credits_def)
  with \<open>t = s \<or> _\<close> show "credential_known digest t \<longleftrightarrow> credential_known digest s"
    using known_after_update [OF account] by (auto simp: known_accounts)
qed

lemma claim_run:
  assumes "claim sha env txValue signature now s = (Inr reply, t)" "check_claim env txValue signature = Inr (tx, payer, credits)"
  shows "\<exists>created u account credited.
    ensure_account (selfserve_account payer) (sha (credentialFor env (selfserve_account payer))) s = (Inr created, u)
    \<and> map_get (agentMeterAccounts u) (selfserve_account payer) = Some account \<and> ma_status account = ''active''
    \<and> creditAgentMeterAccount (claim_operation sha (selfserve_account payer) tx credits now) u = Inr (t, Some credited)
    \<and> cl_accountId reply = selfserve_account payer \<and> cl_credential reply = credentialFor env (selfserve_account payer)
    \<and> cl_replay reply = cr_replay credited"
  using assms unfolding claim_def
  by (elim bindA_meter_InrE) (auto simp: pureA_def Let_def requireClaimAccount_def readA_def callA_def returnA_def refuseA_def
      getAgentMeterAccount_def view_account_def split: option.splits sum.splits elim!: bindA_meter_InrE unlessA_InrE)

lemma answered_claimable:
  assumes "claim sha env txValue signature now s = (Inr reply, t)" "check_claim env txValue signature = Inr (tx, payer, credits)"
  shows "claimable sha env (selfserve_account payer) t \<and> cl_accountId reply = selfserve_account payer
    \<and> cl_credential reply = credentialFor env (selfserve_account payer)"
proof -
  let ?a = "selfserve_account payer"
  from claim_run [OF assms] obtain created u account credited where ensure: "ensure_account ?a (sha (credentialFor env ?a)) s = (Inr created, u)"
    and account: "map_get (agentMeterAccounts u) ?a = Some account" "ma_status account = ''active''"
    and credit: "creditAgentMeterAccount (claim_operation sha ?a tx credits now) u = Inr (t, Some credited)"
    and reply: "cl_accountId reply = ?a" "cl_credential reply = credentialFor env ?a" by blast
  show ?thesis
    using reply credited_account [OF credit account(1)] account(2) ensured_on_record [OF ensure] by (auto simp: claimable_def)
qed

lemma claimable_answers:
  assumes "claimable sha env (selfserve_account payer) s" "check_claim env txValue signature = Inr (tx, payer, credits)"
    and "\<not> claimed s (selfserve_account payer) tx" "0 \<le> credits"
  shows "\<exists>reply t. claim sha env txValue signature now s = (Inr reply, t)"
proof -
  let ?a = "selfserve_account payer"
  from assms(1) obtain account where account: "map_get (agentMeterAccounts s) ?a = Some account" "ma_status account = ''active''"
    and found: "credential_known (sha (credentialFor env ?a)) s"
    by (auto simp: claimable_def)
  from account found have ensure: "ensure_account ?a (sha (credentialFor env ?a)) s = (Inr False, s)"
    by (auto simp: ensure_account_def bindA_def readA_def returnA_def unlessA_def getAgentMeterAccount_def credential_unknown)
  have "\<exists>t reply. creditAgentMeterAccount (claim_operation sha ?a tx credits now) s = Inr (t, Some reply)"
    using assms(3) account(1) BigInt_int_text [OF assms(4)]
    by (auto simp: creditAgentMeterAccount_def claim_operation_def Let_def claimed_def)
  then show ?thesis
    using account by (auto simp: claim_def assms(2) bindA_def pureA_def Let_def ensure requireClaimAccount_def readA_def returnA_def
        callA_def unlessA_def getAgentMeterAccount_def view_account_def)
qed

lemma claim_credits:
  assumes "claim sha env txValue signature now s = (Inr reply, t)" "check_claim env txValue signature = Inr (tx, payer, credits)"
  shows "remaining t a = remaining s a + (if a = cl_accountId reply \<and> \<not> claimed s a tx then credits else 0)"
    "cl_replay reply \<longleftrightarrow> claimed s (cl_accountId reply) tx"
proof -
  let ?a = "selfserve_account payer"
  from claim_run [OF assms] obtain created u credited where ensure: "ensure_account ?a (sha (credentialFor env ?a)) s = (Inr created, u)"
    and credit: "creditAgentMeterAccount (claim_operation sha ?a tx credits now) u = Inr (t, Some credited)"
    and reply: "cl_accountId reply = ?a" "cl_replay reply = cr_replay credited" by blast
  have "0 \<le> credits" using checked_claim [OF assms(2)] by auto
  note after = credited_claim [OF credit this]
  note before = ensured_account [OF ensure]
  have same: "claimed u x y = claimed s x y" for x y by (simp add: claimed_def before(2))
  show "remaining t a = remaining s a + (if a = cl_accountId reply \<and> \<not> claimed s a tx then credits else 0)"
    "cl_replay reply \<longleftrightarrow> claimed s (cl_accountId reply) tx"
    using after(1,3) before(1) reply same by auto
qed

text \<open>C34. The account of a payer is named by the first eight digits of the address only.  When the claim of one payer
  has been answered, a claim of another payer whose address agrees in them, for a new transfer of that payer, is answered too: with
  the same account and the same credential, the new credits being added to what is left of the first payer's.  Whoever
  pays the minimum from such an address is handed the secret with which the other payer's credits are spent.\<close>

theorem equal_prefixes_share_credential:
  assumes "check_claim env tx1 sig1 = Inr (x1, payer1, credits1)" "claim sha env tx1 sig1 now1 s = (Inr r1, s1)"
    and "check_claim env tx2 sig2 = Inr (x2, payer2, credits2)" "\<not> claimed s1 (cl_accountId r1) x2"
    and "take 8 (drop 2 payer2) = take 8 (drop 2 payer1)"
  shows "\<exists>r2 s2. claim sha env tx2 sig2 now2 s1 = (Inr r2, s2) \<and> \<not> cl_replay r2
    \<and> cl_accountId r2 = cl_accountId r1 \<and> cl_credential r2 = cl_credential r1
    \<and> remaining s2 (cl_accountId r1) = remaining s1 (cl_accountId r1) + credits2"
proof -
  have same: "selfserve_account payer2 = selfserve_account payer1" using assms(5) by (simp add: selfserve_account_def)
  from answered_claimable [OF assms(2,1)] have first: "claimable sha env (selfserve_account payer2) s1"
    "cl_accountId r1 = selfserve_account payer2" "cl_credential r1 = credentialFor env (selfserve_account payer2)"
    by (simp_all add: same)
  from checked_claim [OF assms(3)] have credits: "0 \<le> credits2" by auto
  from assms(4) first(2) have "\<not> claimed s1 (selfserve_account payer2) x2" by simp
  from claimable_answers [OF first(1) assms(3) this credits, of now2] obtain r2 s2
    where run: "claim sha env tx2 sig2 now2 s1 = (Inr r2, s2)" by blast
  from claim_credits [OF run assms(3)] answered_claimable [OF run assms(3)] run first assms(4) show ?thesis by auto
qed

section \<open>Examples\<close>

definition sample_claim_env :: claim_env where
  "sample_claim_env = \<lparr>ce_payTo = ''0x1111111111111111111111111111111111111111'', ce_usdcAddress = ''0x2222222222222222222222222222222222222222'',
     ce_minRawUnits = 5, ce_rawUnitsPerCredit = 2, ce_hmac = (\<lambda>s. ''m''), ce_recover = (\<lambda>m signature. Inr ''0x3333333333333333333333333333333333333333''),
     ce_rpcUrls = [''u''], ce_call = (\<lambda>url meth tx. Inr (if meth = ''eth_getTransactionReceipt'' then Obj [(''status'', Str ''0x1'')] else
       Obj [(''to'', Str ''0x2222222222222222222222222222222222222222''), (''from'', Str ''0x3333333333333333333333333333333333333333''),
         (''input'', Str ''0xa9059cbb00000000000000000000000011111111111111111111111111111111111111110000000000000000000000000000000000000000000000000000000000000007'')]))\<rparr>"

definition sample_claim_tx :: jsval where
  "sample_claim_tx = Str ''0x0000000000000000000000000000000000000000000000000000000000000000''"

definition sample_claim_signature :: jsval where
  "sample_claim_signature = Str ''0x0000000000000000000000000000000000000000000000000000000000000000000000000000000000000000000000000000000000000000000000000000000000''"

lemma sample_claim_answered:
  "case fst (claim zero_hash sample_claim_env sample_claim_tx sample_claim_signature 9 empty_meter) of Inl e \<Rightarrow> False | Inr reply \<Rightarrow> cl_credits reply = ''3''"
  by code_simp

lemma sample_claim_reply:
  obtains reply t where "claim zero_hash sample_claim_env sample_claim_tx sample_claim_signature 9 empty_meter = (Inr reply, t)"
proof -
  obtain r t where "claim zero_hash sample_claim_env sample_claim_tx sample_claim_signature 9 empty_meter = (r, t)" by fastforce
  then show ?thesis using sample_claim_answered that by (cases r) auto
qed

lemma claims_credit_paid_transfers_witness:
  "\<exists>reply t. claim zero_hash sample_claim_env sample_claim_tx sample_claim_signature 9 empty_meter = (Inr reply, t)
     \<and> \<not> cl_replay reply \<and> 1 \<le> remaining t (cl_accountId reply)"
proof -
  obtain reply t where run: "claim zero_hash sample_claim_env sample_claim_tx sample_claim_signature 9 empty_meter = (Inr reply, t)"
    by (rule sample_claim_reply)
  have "\<not> claimed empty_meter a x" "remaining empty_meter a = 0" for a x by (simp_all add: claimed_def remaining_def empty_meter_def)
  with run claims_credit_paid_transfers [OF run] show ?thesis by auto
qed

text \<open>Two payers whose addresses agree in the first eight digits, each the sender of a transfer of its own.\<close>

definition sample_other_tx :: jsval where
  "sample_other_tx = Str ''0x0000000000000000000000000000000000000000000000000000000000000001''"

definition sample_first_payer :: string where "sample_first_payer = ''0x3333333333333333333333333333333333333333''"

definition sample_second_payer :: string where "sample_second_payer = ''0x3333333344444444444444444444444444444444''"

definition sample_shared_env :: claim_env where
  "sample_shared_env = sample_claim_env\<lparr>
     ce_recover := (\<lambda>m signature. Inr (if last m = CHR ''0'' then sample_first_payer else sample_second_payer)),
     ce_call := (\<lambda>url meth tx. Inr (if meth = ''eth_getTransactionReceipt'' then Obj [(''status'', Str ''0x1'')] else
       Obj [(''to'', Str ''0x2222222222222222222222222222222222222222''), (''from'', Str (if last tx = CHR ''0'' then sample_first_payer else sample_second_payer)),
         (''input'', Str ''0xa9059cbb00000000000000000000000011111111111111111111111111111111111111110000000000000000000000000000000000000000000000000000000000000007'')]))\<rparr>"

lemma sample_checks:
  "check_claim sample_shared_env sample_claim_tx sample_claim_signature = Inr (str_of sample_claim_tx, sample_first_payer, 3)"
  "check_claim sample_shared_env sample_other_tx sample_claim_signature = Inr (str_of sample_other_tx, sample_second_payer, 3)"
  by code_simp+

lemma sample_first_claim:
  "case claim zero_hash sample_shared_env sample_claim_tx sample_claim_signature 9 empty_meter of (Inl e, t) \<Rightarrow> False
   | (Inr r, t) \<Rightarrow> \<not> claimed t (cl_accountId r) (str_of sample_other_tx) \<and> remaining t (cl_accountId r) = 3"
  by code_simp

lemma equal_prefixes_share_credential_witness:
  "sample_first_payer \<noteq> sample_second_payer
   \<and> (\<exists>r1 s1 r2 s2. claim zero_hash sample_shared_env sample_claim_tx sample_claim_signature 9 empty_meter = (Inr r1, s1)
        \<and> claim zero_hash sample_shared_env sample_other_tx sample_claim_signature 10 s1 = (Inr r2, s2)
        \<and> cl_credential r2 = cl_credential r1 \<and> remaining s1 (cl_accountId r1) = 3 \<and> remaining s2 (cl_accountId r1) = 6)"
proof -
  from sample_first_claim obtain r1 s1 where run: "claim zero_hash sample_shared_env sample_claim_tx sample_claim_signature 9 empty_meter = (Inr r1, s1)"
    and new: "\<not> claimed s1 (cl_accountId r1) (str_of sample_other_tx)" "remaining s1 (cl_accountId r1) = 3"
    by (auto split: prod.splits sum.splits)
  have prefixes: "take 8 (drop 2 sample_second_payer) = take 8 (drop 2 sample_first_payer)" "sample_first_payer \<noteq> sample_second_payer"
    by (simp_all add: sample_first_payer_def sample_second_payer_def)
  from equal_prefixes_share_credential [OF sample_checks(1) run sample_checks(2) new(1) prefixes(1), of 10] run new(2) prefixes(2)
  show ?thesis by fastforce
qed

end
