(* ===== verification/Hypercore_Protocol.thy ===== *)
theory Hypercore_Protocol
  imports Hyperliquid
begin

text \<open>
  src/infrastructure/payments/hypercore-x402-protocol.mjs: payments in Core USDC by a signed usdSend action.  The
  requirement of a quote, the payload a buyer sends and the action in it are records; the constant fields of the
  code's objects (scheme, asset, transfer method, versions) are what their printed texts show.  The address and
  signature functions of viem are parameters; None stands for their throwing.
\<close>

section \<open>Data\<close>

definition HYPERCORE_X402_MAINNET :: string where
  "HYPERCORE_X402_MAINNET = ''hyperliquid:mainnet''"

definition HYPERCORE_X402_TESTNET :: string where
  "HYPERCORE_X402_TESTNET = ''hyperliquid:testnet''"

definition HYPERCORE_USD_SEND_METHOD :: string where
  "HYPERCORE_USD_SEND_METHOD = ''hypercore-usd-send''"

record hc_requirement =
  hq_network :: string
  hq_amount :: string
  hq_payTo :: string
  hq_maxTimeoutSeconds :: int
  hq_quoteId :: string

record usd_send =
  ha_hyperliquidChain :: string
  ha_signatureChainId :: string
  ha_destination :: string
  ha_amount :: string
  ha_time :: int

record hc_signature =
  hg_r :: string
  hg_s :: string
  hg_v :: int

record hc_payment =
  hp_accepted :: hc_requirement
  hp_quoteId :: string
  hp_action :: usd_send
  hp_signature :: hc_signature
  hp_nonce :: int

text \<open>The message that is signed: its types, its name, version and contract are constants of the module.\<close>

record usd_send_message =
  hm_chainId :: nat
  hm_hyperliquidChain :: string
  hm_destination :: string
  hm_amount :: string
  hm_time :: int

record viem =
  vm_isAddress :: "string \<Rightarrow> bool"
  vm_getAddress :: "string \<Rightarrow> string option"
  vm_recover :: "usd_send_message \<Rightarrow> string \<times> string \<times> int \<Rightarrow> string option"
  vm_hash :: "usd_send_message \<Rightarrow> string"

abbreviation hc_error :: "string \<Rightarrow> 'a result" where
  "hc_error code \<equiv> Inl (CodedError code)"

section \<open>Fields\<close>

definition DECIMAL_USD :: "string \<Rightarrow> bool" where
  "DECIMAL_USD s = (uint_text (takeWhile is_digit s) \<and> (case dropWhile is_digit s of [] \<Rightarrow> True
     | c # fraction \<Rightarrow> c = CHR ''.'' \<and> fraction \<noteq> [] \<and> length fraction \<le> 8 \<and> list_all is_digit fraction))"

definition QUOTE_ID :: "string \<Rightarrow> bool" where
  "QUOTE_ID s = (22 \<le> length s \<and> length s \<le> 128 \<and> list_all (\<lambda>c. is_alnum c \<or> c = CHR ''_'' \<or> c = CHR ''-'') s)"

definition assertExactKeys :: "jsval \<Rightarrow> string list \<Rightarrow> unit result" where
  "assertExactKeys value keys = (if length (props value) \<noteq> length keys \<or> \<not> list_all (\<lambda>kv. fst kv \<in> set keys) (props value)
     then hc_error ''invalid_payload'' else Inr ())"

definition parseAddress :: "viem \<Rightarrow> jsval \<Rightarrow> string result" where
  "parseAddress vm value = (if \<not> is_str value \<or> \<not> vm_isAddress vm (str_of value) then hc_error ''invalid_payload'' else
     (case vm_getAddress vm (str_of value) of None \<Rightarrow> hc_error ''invalid_payload'' | Some a \<Rightarrow> Inr a))"

definition parseHypercoreUsdAmount :: "jsval \<Rightarrow> string result" where
  "parseHypercoreUsdAmount value = (
     if \<not> is_str value \<or> \<not> DECIMAL_USD (str_of value) \<or> value = Str ''0'' \<or> value = Str ''0.0'' then hc_error ''invalid_amount'' else
     if CHR ''.'' \<in> set (str_of value) \<and> last (str_of value) = CHR ''0'' then hc_error ''invalid_amount'' else
     Inr (str_of value))"

definition parseSafeTimestamp :: "jsval \<Rightarrow> int result" where
  "parseSafeTimestamp value = (if \<not> is_safe_integer value \<or> int_of value < 0 then hc_error ''invalid_payload'' else Inr (int_of value))"

text \<open>\<^verbatim>\<open>n.toString(16)\<close>, and \<^verbatim>\<open>Number.parseInt(s, 16)\<close> of a text with prefix 0x and digits behind it.\<close>

fun nat_hex :: "nat \<Rightarrow> string" where
  "nat_hex n = (if n < 16 then [hex_digit n] else nat_hex (n div 16) @ [hex_digit (n mod 16)])"

declare nat_hex.simps [simp del]

definition parse_hex :: "string \<Rightarrow> nat" where
  "parse_hex s = (case radix_value 16 0 (drop 2 s) of Some n \<Rightarrow> n | None \<Rightarrow> 0)"

definition parseSignatureChainId :: "jsval \<Rightarrow> string result" where
  "parseSignatureChainId value = (
     if \<not> is_str value \<or> \<not> after ''0x'' (\<lambda>ds. 1 \<le> length ds \<and> length ds \<le> 13 \<and> list_all is_hex ds) (str_of value)
     then hc_error ''invalid_payload'' else
     let numeric = parse_hex (str_of value) in
     if max_safe < int numeric \<or> numeric = 0 then hc_error ''invalid_payload'' else Inr (''0x'' @ nat_hex numeric))"

definition parseSignature :: "jsval \<Rightarrow> hc_signature result" where
  "parseSignature value = (
     if \<not> is_obj value then hc_error ''invalid_signature'' else
     letE (assertExactKeys value [''r'', ''s'', ''v'']) (\<lambda>_.
     let r = fld value ''r''; s = fld value ''s''; v = fld value ''v'' in
     if \<not> is_str r \<or> \<not> is_str s \<or> \<not> bytes32 (str_of r) \<or> \<not> bytes32 (str_of s) then hc_error ''invalid_signature'' else
     if v \<notin> {Num 0, Num 1, Num 27, Num 28} then hc_error ''invalid_signature'' else
     Inr \<lparr>hg_r = lower (str_of r), hg_s = lower (str_of s), hg_v = int_of v\<rparr>))"

definition parseNetwork :: "jsval \<Rightarrow> string result" where
  "parseNetwork value = (if is_any value [HYPERCORE_X402_MAINNET, HYPERCORE_X402_TESTNET] then Inr (str_of value) else hc_error ''invalid_network'')"

definition isHypercoreNetwork :: "string \<Rightarrow> bool" where
  "isHypercoreNetwork network = (network \<in> {HYPERCORE_X402_MAINNET, HYPERCORE_X402_TESTNET})"

definition expectedHyperliquidChain :: "string \<Rightarrow> string" where
  "expectedHyperliquidChain network = (if network = HYPERCORE_X402_MAINNET then ''Mainnet'' else ''Testnet'')"

section \<open>Requirements and payloads\<close>

definition parseHypercorePaymentRequirement :: "viem \<Rightarrow> jsval \<Rightarrow> hc_requirement result" where
  "parseHypercorePaymentRequirement vm value = (
     if \<not> is_obj value then hc_error ''invalid_requirement'' else
     letE (assertExactKeys value [''scheme'', ''network'', ''amount'', ''asset'', ''payTo'', ''maxTimeoutSeconds'', ''extra'']) (\<lambda>_.
     if fld value ''scheme'' \<noteq> Str ''exact'' \<or> fld value ''asset'' \<noteq> Str ''USDC'' then hc_error ''invalid_requirement'' else
     letE (parseNetwork (fld value ''network'')) (\<lambda>network.
     letE (parseHypercoreUsdAmount (fld value ''amount'')) (\<lambda>amount.
     letE (parseAddress vm (fld value ''payTo'')) (\<lambda>payTo.
     let timeout = fld value ''maxTimeoutSeconds''; extra = fld value ''extra'' in
     if \<not> is_safe_integer timeout \<or> int_of timeout < 1 \<or> 60 < int_of timeout then hc_error ''invalid_requirement'' else
     if \<not> is_obj extra then hc_error ''invalid_requirement'' else
     letE (assertExactKeys extra [''assetTransferMethod'', ''protocolVersion'', ''quoteId'']) (\<lambda>_.
     if fld extra ''assetTransferMethod'' \<noteq> Str HYPERCORE_USD_SEND_METHOD \<or> fld extra ''protocolVersion'' \<noteq> Str ''1''
        \<or> \<not> is_str (fld extra ''quoteId'') \<or> \<not> QUOTE_ID (str_of (fld extra ''quoteId'')) then hc_error ''invalid_requirement'' else
     Inr \<lparr>hq_network = network, hq_amount = amount, hq_payTo = payTo, hq_maxTimeoutSeconds = int_of timeout,
          hq_quoteId = str_of (fld extra ''quoteId'')\<rparr>))))))"

definition parse_usd_send :: "viem \<Rightarrow> jsval \<Rightarrow> usd_send result" where
  "parse_usd_send vm value = (
     if \<not> is_obj value then hc_error ''invalid_payload'' else
     letE (assertExactKeys value [''type'', ''hyperliquidChain'', ''signatureChainId'', ''destination'', ''amount'', ''time'']) (\<lambda>_.
     if fld value ''type'' \<noteq> Str ''usdSend'' then hc_error ''invalid_payload'' else
     if \<not> is_any (fld value ''hyperliquidChain'') [''Mainnet'', ''Testnet''] then hc_error ''invalid_payload'' else
     letE (parseSignatureChainId (fld value ''signatureChainId'')) (\<lambda>signatureChainId.
     letE (parseAddress vm (fld value ''destination'')) (\<lambda>destination.
     letE (parseHypercoreUsdAmount (fld value ''amount'')) (\<lambda>amount.
     letE (parseSafeTimestamp (fld value ''time'')) (\<lambda>time.
     Inr \<lparr>ha_hyperliquidChain = str_of (fld value ''hyperliquidChain''), ha_signatureChainId = signatureChainId,
          ha_destination = destination, ha_amount = amount, ha_time = time\<rparr>))))))"

definition parseHypercorePaymentPayload :: "viem \<Rightarrow> jsval \<Rightarrow> hc_payment result" where
  "parseHypercorePaymentPayload vm value = (
     if \<not> is_obj value then hc_error ''invalid_payload'' else
     letE (assertExactKeys value [''x402Version'', ''accepted'', ''payload'']) (\<lambda>_.
     if fld value ''x402Version'' \<noteq> Num 2 then hc_error ''invalid_payload'' else
     letE (parseHypercorePaymentRequirement vm (fld value ''accepted'')) (\<lambda>accepted.
     let body = fld value ''payload'' in
     if \<not> is_obj body then hc_error ''invalid_payload'' else
     letE (assertExactKeys body [''quoteId'', ''action'', ''signature'', ''nonce'']) (\<lambda>_.
     if fld body ''quoteId'' \<noteq> Str (hq_quoteId accepted) \<or> \<not> QUOTE_ID (str_of (fld body ''quoteId'')) then hc_error ''invalid_payload'' else
     letE (parse_usd_send vm (fld body ''action'')) (\<lambda>action.
     letE (parseSafeTimestamp (fld body ''nonce'')) (\<lambda>nonce.
     if nonce \<noteq> ha_time action then hc_error ''invalid_payload'' else
     letE (parseSignature (fld body ''signature'')) (\<lambda>signature.
     Inr \<lparr>hp_accepted = accepted, hp_quoteId = str_of (fld body ''quoteId''), hp_action = action, hp_signature = signature, hp_nonce = nonce\<rparr>)))))))"

definition createHypercorePaymentRequirement :: "viem \<Rightarrow> string \<Rightarrow> jsval \<Rightarrow> jsval \<Rightarrow> string \<Rightarrow> int option \<Rightarrow> hc_requirement result" where
  "createHypercorePaymentRequirement vm network amountValue payToValue quoteId maxTimeoutSeconds = (
     if \<not> QUOTE_ID quoteId then hc_error ''invalid_quote'' else
     letE (parseHypercoreUsdAmount amountValue) (\<lambda>amount.
     letE (parseAddress vm payToValue) (\<lambda>payTo.
     Inr \<lparr>hq_network = network, hq_amount = amount, hq_payTo = payTo,
          hq_maxTimeoutSeconds = (case maxTimeoutSeconds of None \<Rightarrow> 60 | Some t \<Rightarrow> t), hq_quoteId = quoteId\<rparr>)))"

text \<open>\<^verbatim>\<open>JSON.stringify\<close> of the object literal, member by member.\<close>

definition json_member :: "string \<Rightarrow> string \<Rightarrow> string" where
  "json_member k text = json_string k @ '':'' @ text"

definition json_members :: "string list \<Rightarrow> string" where
  "json_members ms = ''{'' @ join '','' ms @ ''}''"

definition requirementFingerprint :: "hc_requirement \<Rightarrow> string" where
  "requirementFingerprint r = json_members
     [json_member ''scheme'' (json_string ''exact''), json_member ''network'' (json_string (hq_network r)),
      json_member ''amount'' (json_string (hq_amount r)), json_member ''asset'' (json_string ''USDC''),
      json_member ''payTo'' (json_string (lower (hq_payTo r))), json_member ''maxTimeoutSeconds'' (int_text (hq_maxTimeoutSeconds r)),
      json_member ''extra'' (json_members [json_member ''assetTransferMethod'' (json_string HYPERCORE_USD_SEND_METHOD),
         json_member ''protocolVersion'' (json_string ''1''), json_member ''quoteId'' (json_string (hq_quoteId r))])]"

section \<open>Verifying a payment\<close>

record hc_verified =
  hf_payer :: string
  hf_paymentId :: string
  hf_actionKey :: string
  hf_action :: usd_send
  hf_signature :: hc_signature

definition signed_message :: "usd_send \<Rightarrow> usd_send_message" where
  "signed_message action = \<lparr>hm_chainId = parse_hex (ha_signatureChainId action), hm_hyperliquidChain = ha_hyperliquidChain action,
     hm_destination = ha_destination action, hm_amount = ha_amount action, hm_time = ha_time action\<rparr>"

definition recovered_payer :: "viem \<Rightarrow> usd_send \<Rightarrow> hc_signature \<Rightarrow> string option" where
  "recovered_payer vm action signature =
     Option.bind (vm_recover vm (signed_message action)
       (hg_r signature, hg_s signature, if hg_v signature = 1 \<or> hg_v signature = 28 then 1 else 0)) (vm_getAddress vm)"

definition verifyHypercorePayment :: "viem \<Rightarrow> jsval \<Rightarrow> hc_requirement \<Rightarrow> int \<Rightarrow> hc_verified result" where
  "verifyHypercorePayment vm value expected now = letE (parseHypercorePaymentPayload vm value) (\<lambda>payment.
     if requirementFingerprint (hp_accepted payment) \<noteq> requirementFingerprint expected then hc_error ''requirement_mismatch'' else
     let action = hp_action payment; signature = hp_signature payment in
     if ha_hyperliquidChain action \<noteq> expectedHyperliquidChain (hq_network expected) then hc_error ''network_mismatch'' else
     if ha_destination action \<noteq> hq_payTo expected \<or> ha_amount action \<noteq> hq_amount expected then hc_error ''payment_mismatch'' else
     let age = now - ha_time action in
     if hq_maxTimeoutSeconds expected * 1000 < age \<or> age < -5000 then hc_error ''expired_payment'' else
     (case recovered_payer vm action signature of None \<Rightarrow> Inl (PlainErr ''viem'') | Some payer \<Rightarrow>
     Inr \<lparr>hf_payer = payer, hf_paymentId = vm_hash vm (signed_message action), hf_actionKey = lower payer @ '':'' @ int_text (hp_nonce payment),
          hf_action = action, hf_signature = signature\<rparr>))"

text \<open>The request to the exchange: action, nonce and signature of the payment.\<close>

definition hyperliquidExchangeRequest :: "hc_payment \<Rightarrow> usd_send \<times> int \<times> hc_signature" where
  "hyperliquidExchangeRequest payment = (hp_action payment, hp_nonce payment, hp_signature payment)"

definition isHexSignature :: "string \<Rightarrow> bool" where
  "isHexSignature value = (after ''0x'' (\<lambda>ds. ds \<noteq> [] \<and> list_all is_hex ds) value \<and> length value = 132)"

text \<open>A parsed URL; parsing is the platform's.\<close>

record js_url =
  url_protocol :: string
  url_pathname :: string
  url_search :: string
  url_hash :: string
  url_text :: string

definition strip_slashes :: "string \<Rightarrow> string" where
  "strip_slashes s = rev (dropWhile (\<lambda>c. c = CHR ''/'') (rev s))"

definition validateHypercoreExchangeUrl :: "(string \<Rightarrow> js_url option) \<Rightarrow> string \<Rightarrow> string result" where
  "validateHypercoreExchangeUrl parse_url value = (case parse_url value of None \<Rightarrow> hc_error ''invalid_config'' | Some parsed \<Rightarrow>
     if url_protocol parsed \<noteq> ''https:'' \<or> strip_slashes (url_pathname parsed) \<noteq> ''/exchange'' \<or> url_search parsed \<noteq> [] \<or> url_hash parsed \<noteq> []
     then hc_error ''invalid_config'' else Inr (url_text parsed))"

section \<open>Amounts have one text\<close>

lemma digit_val_less: "is_digit c \<Longrightarrow> digit_val c < 10"
  by (auto simp: is_digit_iff digit_val_def)

lemma digit_char_val: "is_digit c \<Longrightarrow> digit_char (digit_val c) = c"
  by (auto simp: is_digit_iff digit_val_def digit_char_def)

lemma nat_value_less: "list_all is_digit s \<Longrightarrow> nat_value s < 10 ^ length s"
proof (induction s rule: rev_induct)
  case (snoc c s)
  then show ?case using digit_val_less [of c] by (simp add: nat_value_snoc)
qed (simp add: nat_value_def)

lemma nat_value_inj:
  assumes "list_all is_digit s" "list_all is_digit t" "length s = length t" "nat_value s = nat_value t"
  shows "s = t"
  using assms
proof (induction s arbitrary: t rule: rev_induct)
  case (snoc c s)
  then obtain u d where t: "t = u @ [d]" by (metis length_append_singleton length_Suc_conv_rev)
  have "digit_val c < 10" "digit_val d < 10" using snoc.prems t by (simp_all add: digit_val_less)
  moreover have "10 * nat_value s + digit_val c = 10 * nat_value u + digit_val d" using snoc.prems t by (simp add: nat_value_snoc)
  ultimately have v: "nat_value s = nat_value u" "digit_val c = digit_val d" by arith+
  have l: "list_all is_digit s" "list_all is_digit u" "length s = length u" "is_digit c" "is_digit d"
    using snoc.prems(1-3) t by simp_all
  have "s = u" by (rule snoc.IH [OF l(1-3) v(1)])
  moreover have "c = d" by (metis v(2) l(4,5) digit_char_val)
  ultimately show ?case using t by simp
qed simp

lemma nat_text_value: "posint_text s \<Longrightarrow> nat_text (nat_value s) = s \<and> 0 < nat_value s"
proof (induction s rule: rev_induct)
  case (snoc c s)
  then have c: "is_digit c" by (simp add: posint_text_def)
  show ?case
  proof (cases "s = []")
    case True
    with snoc.prems have "c \<noteq> CHR ''0''" by (simp add: posint_text_def)
    then have "0 < digit_val c" using digit_char_val [OF c] char_of_eq_iff [of 48 "CHR ''0''"] by (cases "digit_val c") (auto simp: digit_char_def)
    with True c show ?thesis
      by (simp add: nat_value_def digit_val_less digit_char_val nat_text.simps [of "digit_val c"])
  next
    case False
    with snoc have "nat_text (nat_value s) = s" "0 < nat_value s" by (auto simp: posint_text_def)
    then show ?thesis
      using c by (subst nat_text.simps) (simp add: nat_value_snoc digit_val_less digit_char_val)
  qed
qed (simp add: posint_text_def)

lemma uint_text_inj: "uint_text s \<Longrightarrow> uint_text t \<Longrightarrow> nat_value s = nat_value t \<Longrightarrow> s = t"
  using nat_text_value [of s] nat_text_value [of t] by (auto simp: uint_text_def nat_value_def digit_val_def)

lemma padded_unique:
  assumes "f @ replicate m z = g @ replicate n z" "f = [] \<or> last f \<noteq> z" "g = [] \<or> last g \<noteq> z"
  shows "f = g"
proof -
  have "rev (dropWhile (\<lambda>c. c = z) (rev (h @ replicate k z))) = h" if "h = [] \<or> last h \<noteq> z" for h k
    using that by (cases h rule: rev_cases) (simp_all add: dropWhile_append)
  with assms show ?thesis by metis
qed

lemma split_units:
  fixes m n x y k :: nat
  assumes "m * k + x = n * k + y" "x < k" "y < k"
  shows "m = n \<and> x = y"
proof -
  have "(m * k + x) div k = m" "(n * k + y) div k = n" using assms(2,3) by simp_all
  with assms(1) show ?thesis by simp
qed

text \<open>The value of an amount in units of the eighth decimal place.\<close>

definition usd_units :: "string \<Rightarrow> nat" where
  "usd_units s = nat_value (takeWhile is_digit s) * 10 ^ 8
     + nat_value (take 8 (drop 1 (dropWhile is_digit s) @ replicate 8 (CHR ''0'')))"

lemma amount_parts:
  assumes "parseHypercoreUsdAmount (Str a) = Inr x"
  obtains w f where "uint_text w" "list_all is_digit f" "length f \<le> 8" "f = [] \<or> last f \<noteq> CHR ''0''"
    "a = (if f = [] then w else w @ CHR ''.'' # f)" "x = a" "f = [] \<Longrightarrow> w \<noteq> ''0''"
    "usd_units a = nat_value w * 10 ^ 8 + nat_value (f @ replicate (8 - length f) (CHR ''0''))"
proof -
  from assms have d: "DECIMAL_USD a" "a \<noteq> ''0''" "CHR ''.'' \<in> set a \<longrightarrow> last a \<noteq> CHR ''0''" "x = a"
    by (auto simp: parseHypercoreUsdAmount_def split: if_splits)
  define w f where "w = takeWhile is_digit a" and "f = drop 1 (dropWhile is_digit a)"
  have a: "a = w @ dropWhile is_digit a" by (simp add: w_def)
  have w: "uint_text w" using d(1) by (simp add: DECIMAL_USD_def w_def)
  have units: "usd_units a = nat_value w * 10 ^ 8 + nat_value (take 8 (f @ replicate 8 (CHR ''0'')))"
    by (simp add: usd_units_def w_def f_def)
  show thesis
  proof (cases "dropWhile is_digit a")
    case Nil
    then have "f = []" unfolding f_def by (simp only: drop_Nil)
    moreover have "a = w" using a unfolding Nil by simp
    ultimately have "f = []" "a = w" .
    with that [of w "[]"] w units d(2,4) show thesis by simp
  next
    case (Cons c r)
    then have r: "c = CHR ''.''" "r \<noteq> []" "length r \<le> 8" "list_all is_digit r" and f: "f = r"
      using d(1) by (simp_all add: DECIMAL_USD_def f_def)
    then have *: "a = w @ CHR ''.'' # r" using a Cons by simp
    then have "last r \<noteq> CHR ''0''" using d(3) r(2) by simp
    moreover have "take 8 (f @ replicate 8 (CHR ''0'')) = r @ replicate (8 - length r) (CHR ''0'')" using f r(3) by simp
    ultimately show thesis using that [of w r] w units d(4) r * by simp
  qed
qed

lemma padded_digits: "list_all is_digit f \<Longrightarrow> length f \<le> 8
    \<Longrightarrow> list_all is_digit (f @ replicate (8 - length f) (CHR ''0'')) \<and> length (f @ replicate (8 - length f) (CHR ''0'')) = 8"
  by (auto simp: list_all_iff is_digit_def)

lemma accepted_amount_positive:
  assumes "parseHypercoreUsdAmount (Str a) = Inr x"
  shows "0 < usd_units a"
proof -
  let ?pad = "\<lambda>f. f @ replicate (8 - length f) (CHR ''0'')"
  from assms obtain w f where a: "uint_text w" "list_all is_digit f" "length f \<le> 8" "f = [] \<or> last f \<noteq> CHR ''0''"
    "a = (if f = [] then w else w @ CHR ''.'' # f)" "x = a" "f = [] \<Longrightarrow> w \<noteq> ''0''"
    "usd_units a = nat_value w * 10 ^ 8 + nat_value (?pad f)" by (rule amount_parts) blast
  show ?thesis
  proof (cases "f = []")
    case True
    with a(1,7) have "0 < nat_value w" using nat_text_value [of w] by (auto simp: uint_text_def)
    with a(8) show ?thesis by simp
  next
    case False
    have "nat_value (?pad f) \<noteq> 0"
    proof
      assume "nat_value (?pad f) = 0"
      then have "?pad f = replicate 8 (CHR ''0'')"
        using padded_digits [OF a(2,3)] by (intro nat_value_inj) (simp_all add: nat_value_zeros is_digit_def list_all_iff)
      then have "f = []" using padded_unique [of f _ _ "[]" 8] a(4) by simp
      with False show False ..
    qed
    with a(8) show ?thesis by simp
  qed
qed

text \<open>C36. A text is accepted as an amount only unchanged and only when it stands for more than nothing; and no two accepted
  texts stand for the same amount, so comparing the texts of two amounts, as the checks of a payment do, compares the amounts.\<close>

theorem hypercore_amounts_canonical:
  assumes "parseHypercoreUsdAmount (Str a) = Inr x"
  shows "x = a \<and> 0 < usd_units a \<and> (\<forall>b y. parseHypercoreUsdAmount (Str b) = Inr y \<longrightarrow> usd_units b = usd_units a \<longrightarrow> b = a)"
proof -
  let ?pad = "\<lambda>f. f @ replicate (8 - length f) (CHR ''0'')"
  from assms obtain w f where a: "uint_text w" "list_all is_digit f" "length f \<le> 8" "f = [] \<or> last f \<noteq> CHR ''0''"
    "a = (if f = [] then w else w @ CHR ''.'' # f)" "x = a" "f = [] \<Longrightarrow> w \<noteq> ''0''"
    "usd_units a = nat_value w * 10 ^ 8 + nat_value (?pad f)" by (rule amount_parts) blast
  have "0 < usd_units a" by (rule accepted_amount_positive [OF assms])
  moreover have "b = a" if "parseHypercoreUsdAmount (Str b) = Inr y" and eq: "usd_units b = usd_units a" for b y
  proof -
    from that(1) obtain v g where b: "uint_text v" "list_all is_digit g" "length g \<le> 8" "g = [] \<or> last g \<noteq> CHR ''0''"
      "b = (if g = [] then v else v @ CHR ''.'' # g)" "y = b" "g = [] \<Longrightarrow> v \<noteq> ''0''"
      "usd_units b = nat_value v * 10 ^ 8 + nat_value (?pad g)" by (rule amount_parts) blast
    have less: "nat_value (?pad f) < 10 ^ 8" "nat_value (?pad g) < 10 ^ 8"
      using padded_digits [OF a(2,3)] padded_digits [OF b(2,3)] nat_value_less by metis+
    have "nat_value v = nat_value w" "nat_value (?pad g) = nat_value (?pad f)"
      using split_units [OF _ less(2,1), of "nat_value v" "nat_value w"] eq a(8) b(8) by simp_all
    then have "v = w" "?pad g = ?pad f"
      using uint_text_inj [OF b(1) a(1)] nat_value_inj padded_digits [OF a(2,3)] padded_digits [OF b(2,3)] by simp_all
    with padded_unique [OF _ b(4) a(4)] have "g = f" by simp
    with \<open>v = w\<close> a(5) b(5) show ?thesis by simp
  qed
  ultimately show ?thesis using a(6) by blast
qed

section \<open>A verified payment fits its quote\<close>

lemma json_string_peel: "json_string s @ r = json_string t @ r' \<longleftrightarrow> s = t \<and> r = r'"
  using json_string_inj by blast

lemma json_string_eq: "json_string s = json_string t \<longleftrightarrow> s = t"
  using json_string_peel [of s "[]" t "[]"] by simp

lemma int_text_peel: "int_text m @ CHR '','' # r = int_text n @ CHR '','' # r' \<longleftrightarrow> m = n \<and> r = r'"
  using num_text_split [OF int_text_num_char int_text_num_char, of "CHR '','' # r" "CHR '','' # r'" m n]
  by (auto simp: delim_def num_char_def is_digit_def)

lemma fingerprint_iff: "requirementFingerprint a = requirementFingerprint b \<longleftrightarrow>
    hq_network a = hq_network b \<and> hq_amount a = hq_amount b \<and> lower (hq_payTo a) = lower (hq_payTo b)
    \<and> hq_maxTimeoutSeconds a = hq_maxTimeoutSeconds b \<and> hq_quoteId a = hq_quoteId b"
  by (simp add: requirementFingerprint_def json_members_def json_member_def json_string_peel json_string_eq int_text_peel)

lemma parsed_payment:
  assumes "parseHypercorePaymentPayload vm value = Inr p"
  shows "hp_nonce p = ha_time (hp_action p) \<and> hp_quoteId p = hq_quoteId (hp_accepted p) \<and> QUOTE_ID (hp_quoteId p)
    \<and> parseHypercoreUsdAmount (Str (ha_amount (hp_action p))) = Inr (ha_amount (hp_action p))"
proof -
  have *: "parseHypercoreUsdAmount v = Inr x \<Longrightarrow> parseHypercoreUsdAmount (Str x) = Inr x" for v x
    by (auto simp: parseHypercoreUsdAmount_def split: if_splits elim: is_strE)
  from assms show ?thesis
    unfolding parseHypercorePaymentPayload_def parse_usd_send_def Let_def
    by (auto elim!: result_elims intro: *)
qed

text \<open>What a payment must show for a requirement at a time.\<close>

definition pays :: "hc_payment \<Rightarrow> hc_requirement \<Rightarrow> int \<Rightarrow> bool" where
  "pays p expected now = (hp_quoteId p = hq_quoteId expected \<and> ha_destination (hp_action p) = hq_payTo expected
     \<and> ha_amount (hp_action p) = hq_amount expected \<and> ha_hyperliquidChain (hp_action p) = expectedHyperliquidChain (hq_network expected)
     \<and> now - hq_maxTimeoutSeconds expected * 1000 \<le> ha_time (hp_action p) \<and> ha_time (hp_action p) \<le> now + 5000)"

lemma verified_payment:
  assumes "verifyHypercorePayment vm value expected now = Inr r"
  obtains p where "parseHypercorePaymentPayload vm value = Inr p" "pays p expected now"
    "requirementFingerprint (hp_accepted p) = requirementFingerprint expected"
    "recovered_payer vm (hp_action p) (hp_signature p) = Some (hf_payer r)" "hf_paymentId r = vm_hash vm (signed_message (hp_action p))"
    "hf_actionKey r = lower (hf_payer r) @ '':'' @ int_text (ha_time (hp_action p))"
proof -
  from assms obtain p where p: "parseHypercorePaymentPayload vm value = Inr p"
    by (auto simp: verifyHypercorePayment_def letE_eq_Inr)
  with assms show thesis
    using parsed_payment [OF p]
    by (intro that [OF p]) (auto simp: verifyHypercorePayment_def Let_def pays_def fingerprint_iff split: if_splits option.splits)
qed

text \<open>C35. A payment is verified only for the quote it names, over the amount, to the payee and on the network of that quote, when
  its accepted requirement is the issued one, and inside the time the quote allows; its payer is who signed just that transfer,
  and its identifiers are the hash of the signed message and the payer with the time.\<close>

theorem verified_payments_match:
  assumes "verifyHypercorePayment vm value expected now = Inr r"
  shows "\<exists>p. parseHypercorePaymentPayload vm value = Inr p
    \<and> hp_quoteId p = hq_quoteId expected \<and> hp_accepted p = expected\<lparr>hq_payTo := hq_payTo (hp_accepted p)\<rparr>
    \<and> lower (hq_payTo (hp_accepted p)) = lower (hq_payTo expected)
    \<and> ha_destination (hp_action p) = hq_payTo expected \<and> usd_units (ha_amount (hp_action p)) = usd_units (hq_amount expected)
    \<and> 0 < usd_units (hq_amount expected) \<and> ha_hyperliquidChain (hp_action p) = expectedHyperliquidChain (hq_network expected)
    \<and> now - hq_maxTimeoutSeconds expected * 1000 \<le> ha_time (hp_action p) \<and> ha_time (hp_action p) \<le> now + 5000
    \<and> recovered_payer vm (hp_action p) (hp_signature p) = Some (hf_payer r) \<and> hf_paymentId r = vm_hash vm (signed_message (hp_action p))
    \<and> hf_actionKey r = lower (hf_payer r) @ '':'' @ int_text (ha_time (hp_action p))"
proof -
  from assms obtain p where p: "parseHypercorePaymentPayload vm value = Inr p" and pays: "pays p expected now"
    and fp: "requirementFingerprint (hp_accepted p) = requirementFingerprint expected"
    and rest: "recovered_payer vm (hp_action p) (hp_signature p) = Some (hf_payer r)" "hf_paymentId r = vm_hash vm (signed_message (hp_action p))"
      "hf_actionKey r = lower (hf_payer r) @ '':'' @ int_text (ha_time (hp_action p))"
    by (rule verified_payment)
  have "0 < usd_units (ha_amount (hp_action p))" using parsed_payment [OF p] accepted_amount_positive by blast
  with pays fp rest p show ?thesis by (intro exI [of _ p]) (simp add: pays_def fingerprint_iff)
qed

section \<open>Instances\<close>

definition toy_viem :: viem where
  "toy_viem = \<lparr>vm_isAddress = \<lambda>_. True, vm_getAddress = Some, vm_recover = \<lambda>m (r, s, y). Some r,
     vm_hash = \<lambda>m. hm_amount m @ '' '' @ int_text (hm_time m)\<rparr>"

definition sample_quote_id :: "char \<Rightarrow> string" where
  "sample_quote_id c = replicate 22 c"

definition sample_hc_payload :: "char \<Rightarrow> char \<Rightarrow> jsval" where
  "sample_hc_payload c payer = Obj [(''x402Version'', Num 2),
     (''accepted'', Obj [(''scheme'', Str ''exact''), (''network'', Str HYPERCORE_X402_MAINNET), (''amount'', Str ''0.02''), (''asset'', Str ''USDC''),
        (''payTo'', Str ''0xa''), (''maxTimeoutSeconds'', Num 60), (''extra'', Obj [(''assetTransferMethod'', Str HYPERCORE_USD_SEND_METHOD),
          (''protocolVersion'', Str ''1''), (''quoteId'', Str (sample_quote_id c))])]),
     (''payload'', Obj [(''quoteId'', Str (sample_quote_id c)),
        (''action'', Obj [(''type'', Str ''usdSend''), (''hyperliquidChain'', Str ''Mainnet''), (''signatureChainId'', Str ''0x1''),
           (''destination'', Str ''0xa''), (''amount'', Str ''0.02''), (''time'', Num 7)]),
        (''signature'', Obj [(''r'', Str (''0x'' @ replicate 64 payer)), (''s'', Str (''0x'' @ replicate 64 payer)), (''v'', Num 27)]),
        (''nonce'', Num 7)])]"

definition sample_requirement :: "char \<Rightarrow> hc_requirement" where
  "sample_requirement c = \<lparr>hq_network = HYPERCORE_X402_MAINNET, hq_amount = ''0.02'', hq_payTo = ''0xa'', hq_maxTimeoutSeconds = 60, hq_quoteId = sample_quote_id c\<rparr>"

definition parsed_sample :: "char \<Rightarrow> char \<Rightarrow> hc_payment" where
  "parsed_sample c payer = \<lparr>hp_accepted = sample_requirement c, hp_quoteId = sample_quote_id c,
     hp_action = \<lparr>ha_hyperliquidChain = ''Mainnet'', ha_signatureChainId = ''0x1'', ha_destination = ''0xa'', ha_amount = ''0.02'', ha_time = 7\<rparr>,
     hp_signature = \<lparr>hg_r = ''0x'' @ replicate 64 payer, hg_s = ''0x'' @ replicate 64 payer, hg_v = 27\<rparr>, hp_nonce = 7\<rparr>"

lemma sample_parsed: "parseHypercorePaymentPayload toy_viem (sample_hc_payload (CHR ''q'') (CHR ''1'')) = Inr (parsed_sample (CHR ''q'') (CHR ''1''))"
  "parseHypercorePaymentPayload toy_viem (sample_hc_payload (CHR ''p'') (CHR ''2'')) = Inr (parsed_sample (CHR ''p'') (CHR ''2''))"
  by code_simp+

definition sample_verified :: "char \<Rightarrow> char \<Rightarrow> hc_verified" where
  "sample_verified c payer = \<lparr>hf_payer = ''0x'' @ replicate 64 payer, hf_paymentId = ''0.02 7'', hf_actionKey = lower (''0x'' @ replicate 64 payer) @ '':7'',
     hf_action = hp_action (parsed_sample c payer), hf_signature = hp_signature (parsed_sample c payer)\<rparr>"

lemma sample_verifies:
  "verifyHypercorePayment toy_viem (sample_hc_payload (CHR ''q'') (CHR ''1'')) (sample_requirement (CHR ''q'')) 9 = Inr (sample_verified (CHR ''q'') (CHR ''1''))"
  "verifyHypercorePayment toy_viem (sample_hc_payload (CHR ''p'') (CHR ''2'')) (sample_requirement (CHR ''p'')) 9 = Inr (sample_verified (CHR ''p'') (CHR ''2''))"
  by code_simp+

lemma sample_amount: "parseHypercoreUsdAmount (Str ''0.02'') = Inr ''0.02''" "usd_units ''0.02'' = 2000000"
  by code_simp+

lemma hypercore_amounts_canonical_witness: "usd_units ''0.02'' = 2000000 \<and> 0 < usd_units ''0.02''"
  using hypercore_amounts_canonical [OF sample_amount(1)] sample_amount(2) by blast

lemma verified_payments_match_witness: "0 < usd_units (hq_amount (sample_requirement (CHR ''q'')))"
  using verified_payments_match [OF sample_verifies(1)] by blast

end
