(* ===== verification/Hypercore_Coordinator.thy ===== *)
theory Hypercore_Coordinator
  imports Hypercore_Protocol Atomic_Store Js_Effects
begin

text \<open>
  src/hypercore-x402/coordinator.mjs: quotes for HyperCore payments and their settlement.  The store is the key-value
  store the coordinator is given; a transaction is one atomic step, and whether a transaction that throws takes back
  its writes is a parameter (\<^verbatim>\<open>undo\<close>), since the interface leaves it open: the durable storage does, the store of
  the tests does not.  Settling is three steps: a transaction that decides, the request to the exchange, and a
  transaction that records the answer.  Anything may happen between them.
\<close>

section \<open>Store\<close>

datatype quote_state = QUOTED | VERIFIED | SUBMITTING | SUBMITTED | SUBMIT_UNKNOWN | REJECTED | EXPIRED

record hc_quote =
  ho_quoteId :: string
  ho_merchantId :: string
  ho_resource :: string
  ho_requirement :: hc_requirement
  ho_createdAt :: int
  ho_expiresAt :: int
  ho_state :: quote_state
  ho_paymentId :: "string option"
  ho_payer :: "string option"
  ho_settledAt :: "int option"
  ho_exchangeResponse :: "jsval option"

record stored_payment =
  hd_quoteId :: string
  hd_payment :: hc_payment
  hd_verified :: hc_verified

datatype hc_value = Quote hc_quote | Payment stored_payment | Action string

type_synonym hc_store = "(string, hc_value) js_map"

definition quoteKey :: "string \<Rightarrow> string" where
  "quoteKey quoteId = ''quote:'' @ quoteId"

definition paymentKey :: "string \<Rightarrow> string" where
  "paymentKey paymentId = ''payment:'' @ paymentId"

definition actionKey :: "string \<Rightarrow> string" where
  "actionKey value = ''action:'' @ value"

definition stored_quote :: "string \<Rightarrow> hc_store \<Rightarrow> hc_quote option" where
  "stored_quote quoteId s = (case map_get s (quoteKey quoteId) of Some (Quote q) \<Rightarrow> Some q | _ \<Rightarrow> None)"

definition payment_at :: "string \<Rightarrow> hc_store \<Rightarrow> stored_payment option" where
  "payment_at paymentId s = (case map_get s (paymentKey paymentId) of Some (Payment p) \<Rightarrow> Some p | _ \<Rightarrow> None)"

definition action_at :: "string \<Rightarrow> hc_store \<Rightarrow> string option" where
  "action_at key s = (case map_get s (actionKey key) of Some (Action p) \<Rightarrow> Some p | _ \<Rightarrow> None)"

definition put_quote :: "hc_quote \<Rightarrow> hc_store \<Rightarrow> hc_store" where
  "put_quote q = map_set (quoteKey (ho_quoteId q)) (Quote q)"

definition putA :: "(hc_store \<Rightarrow> hc_store) \<Rightarrow> (hc_store, unit) action" where
  "putA f s = (f s, Inr ())"

definition transaction :: "bool \<Rightarrow> (hc_store, 'a) action \<Rightarrow> (hc_store, 'a) action" where
  "transaction undo m s = (case m s of (t, Inl e) \<Rightarrow> (if undo then s else t, Inl e) | (t, Inr x) \<Rightarrow> (t, Inr x))"

section \<open>Operations\<close>

definition settlementReference :: "string \<Rightarrow> string" where
  "settlementReference paymentId = ''hcx_'' @ take 32 (drop 2 paymentId)"

definition isExchangeSuccess :: "jsval \<Rightarrow> bool" where
  "isExchangeSuccess value = (is_obj value \<and> fld value ''status'' = Str ''ok'' \<and> is_obj (fld value ''response'')
     \<and> fld (fld value ''response'') ''type'' = Str ''default'')"

record quote_input =
  qi_quoteId :: string
  qi_merchantId :: string
  qi_resource :: string
  qi_network :: string
  qi_amount :: jsval
  qi_payTo :: jsval
  qi_maxTimeoutSeconds :: "int option"

definition new_quote :: "viem \<Rightarrow> quote_input \<Rightarrow> int \<Rightarrow> hc_quote result" where
  "new_quote vm input timestamp =
     letE (parseHypercoreUsdAmount (qi_amount input)) (\<lambda>amount.
     letE (createHypercorePaymentRequirement vm (qi_network input) (Str amount) (qi_payTo input) (qi_quoteId input) (qi_maxTimeoutSeconds input)) (\<lambda>requirement.
     Inr \<lparr>ho_quoteId = qi_quoteId input, ho_merchantId = qi_merchantId input, ho_resource = qi_resource input, ho_requirement = requirement,
          ho_createdAt = timestamp, ho_expiresAt = timestamp + hq_maxTimeoutSeconds requirement * 1000, ho_state = QUOTED,
          ho_paymentId = None, ho_payer = None, ho_settledAt = None, ho_exchangeResponse = None\<rparr>))"

definition createQuote :: "viem \<Rightarrow> bool \<Rightarrow> quote_input \<Rightarrow> int \<Rightarrow> (hc_store, hc_quote) action" where
  "createQuote vm undo input now = bindA (computeA (new_quote vm input now)) (\<lambda>quote.
     bindA (transaction undo (
       bindA (readA (\<lambda>s. stored_quote (ho_quoteId quote) s = None)) (\<lambda>free.
       bindA (requireA free (CodedError ''duplicate_quote'')) (\<lambda>_.
       putA (put_quote quote))))) (\<lambda>_. returnA quote))"

definition requiredQuote :: "string \<Rightarrow> (hc_store, hc_quote) action" where
  "requiredQuote quoteId = bindA (readA (stored_quote quoteId)) (\<lambda>found.
     case found of None \<Rightarrow> throwA (CodedError ''unknown_quote'') | Some q \<Rightarrow> returnA q)"

definition parseAndVerifyKnownQuote :: "viem \<Rightarrow> jsval \<Rightarrow> string \<Rightarrow> int \<Rightarrow> (hc_store, hc_payment \<times> hc_verified) action" where
  "parseAndVerifyKnownQuote vm paymentInput merchantId now =
     bindA (computeA (parseHypercorePaymentPayload vm paymentInput)) (\<lambda>provisional.
     bindA (requiredQuote (hp_quoteId provisional)) (\<lambda>quote.
     bindA (requireA (ho_merchantId quote = merchantId) (CodedError ''merchant_mismatch'')) (\<lambda>_.
     bindA (computeA (verifyHypercorePayment vm paymentInput (ho_requirement quote) now)) (\<lambda>verified.
     returnA (provisional, verified)))))"

text \<open>The transaction of a verification.\<close>

definition consume_quote :: "hc_payment \<Rightarrow> hc_verified \<Rightarrow> int \<Rightarrow> (hc_store, unit) action" where
  "consume_quote payment verified now =
     bindA (requiredQuote (hp_quoteId payment)) (\<lambda>quote.
     if ho_expiresAt quote < now \<and> ho_state quote = QUOTED then
       bindA (putA (put_quote (quote\<lparr>ho_state := EXPIRED\<rparr>))) (\<lambda>_. throwA (CodedError ''expired_quote''))
     else
     bindA (readA (action_at (hf_actionKey verified))) (\<lambda>existingAction.
     bindA (readA (\<lambda>s. case existingAction of None \<Rightarrow> True | Some a \<Rightarrow>
         a = hf_paymentId verified \<and> (case payment_at a s of None \<Rightarrow> False | Some p \<Rightarrow> hd_quoteId p = ho_quoteId quote))) (\<lambda>fresh.
     bindA (requireA fresh (CodedError ''replayed_action'')) (\<lambda>_.
     if ho_state quote = QUOTED then
       bindA (putA (put_quote (quote\<lparr>ho_state := VERIFIED, ho_paymentId := Some (hf_paymentId verified), ho_payer := Some (hf_payer verified)\<rparr>))) (\<lambda>_.
       bindA (putA (map_set (paymentKey (hf_paymentId verified)) (Payment \<lparr>hd_quoteId = ho_quoteId quote, hd_payment = payment, hd_verified = verified\<rparr>))) (\<lambda>_.
       putA (map_set (actionKey (hf_actionKey verified)) (Action (hf_paymentId verified)))))
     else
     bindA (requireA (ho_paymentId quote = Some (hf_paymentId verified)) (CodedError ''quote_consumed'')) (\<lambda>_.
     requireA (ho_state quote \<in> {VERIFIED, SUBMITTING, SUBMITTED, SUBMIT_UNKNOWN}) (CodedError ''quote_unavailable''))))))"

record verify_reply =
  vr_payer :: string
  vr_paymentId :: string
  vr_network :: string
  vr_amount :: string

text \<open>The reply of a verification: the payment, or the reason it is not valid.\<close>

definition verify :: "viem \<Rightarrow> bool \<Rightarrow> jsval \<Rightarrow> string \<Rightarrow> int \<Rightarrow> hc_store \<Rightarrow> hc_store \<times> (string + verify_reply)" where
  "verify vm undo paymentInput merchantId now s = (case
     bindA (parseAndVerifyKnownQuote vm paymentInput merchantId now) (\<lambda>(payment, verified).
     bindA (transaction undo (consume_quote payment verified now)) (\<lambda>_.
     returnA \<lparr>vr_payer = hf_payer verified, vr_paymentId = hf_paymentId verified,
              vr_network = hq_network (hp_accepted payment), vr_amount = hq_amount (hp_accepted payment)\<rparr>)) s of
       (t, Inr reply) \<Rightarrow> (t, Inr reply)
     | (t, Inl (CodedError code)) \<Rightarrow> (t, Inl code)
     | (t, Inl _) \<Rightarrow> (t, Inl ''invalid_payment''))"

record settlement =
  hs_success :: bool
  hs_transaction :: string
  hs_network :: string
  hs_payer :: "string option"
  hs_amount :: "string option"
  hs_errorReason :: "string option"

definition refused_settlement :: "string \<Rightarrow> settlement" where
  "refused_settlement network = \<lparr>hs_success = False, hs_transaction = [], hs_network = network, hs_payer = None, hs_amount = None,
     hs_errorReason = Some ''payment_not_verified''\<rparr>"

definition failed_settlement :: "settlement \<Rightarrow> string \<Rightarrow> settlement" where
  "failed_settlement st reason = st\<lparr>hs_success := False, hs_errorReason := Some reason\<rparr>"

text \<open>What the deciding transaction of settle decides: a reply, or to submit a stored payment for a quote.\<close>

datatype settle_step = Reply settlement | Submit hc_quote stored_payment settlement

definition decide_settlement :: "hc_payment \<Rightarrow> hc_verified \<Rightarrow> (hc_store, settle_step) action" where
  "decide_settlement payment verified =
     bindA (requiredQuote (hp_quoteId payment)) (\<lambda>quote.
     bindA (readA (payment_at (hf_paymentId verified))) (\<lambda>found.
     let network = hq_network (ho_requirement quote);
         st = \<lparr>hs_success = True, hs_transaction = settlementReference (hf_paymentId verified), hs_network = network,
               hs_payer = Some (hf_payer verified), hs_amount = Some (hq_amount (ho_requirement quote)), hs_errorReason = None\<rparr> in
     case found of None \<Rightarrow> returnA (Reply (refused_settlement network)) | Some stored \<Rightarrow>
     if ho_paymentId quote \<noteq> Some (hf_paymentId verified) then returnA (Reply (refused_settlement network)) else
     if ho_state quote = SUBMITTED then returnA (Reply st) else
     if ho_state quote = SUBMIT_UNKNOWN \<or> ho_state quote = SUBMITTING then returnA (Reply (failed_settlement st ''settlement_pending'')) else
     if ho_state quote \<noteq> VERIFIED then returnA (Reply (failed_settlement st ''payment_rejected'')) else
     bindA (putA (put_quote (quote\<lparr>ho_state := SUBMITTING\<rparr>))) (\<lambda>_. returnA (Submit (quote\<lparr>ho_state := SUBMITTING\<rparr>) stored st))))"

text \<open>The first part of settle, up to the request to the exchange.\<close>

definition begin_settle :: "viem \<Rightarrow> bool \<Rightarrow> jsval \<Rightarrow> string \<Rightarrow> int \<Rightarrow> (hc_store, settle_step) action" where
  "begin_settle vm undo paymentInput merchantId now s = (case parseAndVerifyKnownQuote vm paymentInput merchantId now s of
       (t, Inl e) \<Rightarrow> (t, Inr (Reply (refused_settlement HYPERCORE_X402_MAINNET)))
     | (t, Inr (payment, verified)) \<Rightarrow> transaction undo (decide_settlement payment verified) t)"

definition record_state :: "string \<Rightarrow> (hc_quote \<Rightarrow> hc_quote) \<Rightarrow> settlement \<Rightarrow> (hc_store, settlement) action" where
  "record_state quoteId change reply = bindA (requiredQuote quoteId) (\<lambda>quote. bindA (putA (put_quote (change quote))) (\<lambda>_. returnA reply))"

text \<open>The last part, from the answer of the exchange; an answer that is an error, or that cannot be recorded, leaves the payment unknown.\<close>

definition end_settle :: "bool \<Rightarrow> hc_quote \<Rightarrow> settlement \<Rightarrow> jsval result \<Rightarrow> int \<Rightarrow> (hc_store, settlement) action" where
  "end_settle undo initial st answer now s =
     (let unknown = transaction undo (record_state (ho_quoteId initial) (\<lambda>q. q\<lparr>ho_state := SUBMIT_UNKNOWN\<rparr>) (failed_settlement st ''settlement_pending'')) in
     case answer of Inl e \<Rightarrow> unknown s | Inr response \<Rightarrow>
       (case transaction undo (
          if isExchangeSuccess response then
            record_state (ho_quoteId initial) (\<lambda>q. q\<lparr>ho_state := SUBMITTED, ho_settledAt := Some now, ho_exchangeResponse := Some response\<rparr>) st
          else record_state (ho_quoteId initial) (\<lambda>q. q\<lparr>ho_state := REJECTED\<rparr>) (failed_settlement st ''payment_rejected'')) s of
          (t, Inl e) \<Rightarrow> unknown t | (t, Inr reply) \<Rightarrow> (t, Inr reply)))"

text \<open>The whole of settle when nothing comes in between, with the exchange as a function of the request.\<close>

definition settle :: "viem \<Rightarrow> bool \<Rightarrow> (usd_send \<times> int \<times> hc_signature \<Rightarrow> jsval result) \<Rightarrow> jsval \<Rightarrow> string \<Rightarrow> int \<Rightarrow> int \<Rightarrow> (hc_store, settlement) action" where
  "settle vm undo submit paymentInput merchantId now later =
     bindA (begin_settle vm undo paymentInput merchantId now) (\<lambda>next. case next of
       Reply st \<Rightarrow> returnA st
     | Submit quote stored st \<Rightarrow> end_settle undo quote st (submit (hyperliquidExchangeRequest (hd_payment stored))) later)"

section \<open>Any number of payments at once\<close>

text \<open>
  The requests that were parsed and verified so far and wait for their transaction, the requests the exchange has not
  answered, and the payments that were sent to it, with their quotes.
\<close>

record hc_world =
  hw_store :: hc_store
  hw_checked :: "(hc_payment \<times> hc_verified) list"
  hw_flight :: "(hc_quote \<times> settlement) list"
  hw_sent :: "(string \<times> hc_payment) list"

definition empty_world :: hc_world where
  "empty_world = \<lparr>hw_store = [], hw_checked = [], hw_flight = [], hw_sent = []\<rparr>"

text \<open>
  The steps the requests are made of: a quote, the first part of verify and of settle, the transaction of a verify, the
  transaction of a settle, and the answer of the exchange to a request.
\<close>

datatype hc_command = CreateQuote quote_input int | Check jsval string int | Consume nat int | Decide nat | Answer nat "jsval result" int

definition hc_exec :: "viem \<Rightarrow> bool \<Rightarrow> hc_command \<Rightarrow> hc_world \<Rightarrow> (hc_world \<times> unit) result" where
  "hc_exec vm undo c w = (case c of
      CreateQuote input now \<Rightarrow> Inr (w\<lparr>hw_store := fst (createQuote vm undo input now (hw_store w))\<rparr>, ())
    | Check value merchantId now \<Rightarrow> (case snd (parseAndVerifyKnownQuote vm value merchantId now (hw_store w)) of
         Inl e \<Rightarrow> Inl e | Inr pv \<Rightarrow> Inr (w\<lparr>hw_checked := hw_checked w @ [pv]\<rparr>, ()))
    | Consume i now \<Rightarrow> if length (hw_checked w) \<le> i then Inl TypeErr else
         (case hw_checked w ! i of (payment, verified) \<Rightarrow>
           Inr (w\<lparr>hw_store := fst (transaction undo (consume_quote payment verified now) (hw_store w))\<rparr>, ()))
    | Decide i \<Rightarrow> if length (hw_checked w) \<le> i then Inl TypeErr else
         (case hw_checked w ! i of (payment, verified) \<Rightarrow>
         (case transaction undo (decide_settlement payment verified) (hw_store w) of
            (t, Inr (Submit quote stored st)) \<Rightarrow> Inr (w\<lparr>hw_store := t, hw_flight := hw_flight w @ [(quote, st)],
                hw_sent := hw_sent w @ [(ho_quoteId quote, hd_payment stored)]\<rparr>, ())
          | (t, _) \<Rightarrow> Inr (w\<lparr>hw_store := t\<rparr>, ())))
    | Answer i answer now \<Rightarrow> if length (hw_flight w) \<le> i then Inl TypeErr else
         (case hw_flight w ! i of (quote, st) \<Rightarrow>
           Inr (w\<lparr>hw_store := fst (end_settle undo quote st answer now (hw_store w)),
                  hw_flight := take i (hw_flight w) @ drop (Suc i) (hw_flight w)\<rparr>, ())))"

section \<open>What the operations change\<close>

lemma keys_apart [simp]: "paymentKey p \<noteq> quoteKey q" "quoteKey q \<noteq> paymentKey p" "actionKey a \<noteq> quoteKey q" "quoteKey q \<noteq> actionKey a"
  "paymentKey p \<noteq> actionKey a" "actionKey a \<noteq> paymentKey p"
  by (simp_all add: paymentKey_def quoteKey_def actionKey_def)

lemma keys_inj [simp]: "quoteKey a = quoteKey b \<longleftrightarrow> a = b" "paymentKey a = paymentKey b \<longleftrightarrow> a = b" "actionKey a = actionKey b \<longleftrightarrow> a = b"
  by (simp_all add: paymentKey_def quoteKey_def actionKey_def)

lemma store_reads [simp]:
  "stored_quote k (put_quote q s) = (if k = ho_quoteId q then Some q else stored_quote k s)"
  "stored_quote k (map_set (paymentKey p) v s) = stored_quote k s" "stored_quote k (map_set (actionKey p) v s) = stored_quote k s"
  "payment_at k (put_quote q s) = payment_at k s" "payment_at k (map_set (actionKey p) v s) = payment_at k s"
  "payment_at k (map_set (paymentKey p) (Payment x) s) = (if k = p then Some x else payment_at k s)"
  "action_at k (put_quote q s) = action_at k s" "action_at k (map_set (paymentKey p) v s) = action_at k s"
  "action_at k (map_set (actionKey p) (Action a) s) = (if k = p then Some a else action_at k s)"
  by (simp_all add: stored_quote_def payment_at_def action_at_def put_quote_def)

lemma transaction_eq_Inr [simp]: "transaction undo m s = (t, Inr x) \<longleftrightarrow> m s = (t, Inr x)"
  by (auto simp: transaction_def split: prod.splits sum.splits)

lemma transaction_fst: "fst (transaction undo m s) = s \<or> fst (transaction undo m s) = fst (m s)"
  by (auto simp: transaction_def split: prod.splits sum.splits)

lemma putA_bind [simp]: "bindA (putA f) k s = k () (f s)" "putA f s = (f s, Inr ())"
  by (simp_all add: bindA_def putA_def)

lemma readA_bind [simp]: "bindA (readA f) k s = k (f s) s"
  by (simp add: bindA_def readA_def)

lemma requireA_bind [simp]: "bindA (requireA ok e) k s = (if ok then k () s else (s, Inl e))"
  by (simp add: requireA_def)

lemma requiredQuote_bind: "bindA (requiredQuote k) f s = (case stored_quote k s of None \<Rightarrow> (s, Inl (CodedError ''unknown_quote'')) | Some q \<Rightarrow> f q s)"
  by (simp add: requiredQuote_def bindA_assoc split: option.splits)

definition verified_quote :: "hc_quote \<Rightarrow> hc_verified \<Rightarrow> hc_quote" where
  "verified_quote q v = q\<lparr>ho_state := VERIFIED, ho_paymentId := Some (hf_paymentId v), ho_payer := Some (hf_payer v)\<rparr>"

definition unused_action :: "hc_verified \<Rightarrow> string \<Rightarrow> hc_store \<Rightarrow> bool" where
  "unused_action v quoteId s = (case action_at (hf_actionKey v) s of None \<Rightarrow> True | Some a \<Rightarrow>
     a = hf_paymentId v \<and> (case payment_at a s of None \<Rightarrow> False | Some p \<Rightarrow> hd_quoteId p = quoteId))"

definition with_payment :: "hc_quote \<Rightarrow> hc_payment \<Rightarrow> hc_verified \<Rightarrow> hc_store \<Rightarrow> hc_store" where
  "with_payment q p v s = map_set (actionKey (hf_actionKey v)) (Action (hf_paymentId v))
     (map_set (paymentKey (hf_paymentId v)) (Payment \<lparr>hd_quoteId = ho_quoteId q, hd_payment = p, hd_verified = v\<rparr>)
       (put_quote (verified_quote q v) s))"

lemma consume_eq: "consume_quote p v now s = (case stored_quote (hp_quoteId p) s of None \<Rightarrow> (s, Inl (CodedError ''unknown_quote'')) | Some q \<Rightarrow>
     if ho_expiresAt q < now \<and> ho_state q = QUOTED then (put_quote (q\<lparr>ho_state := EXPIRED\<rparr>) s, Inl (CodedError ''expired_quote'')) else
     if \<not> unused_action v (ho_quoteId q) s then (s, Inl (CodedError ''replayed_action'')) else
     if ho_state q = QUOTED then (with_payment q p v s, Inr ()) else
     if ho_paymentId q \<noteq> Some (hf_paymentId v) then (s, Inl (CodedError ''quote_consumed'')) else
     if ho_state q \<notin> {VERIFIED, SUBMITTING, SUBMITTED, SUBMIT_UNKNOWN} then (s, Inl (CodedError ''quote_unavailable'')) else (s, Inr ()))"
  unfolding consume_quote_def requiredQuote_bind
  by (rule option.case_cong [OF refl refl]) (simp add: unused_action_def with_payment_def verified_quote_def requireA_def computeA_def)

lemma consume_cases:
  assumes "consume_quote p v now s = (t, r)"
  obtains (same) "t = s"
  | (expired) q where "stored_quote (hp_quoteId p) s = Some q" "ho_state q = QUOTED" "t = put_quote (q\<lparr>ho_state := EXPIRED\<rparr>) s"
      "r = Inl (CodedError ''expired_quote'')"
  | (consumed) q where "stored_quote (hp_quoteId p) s = Some q" "ho_state q = QUOTED" "unused_action v (ho_quoteId q) s" "t = with_payment q p v s"
      "r = Inr ()"
  using assms unfolding consume_eq by (auto split: option.splits if_splits)

lemma decide_disj:
  "decide_settlement p v s = (t, r) \<Longrightarrow> t = s \<and> (\<forall>q x st. r \<noteq> Inr (Submit q x st))
    \<or> (\<exists>q x st. stored_quote (hp_quoteId p) s = Some q \<and> payment_at (hf_paymentId v) s = Some x \<and> ho_paymentId q = Some (hf_paymentId v)
      \<and> ho_state q = VERIFIED \<and> t = put_quote (q\<lparr>ho_state := SUBMITTING\<rparr>) s \<and> r = Inr (Submit (q\<lparr>ho_state := SUBMITTING\<rparr>) x st)
      \<and> hs_payer st = Some (hf_payer v))"
  by (cases "stored_quote (hp_quoteId p) s"; cases "payment_at (hf_paymentId v) s")
    (auto simp: decide_settlement_def requiredQuote_bind Let_def computeA_def split: if_splits)

lemma decide_cases:
  assumes "decide_settlement p v s = (t, r)"
  obtains (reply) "t = s" "\<And>q x st. r \<noteq> Inr (Submit q x st)"
  | (submit) q x st where "stored_quote (hp_quoteId p) s = Some q" "payment_at (hf_paymentId v) s = Some x" "ho_paymentId q = Some (hf_paymentId v)"
      "ho_state q = VERIFIED" "t = put_quote (q\<lparr>ho_state := SUBMITTING\<rparr>) s" "r = Inr (Submit (q\<lparr>ho_state := SUBMITTING\<rparr>) x st)" "hs_payer st = Some (hf_payer v)"
  using decide_disj [OF assms] by (elim disjE conjE exE) (blast intro: reply submit)+

lemma record_state_eq: "record_state k f reply s = (case stored_quote k s of None \<Rightarrow> (s, Inl (CodedError ''unknown_quote''))
    | Some q \<Rightarrow> (put_quote (f q) s, Inr reply))"
  by (simp add: record_state_def requiredQuote_bind split: option.splits)

definition settled_as :: "jsval result \<Rightarrow> int \<Rightarrow> hc_quote \<Rightarrow> hc_quote" where
  "settled_as answer now q = (case answer of Inl e \<Rightarrow> q\<lparr>ho_state := SUBMIT_UNKNOWN\<rparr> | Inr response \<Rightarrow>
     if isExchangeSuccess response then q\<lparr>ho_state := SUBMITTED, ho_settledAt := Some now, ho_exchangeResponse := Some response\<rparr>
     else q\<lparr>ho_state := REJECTED\<rparr>)"

lemma end_settle_eq: "fst (end_settle undo initial st answer now s) = (case stored_quote (ho_quoteId initial) s of None \<Rightarrow> s
    | Some q \<Rightarrow> put_quote (settled_as answer now q) s)"
  by (cases "stored_quote (ho_quoteId initial) s")
    (simp_all add: end_settle_def settled_as_def transaction_def record_state_eq Let_def split: sum.split)

lemma new_quote_fields:
  assumes "new_quote vm input now = Inr q"
  shows "ho_quoteId q = qi_quoteId input \<and> ho_state q = QUOTED \<and> ho_paymentId q = None"
  using assms by (auto simp: new_quote_def elim!: result_elims)

lemma createQuote_cases:
  assumes "fst (createQuote vm undo input now s) = t"
  obtains (same) "t = s"
  | (created) q where "new_quote vm input now = Inr q" "stored_quote (ho_quoteId q) s = None" "t = put_quote q s"
  using assms
  by (cases "new_quote vm input now") (auto simp: createQuote_def transaction_def bindA_def computeA_def requireA_def readA_def putA_def split: if_splits)

section \<open>What holds in every history\<close>

definition sent_states :: "quote_state set" where
  "sent_states = {SUBMITTING, SUBMITTED, SUBMIT_UNKNOWN, REJECTED}"

text \<open>A quote was sent to the exchange exactly when its state says so; then, and when it is verified, a payment that fits it is bound to it.\<close>

definition message_id :: "viem \<Rightarrow> hc_payment \<Rightarrow> string" where
  "message_id vm p = vm_hash vm (signed_message (hp_action p))"

definition quote_ok :: "viem \<Rightarrow> (string \<times> hc_payment) list \<Rightarrow> string \<Rightarrow> hc_quote \<Rightarrow> bool" where
  "quote_ok vm sent k q = (ho_quoteId q = k \<and> (k \<in> fst ` set sent \<longleftrightarrow> ho_state q \<in> sent_states)
     \<and> (ho_state q \<notin> {QUOTED, EXPIRED} \<longrightarrow> (\<exists>p now. ho_paymentId q = Some (message_id vm p) \<and> pays p (ho_requirement q) now))
     \<and> (ho_state q = SUBMITTED \<longrightarrow> (\<exists>r. ho_exchangeResponse q = Some r \<and> isExchangeSuccess r)))"

definition checked_ok :: "viem \<Rightarrow> hc_store \<Rightarrow> hc_payment \<times> hc_verified \<Rightarrow> bool" where
  "checked_ok vm s pv = (\<exists>q now. stored_quote (hp_quoteId (fst pv)) s = Some q \<and> pays (fst pv) (ho_requirement q) now
     \<and> hf_paymentId (snd pv) = message_id vm (fst pv))"

definition sent_ok :: "viem \<Rightarrow> hc_store \<Rightarrow> string \<times> hc_payment \<Rightarrow> bool" where
  "sent_ok vm s kp = (\<exists>q. stored_quote (fst kp) s = Some q \<and> ho_paymentId q = Some (message_id vm (snd kp)))"

definition hc_ok :: "viem \<Rightarrow> hc_world \<Rightarrow> bool" where
  "hc_ok vm w = ((\<forall>k q. stored_quote k (hw_store w) = Some q \<longrightarrow> quote_ok vm (hw_sent w) k q)
     \<and> distinct (map fst (hw_sent w)) \<and> list_all (sent_ok vm (hw_store w)) (hw_sent w)
     \<and> list_all (\<lambda>f. ho_quoteId (fst f) \<in> fst ` set (hw_sent w)) (hw_flight w)
     \<and> list_all (checked_ok vm (hw_store w)) (hw_checked w)
     \<and> (\<forall>k x. payment_at k (hw_store w) = Some x \<longrightarrow> message_id vm (hd_payment x) = k))"

lemma hc_ok_quote: "hc_ok vm w \<Longrightarrow> stored_quote k (hw_store w) = Some q \<Longrightarrow> quote_ok vm (hw_sent w) k q"
  by (simp add: hc_ok_def)

lemma hc_ok_sent: "hc_ok vm w \<Longrightarrow> kp \<in> set (hw_sent w) \<Longrightarrow> sent_ok vm (hw_store w) kp"
  by (simp add: hc_ok_def list_all_iff)

lemma sent_ok_put: "sent_ok vm s kp \<Longrightarrow> (fst kp = ho_quoteId q \<Longrightarrow> ho_paymentId q = Some (message_id vm (snd kp))) \<Longrightarrow> sent_ok vm (put_quote q s) kp"
  by (auto simp: sent_ok_def split: if_splits)

lemma sent_key: "kp \<in> set sent \<Longrightarrow> fst kp = k \<Longrightarrow> k \<in> fst ` set sent"
  by blast

text \<open>Another version of a quote is put into the store.\<close>

lemma hc_ok_put:
  assumes "hc_ok vm w" "stored_quote k (hw_store w) = Some q" "ho_requirement q' = ho_requirement q" "quote_ok vm (hw_sent w) k q'"
    and "k \<in> fst ` set (hw_sent w) \<Longrightarrow> ho_paymentId q' = ho_paymentId q"
  shows "hc_ok vm (w\<lparr>hw_store := put_quote q' (hw_store w)\<rparr>)"
proof -
  have k: "ho_quoteId q' = k" using assms(4) by (simp add: quote_ok_def)
  have "sent_ok vm (put_quote q' (hw_store w)) kp" if "kp \<in> set (hw_sent w)" for kp
  proof (rule sent_ok_put [OF hc_ok_sent [OF assms(1) that]])
    assume "fst kp = ho_quoteId q'"
    with k have "fst kp = k" by simp
    with assms(5) [OF sent_key [OF that this]] hc_ok_sent [OF assms(1) that] assms(2)
    show "ho_paymentId q' = Some (message_id vm (snd kp))" by (simp add: sent_ok_def)
  qed
  moreover have "checked_ok vm (put_quote q' (hw_store w)) pv" if "checked_ok vm (hw_store w) pv" for pv
    using that assms(2,3) k by (auto simp: checked_ok_def)
  ultimately show ?thesis using assms(1,4) k by (simp add: hc_ok_def list_all_iff)
qed

lemma hc_ok_new:
  assumes "hc_ok vm w" "stored_quote (ho_quoteId q) (hw_store w) = None" "ho_state q = QUOTED"
  shows "hc_ok vm (w\<lparr>hw_store := put_quote q (hw_store w)\<rparr>)"
proof -
  have fresh: "ho_quoteId q \<notin> fst ` set (hw_sent w)" using hc_ok_sent [OF assms(1)] assms(2) by (force simp: sent_ok_def)
  then have "quote_ok vm (hw_sent w) (ho_quoteId q) q" using assms(3) by (simp add: quote_ok_def sent_states_def)
  moreover have "sent_ok vm (put_quote q (hw_store w)) kp" if "kp \<in> set (hw_sent w)" for kp
    by (rule sent_ok_put [OF hc_ok_sent [OF assms(1) that]]) (use sent_key [OF that] fresh in simp)
  moreover have "checked_ok vm (put_quote q (hw_store w)) pv" if "checked_ok vm (hw_store w) pv" for pv
    using that assms(2) by (auto simp: checked_ok_def)
  ultimately show ?thesis using assms(1) by (simp add: hc_ok_def list_all_iff)
qed

lemma quote_ok_move:
  assumes "quote_ok vm sent k q" "ho_state q \<in> sent_states \<longleftrightarrow> ho_state q' \<in> sent_states" "ho_quoteId q' = ho_quoteId q"
    and "ho_state q' \<notin> {QUOTED, EXPIRED} \<Longrightarrow> \<exists>p now. ho_paymentId q' = Some (message_id vm p) \<and> pays p (ho_requirement q') now"
    and "ho_state q' = SUBMITTED \<Longrightarrow> \<exists>r. ho_exchangeResponse q' = Some r \<and> isExchangeSuccess r"
  shows "quote_ok vm sent k q'"
  using assms by (auto simp: quote_ok_def)

lemma hc_ok_consume:
  assumes ok: "hc_ok vm w" and pv: "(p, v) \<in> set (hw_checked w)" and call: "consume_quote p v now (hw_store w) = (t, r)"
  shows "hc_ok vm (w\<lparr>hw_store := t\<rparr>)"
  using call
proof (cases rule: consume_cases)
  case same
  with ok show ?thesis by simp
next
  case (expired q)
  have "quote_ok vm (hw_sent w) (hp_quoteId p) (q\<lparr>ho_state := EXPIRED\<rparr>)"
    by (rule quote_ok_move [OF hc_ok_quote [OF ok expired(1)]]) (simp_all add: expired(2) sent_states_def)
  from hc_ok_put [OF ok expired(1) _ this] show ?thesis using expired(3) by simp
next
  case (consumed q)
  from ok pv have pq: "checked_ok vm (hw_store w) (p, v)" by (auto simp: hc_ok_def list_all_iff)
  then have *: "hf_paymentId v = message_id vm p" "\<exists>now. pays p (ho_requirement q) now" using consumed(1) by (auto simp: checked_ok_def)
  have old: "quote_ok vm (hw_sent w) (hp_quoteId p) q" by (rule hc_ok_quote [OF ok consumed(1)])
  have "quote_ok vm (hw_sent w) (hp_quoteId p) (verified_quote q v)"
    by (rule quote_ok_move [OF old]) (use * in \<open>auto simp: consumed(2) sent_states_def verified_quote_def\<close>)
  from hc_ok_put [OF ok consumed(1) _ this] old consumed(2)
  have "hc_ok vm (w\<lparr>hw_store := put_quote (verified_quote q v) (hw_store w)\<rparr>)"
    by (auto simp: quote_ok_def sent_states_def verified_quote_def)
  then show ?thesis
    unfolding consumed(4) with_payment_def using *(1) by (auto simp: hc_ok_def list_all_iff sent_ok_def checked_ok_def)
qed

lemma hc_ok_decide:
  assumes ok: "hc_ok vm w" and call: "decide_settlement p v (hw_store w) = (t, Inr (Submit q' x st))"
  shows "hc_ok vm (w\<lparr>hw_store := t, hw_flight := hw_flight w @ [(q', st)], hw_sent := hw_sent w @ [(ho_quoteId q', hd_payment x)]\<rparr>)"
  using call
proof (cases rule: decide_cases)
  case (submit q y st')
  then have x: "x = y" "st' = st" "q' = q\<lparr>ho_state := SUBMITTING\<rparr>" by simp_all
  have old: "quote_ok vm (hw_sent w) (hp_quoteId p) q" by (rule hc_ok_quote [OF ok submit(1)])
  then have k: "ho_quoteId q = hp_quoteId p" "hp_quoteId p \<notin> fst ` set (hw_sent w)"
    using submit(4) by (simp_all add: quote_ok_def sent_states_def)
  have "sent_ok vm t (ho_quoteId q', hd_payment x)"
    using ok submit(2,3,5) x by (simp add: sent_ok_def hc_ok_def)
  moreover have "sent_ok vm t kp" if "kp \<in> set (hw_sent w)" for kp
    unfolding submit(5) by (rule sent_ok_put [OF hc_ok_sent [OF ok that]]) (use sent_key [OF that] k in simp)
  moreover have "checked_ok vm t pv" if "checked_ok vm (hw_store w) pv" for pv
    using that k submit(1,5) by (auto simp: checked_ok_def)
  moreover have "quote_ok vm (hw_sent w @ [(ho_quoteId q', hd_payment x)]) j u" if "stored_quote j t = Some u" for j u
  proof (cases "j = hp_quoteId p")
    case True
    have u: "u = q\<lparr>ho_state := SUBMITTING\<rparr>" using that True submit(5) k by simp
    have "\<exists>p now. ho_paymentId q = Some (message_id vm p) \<and> pays p (ho_requirement q) now" using old submit(4) by (simp add: quote_ok_def)
    then show ?thesis unfolding u using k x True by (simp add: quote_ok_def sent_states_def)
  next
    case False
    then show ?thesis using that hc_ok_quote [OF ok, of j u] k x submit(5) by (simp add: quote_ok_def)
  qed
  ultimately show ?thesis using ok k x submit(5) by (simp add: hc_ok_def list_all_iff)
qed blast

lemma hc_ok_answer:
  assumes ok: "hc_ok vm w" and f: "(initial, st) \<in> set (hw_flight w)"
  shows "hc_ok vm (w\<lparr>hw_store := fst (end_settle undo initial st answer now (hw_store w))\<rparr>)"
proof (cases "stored_quote (ho_quoteId initial) (hw_store w)")
  case None
  with ok show ?thesis by (simp add: end_settle_eq)
next
  case (Some q)
  have old: "quote_ok vm (hw_sent w) (ho_quoteId initial) q" by (rule hc_ok_quote [OF ok Some])
  have "\<forall>f\<in>set (hw_flight w). ho_quoteId (fst f) \<in> fst ` set (hw_sent w)" using ok unfolding hc_ok_def list_all_iff by (elim conjE)
  from bspec [OF this f] have "ho_quoteId initial \<in> fst ` set (hw_sent w)" by (simp only: fst_conv)
  with old have st: "ho_state q \<in> sent_states" by (simp add: quote_ok_def)
  have *: "ho_state (settled_as answer now q) \<in> sent_states" "ho_paymentId (settled_as answer now q) = ho_paymentId q"
    "ho_requirement (settled_as answer now q) = ho_requirement q" "ho_quoteId (settled_as answer now q) = ho_quoteId q"
    "ho_state (settled_as answer now q) = SUBMITTED \<longrightarrow> (\<exists>r. ho_exchangeResponse (settled_as answer now q) = Some r \<and> isExchangeSuccess r)"
    by (auto simp: settled_as_def sent_states_def split: sum.splits)
  have "\<exists>p now. ho_paymentId q = Some (message_id vm p) \<and> pays p (ho_requirement q) now"
    using old st by (cases "ho_state q") (simp_all add: quote_ok_def sent_states_def)
  then have "quote_ok vm (hw_sent w) (ho_quoteId initial) (settled_as answer now q)"
    by (intro quote_ok_move [OF old]) (simp_all add: * st)
  from hc_ok_put [OF ok Some *(3) this *(2)] Some show ?thesis by (simp add: end_settle_eq)
qed

lemma known_quote:
  assumes "parseAndVerifyKnownQuote vm value merchantId now s = (t, Inr (p, v))"
  shows "t = s \<and> parseHypercorePaymentPayload vm value = Inr p \<and> (\<exists>q. stored_quote (hp_quoteId p) s = Some q
    \<and> ho_merchantId q = merchantId \<and> verifyHypercorePayment vm value (ho_requirement q) now = Inr v)"
  using assms unfolding parseAndVerifyKnownQuote_def
  by (elim bind_computeE) (auto simp: requiredQuote_bind elim!: bind_computeE split: option.splits if_splits)

lemma parse_keeps_store: "fst (parseAndVerifyKnownQuote vm value merchantId now s) = s"
  by (simp add: parseAndVerifyKnownQuote_def bindA_def computeA_def requiredQuote_def readA_def requireA_def split: sum.split option.split)

lemma known_quote_checked:
  assumes "parseAndVerifyKnownQuote vm value merchantId now s = (t, Inr pv)"
  shows "checked_ok vm s pv"
proof -
  obtain p v where pv: "pv = (p, v)" by (cases pv)
  with assms have "parseAndVerifyKnownQuote vm value merchantId now s = (t, Inr (p, v))" by simp
  from known_quote [OF this] obtain q where p: "parseHypercorePaymentPayload vm value = Inr p" and q: "stored_quote (hp_quoteId p) s = Some q"
    and v: "verifyHypercorePayment vm value (ho_requirement q) now = Inr v" by blast
  from v obtain p' where "parseHypercorePaymentPayload vm value = Inr p'" "pays p' (ho_requirement q) now"
    "hf_paymentId v = vm_hash vm (signed_message (hp_action p'))" by (rule verified_payment)
  with p q pv show ?thesis by (auto simp: checked_ok_def message_id_def)
qed

lemma transaction_cases:
  assumes "transaction undo m s = (t, r)"
  obtains "t = s" "\<And>x. r \<noteq> Inr x" | "m s = (t, r)"
  using assms by (auto simp: transaction_def split: prod.splits sum.splits if_splits)

lemma hc_ok_flight: "hc_ok vm w \<Longrightarrow> set fs \<subseteq> set (hw_flight w) \<Longrightarrow> hc_ok vm (w\<lparr>hw_flight := fs\<rparr>)"
  unfolding hc_ok_def list_all_iff by (simp; blast)

lemma hc_ok_exec:
  assumes ok: "hc_ok vm w" and call: "hc_exec vm undo c w = Inr (w', u)"
  shows "hc_ok vm w'"
proof (cases c)
  case (CreateQuote input now)
  obtain t where t: "fst (createQuote vm undo input now (hw_store w)) = t" by blast
  with call CreateQuote have w': "w' = w\<lparr>hw_store := t\<rparr>" by (simp add: hc_exec_def)
  from t show ?thesis
  proof (cases rule: createQuote_cases)
    case same
    with ok w' show ?thesis by simp
  next
    case (created q)
    with hc_ok_new [OF ok created(2)] new_quote_fields [OF created(1)] w' show ?thesis by simp
  qed
next
  case (Check v m now)
  with call obtain pv where pv: "snd (parseAndVerifyKnownQuote vm v m now (hw_store w)) = Inr pv"
    and w': "w' = w\<lparr>hw_checked := hw_checked w @ [pv]\<rparr>" by (auto simp: hc_exec_def split: sum.splits)
  from pv have "checked_ok vm (hw_store w) pv" using known_quote_checked by (metis prod.collapse)
  with ok w' show ?thesis by (simp add: hc_ok_def)
next
  case (Consume i now)
  obtain p v where pv: "hw_checked w ! i = (p, v)" by (cases "hw_checked w ! i")
  obtain t r where t: "transaction undo (consume_quote p v now) (hw_store w) = (t, r)" by fastforce
  with call Consume pv have i: "i < length (hw_checked w)" and w': "w' = w\<lparr>hw_store := t\<rparr>" by (auto simp: hc_exec_def split: if_splits)
  from i pv have "(p, v) \<in> set (hw_checked w)" by (metis nth_mem)
  from t show ?thesis
  proof (cases rule: transaction_cases)
    case 1
    with ok w' show ?thesis by simp
  next
    case 2
    with hc_ok_consume [OF ok \<open>(p, v) \<in> set (hw_checked w)\<close>] w' show ?thesis by simp
  qed
next
  case (Decide i)
  obtain p v where pv: "hw_checked w ! i = (p, v)" by (cases "hw_checked w ! i")
  obtain t r where t: "transaction undo (decide_settlement p v) (hw_store w) = (t, r)" by fastforce
  show ?thesis
  proof (cases "\<exists>q x st. r = Inr (Submit q x st)")
    case True
    then obtain q x st where r: "r = Inr (Submit q x st)" by blast
    with t have "decide_settlement p v (hw_store w) = (t, Inr (Submit q x st))" by simp
    from hc_ok_decide [OF ok this] show ?thesis
      using call Decide pv t r by (simp add: hc_exec_def del: transaction_eq_Inr split: if_splits)
  next
    case False
    from t have "t = hw_store w"
    proof (cases rule: transaction_cases)
      case 2
      then show ?thesis by (cases rule: decide_cases) (use False in auto)
    qed
    with ok have "hc_ok vm (w\<lparr>hw_store := t\<rparr>)" by simp
    then show ?thesis
      using call Decide pv t False by (auto simp: hc_exec_def simp del: transaction_eq_Inr split: if_splits sum.splits settle_step.splits)
  qed
next
  case (Answer i answer now)
  obtain q st where f: "hw_flight w ! i = (q, st)" by (cases "hw_flight w ! i")
  with call Answer have i: "i < length (hw_flight w)"
    and w': "w' = w\<lparr>hw_store := fst (end_settle undo q st answer now (hw_store w)), hw_flight := take i (hw_flight w) @ drop (Suc i) (hw_flight w)\<rparr>"
    by (auto simp: hc_exec_def split: if_splits)
  from i f have "(q, st) \<in> set (hw_flight w)" by (metis nth_mem)
  from hc_ok_flight [OF hc_ok_answer [OF ok this], of "take i (hw_flight w) @ drop (Suc i) (hw_flight w)" undo answer now]
  show ?thesis unfolding w' by (simp add: set_take_subset set_drop_subset)
qed

interpretation hypercore: atomic_store "hc_exec vm undo" empty_world "hc_ok vm"
proof
  show "hc_ok vm empty_world" by (simp add: hc_ok_def empty_world_def stored_quote_def payment_at_def)
qed (rule hc_ok_exec)

text \<open>C1. However quotes, verifications, settlements and answers of the exchange are interleaved: no quote is sent to the exchange twice.
  What is sent for a quote is a signed transfer of the amount of the quote to its payee on its network, unless two messages
  have the same hash.  And a quote counts as settled only when it was sent and the exchange answered with success.\<close>

theorem payments_submitted_once:
  assumes w: "w = run_ops (hc_exec vm undo) commands empty_world"
  shows "distinct (map fst (hw_sent w))
    \<and> (\<forall>kp\<in>set (hw_sent w). \<exists>q. stored_quote (fst kp) (hw_store w) = Some q
        \<and> ho_state q \<in> {SUBMITTING, SUBMITTED, SUBMIT_UNKNOWN, REJECTED}
        \<and> ((ha_destination (hp_action (snd kp)) = hq_payTo (ho_requirement q) \<and> ha_amount (hp_action (snd kp)) = hq_amount (ho_requirement q)
             \<and> ha_hyperliquidChain (hp_action (snd kp)) = expectedHyperliquidChain (hq_network (ho_requirement q)))
           \<or> (\<exists>m m'. m \<noteq> m' \<and> vm_hash vm m = vm_hash vm m')))
    \<and> (\<forall>k q. stored_quote k (hw_store w) = Some q \<longrightarrow> ho_state q = SUBMITTED \<longrightarrow>
        k \<in> fst ` set (hw_sent w) \<and> (\<exists>r. ho_exchangeResponse q = Some r \<and> isExchangeSuccess r))"
proof -
  have ok: "hc_ok vm w" unfolding w by (rule hypercore.inv_history)
  have "\<exists>q. stored_quote (fst kp) (hw_store w) = Some q \<and> ho_state q \<in> {SUBMITTING, SUBMITTED, SUBMIT_UNKNOWN, REJECTED}
        \<and> ((ha_destination (hp_action (snd kp)) = hq_payTo (ho_requirement q) \<and> ha_amount (hp_action (snd kp)) = hq_amount (ho_requirement q)
             \<and> ha_hyperliquidChain (hp_action (snd kp)) = expectedHyperliquidChain (hq_network (ho_requirement q)))
           \<or> (\<exists>m m'. m \<noteq> m' \<and> vm_hash vm m = vm_hash vm m'))" if kp: "kp \<in> set (hw_sent w)" for kp
  proof -
    from hc_ok_sent [OF ok kp] obtain q where q: "stored_quote (fst kp) (hw_store w) = Some q" "ho_paymentId q = Some (message_id vm (snd kp))"
      by (auto simp: sent_ok_def)
    have qok: "quote_ok vm (hw_sent w) (fst kp) q" by (rule hc_ok_quote [OF ok q(1)])
    then have st: "ho_state q \<in> sent_states" using sent_key [OF kp refl] by (simp add: quote_ok_def)
    then have "ho_state q \<notin> {QUOTED, EXPIRED}" by (auto simp: sent_states_def)
    with qok obtain p now where "ho_paymentId q = Some (message_id vm p)" and pays: "pays p (ho_requirement q) now" unfolding quote_ok_def by blast
    with q(2) have "vm_hash vm (signed_message (hp_action p)) = vm_hash vm (signed_message (hp_action (snd kp)))" by (simp add: message_id_def)
    then have "signed_message (hp_action p) = signed_message (hp_action (snd kp)) \<or> (\<exists>m m'. m \<noteq> m' \<and> vm_hash vm m = vm_hash vm m')" by blast
    then have "(ha_destination (hp_action (snd kp)) = hq_payTo (ho_requirement q) \<and> ha_amount (hp_action (snd kp)) = hq_amount (ho_requirement q)
             \<and> ha_hyperliquidChain (hp_action (snd kp)) = expectedHyperliquidChain (hq_network (ho_requirement q)))
           \<or> (\<exists>m m'. m \<noteq> m' \<and> vm_hash vm m = vm_hash vm m')"
      using pays by (elim disjE) (simp_all add: pays_def signed_message_def)
    with q(1) st show ?thesis unfolding sent_states_def by blast
  qed
  moreover have "distinct (map fst (hw_sent w))" using ok by (simp add: hc_ok_def)
  ultimately show ?thesis
    using hc_ok_quote [OF ok] by (simp add: quote_ok_def sent_states_def)
qed

section \<open>Two payers of the same transfer\<close>

lemma verify_InrE:
  assumes "verify vm undo value merchantId now s = (t, Inr reply)"
  obtains p v where "parseHypercorePaymentPayload vm value = Inr p" "consume_quote p v now s = (t, Inr ())"
    "parseAndVerifyKnownQuote vm value merchantId now s = (s, Inr (p, v))" "vr_payer reply = hf_payer v"
proof -
  from assms have "bindA (parseAndVerifyKnownQuote vm value merchantId now) (\<lambda>(payment, verified).
     bindA (transaction undo (consume_quote payment verified now)) (\<lambda>_.
     returnA \<lparr>vr_payer = hf_payer verified, vr_paymentId = hf_paymentId verified,
              vr_network = hq_network (hp_accepted payment), vr_amount = hq_amount (hp_accepted payment)\<rparr>)) s = (t, Inr reply)"
    by (auto simp: verify_def split: prod.splits sum.splits jerr.splits)
  then obtain u p v where k: "parseAndVerifyKnownQuote vm value merchantId now s = (u, Inr (p, v))"
    and c: "consume_quote p v now u = (t, Inr ())" and r: "vr_payer reply = hf_payer v"
    by (auto simp: bindA_eq_Inr)
  with known_quote [OF k] that show thesis by blast
qed

lemma fresh_consume:
  assumes "consume_quote p v now s = (t, Inr ())" "stored_quote (hp_quoteId p) s = Some q" "ho_state q = QUOTED"
  shows "t = with_payment q p v s \<and> unused_action v (ho_quoteId q) s"
  using assms by (auto simp: consume_eq split: if_splits)

lemma with_payment_reads:
  "stored_quote k (with_payment q p v s) = (if k = ho_quoteId q then Some (verified_quote q v) else stored_quote k s)"
  "payment_at k (with_payment q p v s) = (if k = hf_paymentId v then Some \<lparr>hd_quoteId = ho_quoteId q, hd_payment = p, hd_verified = v\<rparr> else payment_at k s)"
  "action_at k (with_payment q p v s) = (if k = hf_actionKey v then Some (hf_paymentId v) else action_at k s)"
  by (simp_all add: with_payment_def verified_quote_def)

text \<open>C40. The identifier of a payment is the hash of the transfer, which does not name the payer.  When two payers sign the same
  transfer (payee, amount and millisecond) for two quotes and both are verified, the second payment takes the place of the
  first: settling the first quote sends the second payer's transfer to the exchange and reports the first payer.\<close>

theorem equal_transfers_share_payment:
  assumes first: "verify vm undo input1 m1 now1 s = (s1, Inr r1)" and second: "verify vm undo input2 m2 now2 s1 = (s2, Inr r2)"
    and parsed: "parseHypercorePaymentPayload vm input1 = Inr p1" "parseHypercorePaymentPayload vm input2 = Inr p2"
    and same: "signed_message (hp_action p1) = signed_message (hp_action p2)"
    and quotes: "stored_quote (hp_quoteId p1) s = Some q1" "stored_quote (hp_quoteId p2) s = Some q2" "ho_state q1 = QUOTED" "ho_state q2 = QUOTED"
      "ho_quoteId q1 = hp_quoteId p1" "ho_quoteId q2 = hp_quoteId p2" "hp_quoteId p1 \<noteq> hp_quoteId p2"
    and later: "verifyHypercorePayment vm input1 (ho_requirement q1) now3 = Inr v"
  shows "vr_payer r1 \<noteq> vr_payer r2 \<and> (\<exists>s3 q x st. begin_settle vm undo input1 m1 now3 s2 = (s3, Inr (Submit q x st))
    \<and> ho_quoteId q = hp_quoteId p1 \<and> hd_payment x = p2 \<and> hs_payer st = Some (vr_payer r1))"
proof -
  from first obtain v1 where k1: "parseAndVerifyKnownQuote vm input1 m1 now1 s = (s, Inr (p1, v1))"
    and c1: "consume_quote p1 v1 now1 s = (s1, Inr ())" and r1: "vr_payer r1 = hf_payer v1"
    by (rule verify_InrE) (use parsed in auto)
  from second obtain v2 where k2: "parseAndVerifyKnownQuote vm input2 m2 now2 s1 = (s1, Inr (p2, v2))"
    and c2: "consume_quote p2 v2 now2 s1 = (s2, Inr ())" and r2: "vr_payer r2 = hf_payer v2"
    by (rule verify_InrE) (use parsed in auto)
  have s1: "s1 = with_payment q1 p1 v1 s" using fresh_consume [OF c1 quotes(1,3)] by simp
  have q2: "stored_quote (hp_quoteId p2) s1 = Some q2" using quotes by (simp add: s1 with_payment_reads)
  have s2: "s2 = with_payment q2 p2 v2 s1" and unused: "unused_action v2 (ho_quoteId q2) s1" using fresh_consume [OF c2 q2 quotes(4)] by simp_all
  have ids: "hf_paymentId w = vm_hash vm (signed_message (hp_action p)) \<and> hf_actionKey w = lower (hf_payer w) @ '':'' @ int_text (ha_time (hp_action p))
      \<and> recovered_payer vm (hp_action p) (hp_signature p) = Some (hf_payer w)"
    if "verifyHypercorePayment vm input req n = Inr w" "parseHypercorePaymentPayload vm input = Inr p" for input req n w p
    using that(1) by (rule verified_payment) (use that(2) in auto)
  have id1: "hf_paymentId v1 = vm_hash vm (signed_message (hp_action p1))"
    "hf_actionKey v1 = lower (hf_payer v1) @ '':'' @ int_text (ha_time (hp_action p1))" "recovered_payer vm (hp_action p1) (hp_signature p1) = Some (hf_payer v1)"
    using known_quote [OF k1] ids [of input1 _ _ v1 p1] by blast+
  have id2: "hf_paymentId v2 = vm_hash vm (signed_message (hp_action p2))"
    "hf_actionKey v2 = lower (hf_payer v2) @ '':'' @ int_text (ha_time (hp_action p2))"
    using known_quote [OF k2] ids [of input2 _ _ v2 p2] by blast+
  have pid: "hf_paymentId v2 = hf_paymentId v1" using id1 id2 same by simp
  have "hf_payer v1 \<noteq> hf_payer v2"
  proof
    assume "hf_payer v1 = hf_payer v2"
    then have "hf_actionKey v2 = hf_actionKey v1" using id1(2) id2(2) same by (simp add: signed_message_def)
    with unused quotes(5-7) pid show False by (simp add: unused_action_def s1 with_payment_reads)
  qed
  moreover have v: "hf_payer v = hf_payer v1" "hf_paymentId v = hf_paymentId v1" using ids [OF later parsed(1)] id1 by simp_all
  have q1: "stored_quote (hp_quoteId p1) s2 = Some (verified_quote q1 v1)" using quotes by (simp add: s1 s2 with_payment_reads)
  have x: "payment_at (hf_paymentId v1) s2 = Some \<lparr>hd_quoteId = ho_quoteId q2, hd_payment = p2, hd_verified = v2\<rparr>"
    using pid by (simp add: s2 with_payment_reads)
  have "ho_merchantId q1 = m1" using known_quote [OF k1] quotes(1) by simp
  then have "parseAndVerifyKnownQuote vm input1 m1 now3 s2 = (s2, Inr (p1, v))"
    using parsed(1) later by (simp add: parseAndVerifyKnownQuote_def requiredQuote_bind q1 verified_quote_def computeA_def)
  moreover have "\<exists>s3 q st. decide_settlement p1 v s2 = (s3, Inr (Submit q \<lparr>hd_quoteId = ho_quoteId q2, hd_payment = p2, hd_verified = v2\<rparr> st))
      \<and> ho_quoteId q = hp_quoteId p1 \<and> hs_payer st = Some (hf_payer v1)"
    using quotes(5) by (simp add: decide_settlement_def requiredQuote_bind q1 v x Let_def verified_quote_def computeA_def)
  ultimately show ?thesis using r1 r2 by (fastforce simp: begin_settle_def)
qed

text \<open>A fresh quote and an unused action: the verification consumes the quote.\<close>

lemma verify_fresh:
  assumes "parseHypercorePaymentPayload vm input = Inr p" "stored_quote (hp_quoteId p) s = Some q" "ho_merchantId q = m"
    and "verifyHypercorePayment vm input (ho_requirement q) now = Inr v" "ho_state q = QUOTED" "now \<le> ho_expiresAt q" "unused_action v (ho_quoteId q) s"
  shows "parseAndVerifyKnownQuote vm input m now s = (s, Inr (p, v))"
    and "transaction undo (consume_quote p v now) s = (with_payment q p v s, Inr ())"
    and "verify vm undo input m now s = (with_payment q p v s, Inr \<lparr>vr_payer = hf_payer v, vr_paymentId = hf_paymentId v,
      vr_network = hq_network (hp_accepted p), vr_amount = hq_amount (hp_accepted p)\<rparr>)"
proof -
  show k: "parseAndVerifyKnownQuote vm input m now s = (s, Inr (p, v))"
    using assms(1-4) by (simp add: parseAndVerifyKnownQuote_def requiredQuote_bind computeA_def)
  show c: "transaction undo (consume_quote p v now) s = (with_payment q p v s, Inr ())"
    using assms by (simp add: consume_eq)
  show "verify vm undo input m now s = (with_payment q p v s, Inr \<lparr>vr_payer = hf_payer v, vr_paymentId = hf_paymentId v,
      vr_network = hq_network (hp_accepted p), vr_amount = hq_amount (hp_accepted p)\<rparr>)"
    by (simp add: verify_def bindA_case k c del: transaction_eq_Inr) (simp add: computeA_def)
qed

section \<open>Instances\<close>

definition sample_quote_input :: "char \<Rightarrow> quote_input" where
  "sample_quote_input c = \<lparr>qi_quoteId = sample_quote_id c, qi_merchantId = ''m'', qi_resource = ''r'', qi_network = HYPERCORE_X402_MAINNET,
     qi_amount = Str ''0.02'', qi_payTo = Str ''0xa'', qi_maxTimeoutSeconds = None\<rparr>"

definition sample_quote :: "char \<Rightarrow> hc_quote" where
  "sample_quote c = \<lparr>ho_quoteId = sample_quote_id c, ho_merchantId = ''m'', ho_resource = ''r'', ho_requirement = sample_requirement c,
     ho_createdAt = 0, ho_expiresAt = 60000, ho_state = QUOTED, ho_paymentId = None, ho_payer = None, ho_settledAt = None, ho_exchangeResponse = None\<rparr>"

lemma sample_created: "createQuote toy_viem undo (sample_quote_input (CHR ''q'')) 0 [] = (put_quote (sample_quote (CHR ''q'')) [], Inr (sample_quote (CHR ''q'')))"
proof -
  have "new_quote toy_viem (sample_quote_input (CHR ''q'')) 0 = Inr (sample_quote (CHR ''q''))" by code_simp
  then show ?thesis by (simp add: createQuote_def transaction_def stored_quote_def bindA_case computeA_def readA_def requireA_def putA_def)
qed

definition sample_commands :: "hc_command list" where
  "sample_commands = [CreateQuote (sample_quote_input (CHR ''q'')) 0, Check (sample_hc_payload (CHR ''q'') (CHR ''1'')) ''m'' 9, Consume 0 9, Decide 0]"

lemma sample_fields [simp]: "hp_quoteId (parsed_sample c d) = sample_quote_id c" "ho_quoteId (sample_quote c) = sample_quote_id c"
  "ho_requirement (sample_quote c) = sample_requirement c" "ho_state (sample_quote c) = QUOTED" "ho_merchantId (sample_quote c) = ''m''"
  "ho_expiresAt (sample_quote c) = 60000" "hf_payer (sample_verified c d) = ''0x'' @ replicate 64 d"
  "hf_paymentId (sample_verified c d) = ''0.02 7''" "hf_actionKey (sample_verified c d) = lower (''0x'' @ replicate 64 d) @ '':7''"
  "sample_quote_id c = sample_quote_id d \<longleftrightarrow> c = d"
  by (simp_all add: parsed_sample_def sample_quote_def sample_verified_def sample_quote_id_def numeral_eq_Suc)

lemma sample_run:
  "hw_sent (run_ops (hc_exec toy_viem True) sample_commands empty_world) = [(sample_quote_id (CHR ''q''), parsed_sample (CHR ''q'') (CHR ''1''))]"
proof -
  let ?q = "sample_quote (CHR ''q'')" and ?p = "parsed_sample (CHR ''q'') (CHR ''1'')" and ?v = "sample_verified (CHR ''q'') (CHR ''1'')"
  let ?s = "put_quote ?q []"
  have u: "unused_action ?v (ho_quoteId ?q) ?s" by (simp add: unused_action_def) (simp add: action_at_def)
  note f = verify_fresh [of toy_viem "sample_hc_payload (CHR ''q'') (CHR ''1'')" ?p ?s ?q "''m''" 9 ?v, OF sample_parsed(1) _ _ _ _ _ u]
  have k: "parseAndVerifyKnownQuote toy_viem (sample_hc_payload (CHR ''q'') (CHR ''1'')) ''m'' 9 ?s = (?s, Inr (?p, ?v))"
    by (rule f) (simp_all add: sample_verifies)
  have c: "transaction True (consume_quote ?p ?v 9) ?s = (with_payment ?q ?p ?v ?s, Inr ())"
    by (rule f) (simp_all add: sample_verifies)
  obtain t st where d: "transaction True (decide_settlement ?p ?v) (with_payment ?q ?p ?v ?s)
      = (t, Inr (Submit ((verified_quote ?q ?v)\<lparr>ho_state := SUBMITTING\<rparr>) \<lparr>hd_quoteId = ho_quoteId ?q, hd_payment = ?p, hd_verified = ?v\<rparr> st))"
    by (simp add: decide_settlement_def requiredQuote_bind with_payment_reads Let_def verified_quote_def computeA_def)
  show ?thesis
    by (simp add: sample_commands_def hc_exec_def empty_world_def sample_created k c d del: transaction_eq_Inr) (simp add: verified_quote_def)
qed

lemma payments_submitted_once_witness:
  "\<exists>w. w = run_ops (hc_exec toy_viem True) sample_commands empty_world \<and> length (hw_sent w) = 1 \<and> distinct (map fst (hw_sent w))"
proof -
  have "distinct (map fst (hw_sent (run_ops (hc_exec toy_viem True) sample_commands empty_world)))"
    by (rule conjunct1 [OF payments_submitted_once [OF refl]])
  then show ?thesis by (simp add: sample_run)
qed

lemma equal_transfers_share_payment_witness:
  "\<exists>s2 s3 q x st. begin_settle toy_viem True (sample_hc_payload (CHR ''q'') (CHR ''1'')) ''m'' 9 s2 = (s3, Inr (Submit q x st))
    \<and> hd_payment x = parsed_sample (CHR ''p'') (CHR ''2'') \<and> hs_payer st = Some (''0x'' @ replicate 64 (CHR ''1''))"
proof -
  let ?q1 = "sample_quote (CHR ''q'')" and ?p1 = "parsed_sample (CHR ''q'') (CHR ''1'')" and ?v1 = "sample_verified (CHR ''q'') (CHR ''1'')"
  let ?q2 = "sample_quote (CHR ''p'')" and ?p2 = "parsed_sample (CHR ''p'') (CHR ''2'')" and ?v2 = "sample_verified (CHR ''p'') (CHR ''2'')"
  let ?s = "put_quote ?q2 (put_quote ?q1 [])"
  let ?s1 = "with_payment ?q1 ?p1 ?v1 ?s"
  have ne: "lower (''0x'' @ replicate 64 (CHR ''1'')) \<noteq> lower (''0x'' @ replicate 64 (CHR ''2''))" by code_simp
  have u: "unused_action ?v1 (ho_quoteId ?q1) ?s" by (simp add: unused_action_def) (simp add: action_at_def)
  have u2: "unused_action ?v2 (ho_quoteId ?q2) ?s1" using ne by (simp add: unused_action_def with_payment_reads) (simp add: action_at_def)
  note v1 = verify_fresh(3) [of toy_viem "sample_hc_payload (CHR ''q'') (CHR ''1'')" ?p1 ?s ?q1 "''m''" 9 ?v1 True, OF sample_parsed(1) _ _ _ _ _ u]
  note v2 = verify_fresh(3) [of toy_viem "sample_hc_payload (CHR ''p'') (CHR ''2'')" ?p2 ?s1 ?q2 "''m''" 9 ?v2 True, OF sample_parsed(2) _ _ _ _ _ u2]
  have "signed_message (hp_action ?p1) = signed_message (hp_action ?p2)" by (simp add: parsed_sample_def signed_message_def)
  from equal_transfers_share_payment [OF v1 v2 sample_parsed this, of ?q1 ?q2 9 ?v1] show ?thesis
    by (simp add: sample_verifies with_payment_reads) blast
qed

end
