(* ===== verification/Hypercore_Worker.thy ===== *)
theory Hypercore_Worker
  imports Hypercore_Coordinator Signing
begin

text \<open>
  src/hypercore-x402/worker.mjs: the service around the coordinator.  Its configuration, the reading of a body, the
  signature of a merchant, the gate that runs the operations on the one store, and the routes.  HMAC, random bytes, the
  parsing of JSON and URLs and the request to the exchange are parameters.  The audit rows the gate writes to a
  database, whose failures it ignores, are not modelled.
\<close>

section \<open>Configuration\<close>

record worker_env =
  we_enabled :: "string option"
  we_network :: "string option"
  we_maxTimeoutSeconds :: "string option"
  we_payTo :: "string option"
  we_exchangeUrl :: "string option"
  we_merchants :: "string option"

record facilitator_config =
  wc_enabled :: bool
  wc_network :: string
  wc_payTo :: string
  wc_exchangeUrl :: string
  wc_maxTimeoutSeconds :: int
  wc_merchants :: "(string \<times> string) list"

text \<open>What the platform provides.\<close>

record platform =
  pf_viem :: viem
  pf_parse_json :: "string \<Rightarrow> jsval option"
  pf_parse_url :: "string \<Rightarrow> js_url option"
  pf_hmac :: "string \<Rightarrow> string \<Rightarrow> nat list"
  pf_random :: "nat list"
  pf_post :: "string \<Rightarrow> usd_send \<times> int \<times> hc_signature \<Rightarrow> (string \<times> bool) option"
  pf_undo :: bool

definition or_text :: "string option \<Rightarrow> string \<Rightarrow> string" where
  "or_text v d = (case v of None \<Rightarrow> d | Some s \<Rightarrow> s)"

definition merchant_name :: "string \<Rightarrow> bool" where
  "merchant_name s = (2 \<le> length s \<and> length s \<le> 64 \<and> in_range (CHR ''a'') (CHR ''z'') (hd s)
     \<and> list_all (\<lambda>c. in_range (CHR ''a'') (CHR ''z'') c \<or> is_digit c \<or> c = CHR ''_'' \<or> c = CHR ''-'') s)"

definition merchant_entry :: "string \<times> jsval \<Rightarrow> (string \<times> string) result" where
  "merchant_entry entry = (if \<not> merchant_name (fst entry) \<or> \<not> is_str (snd entry) \<or> length (str_of (snd entry)) < 24
       \<or> 512 < length (str_of (snd entry)) \<or> list_ex is_space (str_of (snd entry))
     then hc_error ''invalid_config'' else Inr (fst entry, str_of (snd entry)))"

definition parse_merchants :: "(string \<Rightarrow> jsval option) \<Rightarrow> string \<Rightarrow> (string \<times> string) list result" where
  "parse_merchants parse_json raw = (if raw = [] then Inr [] else
     (case parse_json raw of None \<Rightarrow> hc_error ''invalid_config'' | Some parsed \<Rightarrow>
       if \<not> is_obj parsed then hc_error ''invalid_config'' else mapE merchant_entry (props parsed)))"

definition parseConfig :: "platform \<Rightarrow> worker_env \<Rightarrow> facilitator_config result" where
  "parseConfig pf env = (
     let enabled = (we_enabled env = Some ''true''); network = or_text (we_network env) HYPERCORE_X402_MAINNET;
         maxRaw = or_text (we_maxTimeoutSeconds env) ''60''; payTo = trim (or_text (we_payTo env) []) in
     if \<not> isHypercoreNetwork network then hc_error ''invalid_config'' else
     if \<not> posint_text maxRaw \<or> 3 < length maxRaw then hc_error ''invalid_config'' else
     if 60 < nat_value maxRaw then hc_error ''invalid_config'' else
     letE (validateHypercoreExchangeUrl (pf_parse_url pf) (or_text (we_exchangeUrl env) ''https://api.hyperliquid.xyz/exchange'')) (\<lambda>exchangeUrl.
     letE (parse_merchants (pf_parse_json pf) (trim (or_text (we_merchants env) []))) (\<lambda>merchants.
     if enabled \<and> (payTo = [] \<or> merchants = []) then hc_error ''invalid_config'' else
     Inr \<lparr>wc_enabled = enabled, wc_network = network, wc_payTo = payTo, wc_exchangeUrl = exchangeUrl,
          wc_maxTimeoutSeconds = int (nat_value maxRaw), wc_merchants = merchants\<rparr>)))"

section \<open>Requests\<close>

record http_request =
  rq_method :: string
  rq_path :: string
  rq_header :: "string \<Rightarrow> string option"
  rq_text :: string

definition MAX_BODY_BYTES :: nat where
  "MAX_BODY_BYTES = 64 * 1024"

definition MERCHANT_CLOCK_SKEW_MS :: int where
  "MERCHANT_CLOCK_SKEW_MS = 60000"

text \<open>The length in UTF-8; the code units of the model are below 256.\<close>

definition utf8_length :: "string \<Rightarrow> nat" where
  "utf8_length s = sum_list (map (\<lambda>c. if (of_char c :: nat) < 128 then 1 else 2) s)"

definition readBody :: "(string \<Rightarrow> jsval option) \<Rightarrow> http_request \<Rightarrow> (string \<times> jsval) result" where
  "readBody parse_json request = (
     if (case rq_header request ''content-length'' of None \<Rightarrow> False | Some n \<Rightarrow> \<not> digits_text n \<or> MAX_BODY_BYTES < nat_value n)
       then hc_error ''request_too_large'' else
     if MAX_BODY_BYTES < utf8_length (rq_text request) then hc_error ''request_too_large'' else
     (case parse_json (rq_text request) of None \<Rightarrow> hc_error ''invalid_json'' | Some v \<Rightarrow> Inr (rq_text request, v)))"

text \<open>The bits in which the two texts differ, collected over their whole length.\<close>

definition timingSafeEqual :: "string \<Rightarrow> string \<Rightarrow> bool" where
  "timingSafeEqual left right = (length left = length right
     \<and> foldl (\<lambda>difference (a, b). or difference (xor (of_char a :: nat) (of_char b))) 0 (zip left right) = 0)"

text \<open>Reading a property of an object finds its own property, or one every object inherits; these are the inherited ones with their texts.\<close>

definition native_function :: "string \<Rightarrow> string" where
  "native_function name = ''function '' @ name @ ''() { [native code] }''"

definition object_prototype :: "(string \<times> string) list" where
  "object_prototype = [(''constructor'', native_function ''Object''), (''__proto__'', ''[object Object]'')]
     @ map (\<lambda>name. (name, native_function name)) [''__defineGetter__'', ''__defineSetter__'', ''hasOwnProperty'', ''__lookupGetter__'',
         ''__lookupSetter__'', ''isPrototypeOf'', ''propertyIsEnumerable'', ''toString'', ''valueOf'', ''toLocaleString'']"

definition js_member :: "(string \<times> string) list \<Rightarrow> string \<Rightarrow> string option" where
  "js_member obj k = (case map_of obj k of Some v \<Rightarrow> Some v | None \<Rightarrow> map_of object_prototype k)"

definition merchant_signature :: "string \<Rightarrow> bool" where
  "merchant_signature s = (length s = 43 \<and> list_all (\<lambda>c. is_alnum c \<or> c = CHR ''_'' \<or> c = CHR ''-'') s)"

definition authenticateMerchant :: "platform \<Rightarrow> http_request \<Rightarrow> string \<Rightarrow> facilitator_config \<Rightarrow> int \<Rightarrow> string result" where
  "authenticateMerchant pf request rawBody config now = (
     let merchantId = or_text (rq_header request ''x-hypercore-merchant-id'') [];
         timestamp = or_text (rq_header request ''x-hypercore-merchant-timestamp'') [];
         signature = or_text (rq_header request ''x-hypercore-merchant-signature'') [] in
     (case js_member (wc_merchants config) merchantId of None \<Rightarrow> hc_error ''merchant_unauthorized'' | Some secret \<Rightarrow>
     if secret = [] \<or> \<not> digits_text timestamp \<or> length timestamp \<noteq> 13 \<or> \<not> merchant_signature signature then hc_error ''merchant_unauthorized'' else
     if MERCHANT_CLOCK_SKEW_MS < \<bar>now - int (nat_value timestamp)\<bar> then hc_error ''merchant_unauthorized'' else
     if \<not> timingSafeEqual (b64_encode (pf_hmac pf secret (timestamp @ ''.'' @ rawBody))) signature then hc_error ''merchant_unauthorized'' else
     Inr merchantId))"

section \<open>The gate\<close>

text \<open>The request to the exchange: no answer, an answer that is too long, that is no JSON, or that is a refusal is an error.\<close>

definition submit_exchange :: "platform \<Rightarrow> string \<Rightarrow> usd_send \<times> int \<times> hc_signature \<Rightarrow> jsval result" where
  "submit_exchange pf url request = (case pf_post pf url request of None \<Rightarrow> Inl (PlainErr ''fetch'') | Some (raw, ok) \<Rightarrow>
     if 16 * 1024 < length raw then hc_error ''exchange_response_too_large'' else
     (case pf_parse_json pf raw of None \<Rightarrow> hc_error ''exchange_invalid_response'' | Some payload \<Rightarrow>
     if \<not> ok then hc_error ''exchange_rejected'' else Inr payload))"

definition randomQuoteId :: "platform \<Rightarrow> string" where
  "randomQuoteId pf = b64_encode (pf_random pf)"

definition requirement_json :: "hc_requirement \<Rightarrow> jsval" where
  "requirement_json r = Obj [(''scheme'', Str ''exact''), (''network'', Str (hq_network r)), (''amount'', Str (hq_amount r)), (''asset'', Str ''USDC''),
     (''payTo'', Str (hq_payTo r)), (''maxTimeoutSeconds'', Num (hq_maxTimeoutSeconds r)),
     (''extra'', Obj [(''assetTransferMethod'', Str HYPERCORE_USD_SEND_METHOD), (''protocolVersion'', Str ''1''), (''quoteId'', Str (hq_quoteId r))])]"

definition verification_json :: "string + verify_reply \<Rightarrow> jsval" where
  "verification_json reply = (case reply of Inl reason \<Rightarrow> Obj [(''isValid'', Bool False), (''invalidReason'', Str reason)]
     | Inr r \<Rightarrow> Obj [(''isValid'', Bool True), (''payer'', Str (vr_payer r)), (''paymentId'', Str (vr_paymentId r)),
         (''network'', Str (vr_network r)), (''amount'', Str (vr_amount r))])"

definition text_member :: "string \<Rightarrow> string option \<Rightarrow> (string \<times> jsval) list" where
  "text_member k v = (case v of None \<Rightarrow> [] | Some s \<Rightarrow> [(k, Str s)])"

definition settlement_json :: "settlement \<Rightarrow> jsval" where
  "settlement_json st = Obj ([(''success'', Bool (hs_success st)), (''transaction'', Str (hs_transaction st)), (''network'', Str (hs_network st))]
     @ text_member ''payer'' (hs_payer st) @ text_member ''amount'' (hs_amount st) @ text_member ''errorReason'' (hs_errorReason st))"

definition quote_operation :: "platform \<Rightarrow> facilitator_config \<Rightarrow> jsval \<Rightarrow> int \<Rightarrow> (hc_store, jsval) action" where
  "quote_operation pf config input now =
     bindA (requireA (is_str (fld input ''merchantId'') \<and> is_str (fld input ''resource'') \<and> 1 \<le> length (str_of (fld input ''resource''))
       \<and> length (str_of (fld input ''resource'')) \<le> 2048 \<and> fld input ''amount'' \<noteq> Undef) (CodedError ''invalid_quote'')) (\<lambda>_.
     bindA (createQuote (pf_viem pf) (pf_undo pf) \<lparr>qi_quoteId = randomQuoteId pf, qi_merchantId = str_of (fld input ''merchantId''),
         qi_resource = str_of (fld input ''resource''), qi_network = wc_network config,
         qi_amount = (if is_str (fld input ''amount'') then fld input ''amount'' else Str []), qi_payTo = Str (wc_payTo config),
         qi_maxTimeoutSeconds = Some (wc_maxTimeoutSeconds config)\<rparr> now) (\<lambda>quote.
     returnA (Obj [(''requirement'', requirement_json (ho_requirement quote)), (''expiresAt'', Num (ho_expiresAt quote))])))"

definition verify_operation :: "platform \<Rightarrow> jsval \<Rightarrow> int \<Rightarrow> (hc_store, jsval) action" where
  "verify_operation pf input now =
     bindA (requireA (is_str (fld input ''merchantId'')) (CodedError ''invalid_request'')) (\<lambda>_ s.
     (case verify (pf_viem pf) (pf_undo pf) (fld input ''paymentPayload'') (str_of (fld input ''merchantId'')) now s of
        (t, reply) \<Rightarrow> (t, Inr (verification_json reply))))"

definition settle_operation :: "platform \<Rightarrow> facilitator_config \<Rightarrow> jsval \<Rightarrow> int \<Rightarrow> int \<Rightarrow> (hc_store, jsval) action" where
  "settle_operation pf config input now later =
     bindA (requireA (is_str (fld input ''merchantId'')) (CodedError ''invalid_request'')) (\<lambda>_.
     bindA (settle (pf_viem pf) (pf_undo pf) (submit_exchange pf (wc_exchangeUrl config)) (fld input ''paymentPayload'')
       (str_of (fld input ''merchantId'')) now later) (\<lambda>st. returnA (settlement_json st)))"

text \<open>A thrown error and the status it is answered with.\<close>

definition typed_code :: "jerr \<Rightarrow> string" where
  "typed_code e = (case e of CodedError code \<Rightarrow> code | _ \<Rightarrow> ''internal_error'')"

definition error_json :: "jerr \<Rightarrow> jsval" where
  "error_json e = Obj [(''error'', Str (typed_code e))]"

definition gate_status :: "jerr \<Rightarrow> int" where
  "gate_status e = (if typed_code e = ''invalid_request'' then 400 else 422)"

definition gate_action :: "platform \<Rightarrow> worker_env \<Rightarrow> jsval \<Rightarrow> int \<Rightarrow> int \<Rightarrow> (hc_store, jsval) action" where
  "gate_action pf env input now later =
     bindA (requireA (is_obj input \<and> is_str (fld input ''operation'')) (CodedError ''invalid_request'')) (\<lambda>_.
     bindA (computeA (parseConfig pf env)) (\<lambda>config.
     if fld input ''operation'' = Str ''quote'' then quote_operation pf config input now else
     if fld input ''operation'' = Str ''verify'' then verify_operation pf input now else
     if fld input ''operation'' = Str ''settle'' then settle_operation pf config input now later else
     throwA (CodedError ''invalid_request'')))"

definition gate_fetch :: "platform \<Rightarrow> worker_env \<Rightarrow> jsval \<Rightarrow> int \<Rightarrow> int \<Rightarrow> hc_store \<Rightarrow> hc_store \<times> int \<times> jsval" where
  "gate_fetch pf env input now later s = (case gate_action pf env input now later s of
       (t, Inr body) \<Rightarrow> (t, 200, body)
     | (t, Inl e) \<Rightarrow> (t, gate_status e, error_json e))"

section \<open>Routes\<close>

definition supported_json :: "facilitator_config \<Rightarrow> jsval" where
  "supported_json config = Obj [(''kinds'', Arr (if wc_enabled config then [Obj [(''x402Version'', Num 2), (''scheme'', Str ''exact''),
       (''network'', Str (wc_network config)), (''extra'', Obj [(''assetTransferMethod'', Str HYPERCORE_USD_SEND_METHOD), (''protocolVersion'', Str ''1'')])]] else [])),
     (''extensions'', Arr []), (''signers'', Obj [])]"

definition worker_status :: "jerr \<Rightarrow> int" where
  "worker_status e = (let code = typed_code e in if code = ''merchant_unauthorized'' then 401 else
     if code \<in> {''invalid_json'', ''request_too_large'', ''invalid_request''} then 400 else if code = ''invalid_config'' then 503 else 422)"

text \<open>What is forwarded to the gate for a request that was read and authenticated.\<close>

definition gate_input :: "http_request \<Rightarrow> string \<Rightarrow> jsval \<Rightarrow> jsval result" where
  "gate_input request merchantId v = (
     if \<not> is_obj v then hc_error ''invalid_request'' else
     if rq_path request = ''/v1/quotes'' then Inr (Obj [(''operation'', Str ''quote''), (''merchantId'', Str merchantId),
       (''resource'', fld v ''resource''), (''amount'', fld v ''amount'')]) else
     if \<not> is_obj (fld v ''paymentPayload'') then hc_error ''invalid_request'' else
     Inr (Obj [(''operation'', Str (if rq_path request = ''/verify'' then ''verify'' else ''settle'')), (''merchantId'', Str merchantId),
       (''paymentPayload'', fld v ''paymentPayload'')]))"

definition worker_fetch :: "platform \<Rightarrow> worker_env \<Rightarrow> http_request \<Rightarrow> int \<Rightarrow> int \<Rightarrow> hc_store \<Rightarrow> hc_store \<times> int \<times> jsval" where
  "worker_fetch pf env request now later s = (case parseConfig pf env of Inl e \<Rightarrow> (s, worker_status e, error_json e) | Inr config \<Rightarrow>
     if rq_path request = ''/supported'' \<and> rq_method request = ''GET'' then (s, 200, supported_json config) else
     if \<not> wc_enabled config then (s, 503, Obj [(''error'', Str ''facilitator_disabled'')]) else
     if rq_path request \<notin> {''/v1/quotes'', ''/verify'', ''/settle''} \<or> rq_method request \<noteq> ''POST'' then (s, 404, Obj [(''error'', Str ''not_found'')]) else
     (case letE (readBody (pf_parse_json pf) request) (\<lambda>(raw, v). letE (authenticateMerchant pf request raw config now) (\<lambda>merchantId.
        gate_input request merchantId v)) of
        Inl e \<Rightarrow> (s, worker_status e, error_json e)
      | Inr input \<Rightarrow> gate_fetch pf env input now later s))"

section \<open>Whose quotes a request changes\<close>

definition keyed :: "hc_store \<Rightarrow> bool" where
  "keyed s = (\<forall>k q. stored_quote k s = Some q \<longrightarrow> ho_quoteId q = k)"

definition only_quotes_of :: "string \<Rightarrow> hc_store \<Rightarrow> hc_store \<Rightarrow> bool" where
  "only_quotes_of m s t = (\<forall>k. stored_quote k t \<noteq> stored_quote k s \<longrightarrow> (\<exists>q. stored_quote k t = Some q \<and> ho_merchantId q = m)
     \<and> (\<forall>q. stored_quote k s = Some q \<longrightarrow> ho_merchantId q = m))"

definition changes_of :: "string \<Rightarrow> hc_store \<Rightarrow> hc_store \<Rightarrow> bool" where
  "changes_of m s t = (keyed s \<longrightarrow> keyed t \<and> only_quotes_of m s t)"

lemma changes_refl [simp]: "changes_of m s s"
  by (simp add: changes_of_def only_quotes_of_def)

lemma only_quotes_trans: "only_quotes_of m s t \<Longrightarrow> only_quotes_of m t u \<Longrightarrow> only_quotes_of m s u"
  unfolding only_quotes_of_def by metis

lemma changes_trans: "changes_of m s t \<Longrightarrow> changes_of m t u \<Longrightarrow> changes_of m s u"
  unfolding changes_of_def by (blast intro: only_quotes_trans)

lemma changes_same:
  assumes eq: "\<And>k. stored_quote k u = stored_quote k t" and "changes_of m s t"
  shows "changes_of m s u"
  using assms(2) unfolding changes_of_def keyed_def only_quotes_of_def eq .

lemma changes_put:
  assumes "stored_quote k s = Some q" "ho_merchantId q = m" "ho_quoteId q' = ho_quoteId q" "ho_merchantId q' = ho_merchantId q"
  shows "changes_of m s (put_quote q' s)"
  using assms by (auto simp: changes_of_def keyed_def only_quotes_of_def)

lemma changes_new: "stored_quote (ho_quoteId q) s = None \<Longrightarrow> ho_merchantId q = m \<Longrightarrow> changes_of m s (put_quote q s)"
  by (auto simp: changes_of_def keyed_def only_quotes_of_def)

lemma changes_transaction: "changes_of m s (fst (f s)) \<Longrightarrow> changes_of m s (fst (transaction undo f s))"
  by (metis transaction_fst changes_refl)

lemma new_quote_merchant: "new_quote vm input now = Inr q \<Longrightarrow> ho_merchantId q = qi_merchantId input"
  by (auto simp: new_quote_def elim!: result_elims)

lemma createQuote_changes: "changes_of (qi_merchantId input) s (fst (createQuote vm undo input now s))"
  by (rule createQuote_cases [OF refl, of vm undo input now s]) (auto intro!: changes_new dest: new_quote_merchant)

lemma consume_changes:
  assumes "stored_quote (hp_quoteId p) s = Some q" "ho_merchantId q = m"
  shows "changes_of m s (fst (consume_quote p v now s))"
proof -
  have "changes_of m s (with_payment q p v s)"
    by (rule changes_same [OF _ changes_put [OF assms, of "verified_quote q v"]]) (simp_all add: with_payment_def verified_quote_def)
  moreover have "changes_of m s (put_quote (q\<lparr>ho_state := EXPIRED\<rparr>) s)" by (rule changes_put [OF assms]) simp_all
  ultimately show ?thesis using assms(1) by (simp add: consume_eq)
qed

lemma verify_changes: "changes_of m s (fst (verify vm undo inp m now s))"
proof (cases "parseAndVerifyKnownQuote vm inp m now s")
  case (Pair t r)
  have t: "t = s" using parse_keeps_store [of vm inp m now s] Pair by simp
  show ?thesis
  proof (cases r)
    case (Inl e)
    then show ?thesis using Pair t by (auto simp: verify_def bindA_def split: jerr.split)
  next
    case (Inr pv)
    obtain p v where pv: "pv = (p, v)" by (cases pv)
    from known_quote [of vm inp m now s t p v] Pair Inr pv obtain q where "stored_quote (hp_quoteId p) s = Some q" "ho_merchantId q = m" by blast
    then have "changes_of m s (fst (transaction undo (consume_quote p v now) s))" by (intro changes_transaction consume_changes)
    moreover have "fst (verify vm undo inp m now s) = fst (transaction undo (consume_quote p v now) s)"
      using Pair Inr pv t by (simp add: verify_def bindA_def computeA_def case_prod_beta split: sum.split jerr.split)
    ultimately show ?thesis by simp
  qed
qed

lemma end_settle_changes:
  assumes "stored_quote (ho_quoteId initial) s = Some q" "ho_merchantId q = m"
  shows "changes_of m s (fst (end_settle undo initial st answer now s))"
  using changes_put [OF assms, of "settled_as answer now q"] assms(1)
  by (auto simp: end_settle_eq settled_as_def split: sum.splits if_splits)

lemma begin_settle_changes:
  assumes "begin_settle vm undo inp m now s = (t, r)"
  shows "changes_of m s t \<and> (\<forall>q x st. r = Inr (Submit q x st) \<longrightarrow> keyed s \<longrightarrow> (\<exists>q'. stored_quote (ho_quoteId q) t = Some q' \<and> ho_merchantId q' = m))"
proof (cases "parseAndVerifyKnownQuote vm inp m now s")
  case (Pair t' r')
  have t': "t' = s" using parse_keeps_store [of vm inp m now s] Pair by simp
  show ?thesis
  proof (cases r')
    case (Inl e)
    then show ?thesis using assms Pair t' by (auto simp: begin_settle_def)
  next
    case (Inr pv)
    obtain p v where pv: "pv = (p, v)" by (cases pv)
    from known_quote [of vm inp m now s t' p v] Pair Inr pv obtain q where q: "stored_quote (hp_quoteId p) s = Some q" "ho_merchantId q = m" by blast
    from assms Pair Inr pv t' have "transaction undo (decide_settlement p v) s = (t, r)" by (simp add: begin_settle_def del: transaction_eq_Inr)
    then show ?thesis
    proof (cases rule: transaction_cases)
      case 2
      then show ?thesis
      proof (cases rule: decide_cases)
        case (submit q0 x st)
        with q changes_put [OF q, of "q\<lparr>ho_state := SUBMITTING\<rparr>"] show ?thesis by auto
      qed auto
    qed auto
  qed
qed

lemma settle_changes: "changes_of m s (fst (settle vm undo submit inp m now later s))"
proof -
  obtain t r where b: "begin_settle vm undo inp m now s = (t, r)" by fastforce
  note c = begin_settle_changes [OF b]
  show ?thesis
  proof (cases "\<exists>q x st. r = Inr (Submit q x st)")
    case True
    then obtain q x st where r: "r = Inr (Submit q x st)" by blast
    have "keyed s \<Longrightarrow> changes_of m t (fst (end_settle undo q st (submit (hyperliquidExchangeRequest (hd_payment x))) later t))"
      using c r by (auto intro: end_settle_changes)
    then have "changes_of m s (fst (end_settle undo q st (submit (hyperliquidExchangeRequest (hd_payment x))) later t))"
      using c changes_trans unfolding changes_of_def by (metis only_quotes_trans)
    then show ?thesis using b r by (simp add: settle_def bindA_def)
  next
    case False
    then show ?thesis using b c by (auto simp: settle_def bindA_def computeA_def split: sum.split settle_step.split)
  qed
qed

section \<open>Signed requests\<close>

lemma foldl_or_zero: "foldl (\<lambda>difference (a, b). or difference (xor (of_char a :: nat) (of_char b))) d zs = 0 \<longleftrightarrow> d = 0 \<and> (\<forall>(a, b)\<in>set zs. a = b)"
proof (induction zs arbitrary: d)
  case (Cons z zs)
  obtain a b where z: "z = (a, b)" by (cases z)
  have "or d (xor (of_char a :: nat) (of_char b)) = 0 \<longleftrightarrow> d = 0 \<and> (of_char a :: nat) = of_char b"
    by (auto simp: bit_eq_iff bit_simps)
  with Cons show ?case by (auto simp: z)
qed simp

lemma timingSafeEqual_iff: "timingSafeEqual l r \<longleftrightarrow> l = r"
proof -
  have "(\<forall>(a, b)\<in>set (zip l r). a = b) \<longleftrightarrow> l = r" if "length l = length r"
    using that by (induction l r rule: list_induct2) auto
  then show ?thesis by (auto simp: timingSafeEqual_def foldl_or_zero)
qed

lemma object_prototype_names: "(m, secret) \<in> set object_prototype \<longleftrightarrow> map_of object_prototype m = Some secret"
  by (rule map_of_eq_Some_iff [symmetric]) code_simp

lemma parsed_merchant:
  assumes "parseConfig pf env = Inr config" "(m, secret) \<in> set (wc_merchants config)"
  shows "merchant_name m \<and> 24 \<le> length secret \<and> \<not> list_ex is_space secret"
proof -
  from assms(1) obtain raw ms where "parse_merchants (pf_parse_json pf) raw = Inr ms" "wc_merchants config = ms"
    by (auto simp: parseConfig_def Let_def letE_eq_Inr split: if_splits)
  with assms(2) have ms: "parse_merchants (pf_parse_json pf) raw = Inr ms" "(m, secret) \<in> set ms" by simp_all
  then obtain parsed where "mapE merchant_entry (props parsed) = Inr ms"
    by (auto simp: parse_merchants_def split: if_splits option.splits)
  from mapE_Inr_mem [OF this ms(2)] show ?thesis by (auto simp: merchant_entry_def split: if_splits)
qed

lemma authenticate_InrE:
  assumes "authenticateMerchant pf request raw config now = Inr m"
  obtains secret timestamp where "m = or_text (rq_header request ''x-hypercore-merchant-id'') []" "js_member (wc_merchants config) m = Some secret" "secret \<noteq> []"
    "rq_header request ''x-hypercore-merchant-timestamp'' = Some timestamp" "digits_text timestamp" "length timestamp = 13"
    "\<bar>now - int (nat_value timestamp)\<bar> \<le> 60000"
    "rq_header request ''x-hypercore-merchant-signature'' = Some (b64_encode (pf_hmac pf secret (timestamp @ ''.'' @ raw)))"
  using assms
  by (auto simp: authenticateMerchant_def Let_def timingSafeEqual_iff MERCHANT_CLOCK_SKEW_MS_def merchant_signature_def or_text_def
    split: option.splits if_splits)

lemma changes_bind:
  "changes_of m s (fst (f s)) \<Longrightarrow> (\<And>x t. f s = (t, Inr x) \<Longrightarrow> changes_of m t (fst (k x t))) \<Longrightarrow> changes_of m s (fst (bindA f k s))"
  by (auto simp: bindA_def split: prod.split sum.split elim: changes_trans)

lemma changes_pure [simp]: "changes_of m s (fst (computeA r s))" "changes_of m s (fst (requireA ok e s))"
  by (simp_all add: computeA_def requireA_def)

lemma gate_changes: "changes_of (str_of (fld input ''merchantId'')) s (fst (gate_fetch pf env input now later s))"
proof -
  note intros = changes_bind changes_pure
  have "changes_of (str_of (fld input ''merchantId'')) t (fst (createQuote vm undo \<lparr>qi_quoteId = i, qi_merchantId = str_of (fld input ''merchantId''),
         qi_resource = r, qi_network = n, qi_amount = a, qi_payTo = p, qi_maxTimeoutSeconds = x\<rparr> now t))" for vm undo i r n a p x t
    using createQuote_changes [of "\<lparr>qi_quoteId = i, qi_merchantId = str_of (fld input ''merchantId''),
         qi_resource = r, qi_network = n, qi_amount = a, qi_payTo = p, qi_maxTimeoutSeconds = x\<rparr>" t vm undo now] by simp
  then have q: "changes_of (str_of (fld input ''merchantId'')) t (fst (quote_operation pf config input now t))" for config t
    unfolding quote_operation_def by (intro intros)
  have v: "changes_of (str_of (fld input ''merchantId'')) t (fst (verify_operation pf input now t))" for t
    unfolding verify_operation_def by (intro intros) (simp add: case_prod_beta verify_changes)
  have st: "changes_of (str_of (fld input ''merchantId'')) t (fst (settle_operation pf config input now later t))" for config t
    unfolding settle_operation_def by (intro intros settle_changes)
  have "changes_of (str_of (fld input ''merchantId'')) s (fst (gate_action pf env input now later s))"
    unfolding gate_action_def by (intro intros) (simp add: q v st)
  then show ?thesis by (cases "gate_action pf env input now later s") (auto simp: gate_fetch_def split: sum.split)
qed

text \<open>The store after a number of requests, each at its own times.\<close>

definition served :: "worker_env \<Rightarrow> (platform \<times> http_request \<times> int \<times> int) list \<Rightarrow> hc_store" where
  "served env requests = foldl (\<lambda>s (pf, request, now, later). fst (worker_fetch pf env request now later s)) [] requests"

lemma worker_changed:
  assumes "worker_fetch pf env request now later s = (t, reply)" "t \<noteq> s"
  obtains config m v where "parseConfig pf env = Inr config" "wc_enabled config" "rq_method request = ''POST''"
    "rq_path request \<in> {''/v1/quotes'', ''/verify'', ''/settle''}" "authenticateMerchant pf request (rq_text request) config now = Inr m"
    "changes_of m s t"
proof -
  from assms obtain config raw v m input where c: "parseConfig pf env = Inr config" "wc_enabled config" "rq_method request = ''POST''"
    "rq_path request \<in> {''/v1/quotes'', ''/verify'', ''/settle''}"
    and r: "readBody (pf_parse_json pf) request = Inr (raw, v)" and a: "authenticateMerchant pf request raw config now = Inr m"
    and i: "gate_input request m v = Inr input" and g: "gate_fetch pf env input now later s = (t, reply)"
    by (auto simp: worker_fetch_def letE_eq_Inr split: sum.splits if_splits elim!: letE_InrE)
  have "raw = rq_text request" using r by (auto simp: readBody_def split: if_splits option.splits)
  moreover have "str_of (fld input ''merchantId'') = m" using i by (auto simp: gate_input_def split: if_splits)
  ultimately show thesis using that [OF c] a gate_changes [of input s pf env now later] g by simp
qed

lemma worker_keyed: "keyed s \<Longrightarrow> keyed (fst (worker_fetch pf env request now later s))"
  by (metis worker_changed changes_of_def prod.collapse)

lemma served_keyed: "keyed (served env requests)"
proof (induction requests rule: rev_induct)
  case Nil
  show ?case by (simp add: served_def keyed_def stored_quote_def)
next
  case (snoc r rs)
  then show ?case by (cases r) (simp add: served_def worker_keyed)
qed

section \<open>Properties\<close>

text \<open>C10. After any requests, a request that changes the store is a POST to one of the three routes of an enabled service; it names a merchant
  and carries, within a minute of its time, the HMAC of the time and the body under a secret of at least 24 characters that is
  configured for that merchant, or under the public text of a property that every object inherits under that name.  It changes no quote of another merchant.\<close>

theorem changes_need_merchant_signature:
  assumes s: "s = served env requests" and call: "worker_fetch pf env request now later s = (t, status, reply)" and changed: "t \<noteq> s"
  shows "\<exists>config m secret timestamp. parseConfig pf env = Inr config \<and> wc_enabled config \<and> rq_method request = ''POST''
    \<and> rq_path request \<in> {''/v1/quotes'', ''/verify'', ''/settle''}
    \<and> rq_header request ''x-hypercore-merchant-id'' = Some m
    \<and> (map_of (wc_merchants config) m = Some secret \<and> 24 \<le> length secret \<or> (m, secret) \<in> set object_prototype)
    \<and> rq_header request ''x-hypercore-merchant-timestamp'' = Some timestamp \<and> \<bar>now - int (nat_value timestamp)\<bar> \<le> 60000
    \<and> rq_header request ''x-hypercore-merchant-signature'' = Some (b64_encode (pf_hmac pf secret (timestamp @ ''.'' @ rq_text request)))
    \<and> (\<forall>k q. stored_quote k s = Some q \<longrightarrow> ho_merchantId q \<noteq> m \<longrightarrow> stored_quote k t = Some q)
    \<and> (\<forall>k q. stored_quote k t = Some q \<longrightarrow> ho_merchantId q \<noteq> m \<longrightarrow> stored_quote k s = Some q)"
proof -
  from call changed obtain config m where c: "parseConfig pf env = Inr config" "wc_enabled config" "rq_method request = ''POST''"
    "rq_path request \<in> {''/v1/quotes'', ''/verify'', ''/settle''}" and a: "authenticateMerchant pf request (rq_text request) config now = Inr m"
    and o: "changes_of m s t" by (rule worker_changed)
  from a obtain secret timestamp where m: "m = or_text (rq_header request ''x-hypercore-merchant-id'') []"
    and j: "js_member (wc_merchants config) m = Some secret"
    and h: "rq_header request ''x-hypercore-merchant-timestamp'' = Some timestamp" "\<bar>now - int (nat_value timestamp)\<bar> \<le> 60000"
      "rq_header request ''x-hypercore-merchant-signature'' = Some (b64_encode (pf_hmac pf secret (timestamp @ ''.'' @ rq_text request)))"
    by (rule authenticate_InrE)
  from j have k: "map_of (wc_merchants config) m = Some secret \<and> 24 \<le> length secret \<or> (m, secret) \<in> set object_prototype"
    using parsed_merchant [OF c(1)] by (auto simp: js_member_def object_prototype_names dest: map_of_SomeD split: option.splits)
  have "[] \<notin> fst ` set object_prototype" by code_simp
  then have "m \<noteq> []" using k parsed_merchant [OF c(1)] by (force simp: merchant_name_def dest: map_of_SomeD)
  then have m': "rq_header request ''x-hypercore-merchant-id'' = Some m" using m by (auto simp: or_text_def split: option.splits)
  have o: "only_quotes_of m s t" using o served_keyed s by (simp add: changes_of_def)
  then have "\<forall>k q. stored_quote k s = Some q \<longrightarrow> ho_merchantId q \<noteq> m \<longrightarrow> stored_quote k t = Some q" unfolding only_quotes_of_def by metis
  moreover from o have "\<forall>k q. stored_quote k t = Some q \<longrightarrow> ho_merchantId q \<noteq> m \<longrightarrow> stored_quote k s = Some q" unfolding only_quotes_of_def by (metis option.inject)
  ultimately show ?thesis using c m' k h by blast
qed

text \<open>C39. The secret of a merchant is looked up as a property of an object, which also finds what every object inherits: a request under such a name
  that is no configured merchant, with the HMAC under the public text of that property, is authenticated.\<close>

theorem inherited_names_authenticate:
  assumes m: "(m, secret) \<in> set object_prototype" "map_of (wc_merchants config) m = None"
    and h: "rq_header request ''x-hypercore-merchant-id'' = Some m" "rq_header request ''x-hypercore-merchant-timestamp'' = Some timestamp"
      "rq_header request ''x-hypercore-merchant-signature'' = Some (b64_encode mac)"
    and mac: "mac = pf_hmac pf secret (timestamp @ ''.'' @ raw)" "length mac = 32" "\<forall>b\<in>set mac. b < 256"
    and time: "digits_text timestamp" "length timestamp = 13" "\<bar>now - int (nat_value timestamp)\<bar> \<le> 60000"
  shows "authenticateMerchant pf request raw config now = Inr m"
proof -
  have "\<forall>p\<in>set object_prototype. snd p \<noteq> []" by code_simp
  from bspec [OF this m(1)] have "secret \<noteq> []" by simp
  moreover have "js_member (wc_merchants config) m = Some secret" using m by (simp add: js_member_def object_prototype_names)
  moreover have "\<forall>c\<in>set b64_alphabet. is_alnum c \<or> c = CHR ''_'' \<or> c = CHR ''-''" by code_simp
  then have "merchant_signature (b64_encode mac)"
    using b64_encode_alphabet [OF mac(3)] by (simp add: merchant_signature_def length_b64_encode mac(2) list_all_iff)
  ultimately show ?thesis
    using h time unfolding mac(1) by (simp add: authenticateMerchant_def Let_def or_text_def timingSafeEqual_iff MERCHANT_CLOCK_SKEW_MS_def)
qed

section \<open>Instances\<close>

definition sample_platform :: platform where
  "sample_platform = \<lparr>pf_viem = toy_viem,
     pf_parse_json = \<lambda>t. Some (if t = ''m'' then Obj [(''shop'', Str (replicate 24 (CHR ''k'')))] else Obj [(''resource'', Str ''r''), (''amount'', Str ''0.02'')]),
     pf_parse_url = \<lambda>u. Some \<lparr>url_protocol = ''https:'', url_pathname = ''/exchange'', url_search = [], url_hash = [], url_text = u\<rparr>,
     pf_hmac = \<lambda>_ _. replicate 32 0, pf_random = replicate 32 0, pf_post = \<lambda>_ _. None, pf_undo = True\<rparr>"

definition sample_env :: worker_env where
  "sample_env = \<lparr>we_enabled = Some ''true'', we_network = None, we_maxTimeoutSeconds = None, we_payTo = Some ''0xa'', we_exchangeUrl = None,
     we_merchants = Some ''m''\<rparr>"

definition sample_http :: "string \<Rightarrow> http_request" where
  "sample_http merchant = \<lparr>rq_method = ''POST'', rq_path = ''/v1/quotes'', rq_header = \<lambda>h.
     if h = ''x-hypercore-merchant-id'' then Some merchant else
     if h = ''x-hypercore-merchant-timestamp'' then Some ''1700000000000'' else
     if h = ''x-hypercore-merchant-signature'' then Some (b64_encode (replicate 32 0)) else None, rq_text = ''{}''\<rparr>"

definition sample_served :: "hc_store \<times> int \<times> jsval" where
  "sample_served = worker_fetch sample_platform sample_env (sample_http ''shop'') 1700000000000 1700000000000 []"

lemma sample_changes: "fst sample_served \<noteq> []"
  by code_simp

lemma changes_need_merchant_signature_witness:
  "fst sample_served \<noteq> [] \<and> (\<exists>config m. parseConfig sample_platform sample_env = Inr config \<and> rq_header (sample_http ''shop'') ''x-hypercore-merchant-id'' = Some m
     \<and> (\<exists>secret. map_of (wc_merchants config) m = Some secret \<or> (m, secret) \<in> set object_prototype))"
proof -
  have "served sample_env [] = []" by (simp add: served_def)
  from changes_need_merchant_signature [OF this [symmetric], of sample_platform "sample_http ''shop''" 1700000000000 1700000000000
      "fst sample_served" "fst (snd sample_served)" "snd (snd sample_served)"]
  show ?thesis using sample_changes unfolding sample_served_def by (simp only: prod.collapse) blast
qed

lemma inherited_names_authenticate_witness:
  "authenticateMerchant sample_platform (sample_http ''constructor'') ''{}'' \<lparr>wc_enabled = True, wc_network = HYPERCORE_X402_MAINNET, wc_payTo = ''0xa'',
     wc_exchangeUrl = [], wc_maxTimeoutSeconds = 60, wc_merchants = [(''shop'', replicate 24 (CHR ''k''))]\<rparr> 1700000000000 = Inr ''constructor''"
  by (rule inherited_names_authenticate [of _ "native_function ''Object''" _ _ "''1700000000000''" "replicate 32 0"])
    (simp_all add: object_prototype_def sample_http_def sample_platform_def, code_simp+)

end
