(* ===== verification/Persisted_Records.thy ===== *)
theory Persisted_Records
  imports Intent Merkle
begin

text \<open>
  src/infrastructure/persistence/persisted-records.mjs: the checks the SQL stores make of the records they read back.
  A column holds a value or its JSON text; parsing and dates are parameters (None where the platform throws).
\<close>

section \<open>Fields\<close>

definition persisted_record :: "jsval \<Rightarrow> jsval result" where
  "persisted_record v = (if is_obj v then Inr v else Inl TypeErr)"

definition persisted_string :: "jsval \<Rightarrow> unit result" where
  "persisted_string v = (if is_str v \<and> v \<noteq> Str [] then Inr () else Inl TypeErr)"

definition persisted_integer :: "jsval \<Rightarrow> unit result" where
  "persisted_integer v = (if is_safe_integer v \<and> 0 \<le> int_of v then Inr () else Inl TypeErr)"

definition persisted_strings :: "jsval \<Rightarrow> string list \<Rightarrow> unit result" where
  "persisted_strings item ks = forE (\<lambda>k. persisted_string (fld item k)) ks"

definition persistedJson :: "(string \<Rightarrow> jsval option) \<Rightarrow> jsval \<Rightarrow> jsval result" where
  "persistedJson parse_json v = (case (if is_str v then parse_json (str_of v) else Some v) of
     None \<Rightarrow> Inl TypeErr | Some parsed \<Rightarrow> letE (safe_visit 64 parsed 0) (\<lambda>_. Inr parsed))"

definition persisted_object :: "(string \<Rightarrow> jsval option) \<Rightarrow> jsval \<Rightarrow> jsval result" where
  "persisted_object parse_json v = letE (persistedJson parse_json v) persisted_record"

text \<open>The chain of an intent or an observation: a positive chain id, or Solana.\<close>

definition persisted_chain :: "jsval \<Rightarrow> unit result" where
  "persisted_chain item = (let c = fld item ''chainId'' in
     if \<not> is_number c \<and> \<not> is_str c then Inl TypeErr else
     (case safe_int (to_num c) of None \<Rightarrow> Inl TypeErr
      | Some n \<Rightarrow> if n < 1 \<and> \<not> (n = 0 \<and> fld item ''chainRef'' = Str SOLANA_MAINNET_CAIP2) then Inl TypeErr else Inr ()))"

section \<open>Records\<close>

definition persistedIntent :: "(string \<Rightarrow> jsval option) \<Rightarrow> jsval \<Rightarrow> jsval result" where
  "persistedIntent parse_json v = letE (persisted_object parse_json v) (\<lambda>item.
     letE (persisted_strings item [''intentId'', ''intentHash'', ''schema'', ''action'', ''sender'', ''recipient'', ''asset'', ''amount'', ''nonce'']) (\<lambda>_.
     letE (persisted_chain item) (\<lambda>_.
     letE (persisted_integer (fld item ''validUntil'')) (\<lambda>_. Inr item))))"

definition persistedWorkerObservation :: "(string \<Rightarrow> jsval option) \<Rightarrow> jsval \<Rightarrow> jsval result" where
  "persistedWorkerObservation parse_json v = letE (persisted_object parse_json v) (\<lambda>item.
     letE (persisted_strings item [''txHash'', ''status'']) (\<lambda>_. Inr item))"

definition persistedObservation :: "(string \<Rightarrow> jsval option) \<Rightarrow> jsval \<Rightarrow> jsval result" where
  "persistedObservation parse_json v = letE (letE (persistedWorkerObservation parse_json v) persisted_record) (\<lambda>item.
     letE (persisted_chain item) (\<lambda>_. Inr item))"

definition persistedAuthorization :: "(string \<Rightarrow> jsval option) \<Rightarrow> jsval \<Rightarrow> jsval result" where
  "persistedAuthorization parse_json v = letE (persisted_object parse_json v) (\<lambda>item.
     letE (persisted_strings item [''authorizationId'', ''intentHash'', ''authorizationNonce'']) (\<lambda>_.
     letE (persistedIntent parse_json (fld item ''intent'')) (\<lambda>_.
     letE (persisted_record (fld item ''principal'')) (\<lambda>principal.
     letE (persisted_strings principal [''id'', ''account'']) (\<lambda>_.
     letE (persisted_record (fld item ''authorizer'')) (\<lambda>authorizer.
     letE (persisted_strings authorizer [''type'', ''address'']) (\<lambda>_.
     letE (persisted_record (fld item ''delegate'')) (\<lambda>delegate.
     letE (persisted_string (fld delegate ''executor'')) (\<lambda>_.
     letE (persisted_integer (fld item ''expiresAt'')) (\<lambda>_.
     (case safe_int (to_num (fld item ''maxUses'')) of None \<Rightarrow> Inl TypeErr | Some n \<Rightarrow> if n < 1 then Inl TypeErr else Inr item)))))))))))"

definition persistedAcceptance :: "(string \<Rightarrow> jsval option) \<Rightarrow> jsval \<Rightarrow> jsval result" where
  "persistedAcceptance parse_json v = letE (persisted_object parse_json v) (\<lambda>item.
     letE (persisted_integer (fld item ''sequence'')) (\<lambda>_.
     letE (persisted_string (fld item ''entryHash'')) (\<lambda>_. Inr item)))"

definition persistedReceipt :: "(string \<Rightarrow> jsval option) \<Rightarrow> jsval \<Rightarrow> jsval result" where
  "persistedReceipt parse_json v = letE (persisted_object parse_json v) (\<lambda>item.
     letE (persisted_strings item [''receiptId'', ''intentHash'', ''schema'', ''issuer'', ''keyId'', ''outcome'']) (\<lambda>_.
     letE (persisted_record (fld item ''execution'')) (\<lambda>execution.
     letE (persisted_string (fld execution ''txHash'')) (\<lambda>_. Inr item))))"

definition persistedArchiveEntry :: "(string \<Rightarrow> jsval option) \<Rightarrow> jsval \<Rightarrow> jsval result" where
  "persistedArchiveEntry parse_json v = letE (persisted_object parse_json v) (\<lambda>item.
     letE (persisted_strings item [''id'', ''projectId'', ''environment'', ''kind'', ''artifactHash'', ''status'']) (\<lambda>_.
     letE (persisted_integer (fld item ''createdAt'')) (\<lambda>_. Inr item)))"

definition persistedJobInput :: "(string \<Rightarrow> jsval option) \<Rightarrow> jsval \<Rightarrow> jsval result" where
  "persistedJobInput parse_json v = letE (persisted_object parse_json v) (\<lambda>item. let c = fld item ''chainId'' in
     if c \<noteq> Undef \<and> (\<not> is_number c \<and> \<not> is_str c \<or> (case safe_int (to_num c) of None \<Rightarrow> True | Some n \<Rightarrow> n < 0)) then Inl TypeErr else
     letE (persisted_string (fld item ''txHash'')) (\<lambda>_. Inr item))"

definition persistedJobResult :: "(string \<Rightarrow> jsval option) \<Rightarrow> jsval \<Rightarrow> jsval result" where
  "persistedJobResult parse_json v = (if nullish v then Inr Null else
     letE (persisted_object parse_json v) (\<lambda>item.
     letE (persistedWorkerObservation parse_json (fld item ''observation'')) (\<lambda>_. Inr item)))"

definition persistedJobError :: "(string \<Rightarrow> jsval option) \<Rightarrow> jsval \<Rightarrow> jsval result" where
  "persistedJobError parse_json v = (if nullish v then Inr Null else
     letE (persisted_object parse_json v) (\<lambda>item. letE (persisted_strings item [''code'', ''message'']) (\<lambda>_. Inr item)))"

definition persistedPolicy :: "(string \<Rightarrow> jsval option) \<Rightarrow> jsval \<Rightarrow> jsval result" where
  "persistedPolicy parse_json v = (if nullish v then Inr Null else
     letE (persisted_object parse_json v) (\<lambda>item.
     if fld item ''schema'' = Str ''priorseal.policy-evidence.v1'' then
       letE (persisted_string (fld item ''policyHash'')) (\<lambda>_. letE (persisted_record (fld item ''result'')) (\<lambda>_. Inr item))
     else Inr item))"

definition persistedStatus :: "jsval \<Rightarrow> jsval result" where
  "persistedStatus v = letE (persisted_string v) (\<lambda>_. Inr v)"

definition persistedCount :: "jsval \<Rightarrow> int result" where
  "persistedCount v = (case safe_int (to_num v) of None \<Rightarrow> Inl TypeErr | Some n \<Rightarrow> if n < 0 then Inl TypeErr else Inr n)"

definition persistedTimestamp :: "(jsval \<Rightarrow> bool) \<Rightarrow> (jsval \<Rightarrow> jnum) \<Rightarrow> jsval \<Rightarrow> int result" where
  "persistedTimestamp is_date date_time v = (case safe_int (if is_date v \<or> is_str v then date_time v else to_num v) of
     None \<Rightarrow> Inl TypeErr | Some n \<Rightarrow> if n < 0 then Inl TypeErr else Inr n)"

section \<open>Reading back what was written\<close>

lemma persisted_strings_Inr: "persisted_strings item ks = Inr () \<longleftrightarrow> (\<forall>k\<in>set ks. is_str (fld item k) \<and> fld item k \<noteq> Str [])"
  by (auto simp: persisted_strings_def forE_Inr_iff persisted_string_def)

lemma persisted_strings_cases: "persisted_strings item ks = Inr () \<or> persisted_strings item ks = Inl TypeErr"
  unfolding persisted_strings_def by (induction ks) (auto simp: persisted_string_def)

text \<open>What a column holds for a record: the record or a text that is parsed to it.\<close>

definition column_of :: "(string \<Rightarrow> jsval option) \<Rightarrow> jsval \<Rightarrow> jsval \<Rightarrow> bool" where
  "column_of parse_json w column = (column = w \<or> (\<exists>t. column = Str t \<and> parse_json t = Some w))"

lemma persisted_object_column: "column_of parse_json w column \<Longrightarrow> is_obj w \<Longrightarrow> safe_visit 64 w 0 = Inr () \<Longrightarrow>
    persisted_object parse_json column = Inr w"
  by (auto simp: column_of_def persisted_object_def persistedJson_def persisted_record_def elim: is_objE)

lemma normal_texts: "is_id v \<Longrightarrow> is_str v \<and> v \<noteq> Str []" "is_address v \<Longrightarrow> is_str v \<and> v \<noteq> Str []" "is_uint v \<Longrightarrow> is_str v \<and> v \<noteq> Str []"
  by (auto simp: normal_form_defs ID_RE_def uint_text_def posint_text_def after_def starts_with_def split: jsval.splits)

lemma public_key_text: "isSolanaPublicKey k \<Longrightarrow> is_str k \<and> k \<noteq> Str []"
  by (auto simp: isSolanaPublicKey_def split: jsval.splits)

lemma message_keys:
  assumes "normalizeSolanaTransactionMessage v = Inr w"
  shows "isSolanaPublicKey (fld w ''feePayer'') \<and> isSolanaPublicKey (fld w ''recentBlockhash'')"
  using assms
proof (rule message_Inr, goal_cases)
  case (1 cfg s rs ru ts wr ro cs)
  from 1(4) have "cfg = [] \<or> (\<exists>c. cfg = [(''transactionConfig'', c)])" by (auto simp: config_of_def letE_eq_Inr split: if_splits)
  with 1(5,6) show ?case unfolding 1(1) by auto
qed

lemma solana_texts:
  assumes "buildSolanaIntent sha v = Inr w"
  shows "fld w ''schema'' = Str EXACT_CALL_INTENT_SCHEMA \<and> is_str (fld w ''asset'') \<and> fld w ''asset'' \<noteq> Str []
    \<and> isSolanaPublicKey (fld w ''sender'') \<and> isSolanaPublicKey (fld w ''nonce'')"
  using assms unfolding buildSolanaIntent_def Let_def
proof (elim result_elims, goal_cases)
  case (1 message validUntil constraints u intentId amount commitments)
  from message_keys [OF 1(3)] 1(7) show ?case
    using 1(17) unfolding with_intent_hash_Inr by (auto simp: solana_asset_re_def after_def starts_with_def SOLANA_MAINNET_CAIP2_def)
qed

lemma hashed_texts:
  assumes "hashed_intent sha w" "hex_hash sha"
  shows "is_obj w \<and> is_str (fld w ''intentHash'') \<and> fld w ''intentHash'' \<noteq> Str []"
proof -
  from assms(1) obtain kvs h where w: "w = Obj (kvs @ [(''intentHash'', Str h)])" "''intentHash'' \<notin> fst ` set kvs" "hashJson sha (Obj kvs) = Inr h"
    by (auto simp: hashed_intent_def)
  from w(3) assms(2) have "hash64 h" by (auto simp: hashJson_def hex_hash_def letE_eq_Inr)
  then have "h \<noteq> []" by (auto simp: lower_hex_n_def)
  with w(1,2) show ?thesis by (simp add: fld_Obj_append1)
qed

lemma safe_int_zero [simp]: "safe_int (Fin 0) = Some 0"
  using safe_int_of_int [of 0] by (simp add: max_safe_def)

lemma hyperliquid_chain: "hyperliquid_intent w \<Longrightarrow> persisted_chain w = Inl TypeErr"
  by (auto simp: hyperliquid_intent_def persisted_chain_def Let_def HYPERLIQUID_MAINNET_CHAIN_REF_def SOLANA_MAINNET_CAIP2_def)

lemma other_chains: "solana_intent w \<or> evm_intent w \<Longrightarrow> persisted_chain w = Inr ()"
  by (auto simp: solana_intent_def evm_intent_def persisted_chain_def Let_def is_chain_id_def)

lemma is_time_integer: "is_time t \<Longrightarrow> persisted_integer t = Inr ()"
  by (auto simp: is_time_def persisted_integer_def split: jsval.splits)

text \<open>C37. An intent that was built and written to a column is read back as it was, whether the column holds the value or its
  text, except for the intents of Hyperliquid orders: those are refused, since their chain is 0 and the check lets 0
  pass for Solana only.\<close>

theorem persisted_intents_read_back:
  assumes build: "buildIntent sha v = Inr w" and hex: "hex_hash sha" and safe: "safe_visit 64 w 0 = Inr ()" and column: "column_of parse_json w column"
  shows "persistedIntent parse_json column = (if hyperliquid_intent w then Inl TypeErr else Inr w)"
proof -
  have ok: "intent_ok sha w" by (rule intent_built [OF build])
  then have hash: "is_obj w" "is_str (fld w ''intentHash'')" "fld w ''intentHash'' \<noteq> Str []"
    using hashed_texts [OF _ hex, of w] by (simp_all add: intent_ok_def)
  have read: "persisted_object parse_json column = Inr w" by (rule persisted_object_column [OF column hash(1) safe])
  show ?thesis
  proof (cases "hyperliquid_intent w")
    case True
    then show ?thesis
      using persisted_strings_cases [of w "[''intentId'', ''intentHash'', ''schema'', ''action'', ''sender'', ''recipient'', ''asset'', ''amount'', ''nonce'']"]
      by (auto simp: persistedIntent_def read hyperliquid_chain)
  next
    case False
    then have kinds: "solana_intent w \<or> evm_intent w" using ok by (simp add: intent_ok_def)
    have ids: "is_id (fld w ''intentId'')" "is_uint (fld w ''amount'')" "is_time (fld w ''validUntil'')" using ok by (simp_all add: intent_ok_def)
    have "\<forall>k\<in>{''schema'', ''action'', ''sender'', ''recipient'', ''asset'', ''nonce''}. is_str (fld w k) \<and> fld w k \<noteq> Str []"
      using build
    proof (cases rule: buildIntent_Inr)
      case solana
      from solana_texts [OF solana(2)] solana_intent_ok [OF solana(2)] show ?thesis
        by (auto simp: solana_intent_def EXACT_CALL_INTENT_SCHEMA_def dest: public_key_text)
    next
      case hyperliquid
      with hyperliquid_intent_ok False show ?thesis by blast
    next
      case evm
      from evm_intent_ok [OF build evm(6,7)] have e: "evm_intent w" by blast
      then have "fld w ''asset'' \<noteq> Str []" by (auto simp: evm_intent_def evm_asset_re_def after_def starts_with_def)
      with e show ?thesis by (auto simp: evm_intent_def INTENT_SCHEMA_def EXACT_CALL_INTENT_SCHEMA_def dest: normal_texts)
    qed
    then have "persisted_strings w [''intentId'', ''intentHash'', ''schema'', ''action'', ''sender'', ''recipient'', ''asset'', ''amount'', ''nonce''] = Inr ()"
      using hash ids normal_texts by (auto simp: persisted_strings_Inr)
    with False kinds show ?thesis by (simp add: persistedIntent_def read other_chains is_time_integer ids)
  qed
qed

lemma persisted_intents_read_back_witness:
  "\<exists>w. buildIntent zero_hash sample_intent = Inr w \<and> persistedIntent (\<lambda>_. None) w = Inr w"
proof -
  have b: "case buildIntent zero_hash sample_intent of Inl e \<Rightarrow> False | Inr w \<Rightarrow> safe_visit 64 w 0 = Inr () \<and> fld w ''chainId'' = Num 1" by code_simp
  then obtain w where w: "buildIntent zero_hash sample_intent = Inr w" "safe_visit 64 w 0 = Inr ()" "fld w ''chainId'' = Num 1" by (auto split: sum.splits)
  have "column_of (\<lambda>_. None) w w" by (simp add: column_of_def)
  from persisted_intents_read_back [OF w(1) _ w(2) this] w(1,3) show ?thesis
    by (auto simp: hex_hash_def hash64_zero_hash hyperliquid_intent_def Let_def)
qed

end
