(* ===== verification/Rate_Limiter.thy ===== *)
theory Rate_Limiter
  imports Atomic_Store
begin

text \<open>
  src/interfaces/http/rate-limiter.mjs: requests are counted per key and window of time, in one Map; when it has grown
  beyond 20000 entries, those of other windows are dropped.  Clocks are integers, as Date.now is.
\<close>

section \<open>The limiter\<close>

type_synonym buckets = "(string, int) js_map"

definition compound :: "string \<Rightarrow> int \<Rightarrow> string" where
  "compound key bucket = key @ '':'' @ int_text bucket"

definition ends_with :: "string \<Rightarrow> string \<Rightarrow> bool" where
  "ends_with end s = starts_with (rev end) (rev s)"

definition allow :: "int \<Rightarrow> int \<Rightarrow> string \<Rightarrow> int \<Rightarrow> buckets \<Rightarrow> buckets \<times> bool" where
  "allow limit windowMs key now buckets = (
     let bucket = now div windowMs;
         kept = (if 20000 < length buckets then filter (\<lambda>item. ends_with ('':'' @ int_text bucket) (fst item)) buckets else buckets);
         count = (case map_get kept (compound key bucket) of None \<Rightarrow> 0 | Some n \<Rightarrow> n) + 1
     in (map_set (compound key bucket) count kept, count \<le> limit))"

section \<open>Calls one after the other\<close>

type_synonym call = "string \<times> int"

definition buckets_after :: "int \<Rightarrow> int \<Rightarrow> call list \<Rightarrow> buckets" where
  "buckets_after limit windowMs calls = fold (\<lambda>(key, now) s. fst (allow limit windowMs key now s)) calls []"

primrec verdicts :: "int \<Rightarrow> int \<Rightarrow> buckets \<Rightarrow> call list \<Rightarrow> bool list" where
  "verdicts limit windowMs s [] = []"
| "verdicts limit windowMs s (c # calls) = (case allow limit windowMs (fst c) (snd c) s of (t, ok) \<Rightarrow> ok # verdicts limit windowMs t calls)"

text \<open>The calls of a key in a window, and the ones that were allowed.\<close>

definition calls_of :: "int \<Rightarrow> string \<Rightarrow> int \<Rightarrow> call list \<Rightarrow> call list" where
  "calls_of windowMs key bucket = filter (\<lambda>c. fst c = key \<and> snd c div windowMs = bucket)"

definition allowed_of :: "int \<Rightarrow> int \<Rightarrow> string \<Rightarrow> int \<Rightarrow> call list \<Rightarrow> call list" where
  "allowed_of limit windowMs key bucket calls =
     calls_of windowMs key bucket (map fst (filter snd (zip calls (verdicts limit windowMs [] calls))))"

lemma length_verdicts [simp]: "length (verdicts limit windowMs s calls) = length calls"
  by (induction calls arbitrary: s) (simp_all split: prod.split)

lemma verdicts_snoc: "verdicts limit windowMs s (calls @ [c]) = verdicts limit windowMs s calls
    @ [snd (allow limit windowMs (fst c) (snd c) (fold (\<lambda>(key, now) s. fst (allow limit windowMs key now s)) calls s))]"
  by (induction calls arbitrary: s) (auto split: prod.splits)

section \<open>Entries\<close>

lemma no_colon: "CHR '':'' \<notin> set (int_text n)"
proof -
  have "CHR '':'' \<notin> set (nat_text m)" for m using nat_text_digits [of m] by (auto simp: is_digit_def)
  then show ?thesis by (simp add: int_text_def)
qed

lemma compound_split: "k @ CHR '':'' # int_text b = k' @ CHR '':'' # int_text b' \<Longrightarrow> k = k' \<and> b = b'"
proof -
  have split: "takeWhile (\<lambda>c. c \<noteq> CHR '':'') (rev (k @ CHR '':'' # int_text b)) = rev (int_text b)" for k :: string and b
    using no_colon [of b] by (simp add: takeWhile_append2 takeWhile_append)
  assume eq: "k @ CHR '':'' # int_text b = k' @ CHR '':'' # int_text b'"
  with split [of k b] split [of k' b'] have "rev (int_text b) = rev (int_text b')" by simp
  then have "b = b'" by simp
  with eq show ?thesis by simp
qed

lemma compound_eq [simp]: "compound k b = compound k' b' \<longleftrightarrow> k = k' \<and> b = b'"
  using compound_split by (auto simp: compound_def)

lemma compound_ends [simp]: "ends_with (CHR '':'' # int_text b) (compound k b)"
  by (simp add: ends_with_def compound_def starts_with_def)

lemma map_get_filter: "(\<And>v. P (k, v)) \<Longrightarrow> map_get (filter P m) k = map_get m k"
  by (induction m) auto

lemma map_get_filter_None: "map_get m k = None \<Longrightarrow> map_get (filter P m) k = None"
  by (induction m) (auto split: if_splits)

text \<open>Windows that are not over yet are counted as they are; what is dropped belongs to windows that are over.\<close>

definition count_entry :: "nat \<Rightarrow> int option" where
  "count_entry n = (if n = 0 then None else Some (int n))"

lemma allow_entry:
  assumes "allow limit windowMs key now s = (t, ok)"
  shows "map_get s (compound key (now div windowMs)) = count_entry n \<Longrightarrow> ok \<longleftrightarrow> int n < limit"
    and "map_get s (compound k (now div windowMs)) = count_entry n \<Longrightarrow>
      map_get t (compound k (now div windowMs)) = count_entry (if k = key then Suc n else n)"
    and "b \<noteq> now div windowMs \<Longrightarrow> map_get s (compound k b) = None \<Longrightarrow> map_get t (compound k b) = None"
proof -
  let ?w = "now div windowMs"
  define kept where "kept = (if 20000 < length s then filter (\<lambda>item. ends_with ('':'' @ int_text ?w) (fst item)) s else s)"
  have same: "map_get kept (compound j ?w) = map_get s (compound j ?w)" for j
    unfolding kept_def by (simp add: map_get_filter)
  have none: "map_get s x = None \<Longrightarrow> map_get kept x = None" for x by (simp add: kept_def map_get_filter_None)
  define count where "count = (case map_get kept (compound key ?w) of None \<Rightarrow> 0 | Some n \<Rightarrow> n) + 1"
  have t: "t = map_set (compound key ?w) count kept" and ok: "ok \<longleftrightarrow> count \<le> limit"
    using assms by (simp_all add: allow_def Let_def kept_def count_def)
  have count: "count = int n + 1" if "map_get s (compound key ?w) = count_entry n" for n
    using that by (simp add: count_def same count_entry_def)
  show "map_get s (compound key ?w) = count_entry n \<Longrightarrow> ok \<longleftrightarrow> int n < limit" using ok count [of n] by linarith
  show "map_get s (compound k ?w) = count_entry n \<Longrightarrow> map_get t (compound k ?w) = count_entry (if k = key then Suc n else n)"
    using count [of n] by (auto simp: t same count_entry_def)
  show "b \<noteq> ?w \<Longrightarrow> map_get s (compound k b) = None \<Longrightarrow> map_get t (compound k b) = None" by (simp add: t none)
qed

lemma calls_of_later: "\<forall>c\<in>set calls. snd c div w < b \<Longrightarrow> calls_of w k b calls = []"
  by (auto simp: calls_of_def filter_empty_conv)

lemma entries_count:
  "sorted (map (\<lambda>c. snd c div w) calls) \<Longrightarrow> \<forall>c\<in>set calls. snd c div w \<le> b \<Longrightarrow>
    map_get (buckets_after limit w calls) (compound k b) = count_entry (length (calls_of w k b calls))"
proof (induction calls rule: rev_induct)
  case Nil
  show ?case by (simp add: buckets_after_def calls_of_def count_entry_def)
next
  case (snoc c calls)
  obtain key now where c: "c = (key, now)" by (cases c)
  let ?s = "buckets_after limit w calls"
  obtain t ok where t: "allow limit w key now ?s = (t, ok)" by fastforce
  have s: "buckets_after limit w (calls @ [(key, now)]) = t" using t by (simp add: buckets_after_def)
  have IH: "map_get ?s (compound k b) = count_entry (length (calls_of w k b calls))"
    by (rule snoc.IH) (use snoc.prems in \<open>auto simp: sorted_append\<close>)
  show ?case
  proof (cases "b = now div w")
    case True
    with allow_entry(2) [OF t, of k "length (calls_of w k b calls)"] IH show ?thesis unfolding c s by (simp add: calls_of_def)
  next
    case False
    with snoc.prems c have "now div w < b" by simp
    then have later: "\<forall>c\<in>set (calls @ [c]). snd c div w < b" using snoc.prems(1) c by (fastforce simp: sorted_append)
    then have "map_get ?s (compound k b) = None" using IH by (simp add: calls_of_later count_entry_def)
    from allow_entry(3) [OF t False this] show ?thesis using calls_of_later [OF later, of k] unfolding c s by (simp add: count_entry_def)
  qed
qed

text \<open>C38. As long as the clock does not go back to an earlier window, of the calls with one key in one window exactly the first
  ones are allowed, as many as the limit says and no more, however the calls of other keys and windows come in between.\<close>

theorem limit_per_window:
  assumes "sorted (map (\<lambda>c. snd c div windowMs) calls)"
  shows "length (allowed_of limit windowMs key bucket calls) = min (nat limit) (length (calls_of windowMs key bucket calls))"
  using assms
proof (induction calls rule: rev_induct)
  case Nil
  show ?case by (simp add: allowed_of_def calls_of_def)
next
  case (snoc c calls)
  obtain k now where c: "c = (k, now)" by (cases c)
  have IH: "length (allowed_of limit windowMs key bucket calls) = min (nat limit) (length (calls_of windowMs key bucket calls))"
    by (rule snoc.IH) (use snoc.prems in \<open>auto simp: sorted_append\<close>)
  let ?s = "buckets_after limit windowMs calls"
  obtain t ok where t: "allow limit windowMs k now ?s = (t, ok)" by fastforce
  have "map_get ?s (compound k (now div windowMs)) = count_entry (length (calls_of windowMs k (now div windowMs) calls))"
    by (rule entries_count) (use snoc.prems c in \<open>auto simp: sorted_append\<close>)
  then have ok: "ok \<longleftrightarrow> int (length (calls_of windowMs k (now div windowMs) calls)) < limit" by (rule allow_entry(1) [OF t])
  have "allowed_of limit windowMs key bucket (calls @ [c]) = allowed_of limit windowMs key bucket calls
      @ (if ok \<and> k = key \<and> now div windowMs = bucket then [c] else [])"
    using t c by (simp add: allowed_of_def verdicts_snoc calls_of_def buckets_after_def case_prod_beta)
  then show ?case using IH ok c by (auto simp: calls_of_def min_def)
qed

lemma limit_per_window_witness:
  "length (allowed_of 1 60 ''a'' 0 [(''a'', 1), (''b'', 2), (''a'', 3), (''a'', 70)]) = 1"
  using limit_per_window [of 60 "[(''a'', 1), (''b'', 2), (''a'', 3), (''a'', 70)]" 1 "''a''" 0] by (simp add: calls_of_def)

end
