(* ===== verification/Spec2Isabelle.thy ===== *)
theory Spec2Isabelle
  imports Merkle Agent_Meter Jobs Observing Payment_Ledger Archive Selfserve Hypercore_Worker Persisted_Records Rate_Limiter
begin

text \<open>
  A verification development for PriorSeal: a service that accepts signed authorizations for on-chain actions
  before they happen, observes the transactions that carry them out, and issues receipts that anybody can check.
  The code modelled is the JavaScript under \<^verbatim>\<open>src/\<close>; the names of the definitions are the ones of the code.

  Data.  \<^theory_text>\<open>Js_Prelude\<close> has the values of the language (\<^verbatim>\<open>jsval\<close>: undefined, null, booleans, integers, other
  numbers, strings, arrays, objects as lists of properties in order), results that are a value or an error, and the
  operations on them; \<^theory_text>\<open>Js_Text\<close> the conversions to text and numbers and the patterns the code tests;
  \<^theory_text>\<open>Js_Effects\<close> actions that read and change a store and may throw, keeping what was changed before;
  \<^theory_text>\<open>Atomic_Store\<close> JavaScript's Map and the contracts the stores share, as locales.  Every function of the code that may
  throw returns \<^verbatim>\<open>Inl\<close> of its error.

  Domain.
  \<^item> \<^theory_text>\<open>Json\<close>: safe-json, canonical-json, hashing.  Canonical texts identify values up to the order of properties.
  \<^item> \<^theory_text>\<open>Values\<close>, \<^theory_text>\<open>Hyperliquid\<close>, \<^theory_text>\<open>Solana\<close>, \<^theory_text>\<open>Intent\<close>: the normalisers and the three kinds of intents; ranges,
    idempotence, exact decimal comparison, unique base58 texts.
  \<^item> \<^theory_text>\<open>Policy\<close>, \<^theory_text>\<open>Binding\<close>, \<^theory_text>\<open>Temporal\<close>: exactly which intents a policy admits and which executions are bound to an
    intent, outcome and compliance, evidence of finality.
  \<^item> \<^theory_text>\<open>Merkle\<close>, \<^theory_text>\<open>Transparency\<close>: the log of authorizations as a Merkle tree, proofs of inclusion, checkpoints.
  \<^item> \<^theory_text>\<open>Signing\<close>, \<^theory_text>\<open>Receipt\<close>, \<^theory_text>\<open>Witness\<close>, \<^theory_text>\<open>Rfc3161\<close>, \<^theory_text>\<open>Authorization\<close>: signed statements, receipts, quorums of
    witnesses, time stamps, authorizations and the receipts about them.
  \<^item> \<^theory_text>\<open>Payment_Ledger\<close>: events of x402 payments, their ledger in the store, signed payment statements.

  Payments.  \<^theory_text>\<open>Hypercore_Protocol\<close> (hypercore-x402-protocol: payloads, requirements, verification of a signed transfer),
  \<^theory_text>\<open>Hypercore_Coordinator\<close> (the coordinator object: quotes, verification and settlement as the transactions of its storage,
  which interleave; a payment is submitted once whatever the order) and \<^theory_text>\<open>Hypercore_Worker\<close> (the service in front of it:
  configuration, merchant signatures, routes).

  State.  Each part of the store (memory-store) is a record: \<^theory_text>\<open>Meter\<close> the metered accounts, \<^theory_text>\<open>Auth_Store\<close> the authorizations
  with their log, receipts and idempotency records, \<^theory_text>\<open>Jobs\<close> the queue of observations, \<^theory_text>\<open>Archive\<close> the evidence archive,
  \<^theory_text>\<open>Payment_Ledger\<close> the ledger; \<^theory_text>\<open>Persisted_Records\<close> has the checks of what the SQL stores read back, \<^theory_text>\<open>Rate_Limiter\<close> the
  counters of the HTTP interface.  An operation takes the record and returns the new one with its reply; it is atomic, as
  the operations of the store are (they do not await).  A history is a list of operations; what holds in every history
  is an invariant, shown once for the locale of the store's contract and interpreted for each store.

  Application.  \<^theory_text>\<open>Idempotency\<close>: replay of recorded replies.  \<^theory_text>\<open>Issuing\<close>: create-intent, authorize-intent.  \<^theory_text>\<open>Observing\<close>:
  observe-execution.  \<^theory_text>\<open>Jobs\<close>: the worker that observes again and again.  \<^theory_text>\<open>Agent_Meter\<close>, \<^theory_text>\<open>Selfserve\<close>: credits of agents.
  A handler is the composition the code has, with its early returns and throws; other requests may be handled before
  and after it.  The statements about histories cover every state another request can leave.

  Parameters, for what is not under \<^verbatim>\<open>src/\<close>: SHA-256 (\<^verbatim>\<open>sha\<close>; where a collision would matter the statement says so),
  Ed25519 (\<^verbatim>\<open>ed25519\<close>), signatures of accounts (\<^verbatim>\<open>signers\<close>), ASN.1 and certificates (\<^verbatim>\<open>pki\<close>), HMAC and recovery of signers,
  JSON and URL parsing, random bytes, the RPC endpoints, observers, time-stamp and witness providers.  Clocks are
  arguments.  Witnesses instantiate the parameters with concrete functions.

  Recursion.  Tree walks are bounded by the sizes they halve (for logs of up to \<^verbatim>\<open>2^47\<close> entries, where the code's logarithm on
  doubles is the exact one; see \<^theory_text>\<open>Merkle\<close>); the retries of a job by its attempts; the pages of the
  archive by the entries that are left.  No definition uses fuel.

  Not modelled: the HTTP server, its static assets, the MCP interface and the bootstrap code (input and output around the
  handlers above); the SQL stores (statements of a database); the RPC clients and chain observers, the facilitator clients and the EVM
  payment scheme (calls of viem and of remote services); the generated type declarations, the SDK, the web pages,
  scripts, tests and the vendored code of the examples.  Rounding of numbers beyond the safe integers is
  outside the model of numbers, as are characters outside the 8-bit range; instances of classes are not among the values, and
  documents are values where the code holds references to them.
\<close>

end
